(* ===== verification/Prelude.thy ===== *)
theory Prelude
  imports Main "HOL-Library.Word" "HOL-Library.Multiset"
begin

text \<open>
  The shared vocabulary of the development: machine integers, the \<open>Result\<close> type of
  \<open>include/pathobs/error.hpp\<close>, and the parts of the C++ standard library the sources use
  (\<open>std::sort\<close>, \<open>std::unique\<close>, \<open>std::lower_bound\<close>, \<open>std::map\<close>) with the laws their users rely
  on. The laws of \<open>std::sort\<close> and \<open>std::map\<close> are locales; every comparator and key type of the
  model interprets them in the theory that declares it.
\<close>

section \<open>Collections of facts\<close>

named_theorems result_simps \<open>evaluation of the Result combinators\<close>
named_theorems ident_simps \<open>validity and order of identities\<close>
named_theorems enum_simps \<open>numeric values of the enumerations\<close>
named_theorems codec_simps \<open>reader after writer\<close>
named_theorems prefix_simps \<open>equality of canonical encodings\<close>

section \<open>Machine integers\<close>

type_synonym byte = "8 word"
type_synonym u16 = "16 word"
type_synonym u32 = "32 word"
type_synonym u64 = "64 word"

text \<open>\<open>std::int64_t\<close> is a 64-bit word read in two's complement by \<^const>\<open>sint\<close>.\<close>

type_synonym i64 = "64 word"

lemma sint_of_int_eq:
  assumes "- (2 ^ (LENGTH('w) - 1)) \<le> x" and "x < 2 ^ (LENGTH('w) - 1)"
  shows "sint (word_of_int x :: 'w::len word) = x"
  using assms by (simp add: sint_sbintrunc' signed_take_bit_int_eq_self)

lemma sint_bounds:
  "- (2 ^ (LENGTH('w) - 1)) \<le> sint a" "sint a < 2 ^ (LENGTH('w) - 1)" for a :: "'w::len word"
  using sint_greater_eq[of a] sint_less[of a] by auto

text \<open>Signed addition and subtraction are exact when the result fits.\<close>

lemma sint_sub_eq:
  fixes a b :: "'w::len word"
  assumes "- (2 ^ (LENGTH('w) - 1)) \<le> sint a - sint b" and "sint a - sint b < 2 ^ (LENGTH('w) - 1)"
  shows "sint (a - b) = sint a - sint b"
  using sint_of_int_eq[where 'w='w, OF assms] by simp

lemma sint_add_eq:
  fixes a b :: "'w::len word"
  assumes "- (2 ^ (LENGTH('w) - 1)) \<le> sint a + sint b" and "sint a + sint b < 2 ^ (LENGTH('w) - 1)"
  shows "sint (a + b) = sint a + sint b"
  using sint_of_int_eq[where 'w='w, OF assms] by simp

lemma sint_mult_eq:
  fixes a b :: "'w::len word"
  assumes "- (2 ^ (LENGTH('w) - 1)) \<le> sint a * sint b" and "sint a * sint b < 2 ^ (LENGTH('w) - 1)"
  shows "sint (a * b) = sint a * sint b"
  using sint_of_int_eq[where 'w='w, OF assms] by simp

lemma sint_minus_eq:
  fixes a :: "'w::len word"
  assumes "sint a \<noteq> - (2 ^ (LENGTH('w) - 1))"
  shows "sint (- a) = - sint a"
proof -
  have "- (2 ^ (LENGTH('w) - 1)) \<le> - sint a" "- sint a < 2 ^ (LENGTH('w) - 1)"
    using assms sint_bounds[of a] by linarith+
  from sint_of_int_eq[where 'w='w, OF this] show ?thesis by simp
qed

section \<open>Errors and results (error.hpp)\<close>

datatype ErrorCode =
    ErrNone | InvalidArgument | OutOfRange | CapacityExceeded | NotSupported | Internal
  | InvalidIdentity | UnknownIdentity | DuplicateIdentity
  | InvalidFormat | TruncatedInput | IntegrityFailure | UnsupportedVersion
  | UnknownGeneration | FencedEvidence | InsufficientEvidence
  | IoFailure | CorruptStore | ReadOnlyStore
  | TransportFailure | ProtocolViolation | ConnectionClosed
  | InvalidState | Cancelled | ShuttingDown

text \<open>
  \<open>Error\<close> carries its code and its static message. The third member, \<open>detail\<close>, is dynamic
  text for the operator (an identity or a count rendered in decimal) and is not modelled.
\<close>

datatype Error = Error (error_code: ErrorCode) (error_message: string)

type_synonym 'a Result = "Error + 'a"
type_synonym Status = "unit Result"

abbreviation ok :: Status where
  "ok \<equiv> Inr ()"

definition has_value :: "'a Result \<Rightarrow> bool" where
  "has_value r = (case r of Inl _ \<Rightarrow> False | Inr _ \<Rightarrow> True)"

definition value_or :: "'a Result \<Rightarrow> 'a \<Rightarrow> 'a" where
  "value_or r fallback = (case r of Inl _ \<Rightarrow> fallback | Inr v \<Rightarrow> v)"

text \<open>\<open>PATHOBS_TRY\<close>: the enclosing function returns the same error at once.\<close>

definition try_bind :: "'a Result \<Rightarrow> ('a \<Rightarrow> 'b Result) \<Rightarrow> 'b Result" where
  "try_bind r f = (case r of Inl e \<Rightarrow> Inl e | Inr v \<Rightarrow> f v)"

lemma has_value_simps [simp, result_simps]:
  "has_value (Inr v)" "\<not> has_value (Inl e)"
  by (simp_all add: has_value_def)

lemma try_bind_simps [simp, result_simps]:
  "try_bind (Inr v) f = f v" "try_bind (Inl e) f = Inl e"
  by (simp_all add: try_bind_def)

lemma try_bind_eq_Inr: "try_bind r f = Inr y \<longleftrightarrow> (\<exists>v. r = Inr v \<and> f v = Inr y)"
  by (cases r) auto

lemma has_value_iff: "has_value r \<longleftrightarrow> (\<exists>v. r = Inr v)"
  by (cases r) auto

text \<open>A guard that returns an error early.\<close>

definition guard_err :: "bool \<Rightarrow> ErrorCode \<Rightarrow> string \<Rightarrow> Status" where
  "guard_err bad c m = (if bad then Inl (Error c m) else ok)"

text \<open>A run of checks in source order: the first failure wins.\<close>

fun first_error :: "Status list \<Rightarrow> Status" where
  "first_error [] = ok"
| "first_error (s # ss) = (case s of Inl e \<Rightarrow> Inl e | Inr _ \<Rightarrow> first_error ss)"

lemma guard_err_simps [simp]:
  "guard_err bad c m = Inr u \<longleftrightarrow> \<not> bad" "guard_err bad c m = Inl e \<longleftrightarrow> bad \<and> e = Error c m"
  by (auto simp: guard_err_def)

lemma first_error_Inr: "first_error ss = Inr u \<longleftrightarrow> (\<forall>s\<in>set ss. \<exists>v. s = Inr v)"
  by (induction ss) (auto split: sum.splits)

lemma first_error_append: "first_error (xs @ ys) = try_bind (first_error xs) (\<lambda>_. first_error ys)"
  by (induction xs) (auto split: sum.splits)

lemma first_error_Inl: "first_error ss = Inl e \<Longrightarrow> Inl e \<in> set ss"
  by (induction ss) (auto split: sum.splits)

section \<open>Enumerations and their text\<close>

text \<open>
  Every enumeration of the sources has a \<open>to_string\<close> and a \<open>parse_\<close> function that compares the
  text with the names in turn; \<open>parse_enum\<close> is that chain over the table of names.
\<close>

definition parse_enum :: "(string \<times> 'a) list \<Rightarrow> string \<Rightarrow> string \<Rightarrow> 'a Result" where
  "parse_enum names msg txt =
     (case map_of names txt of None \<Rightarrow> Inl (Error InvalidFormat msg) | Some x \<Rightarrow> Inr x)"

lemma parse_enum_sound:
  assumes "list_all (\<lambda>(t, x). to_str x = t) names"
  shows "parse_enum names msg t = Inr x \<Longrightarrow> to_str x = t"
  using assms by (auto simp: parse_enum_def list_all_iff dest!: map_of_SomeD split: option.splits)

locale text_enum =
  fixes to_str :: "'a \<Rightarrow> string" and parse :: "string \<Rightarrow> 'a Result" and code :: "'a \<Rightarrow> byte"
  assumes parse_to_str: "parse (to_str x) = Inr x"
    and parse_sound: "parse t = Inr x \<Longrightarrow> to_str x = t"
    and code_inj: "code x = code y \<Longrightarrow> x = y"
begin

lemma parse_iff: "parse t = Inr x \<longleftrightarrow> t = to_str x"
  using parse_to_str parse_sound by blast

lemma to_str_inj: "to_str x = to_str y \<longleftrightarrow> x = y"
  using parse_to_str by (metis sum.inject(2))

lemma code_eq: "code x = code y \<longleftrightarrow> x = y"
  using code_inj by blast

end

lemma text_enum_table:
  assumes "parse = parse_enum names msg" and "list_all (\<lambda>(t, x). to_str x = t) names"
    and "\<And>x. map_of names (to_str x) = Some x" and "\<And>x y. code x = code y \<Longrightarrow> x = y"
  shows "text_enum to_str parse code"
proof
  show "parse (to_str x) = Inr x" for x by (simp add: assms(1,3) parse_enum_def)
  show "parse t = Inr x \<Longrightarrow> to_str x = t" for t x
    using parse_enum_sound[OF assms(2)] by (simp only: assms(1))
qed (rule assms(4))

section \<open>Sorting: std::sort with a comparator\<close>

text \<open>
  \<open>std::sort\<close> promises a permutation in which no element is less than one before it, for a
  comparator that is a strict weak order. The model is a stable insertion sort; the locale
  below shows that the choice is immaterial wherever equivalent elements are equal.
\<close>

fun insort_by :: "('a \<Rightarrow> 'a \<Rightarrow> bool) \<Rightarrow> 'a \<Rightarrow> 'a list \<Rightarrow> 'a list" where
  "insort_by lt x [] = [x]"
| "insort_by lt x (y # ys) = (if lt y x then y # insort_by lt x ys else x # y # ys)"

definition std_sort :: "('a \<Rightarrow> 'a \<Rightarrow> bool) \<Rightarrow> 'a list \<Rightarrow> 'a list" where
  "std_sort lt xs = foldr (insort_by lt) xs []"

definition sorted_by :: "('a \<Rightarrow> 'a \<Rightarrow> bool) \<Rightarrow> 'a list \<Rightarrow> bool" where
  "sorted_by lt xs = sorted_wrt (\<lambda>a b. \<not> lt b a) xs"

lemma mset_insort_by [simp]: "mset (insort_by lt x xs) = add_mset x (mset xs)"
  by (induction xs) auto

lemma set_insort_by [simp]: "set (insort_by lt x xs) = insert x (set xs)"
  by (induction xs) auto

lemma mset_std_sort [simp]: "mset (std_sort lt xs) = mset xs"
  by (induction xs) (simp_all add: std_sort_def)

lemma set_std_sort [simp]: "set (std_sort lt xs) = set xs"
  by (metis mset_std_sort set_mset_mset)

lemma length_std_sort [simp]: "length (std_sort lt xs) = length xs"
  by (metis mset_std_sort size_mset)

lemma std_sort_Nil [simp]: "std_sort lt [] = []"
  by (simp add: std_sort_def)

lemma std_sort_Cons: "std_sort lt (x # xs) = insort_by lt x (std_sort lt xs)"
  by (simp add: std_sort_def)

locale comparator =
  fixes lt :: "'a \<Rightarrow> 'a \<Rightarrow> bool"
  assumes lt_irrefl: "\<not> lt x x"
    and lt_trans: "lt x y \<Longrightarrow> lt y z \<Longrightarrow> lt x z"
    and lt_neg_trans: "\<not> lt x y \<Longrightarrow> \<not> lt y z \<Longrightarrow> \<not> lt x z"
begin

lemma lt_asym: "lt x y \<Longrightarrow> \<not> lt y x"
  using lt_irrefl lt_trans by blast

lemma sorted_insort_by: "sorted_by lt xs \<Longrightarrow> sorted_by lt (insort_by lt x xs)"
proof (induction xs)
  case (Cons y ys)
  then show ?case
    using lt_neg_trans[of _ y x] by (auto simp: sorted_by_def dest: lt_asym)
qed (simp add: sorted_by_def)

lemma sorted_std_sort: "sorted_by lt (std_sort lt xs)"
  by (induction xs) (auto simp: std_sort_Cons sorted_by_def[of lt "[]"] intro: sorted_insort_by)

text \<open>Sorting a sorted sequence changes nothing.\<close>

lemma insort_by_head: "\<forall>y\<in>set ys. \<not> lt y x \<Longrightarrow> insort_by lt x ys = x # ys"
  by (cases ys) auto

lemma std_sort_sorted: "sorted_by lt xs \<Longrightarrow> std_sort lt xs = xs"
  by (induction xs) (auto simp: std_sort_Cons sorted_by_def insort_by_head)

text \<open>Two sorted permutations are equal when the comparator separates their elements.\<close>

lemma sorted_perm_unique:
  assumes "sorted_by lt xs" and "sorted_by lt ys" and "mset xs = mset ys"
    and sep: "\<And>x y. x \<in> set xs \<Longrightarrow> y \<in> set xs \<Longrightarrow> \<not> lt x y \<Longrightarrow> \<not> lt y x \<Longrightarrow> x = y"
  shows "xs = ys"
  using assms
proof (induction xs arbitrary: ys)
  case Nil
  then show ?case by simp
next
  case (Cons x xs)
  then obtain y ys' where ys: "ys = y # ys'" by (cases ys) auto
  have sets: "set (x # xs) = set ys" using Cons.prems(3) by (metis set_mset_mset)
  then have "y \<in> set (x # xs)" and "x \<in> set ys" using ys by auto
  then have "\<not> lt y x" and "\<not> lt x y"
    using Cons.prems(1,2) ys lt_irrefl by (auto simp: sorted_by_def)
  then have "x = y" using Cons.prems(4) \<open>y \<in> set (x # xs)\<close> by auto
  moreover have "xs = ys'"
  proof (rule Cons.IH)
    show "sorted_by lt xs" using Cons.prems(1) by (simp add: sorted_by_def)
    show "sorted_by lt ys'" using Cons.prems(2) ys by (simp add: sorted_by_def)
    show "mset xs = mset ys'" using Cons.prems(3) ys \<open>x = y\<close> by simp
  qed (use Cons.prems(4) in auto)
  ultimately show ?case using ys by simp
qed

lemma std_sort_perm:
  assumes "mset xs = mset ys"
    and "\<And>x y. x \<in> set xs \<Longrightarrow> y \<in> set xs \<Longrightarrow> \<not> lt x y \<Longrightarrow> \<not> lt y x \<Longrightarrow> x = y"
  shows "std_sort lt xs = std_sort lt ys"
  by (rule sorted_perm_unique) (use assms in \<open>auto simp: sorted_std_sort\<close>)

end

text \<open>Every comparison of keys is such a comparator.\<close>

interpretation key_order: comparator "\<lambda>a b. key a < (key b :: 'k::linorder)" for key
  by unfold_locales auto

abbreviation sort_by_key :: "('a \<Rightarrow> 'k::linorder) \<Rightarrow> 'a list \<Rightarrow> 'a list" where
  "sort_by_key key \<equiv> std_sort (\<lambda>a b. key a < key b)"

lemma sorted_by_key: "sorted_by (\<lambda>a b. key a < key b) xs \<longleftrightarrow> sorted (map key xs)"
  for key :: "'a \<Rightarrow> 'k::linorder"
  by (simp add: sorted_by_def sorted_wrt_map not_less)

lemma sorted_sort_by_key [simp]: "sorted (map key (sort_by_key key xs))"
  for key :: "'a \<Rightarrow> 'k::linorder"
  using key_order.sorted_std_sort[of key xs] by (simp add: sorted_by_key)

lemma sort_by_key_sorted: "sorted (map key xs) \<Longrightarrow> sort_by_key key xs = xs"
  for key :: "'a \<Rightarrow> 'k::linorder"
  by (simp add: key_order.std_sort_sorted sorted_by_key)

text \<open>Identities decide the order: permutations with distinct keys sort to the same sequence.\<close>

lemma sort_by_key_perm:
  fixes key :: "'a \<Rightarrow> 'k::linorder"
  assumes "mset xs = mset ys" and "distinct (map key xs)"
  shows "sort_by_key key xs = sort_by_key key ys"
proof (rule key_order.std_sort_perm[OF assms(1)])
  fix x y
  assume "x \<in> set xs" "y \<in> set xs" "\<not> key x < key y" "\<not> key y < key x"
  then show "x = y" using assms(2) by (auto simp: distinct_map inj_on_def)
qed

lemma sort_by_key_perm_sorted:
  fixes key :: "'a \<Rightarrow> 'k::linorder"
  assumes "mset xs = mset ys" and "distinct (map key (sort_by_key key ys))"
  shows "sort_by_key key xs = sort_by_key key ys"
proof (rule sort_by_key_perm[OF assms(1)])
  have "mset (map key xs) = mset (map key (sort_by_key key ys))" using assms(1) by simp
  then show "distinct (map key xs)" using assms(2) by (rule mset_eq_imp_distinct_iff[THEN iffD2])
qed

text \<open>
  The validation loops run over indices and compare each element with its predecessor to find
  duplicates in a sorted range.
\<close>

definition repeats :: "('a \<Rightarrow> 'k) \<Rightarrow> 'a list \<Rightarrow> nat \<Rightarrow> bool" where
  "repeats key xs i \<longleftrightarrow> 0 < i \<and> key (xs ! (i - 1)) = key (xs ! i)"

definition indexed_checks :: "(nat \<Rightarrow> Status list) \<Rightarrow> nat \<Rightarrow> Status" where
  "indexed_checks checks n = first_error (concat (map checks [0..<n]))"

lemma indexed_checks_Inr:
  "indexed_checks checks n = Inr u \<longleftrightarrow> (\<forall>i<n. \<forall>s\<in>set (checks i). \<exists>v. s = Inr v)"
  by (auto simp: indexed_checks_def first_error_Inr)

lemma distinct_if_no_repeats:
  fixes key :: "'a \<Rightarrow> 'k::linorder"
  assumes "sorted (map key xs)" and "\<And>i. i < length xs \<Longrightarrow> \<not> repeats key xs i"
  shows "distinct (map key xs)"
proof -
  have "sorted_wrt (<) (map key xs)"
    unfolding sorted_wrt_iff_nth_Suc_transp[OF transp_on_less]
  proof (intro allI impI)
    fix i assume i: "Suc i < length (map key xs)"
    then have "key (xs ! i) \<le> key (xs ! Suc i)"
      using assms(1) by (simp add: sorted_iff_nth_Suc)
    moreover have "key (xs ! i) \<noteq> key (xs ! Suc i)"
      using assms(2)[of "Suc i"] i by (simp add: repeats_def)
    ultimately show "map key xs ! i < map key xs ! Suc i" using i by simp
  qed
  then show ?thesis by (simp add: strict_sorted_iff)
qed

lemma no_repeats_if_distinct:
  assumes "distinct (map key xs)" and "i < length xs"
  shows "\<not> repeats key xs i"
  using assms nth_eq_iff_index_eq[OF assms(1), of "i - 1" i] by (auto simp: repeats_def)

section \<open>Searching a sorted range: std::lower_bound\<close>

text \<open>The first element that is not below the bound, or the end of the range.\<close>

definition lower_bound :: "('a \<Rightarrow> bool) \<Rightarrow> 'a list \<Rightarrow> 'a option" where
  "lower_bound below xs = (case dropWhile below xs of [] \<Rightarrow> None | x # _ \<Rightarrow> Some x)"

text \<open>The idiom \<open>it != end && it->id == k ? &*it : nullptr\<close>.\<close>

definition find_by_key :: "('a \<Rightarrow> 'k::linorder) \<Rightarrow> 'k \<Rightarrow> 'a list \<Rightarrow> 'a option" where
  "find_by_key key k xs =
     (case lower_bound (\<lambda>r. key r < k) xs of
        None \<Rightarrow> None
      | Some r \<Rightarrow> if key r = k then Some r else None)"

lemma find_by_key_sound: "find_by_key key k xs = Some r \<Longrightarrow> r \<in> set xs \<and> key r = k"
  unfolding find_by_key_def lower_bound_def
  by (auto split: list.splits if_splits option.splits)
     (metis list.set_intros(1) set_dropWhileD)

lemma find_by_key_Nil [simp]: "find_by_key key k [] = None"
  by (simp add: find_by_key_def lower_bound_def)

lemma find_by_key_Cons:
  "find_by_key key k (x # xs) =
     (if key x < k then find_by_key key k xs else if key x = k then Some x else None)"
  by (simp add: find_by_key_def lower_bound_def)

text \<open>On a range sorted by the key the search is a search through all elements.\<close>

lemma find_by_key_eq_find:
  "sorted (map key xs) \<Longrightarrow> find_by_key key k xs = List.find (\<lambda>r. key r = k) xs"
proof (induction xs)
  case (Cons x xs)
  have none: "List.find (\<lambda>r. key r = k) xs = None" if "k < key x"
    using Cons.prems that by (fastforce simp: find_None_iff)
  show ?case using Cons none by (auto simp: find_by_key_Cons neq_iff)
qed simp

lemma find_by_key_complete:
  assumes "sorted (map key xs)" and "distinct (map key xs)" and "r \<in> set xs"
  shows "find_by_key key (key r) xs = Some r"
proof -
  obtain r' where r': "List.find (\<lambda>x. key x = key r) xs = Some r'"
    using assms(3) by (cases "List.find (\<lambda>x. key x = key r) xs") (auto simp: find_None_iff)
  then have "r' \<in> set xs" "key r' = key r"
    by (auto simp: find_Some_iff)
  then have "r' = r" using assms(2,3) by (metis distinct_map inj_onD)
  then show ?thesis using r' assms(1) by (simp add: find_by_key_eq_find)
qed

lemma find_by_key_None:
  assumes "sorted (map key xs)"
  shows "find_by_key key k xs = None \<longleftrightarrow> k \<notin> key ` set xs"
  using assms by (auto simp: find_by_key_eq_find find_None_iff)

section \<open>Ordered maps: std::map\<close>

text \<open>
  An association list in ascending key order, which is the order \<open>std::map\<close> iterates in. The
  locale is the contract the registries rely on.
\<close>

type_synonym ('k, 'v) omap = "('k \<times> 'v) list"

definition map_inv :: "('k::linorder, 'v) omap \<Rightarrow> bool" where
  "map_inv m = sorted_wrt (<) (map fst m)"

definition map_find :: "('k, 'v) omap \<Rightarrow> 'k \<Rightarrow> 'v option" where
  "map_find m k = map_of m k"

text \<open>\<open>m[k] = v\<close>\<close>

fun map_put :: "'k::linorder \<Rightarrow> 'v \<Rightarrow> ('k, 'v) omap \<Rightarrow> ('k, 'v) omap" where
  "map_put k v [] = [(k, v)]"
| "map_put k v ((k', v') # m) =
     (if k < k' then (k, v) # (k', v') # m
      else if k = k' then (k, v) # m
      else (k', v') # map_put k v m)"

text \<open>\<open>m.emplace(k, v)\<close> keeps an existing entry.\<close>

definition map_emplace :: "'k::linorder \<Rightarrow> 'v \<Rightarrow> ('k, 'v) omap \<Rightarrow> ('k, 'v) omap" where
  "map_emplace k v m = (case map_find m k of None \<Rightarrow> map_put k v m | Some _ \<Rightarrow> m)"

definition map_erase :: "'k \<Rightarrow> ('k, 'v) omap \<Rightarrow> ('k, 'v) omap" where
  "map_erase k m = filter (\<lambda>p. fst p \<noteq> k) m"

text \<open>A loop that updates the value of every entry in place.\<close>

definition map_each :: "('v \<Rightarrow> 'v) \<Rightarrow> ('k, 'v) omap \<Rightarrow> ('k, 'v) omap" where
  "map_each f m = map (apsnd f) m"

locale ordered_map =
  fixes find :: "'m \<Rightarrow> 'k::linorder \<Rightarrow> 'v option"
    and put :: "'k \<Rightarrow> 'v \<Rightarrow> 'm \<Rightarrow> 'm"
    and erase :: "'k \<Rightarrow> 'm \<Rightarrow> 'm"
    and entries :: "'m \<Rightarrow> ('k \<times> 'v) list"
    and inv :: "'m \<Rightarrow> bool"
  assumes find_put: "find (put k v m) = (find m)(k \<mapsto> v)"
    and find_erase: "find (erase k m) = (find m)(k := None)"
    and find_entries: "inv m \<Longrightarrow> find m k = Some v \<longleftrightarrow> (k, v) \<in> set (entries m)"
    and entries_sorted: "inv m \<Longrightarrow> sorted_wrt (<) (map fst (entries m))"
    and inv_put: "inv m \<Longrightarrow> inv (put k v m)"
    and inv_erase: "inv m \<Longrightarrow> inv (erase k m)"
    and size_put: "inv m \<Longrightarrow>
      length (entries (put k v m)) = (if find m k = None then Suc (length (entries m)) else length (entries m))"
    and size_erase: "inv m \<Longrightarrow> find m k \<noteq> None \<Longrightarrow>
      Suc (length (entries (erase k m))) = length (entries m)"
begin

lemma entries_distinct: "inv m \<Longrightarrow> distinct (map fst (entries m))"
  using entries_sorted strict_sorted_iff by blast

lemma find_None_entries: "inv m \<Longrightarrow> find m k = None \<longleftrightarrow> k \<notin> fst ` set (entries m)"
  by (metis (no_types, opaque_lifting) find_entries fst_conv imageE image_eqI not_None_eq prod.collapse)

text \<open>A bounded insert keeps the bound: the shape of every capacity check of the registries.\<close>

lemma size_put_bounded:
  assumes "inv m" and "length (entries m) \<le> n" and "find m k \<noteq> None \<or> length (entries m) < n"
  shows "length (entries (put k v m)) \<le> n"
  using assms by (auto simp: size_put)

text \<open>Evicting one entry before inserting another keeps the bound too.\<close>

lemma size_erase_put_bounded:
  assumes "inv m" and "length (entries m) \<le> n" and "find m k \<noteq> None"
  shows "length (entries (put k' v (erase k m))) \<le> n"
  using assms size_erase[OF assms(1,3)] inv_erase[OF assms(1), of k] by (simp add: size_put)

end

lemma map_put_keys: "set (map fst (map_put k v m)) = insert k (set (map fst m))"
  by (induction k v m rule: map_put.induct) (auto simp del: set_map)

lemma map_find_put: "map_find (map_put k v m) = (map_find m)(k \<mapsto> v)"
  by (induction m) (auto simp: map_find_def fun_eq_iff)

lemma map_find_erase: "map_find (map_erase k m) = (map_find m)(k := None)"
  by (induction m) (auto simp: map_find_def map_erase_def fun_eq_iff)

lemma map_inv_put: "map_inv m \<Longrightarrow> map_inv (map_put k v m)"
proof (induction m)
  case (Cons p m)
  then show ?case
    by (cases p) (auto simp: map_inv_def map_put_keys simp del: set_map)
qed (simp add: map_inv_def)

lemma map_inv_erase: "map_inv m \<Longrightarrow> map_inv (map_erase k m)"
  by (induction m) (auto simp: map_inv_def map_erase_def)

lemma map_inv_distinct: "map_inv m \<Longrightarrow> distinct (map fst m)"
  by (simp add: map_inv_def strict_sorted_iff)

lemma map_put_length:
  "map_inv m \<Longrightarrow> length (map_put k v m) = (if map_find m k = None then Suc (length m) else length m)"
proof (induction m)
  case (Cons p m)
  have "map_of m k = None" if "k < fst p"
    using Cons.prems that by (force simp: map_inv_def map_of_eq_None_iff)
  with Cons show ?case by (cases p) (auto simp: map_inv_def map_find_def)
qed (simp add: map_find_def)

lemma map_erase_length:
  "map_inv m \<Longrightarrow> map_find m k \<noteq> None \<Longrightarrow> Suc (length (map_erase k m)) = length m"
proof (induction m)
  case (Cons p m)
  have "map_erase k m = m" if "fst p = k"
    using Cons.prems(1) that by (auto simp: map_inv_def map_erase_def filter_id_conv)
  with Cons show ?case by (cases p) (auto simp: map_inv_def map_erase_def map_find_def split: if_splits)
qed (simp add: map_find_def)

interpretation std_map: ordered_map map_find map_put map_erase "\<lambda>m. m" map_inv
proof unfold_locales
  fix m :: "('k::linorder, 'v) omap" and k v
  show "map_inv m \<Longrightarrow> map_find m k = Some v \<longleftrightarrow> (k, v) \<in> set m"
    by (simp add: map_find_def map_inv_distinct)
qed (auto simp: map_find_put map_find_erase map_inv_put map_inv_erase map_put_length
       map_erase_length map_inv_def[symmetric])

lemma map_find_each: "map_find (map_each f m) k = map_option f (map_find m k)"
  by (induction m) (auto simp: map_each_def map_find_def)

lemma map_inv_each: "map_inv (map_each f m) = map_inv m"
  by (simp add: map_inv_def map_each_def comp_def)

lemma map_each_length [simp]: "length (map_each f m) = length m"
  by (simp add: map_each_def)

text \<open>Sorting and removing neighbours that are equal leaves the elements once, in order.\<close>

lemma sorted_std_sort_less: "sorted (std_sort (<) xs)" for xs :: "'a::linorder list"
  using sorted_sort_by_key[of "\<lambda>x. x" xs] by simp

lemma distinct_remdups_adj_sorted: "sorted xs \<Longrightarrow> distinct (remdups_adj xs)"
  for xs :: "'a::linorder list"
  by (induction xs rule: remdups_adj.induct) auto

lemma length_unique_sorted:
  "length (remdups_adj (std_sort (<) xs)) = card (set xs)" for xs :: "'a::linorder list"
proof -
  have "distinct (remdups_adj (std_sort (<) xs))"
    by (rule distinct_remdups_adj_sorted) (rule sorted_std_sort_less)
  then show ?thesis by (metis distinct_card remdups_adj_set set_std_sort)
qed

lemma unique_sorted_singleton:
  "length (remdups_adj (std_sort (<) xs)) = 1 \<Longrightarrow> set xs = {hd (remdups_adj (std_sort (<) xs))}"
  for xs :: "'a::linorder list"
  using remdups_adj_set[of "std_sort (<) xs"]
  by (cases "remdups_adj (std_sort (<) xs)") auto

lemma sorted_unique_set: "remdups_adj (std_sort (<) xs) = sorted_list_of_set (set xs)"
  for xs :: "'k::linorder list"
proof -
  let ?ys = "remdups_adj (std_sort (<) xs)"
  have "sorted ?ys" and "distinct ?ys"
    using sorted_std_sort_less[of xs] distinct_remdups_adj_sorted[of "std_sort (<) xs"] by simp_all
  then have "sorted_list_of_set (set ?ys) = ?ys" by (rule sorted_list_of_set.idem_if_sorted_distinct)
  then show ?thesis by simp
qed

lemma map_inv_Nil [simp]: "map_inv []"
  by (simp add: map_inv_def)

lemma map_inv_emplace: "map_inv m \<Longrightarrow> map_inv (map_emplace k v m)"
  by (auto simp: map_emplace_def map_inv_put split: option.splits)

lemma map_find_Nil [simp]: "map_find [] k = None"
  by (simp add: map_find_def)

lemmas std_map_laws =
  map_find_put map_find_erase map_inv_put map_inv_erase map_put_length map_erase_length
  map_find_each map_inv_each

end
