(* ===== verification/Checked.thy ===== *)
theory Checked
  imports Prelude
begin

text \<open>
  Checked arithmetic (\<open>include/pathobs/checked.hpp\<close>). The templates are modelled at any width:
  the unsigned branch on a word read by \<^const>\<open>unat\<close>, the signed branch on a word read by
  \<^const>\<open>sint\<close>. \<open>checked_cast\<close> converts between two integral types, so it takes a
  description of both and the usual arithmetic conversions are written out.
\<close>

section \<open>Addition, subtraction, multiplication\<close>

definition smax :: "'w::len word" where
  "smax = word_of_int (2 ^ (LENGTH('w) - 1) - 1)"

definition smin :: "'w::len word" where
  "smin = word_of_int (- (2 ^ (LENGTH('w) - 1)))"

lemma sint_smax [simp]: "sint (smax :: 'w::len word) = 2 ^ (LENGTH('w) - 1) - 1"
  unfolding smax_def by (rule sint_of_int_eq) (auto intro: order_trans[of _ 0])

lemma sint_smin [simp]: "sint (smin :: 'w::len word) = - (2 ^ (LENGTH('w) - 1))"
  unfolding smin_def by (rule sint_of_int_eq) auto

definition checked_add_unsigned :: "'w::len word \<Rightarrow> 'w word \<Rightarrow> 'w word Result" where
  "checked_add_unsigned a b =
     (if b > - 1 - a then Inl (Error OutOfRange ''unsigned addition overflow'') else Inr (a + b))"

definition checked_add_signed :: "'w::len word \<Rightarrow> 'w word \<Rightarrow> 'w word Result" where
  "checked_add_signed a b =
     (if 0 < sint b \<and> sint (smax - b) < sint a
      then Inl (Error OutOfRange ''signed addition overflow'')
      else if sint b < 0 \<and> sint a < sint (smin - b)
      then Inl (Error OutOfRange ''signed addition underflow'')
      else Inr (a + b))"

definition checked_sub_unsigned :: "'w::len word \<Rightarrow> 'w word \<Rightarrow> 'w word Result" where
  "checked_sub_unsigned a b =
     (if b > a then Inl (Error OutOfRange ''unsigned subtraction underflow'') else Inr (a - b))"

definition checked_sub_signed :: "'w::len word \<Rightarrow> 'w word \<Rightarrow> 'w word Result" where
  "checked_sub_signed a b =
     (if sint b < 0 \<and> sint (smax + b) < sint a
      then Inl (Error OutOfRange ''signed subtraction overflow'')
      else if 0 < sint b \<and> sint a < sint (smin + b)
      then Inl (Error OutOfRange ''signed subtraction underflow'')
      else Inr (a - b))"

definition checked_mul_unsigned :: "'w::len word \<Rightarrow> 'w word \<Rightarrow> 'w word Result" where
  "checked_mul_unsigned a b =
     (if a = 0 \<or> b = 0 then Inr 0
      else if a > (- 1) div b then Inl (Error OutOfRange ''unsigned multiplication overflow'')
      else Inr (a * b))"

definition checked_mul_signed :: "'w::len word \<Rightarrow> 'w word \<Rightarrow> 'w word Result" where
  "checked_mul_signed a b =
     (if a = 0 \<or> b = 0 then Inr 0
      else if a = smin \<or> b = smin then Inl (Error OutOfRange ''signed multiplication overflow'')
      else let abs_a = (if sint a < 0 then - a else a);
               abs_b = (if sint b < 0 then - b else b)
           in if sint abs_a > sint (smax :: 'w word) div sint abs_b
              then Inl (Error OutOfRange ''signed multiplication overflow'')
              else let magnitude = abs_a * abs_b
                   in Inr (if (sint a < 0) \<noteq> (sint b < 0) then - magnitude else magnitude))"

definition fits_within :: "u64 \<Rightarrow> u64 \<Rightarrow> u64 \<Rightarrow> bool" where
  "fits_within n element_size limit =
     (if element_size \<noteq> 0 \<and> n > limit div element_size then False
      else n * element_size \<le> limit)"

section \<open>checked_cast\<close>

record int_type =
  ty_signed :: bool
  ty_width :: nat

definition ty_max :: "int_type \<Rightarrow> int" where
  "ty_max t = (if ty_signed t then 2 ^ (ty_width t - 1) - 1 else 2 ^ ty_width t - 1)"

definition ty_min :: "int_type \<Rightarrow> int" where
  "ty_min t = (if ty_signed t then - (2 ^ (ty_width t - 1)) else 0)"

text \<open>\<open>static_cast\<close> to an integral type reduces modulo two to its width.\<close>

definition static_cast :: "int_type \<Rightarrow> int \<Rightarrow> int" where
  "static_cast t v =
     (if ty_signed t then (v + 2 ^ (ty_width t - 1)) mod 2 ^ ty_width t - 2 ^ (ty_width t - 1)
      else v mod 2 ^ ty_width t)"

text \<open>
  \<open>std::common_type_t\<close> of two integral types: equal types keep their type; otherwise types
  narrower than \<open>int\<close> are promoted to it, the wider type wins, and at equal width unsigned wins.
\<close>

definition promote :: "int_type \<Rightarrow> int_type" where
  "promote t = (if ty_width t < 32 then \<lparr>ty_signed = True, ty_width = 32\<rparr> else t)"

definition common_type :: "int_type \<Rightarrow> int_type \<Rightarrow> int_type" where
  "common_type s t =
     (if s = t then s
      else let p = promote s; q = promote t
           in if ty_width p < ty_width q then q
              else if ty_width q < ty_width p then p
              else \<lparr>ty_signed = (ty_signed p \<and> ty_signed q), ty_width = ty_width p\<rparr>)"

definition checked_cast :: "int_type \<Rightarrow> int_type \<Rightarrow> int \<Rightarrow> int Result" where
  "checked_cast to from v =
     (if ty_signed from \<and> \<not> ty_signed to \<and> v < 0
      then Inl (Error OutOfRange ''negative value cannot convert to unsigned'')
      else let c = common_type to from; wide = static_cast c v
           in if wide > static_cast c (ty_max to)
              then Inl (Error OutOfRange ''value exceeds destination range'')
              else if ty_signed to \<and> wide < static_cast c (ty_min to)
              then Inl (Error OutOfRange ''value below destination range'')
              else Inr (static_cast to v))"

definition ty_u8 :: int_type where "ty_u8 = \<lparr>ty_signed = False, ty_width = 8\<rparr>"
definition ty_i32 :: int_type where "ty_i32 = \<lparr>ty_signed = True, ty_width = 32\<rparr>"
definition ty_u64 :: int_type where "ty_u64 = \<lparr>ty_signed = False, ty_width = 64\<rparr>"
definition ty_i64 :: int_type where "ty_i64 = \<lparr>ty_signed = True, ty_width = 64\<rparr>"

lemmas ty_simps = ty_u8_def ty_i32_def ty_u64_def ty_i64_def ty_max_def ty_min_def

section \<open>Exactness\<close>

lemma unat_max_word: "unat (- 1 :: 'w::len word) = 2 ^ LENGTH('w) - 1"
  by (simp add: unsigned_minus_1_eq_mask mask_eq_exp_minus_1)

lemma unat_max_minus: "unat (- 1 - a) = 2 ^ LENGTH('w) - 1 - unat a" for a :: "'w::len word"
proof -
  have "a \<le> - 1" by simp
  then show ?thesis by (simp add: unat_sub unat_max_word)
qed

lemma sint_eq_iff: "sint a = sint b \<longleftrightarrow> a = b"
  by (auto intro: signed_word_eqI)

text \<open>
  Unsigned checked addition returns exactly when the mathematical sum fits, and then
  returns that sum; it never wraps.
\<close>

theorem checked_add_unsigned_exact:
  "checked_add_unsigned a b = Inr c \<longleftrightarrow>
     unat a + unat b < 2 ^ LENGTH('w) \<and> unat c = unat a + unat b"
  for a b c :: "'w::len word"
proof -
  have "unat a < 2 ^ LENGTH('w)" by (rule unsigned_less)
  then have eq: "b > - 1 - a \<longleftrightarrow> 2 ^ LENGTH('w) \<le> unat a + unat b"
    unfolding word_less_nat_alt unat_max_minus by linarith
  show ?thesis
    by (auto simp: checked_add_unsigned_def eq not_le unat_word_ariths word_unat_eq_iff)
qed

text \<open>Signed: the guards compute the bound without overflow, so they decide the exact range.\<close>

lemma smax_minus: "0 < sint b \<Longrightarrow> sint (smax - b) = sint (smax :: 'w word) - sint b"
  for b :: "'w::len word"
  by (rule sint_sub_eq) (use sint_bounds[of b] in auto)

lemma smin_minus: "sint b < 0 \<Longrightarrow> sint (smin - b) = sint (smin :: 'w word) - sint b"
  for b :: "'w::len word"
  by (rule sint_sub_eq) (use sint_bounds[of b] in auto)

lemma smax_plus: "sint b < 0 \<Longrightarrow> sint (smax + b) = sint (smax :: 'w word) + sint b"
  for b :: "'w::len word"
  by (rule sint_add_eq) (use sint_bounds[of b] in auto)

lemma smin_plus: "0 < sint b \<Longrightarrow> sint (smin + b) = sint (smin :: 'w word) + sint b"
  for b :: "'w::len word"
  by (rule sint_add_eq) (use sint_bounds[of b] in auto)

lemma add_signed_exact:
  fixes a b c :: "'w::len word"
  shows "checked_add_signed a b = Inr c \<longleftrightarrow>
      - (2 ^ (LENGTH('w) - 1)) \<le> sint a + sint b \<and> sint a + sint b < 2 ^ (LENGTH('w) - 1) \<and>
      sint c = sint a + sint b"
    (is "?add \<longleftrightarrow> ?P \<and> ?Q \<and> ?e")
proof -
  have "?add \<longleftrightarrow> (?P \<and> ?Q) \<and> a + b = c"
    using sint_bounds[of a] sint_bounds[of b]
    by (auto simp: checked_add_signed_def smax_minus smin_minus)
  then show ?thesis by (metis sint_eq_iff sint_add_eq)
qed

lemma sub_signed_exact:
  fixes a b c :: "'w::len word"
  shows "checked_sub_signed a b = Inr c \<longleftrightarrow>
      - (2 ^ (LENGTH('w) - 1)) \<le> sint a - sint b \<and> sint a - sint b < 2 ^ (LENGTH('w) - 1) \<and>
      sint c = sint a - sint b"
    (is "?sub \<longleftrightarrow> ?P \<and> ?Q \<and> ?e")
proof -
  have "?sub \<longleftrightarrow> (?P \<and> ?Q) \<and> a - b = c"
    using sint_bounds[of a] sint_bounds[of b]
    by (auto simp: checked_sub_signed_def smax_plus smin_plus)
  then show ?thesis by (metis sint_eq_iff sint_sub_eq)
qed

text \<open>
  Signed checked addition and subtraction return exactly when the mathematical result
  fits the type, and then return it.
\<close>

theorem checked_signed_exact:
  "(checked_add_signed a b = Inr c \<longleftrightarrow>
      - (2 ^ (LENGTH('w) - 1)) \<le> sint a + sint b \<and> sint a + sint b < 2 ^ (LENGTH('w) - 1) \<and>
      sint c = sint a + sint b) \<and>
   (checked_sub_signed a b = Inr c \<longleftrightarrow>
      - (2 ^ (LENGTH('w) - 1)) \<le> sint a - sint b \<and> sint a - sint b < 2 ^ (LENGTH('w) - 1) \<and>
      sint c = sint a - sint b)"
  for a b c :: "'w::len word"
  by (simp only: add_signed_exact sub_signed_exact)

text \<open>Unsigned multiplication: the division guard is the exact overflow test.\<close>

lemma checked_mul_unsigned_exact:
  "checked_mul_unsigned a b = Inr c \<longleftrightarrow>
     unat a * unat b < 2 ^ LENGTH('w) \<and> unat c = unat a * unat b"
  for a b c :: "'w::len word"
proof (cases "a = 0 \<or> b = 0")
  case True
  then show ?thesis by (auto simp: checked_mul_unsigned_def word_unat_eq_iff)
next
  case False
  then have b: "0 < unat b" by (simp add: unat_gt_0)
  have "a > (- 1) div b \<longleftrightarrow> (2 ^ LENGTH('w) - 1) div unat b < unat a"
    by (simp add: word_less_nat_alt unat_div unat_max_word)
  also have "\<dots> \<longleftrightarrow> 2 ^ LENGTH('w) - 1 < unat a * unat b"
    using b by (metis div_less_iff_less_mult)
  also have "\<dots> \<longleftrightarrow> \<not> unat a * unat b < 2 ^ LENGTH('w)"
    using one_le_power[of "2::nat" "LENGTH('w)"] by linarith
  finally show ?thesis
    using False by (auto simp: checked_mul_unsigned_def unat_word_ariths word_unat_eq_iff)
qed

text \<open>\<open>fits_within\<close> decides the product bound, although the product itself could wrap.\<close>

lemma fits_within_exact: "fits_within n element_size limit \<longleftrightarrow> unat n * unat element_size \<le> unat limit"
proof (cases "element_size = 0")
  case True
  then show ?thesis by (simp add: fits_within_def)
next
  case False
  then have s: "0 < unat element_size" by (simp add: unat_gt_0)
  have guard: "n > limit div element_size \<longleftrightarrow> unat limit < unat n * unat element_size"
    using s by (simp add: word_less_nat_alt unat_div) (metis div_less_iff_less_mult)
  have "unat limit < 2 ^ 64" using unsigned_less[of limit] by simp
  then show ?thesis
    using False by (auto simp: fits_within_def guard word_le_nat_alt unat_word_ariths not_less)
qed

text \<open>
  Converting an unsigned 64-bit value to a signed type of at most 64 bits never succeeds:
  the common type is unsigned, so the lower-bound test compares against the wrapped minimum.
  Every such call reports an error, including those whose value fits.
\<close>

theorem checked_cast_unsigned_to_signed_fails:
  assumes "w \<in> {8, 16, 32, 64}" and "0 \<le> v" and "v < 2 ^ 64"
  shows "\<not> has_value (checked_cast \<lparr>ty_signed = True, ty_width = w\<rparr> ty_u64 v)"
  using assms
  by (auto simp: checked_cast_def common_type_def promote_def static_cast_def ty_simps
      split: if_splits)

theorem checked_cast_unsigned_to_signed_fails_witness:
  "\<not> has_value (checked_cast ty_i32 ty_u64 5)"
  using checked_cast_unsigned_to_signed_fails[of 32 5] by (simp add: ty_i32_def)

text \<open>Between types whose common type is signed the conversion is exact.\<close>

lemma checked_cast_i32_to_u8:
  assumes "ty_min ty_i32 \<le> v" and "v \<le> ty_max ty_i32"
  shows "checked_cast ty_u8 ty_i32 v = Inr r \<longleftrightarrow> 0 \<le> v \<and> v \<le> 255 \<and> r = v"
  using assms
  by (auto simp: checked_cast_def common_type_def promote_def static_cast_def ty_simps)

end
