(* ===== verification/Limits.thy ===== *)
theory Limits
  imports Prelude
begin

text \<open>
  The configured bounds (\<open>include/pathobs/limits.hpp\<close>, \<open>src/limits.cpp\<close>): the record of all
  limits at the widths of the source, the hard ceiling, and the validation every runtime and
  every store applies to its configuration.
\<close>

record Limits =
  max_hops_per_path :: u32
  max_paths_per_generation :: u32
  max_groups_per_generation :: u32
  max_members_per_group :: u32
  max_devices_per_topology :: u32
  max_links_per_topology :: u32
  max_evidence_per_comparison :: u32
  max_evidence_per_ingest_batch :: u32
  max_evidence_payload_bytes :: u64
  max_document_bytes :: u32
  max_json_depth :: u32
  max_json_nodes :: u32
  max_string_bytes :: u32
  worker_threads :: u32
  max_worker_threads :: u32
  max_queue_depth :: u32
  max_transport_connections :: u32
  max_frame_bytes :: u32
  max_connections_per_accept :: u32
  max_history_records :: u32
  max_history_per_group :: u32
  history_window_nanos :: u64
  max_findings :: u32
  max_finding_evidence :: u32
  max_export_records :: u32
  max_store_bytes :: u64
  max_store_records :: u32
  max_store_record_bytes :: u32
  max_store_segments :: u32

definition default_limits :: Limits where
  "default_limits = \<lparr>
     max_hops_per_path = 512,
     max_paths_per_generation = 65536,
     max_groups_per_generation = 65536,
     max_members_per_group = 64,
     max_devices_per_topology = 262144,
     max_links_per_topology = 1048576,
     max_evidence_per_comparison = 4096,
     max_evidence_per_ingest_batch = 8192,
     max_evidence_payload_bytes = 4 * 1024 * 1024,
     max_document_bytes = 64 * 1024 * 1024,
     max_json_depth = 64,
     max_json_nodes = 2000000,
     max_string_bytes = 1024 * 1024,
     worker_threads = 4,
     max_worker_threads = 64,
     max_queue_depth = 16384,
     max_transport_connections = 64,
     max_frame_bytes = 8 * 1024 * 1024,
     max_connections_per_accept = 256,
     max_history_records = 65536,
     max_history_per_group = 1024,
     history_window_nanos = 3600 * 1000000000,
     max_findings = 65536,
     max_finding_evidence = 512,
     max_export_records = 1000000,
     max_store_bytes = 512 * 1024 * 1024,
     max_store_records = 1000000,
     max_store_record_bytes = 16 * 1024 * 1024,
     max_store_segments = 8\<rparr>"

definition hard_ceiling :: Limits where
  "hard_ceiling = \<lparr>
     max_hops_per_path = 4096,
     max_paths_per_generation = 1000000,
     max_groups_per_generation = 1000000,
     max_members_per_group = 4096,
     max_devices_per_topology = 1000000,
     max_links_per_topology = 4000000,
     max_evidence_per_comparison = 65536,
     max_evidence_per_ingest_batch = 65536,
     max_evidence_payload_bytes = 64 * 1024 * 1024,
     max_document_bytes = 512 * 1024 * 1024,
     max_json_depth = 256,
     max_json_nodes = 20000000,
     max_string_bytes = 16 * 1024 * 1024,
     worker_threads = 256,
     max_worker_threads = 256,
     max_queue_depth = 1048576,
     max_transport_connections = 1024,
     max_frame_bytes = 128 * 1024 * 1024,
     max_connections_per_accept = 65536,
     max_history_records = 10000000,
     max_history_per_group = 1000000,
     history_window_nanos = 365 * 24 * 3600 * 1000000000,
     max_findings = 10000000,
     max_finding_evidence = 65536,
     max_export_records = 10000000,
     max_store_bytes = 64 * 1024 * 1024 * 1024,
     max_store_records = 100000000,
     max_store_record_bytes = 256 * 1024 * 1024,
     max_store_segments = 64\<rparr>"

text \<open>Every argument is widened to \<open>std::uint64_t\<close> at the call, which keeps its value.\<close>

definition within :: "nat \<Rightarrow> nat \<Rightarrow> string \<Rightarrow> Status" where
  "within v ceiling name =
     (if v > ceiling then Inl (Error OutOfRange (''limit exceeds hard ceiling: '' @ name)) else ok)"

text \<open>The table of checks, in source order.\<close>

definition ceiling_checks :: "Limits \<Rightarrow> Status list" where
  "ceiling_checks l =
    [
     within (unat (max_hops_per_path l)) (unat (max_hops_per_path hard_ceiling)) ''max_hops_per_path'',
     within (unat (max_paths_per_generation l)) (unat (max_paths_per_generation hard_ceiling)) ''max_paths_per_generation'',
     within (unat (max_groups_per_generation l)) (unat (max_groups_per_generation hard_ceiling)) ''max_groups_per_generation'',
     within (unat (max_members_per_group l)) (unat (max_members_per_group hard_ceiling)) ''max_members_per_group'',
     within (unat (max_devices_per_topology l)) (unat (max_devices_per_topology hard_ceiling)) ''max_devices_per_topology'',
     within (unat (max_links_per_topology l)) (unat (max_links_per_topology hard_ceiling)) ''max_links_per_topology'',
     within (unat (max_evidence_per_comparison l)) (unat (max_evidence_per_comparison hard_ceiling)) ''max_evidence_per_comparison'',
     within (unat (max_evidence_per_ingest_batch l)) (unat (max_evidence_per_ingest_batch hard_ceiling)) ''max_evidence_per_ingest_batch'',
     within (unat (max_evidence_payload_bytes l)) (unat (max_evidence_payload_bytes hard_ceiling)) ''max_evidence_payload_bytes'',
     within (unat (max_document_bytes l)) (unat (max_document_bytes hard_ceiling)) ''max_document_bytes'',
     within (unat (max_json_depth l)) (unat (max_json_depth hard_ceiling)) ''max_json_depth'',
     within (unat (max_json_nodes l)) (unat (max_json_nodes hard_ceiling)) ''max_json_nodes'',
     within (unat (max_string_bytes l)) (unat (max_string_bytes hard_ceiling)) ''max_string_bytes'',
     within (unat (worker_threads l)) (unat (worker_threads hard_ceiling)) ''worker_threads'',
     within (unat (max_worker_threads l)) (unat (max_worker_threads hard_ceiling)) ''max_worker_threads'',
     within (unat (max_queue_depth l)) (unat (max_queue_depth hard_ceiling)) ''max_queue_depth'',
     within (unat (max_transport_connections l)) (unat (max_transport_connections hard_ceiling)) ''max_transport_connections'',
     within (unat (max_frame_bytes l)) (unat (max_frame_bytes hard_ceiling)) ''max_frame_bytes'',
     within (unat (max_connections_per_accept l)) (unat (max_connections_per_accept hard_ceiling)) ''max_connections_per_accept'',
     within (unat (max_history_records l)) (unat (max_history_records hard_ceiling)) ''max_history_records'',
     within (unat (max_history_per_group l)) (unat (max_history_per_group hard_ceiling)) ''max_history_per_group'',
     within (unat (max_findings l)) (unat (max_findings hard_ceiling)) ''max_findings'',
     within (unat (max_finding_evidence l)) (unat (max_finding_evidence hard_ceiling)) ''max_finding_evidence'',
     within (unat (max_export_records l)) (unat (max_export_records hard_ceiling)) ''max_export_records'',
     within (unat (max_store_bytes l)) (unat (max_store_bytes hard_ceiling)) ''max_store_bytes'',
     within (unat (max_store_records l)) (unat (max_store_records hard_ceiling)) ''max_store_records'',
     within (unat (max_store_record_bytes l)) (unat (max_store_record_bytes hard_ceiling)) ''max_store_record_bytes'',
     within (unat (max_store_segments l)) (unat (max_store_segments hard_ceiling)) ''max_store_segments'']"

definition validate_limits :: "Limits \<Rightarrow> Status" where
  "validate_limits l =
     first_error (ceiling_checks l @
       [guard_err (worker_threads l = 0) InvalidArgument ''worker_threads must be at least one'',
        guard_err (max_history_per_group l > max_history_records l) InvalidArgument
          ''max_history_per_group must not exceed max_history_records'',
        guard_err (max_evidence_per_ingest_batch l > max_queue_depth l) InvalidArgument
          ''max_evidence_per_ingest_batch must not exceed max_queue_depth''])"

lemma within_Inr [simp]: "within v c n = Inr u \<longleftrightarrow> v \<le> c"
  by (auto simp: within_def)

lemma within_ex [simp]: "(\<exists>u. within v c n = Inr u) \<longleftrightarrow> v \<le> c"
  by simp

text \<open>
  A configuration that passes validation is below the hard ceiling in every limit the
  table names, has a worker, and satisfies both internal consistency conditions.
\<close>

theorem validate_limits_sound:
  assumes "validate_limits l = ok"
  shows "unat (max_hops_per_path l) \<le> 4096 \<and> unat (max_evidence_per_comparison l) \<le> 65536 \<and>
    unat (max_queue_depth l) \<le> 1048576 \<and> unat (max_history_records l) \<le> 10000000 \<and>
    unat (max_findings l) \<le> 10000000 \<and> unat (max_store_bytes l) \<le> 64 * 1024 ^ 3 \<and>
    0 < unat (worker_threads l) \<and> unat (worker_threads l) \<le> 256 \<and>
    max_history_per_group l \<le> max_history_records l \<and>
    max_evidence_per_ingest_batch l \<le> max_queue_depth l"
  using assms
  by (auto simp: validate_limits_def ceiling_checks_def first_error_Inr hard_ceiling_def unat_gt_0
      simp del: first_error.simps)

theorem validate_limits_sound_witness:
  "validate_limits default_limits = ok \<and> max_history_per_group default_limits \<le> max_history_records default_limits"
proof -
  have v: "validate_limits default_limits = ok"
    by (simp add: validate_limits_def ceiling_checks_def first_error_Inr hard_ceiling_def default_limits_def
      del: first_error.simps)
  from validate_limits_sound[OF v] v show ?thesis by simp
qed

text \<open>
  The aggregation window is the one bound that is not compared with its ceiling: any
  64-bit window passes, although the ceiling is one year.
\<close>

theorem history_window_unbounded:
  "validate_limits (l\<lparr>history_window_nanos := w\<rparr>) = validate_limits l"
  by (simp add: validate_limits_def ceiling_checks_def)

end
