(* ===== verification/Identity.thy ===== *)
theory Identity
  imports Prelude "HOL-Library.List_Lexorder"
begin

text \<open>
  Typed identities (\<open>include/pathobs/strong_id.hpp\<close>): the 64-bit \<open>StrongId\<close> with its decimal
  parser and printer, the content-derived \<open>DigestId\<close>, and \<open>MaybeId\<close>. Tags are types, as in the
  source, so a device identity cannot stand where a port identity is expected.
\<close>

section \<open>StrongId\<close>

datatype 'tag StrongId = StrongId (id_value: u64)

instantiation StrongId :: (type) linorder
begin

definition less_eq_StrongId :: "'a StrongId \<Rightarrow> 'a StrongId \<Rightarrow> bool" where
  "less_eq_StrongId a b \<longleftrightarrow> id_value a \<le> id_value b"

definition less_StrongId :: "'a StrongId \<Rightarrow> 'a StrongId \<Rightarrow> bool" where
  "less_StrongId a b \<longleftrightarrow> id_value a < id_value b"

instance
  by standard (auto simp: less_eq_StrongId_def less_StrongId_def StrongId.expand)

end

definition from_value :: "u64 \<Rightarrow> 'tag StrongId" where
  "from_value v = StrongId v"

text \<open>The default-constructed identity is zero, which is not valid.\<close>

definition no_id :: "'tag StrongId" where
  "no_id = StrongId 0"

definition valid_id :: "'tag StrongId \<Rightarrow> bool" where
  "valid_id i \<longleftrightarrow> id_value i \<noteq> 0"

lemma StrongId_less_simps [simp, ident_simps]:
  "StrongId a < StrongId b \<longleftrightarrow> a < b" "StrongId a \<le> StrongId b \<longleftrightarrow> a \<le> b"
  by (simp_all add: less_StrongId_def less_eq_StrongId_def)

lemma valid_id_simps [simp, ident_simps]: "valid_id (StrongId v) \<longleftrightarrow> v \<noteq> 0" "\<not> valid_id no_id"
  by (simp_all add: valid_id_def no_id_def)

subsection \<open>Decimal text: std::to_chars and std::from_chars\<close>

fun decimal :: "nat \<Rightarrow> string" where
  "decimal n = (if n < 10 then [char_of (48 + n)] else decimal (n div 10) @ [char_of (48 + n mod 10)])"

declare decimal.simps [simp del]

definition is_digit :: "char \<Rightarrow> bool" where
  "is_digit c \<longleftrightarrow> 48 \<le> (of_char c :: nat) \<and> (of_char c :: nat) \<le> 57"

definition digit_value :: "char \<Rightarrow> nat" where
  "digit_value c = of_char c - 48"

text \<open>The value of a run of digits, most significant first.\<close>

definition digits_value :: "string \<Rightarrow> nat" where
  "digits_value cs = foldl (\<lambda>acc c. 10 * acc + digit_value c) 0 cs"

text \<open>
  \<open>std::from_chars\<close> on an unsigned 64-bit integer consumes the longest run of digits; it fails
  on an empty run and on a value that does not fit. The caller also refuses unread text.
\<close>

definition from_chars_u64 :: "string \<Rightarrow> (nat \<times> string) option" where
  "from_chars_u64 text =
     (let run = takeWhile is_digit text
      in if run = [] \<or> digits_value run \<ge> 2 ^ 64 then None
         else Some (digits_value run, dropWhile is_digit text))"

definition str :: "'tag StrongId \<Rightarrow> string" where
  "str i = decimal (unat (id_value i))"

definition parse_id :: "string \<Rightarrow> 'tag StrongId Result" where
  "parse_id text =
     (if text = [] then Inl (Error InvalidIdentity ''identity is empty'')
      else case from_chars_u64 text of
             None \<Rightarrow> Inl (Error InvalidIdentity ''identity is not a decimal number'')
           | Some (v, rest) \<Rightarrow>
               if rest \<noteq> [] then Inl (Error InvalidIdentity ''identity is not a decimal number'')
               else if (of_nat v :: u64) = 0
                    then Inl (Error InvalidIdentity ''identity must not be zero'')
               else Inr (from_value (of_nat v)))"

lemma of_char_48 [simp]: "d < 10 \<Longrightarrow> (of_char (char_of (48 + d)) :: nat) = 48 + d" for d :: nat
  by simp

lemma is_digit_char [simp]: "d < 10 \<Longrightarrow> is_digit (char_of (48 + d))" for d :: nat
  unfolding is_digit_def of_char_48 by simp

lemma digits_value_snoc: "digits_value (cs @ [c]) = 10 * digits_value cs + digit_value c"
  by (simp add: digits_value_def)

lemma decimal_digits: "\<forall>c\<in>set (decimal n). is_digit c"
proof (induction n rule: decimal.induct)
  case (1 n)
  then show ?case by (subst decimal.simps) (auto simp: is_digit_char)
qed

lemma decimal_nonempty [simp]: "decimal n \<noteq> []"
  by (subst decimal.simps) simp

lemma digits_value_decimal: "digits_value (decimal n) = n"
proof (induction n rule: decimal.induct)
  case (1 n)
  show ?case
  proof (cases "n < 10")
    case True
    then show ?thesis by (subst decimal.simps) (simp add: digits_value_def digit_value_def)
  next
    case False
    have "digits_value (decimal n) = 10 * digits_value (decimal (n div 10)) + n mod 10"
      using False by (subst decimal.simps) (simp add: digits_value_snoc digit_value_def)
    with 1 False show ?thesis by simp
  qed
qed

lemma from_chars_decimal: "n < 2 ^ 64 \<Longrightarrow> from_chars_u64 (decimal n) = Some (n, [])"
proof -
  assume "n < 2 ^ 64"
  moreover have "takeWhile is_digit (decimal n) = decimal n" "dropWhile is_digit (decimal n) = []"
    using decimal_digits by (auto simp: takeWhile_eq_all_conv dropWhile_eq_Nil_conv)
  ultimately show ?thesis
    unfolding from_chars_u64_def by (simp only: Let_def digits_value_decimal) simp
qed

section \<open>Digests and DigestId\<close>

text \<open>A \<open>Digest\<close> is the 32-byte array of \<open>include/pathobs/digest.hpp\<close>, ordered lexicographically.\<close>

datatype Digest = Digest (digest_bytes: "byte list")

text \<open>
  \<open>Digest::of\<close>, the content hash. Operations that derive identities take it as their first
  argument, so their theorems hold for any hash function; the theory of digests defines the
  SHA-256 the sources use.
\<close>

type_synonym hasher = "byte list \<Rightarrow> Digest"

definition zero_digest :: Digest where
  "zero_digest = Digest (replicate 32 0)"

datatype 'tag DigestId = DigestId (digest_id_bytes: "byte list")

instantiation DigestId :: (type) linorder
begin

definition less_eq_DigestId :: "'a DigestId \<Rightarrow> 'a DigestId \<Rightarrow> bool" where
  "less_eq_DigestId a b \<longleftrightarrow> digest_id_bytes a \<le> digest_id_bytes b"

definition less_DigestId :: "'a DigestId \<Rightarrow> 'a DigestId \<Rightarrow> bool" where
  "less_DigestId a b \<longleftrightarrow> digest_id_bytes a < digest_id_bytes b"

instance
  by standard (auto simp: less_eq_DigestId_def less_DigestId_def DigestId.expand)

end

lemma DigestId_less_simps [simp, ident_simps]:
  "DigestId a < DigestId b \<longleftrightarrow> a < b" "DigestId a \<le> DigestId b \<longleftrightarrow> a \<le> b"
  by (simp_all add: less_DigestId_def less_eq_DigestId_def)

definition from_digest :: "Digest \<Rightarrow> 'tag DigestId" where
  "from_digest d = DigestId (take 16 (digest_bytes d))"

definition no_digest_id :: "'tag DigestId" where
  "no_digest_id = DigestId (replicate 16 0)"

definition valid_digest_id :: "'tag DigestId \<Rightarrow> bool" where
  "valid_digest_id i \<longleftrightarrow> (\<exists>b\<in>set (digest_id_bytes i). b \<noteq> 0)"

lemma no_digest_id_invalid [simp]: "\<not> valid_digest_id no_digest_id"
  by (simp add: valid_digest_id_def no_digest_id_def)

section \<open>MaybeId\<close>

text \<open>\<open>MaybeId\<close> stores an identity and is absent when that identity is not valid.\<close>

datatype 'tag MaybeId = MaybeId (maybe_value: "'tag StrongId")

definition absent :: "'tag MaybeId" where
  "absent = MaybeId no_id"

definition present :: "'tag MaybeId \<Rightarrow> bool" where
  "present m \<longleftrightarrow> valid_id (maybe_value m)"

definition maybe_value_or :: "'tag MaybeId \<Rightarrow> 'tag StrongId \<Rightarrow> 'tag StrongId" where
  "maybe_value_or m fallback = (if present m then maybe_value m else fallback)"

lemma present_simps [simp, ident_simps]:
  "present (MaybeId i) \<longleftrightarrow> valid_id i" "\<not> present absent"
  by (simp_all add: present_def absent_def)

lemma not_present_iff: "\<not> present m \<longleftrightarrow> m = absent"
  by (cases m; cases "maybe_value m") (auto simp: absent_def no_id_def)

section \<open>Tags\<close>

datatype SourceIdTag = SourceIdTag
datatype SourceIncarnationIdTag = SourceIncarnationIdTag
datatype DeviceIdTag = DeviceIdTag
datatype PortIdTag = PortIdTag
datatype LinkIdTag = LinkIdTag
datatype PathIdTag = PathIdTag
datatype HopIdTag = HopIdTag
datatype PathGroupIdTag = PathGroupIdTag
datatype RouteGenerationIdTag = RouteGenerationIdTag
datatype TopologyGenerationIdTag = TopologyGenerationIdTag
datatype EpochIdTag = EpochIdTag
datatype IncarnationIdTag = IncarnationIdTag
datatype RevisionIdTag = RevisionIdTag
datatype SourceSequenceTag = SourceSequenceTag
datatype StoreIncarnationIdTag = StoreIncarnationIdTag
datatype EvidenceIdTag = EvidenceIdTag
datatype ComparisonIdTag = ComparisonIdTag
datatype FindingIdTag = FindingIdTag

type_synonym SourceId = "SourceIdTag StrongId"
type_synonym SourceIncarnationId = "SourceIncarnationIdTag StrongId"
type_synonym DeviceId = "DeviceIdTag StrongId"
type_synonym PortId = "PortIdTag StrongId"
type_synonym LinkId = "LinkIdTag StrongId"
type_synonym PathId = "PathIdTag StrongId"
type_synonym HopId = "HopIdTag StrongId"
type_synonym PathGroupId = "PathGroupIdTag StrongId"
type_synonym RouteGenerationId = "RouteGenerationIdTag StrongId"
type_synonym TopologyGenerationId = "TopologyGenerationIdTag StrongId"
type_synonym EpochId = "EpochIdTag StrongId"
type_synonym IncarnationId = "IncarnationIdTag StrongId"
type_synonym RevisionId = "RevisionIdTag StrongId"
type_synonym SourceSequence = "SourceSequenceTag StrongId"
type_synonym StoreIncarnationId = "StoreIncarnationIdTag StrongId"
type_synonym EvidenceId = "EvidenceIdTag DigestId"
type_synonym ComparisonId = "ComparisonIdTag DigestId"
type_synonym FindingId = "FindingIdTag DigestId"

section \<open>Properties\<close>

text \<open>
  Printing a valid identity and parsing the text gives the identity back, for every
  64-bit value but zero.
\<close>

theorem parse_id_str: "valid_id i \<Longrightarrow> parse_id (str i) = Inr i"
proof -
  assume v: "valid_id i"
  have "unat (id_value i) < 2 ^ 64" using unsigned_less[of "id_value i"] by simp
  then show ?thesis
    using v by (simp add: parse_id_def str_def from_chars_decimal from_value_def valid_id_def)
qed

theorem parse_id_str_witness:
  "valid_id (StrongId 42 :: DeviceId) \<and> 
   parse_id (str (StrongId 42 :: DeviceId)) = Inr (StrongId 42 :: DeviceId)"
  using parse_id_str[of "StrongId 42 :: DeviceId"] by simp

end
