(* ===== verification/TimeModel.thy ===== *)
theory TimeModel
  imports Identity Checked
begin

text \<open>
  The time model (\<open>include/pathobs/time.hpp\<close>, \<open>src/time.cpp\<close>): instants on the Unix timescale as
  64-bit signed nanoseconds with an "unset" marker, the checked difference, the Gregorian
  calendar, and the RFC 3339 reader and printer. Signed overflow, which C++ leaves undefined, is
  modelled as the wrap-around of the machine word.
\<close>

section \<open>TimePoint and Duration\<close>

datatype TimePoint = TimePoint (unix_nanos: i64)

type_synonym Duration = i64

text \<open>Instants and durations compare as signed integers.\<close>

definition nanos :: "TimePoint \<Rightarrow> int" where
  "nanos t = sint (unix_nanos t)"

definition unset :: TimePoint where
  "unset = TimePoint smin"

definition is_set :: "TimePoint \<Rightarrow> bool" where
  "is_set t \<longleftrightarrow> unix_nanos t \<noteq> smin"

definition from_unix_nanos :: "int \<Rightarrow> TimePoint" where
  "from_unix_nanos n = TimePoint (word_of_int n)"

lemma unset_not_set [simp]: "\<not> is_set unset"
  by (simp add: is_set_def unset_def)

instantiation TimePoint :: linorder
begin

definition less_eq_TimePoint :: "TimePoint \<Rightarrow> TimePoint \<Rightarrow> bool" where
  "less_eq_TimePoint a b \<longleftrightarrow> nanos a \<le> nanos b"

definition less_TimePoint :: "TimePoint \<Rightarrow> TimePoint \<Rightarrow> bool" where
  "less_TimePoint a b \<longleftrightarrow> nanos a < nanos b"

instance
  by standard (auto simp: less_eq_TimePoint_def less_TimePoint_def nanos_def sint_eq_iff TimePoint.expand)

end

lemma nanos_bounds: "- (2 ^ 63) \<le> nanos t" "nanos t < 2 ^ 63"
  using sint_bounds[of "unix_nanos t"] by (simp_all add: nanos_def)

lemma nanos_from_unix: "- (2 ^ 63) \<le> n \<Longrightarrow> n < 2 ^ 63 \<Longrightarrow> nanos (from_unix_nanos n) = n"
  unfolding nanos_def from_unix_nanos_def TimePoint.sel by (rule sint_of_int_eq) simp_all

lemma is_set_iff_nanos: "is_set t \<longleftrightarrow> nanos t \<noteq> - (2 ^ 63)"
  by (simp add: is_set_def nanos_def sint_eq_iff[symmetric])

section \<open>Clock domains\<close>

datatype ClockDomain = Clock_Unknown | Clock_SourceReported | Clock_LocalWall

fun ClockDomain_to_string :: "ClockDomain \<Rightarrow> string" where
  "ClockDomain_to_string Clock_Unknown = ''unknown''"
| "ClockDomain_to_string Clock_SourceReported = ''source_reported''"
| "ClockDomain_to_string Clock_LocalWall = ''local_wall''"

section \<open>Difference and order\<close>

definition difference :: "TimePoint \<Rightarrow> TimePoint \<Rightarrow> Duration Result" where
  "difference later earlier =
     (let a = unix_nanos later; b = unix_nanos earlier
      in if 0 < sint b \<and> sint a < sint (smin + b)
         then Inl (Error OutOfRange ''time difference underflow'')
         else if sint b < 0 \<and> sint (smax + b) < sint a
         then Inl (Error OutOfRange ''time difference overflow'')
         else Inr (a - b))"

definition is_after :: "TimePoint \<Rightarrow> TimePoint \<Rightarrow> bool" where
  "is_after instant now \<longleftrightarrow> nanos instant > nanos now"

definition advance :: "TimePoint \<Rightarrow> Duration \<Rightarrow> TimePoint" where
  "advance current delta = TimePoint (unix_nanos current + delta)"

section \<open>Calendar\<close>

text \<open>C++ integer division truncates towards zero.\<close>

definition tdiv :: "int \<Rightarrow> int \<Rightarrow> int" where
  "tdiv a b = sgn a * sgn b * (\<bar>a\<bar> div \<bar>b\<bar>)"

definition tmod :: "int \<Rightarrow> int \<Rightarrow> int" where
  "tmod a b = a - b * tdiv a b"

definition is_leap_year :: "int \<Rightarrow> bool" where
  "is_leap_year year \<longleftrightarrow> (tmod year 4 = 0 \<and> tmod year 100 \<noteq> 0) \<or> tmod year 400 = 0"

definition days_in_month :: "int \<Rightarrow> int \<Rightarrow> int" where
  "days_in_month year month =
     (if month = 2 \<and> is_leap_year year then 29
      else [31, 28, 31, 30, 31, 30, 31, 31, 30, 31, 30, 31] ! nat (month - 1))"

definition days_from_civil :: "int \<Rightarrow> int \<Rightarrow> int \<Rightarrow> int" where
  "days_from_civil year0 month day =
     (let year = year0 - (if month \<le> 2 then 1 else 0);
          era = tdiv (if year \<ge> 0 then year else year - 399) 400;
          year_of_era = year - era * 400;
          day_of_year = tdiv (153 * (month + (if month > 2 then - 3 else 9)) + 2) 5 + day - 1;
          day_of_era = year_of_era * 365 + tdiv year_of_era 4 - tdiv year_of_era 100 + day_of_year
      in era * 146097 + day_of_era - 719468)"

definition civil_from_days :: "int \<Rightarrow> int \<times> int \<times> int" where
  "civil_from_days z0 =
     (let z = z0 + 719468;
          era = tdiv (if z \<ge> 0 then z else z - 146096) 146097;
          day_of_era = z - era * 146097;
          year_of_era = tdiv (day_of_era - tdiv day_of_era 1460 + tdiv day_of_era 36524
                              - tdiv day_of_era 146096) 365;
          y = year_of_era + era * 400;
          day_of_year = day_of_era - (365 * year_of_era + tdiv year_of_era 4 - tdiv year_of_era 100);
          mp = tdiv (5 * day_of_year + 2) 153;
          d = day_of_year - tdiv (153 * mp + 2) 5 + 1;
          m = mp + (if mp < 10 then 3 else - 9)
      in (y + (if m \<le> 2 then 1 else 0), m, d))"

section \<open>RFC 3339 text\<close>

fun parse_digits :: "int \<Rightarrow> string \<Rightarrow> int option" where
  "parse_digits acc [] = Some acc"
| "parse_digits acc (c # cs) =
     (if is_digit c then parse_digits (acc * 10 + int (digit_value c)) cs else None)"

definition parse_fixed_int :: "string \<Rightarrow> nat \<Rightarrow> nat \<Rightarrow> int option" where
  "parse_fixed_int text offset n =
     (if offset + n > length text then None else parse_digits 0 (take n (drop offset text)))"

text \<open>The fraction loop keeps the first nine digits and skips the rest.\<close>

fun fraction_loop :: "nat \<Rightarrow> int \<Rightarrow> string \<Rightarrow> nat \<times> int \<times> string" where
  "fraction_loop digits frac [] = (digits, frac, [])"
| "fraction_loop digits frac (c # cs) =
     (if is_digit c
      then if digits < 9 then fraction_loop (digits + 1) (frac * 10 + int (digit_value c)) cs
           else fraction_loop digits frac cs
      else (digits, frac, c # cs))"

definition parse_fraction :: "string \<Rightarrow> (int \<times> string) Result" where
  "parse_fraction rest =
     (case rest of
        CHR ''.'' # cs \<Rightarrow>
          (case fraction_loop 0 0 cs of (digits, frac, cs') \<Rightarrow>
             if digits = 0 then Inl (Error InvalidFormat ''timestamp has an empty fraction'')
             else Inr (frac * 10 ^ (9 - digits), cs'))
      | _ \<Rightarrow> Inr (0, rest))"

definition parse_zone :: "string \<Rightarrow> Status" where
  "parse_zone rest =
     (case rest of
        [] \<Rightarrow> Inl (Error InvalidFormat
                 ''timestamp must be UTC (trailing Z); offsets are not accepted'')
      | c # cs \<Rightarrow>
          if c \<noteq> CHR ''Z'' \<and> c \<noteq> CHR ''z''
          then Inl (Error InvalidFormat
                 ''timestamp must be UTC (trailing Z); offsets are not accepted'')
          else if cs \<noteq> [] then Inl (Error InvalidFormat ''timestamp has trailing characters'')
          else ok)"

definition parse_fields :: "string \<Rightarrow> (int \<times> int \<times> int \<times> int \<times> int \<times> int) option" where
  "parse_fields text =
     (case (parse_fixed_int text 0 4, parse_fixed_int text 5 2, parse_fixed_int text 8 2,
            parse_fixed_int text 11 2, parse_fixed_int text 14 2, parse_fixed_int text 17 2) of
        (Some year, Some month, Some day, Some hour, Some minute, Some second) \<Rightarrow>
          if text ! 4 = CHR ''-'' \<and> text ! 7 = CHR ''-'' \<and>
             (text ! 10 = CHR ''T'' \<or> text ! 10 = CHR ''t'') \<and>
             text ! 13 = CHR '':'' \<and> text ! 16 = CHR '':''
          then Some (year, month, day, hour, minute, second) else None
      | _ \<Rightarrow> None)"

definition instant_nanos :: "int \<Rightarrow> int \<Rightarrow> int \<Rightarrow> int \<Rightarrow> int \<Rightarrow> int \<Rightarrow> int \<Rightarrow> int" where
  "instant_nanos year month day hour minute second fraction =
     (days_from_civil year month day * 86400 + hour * 3600 + minute * 60 + second) * 1000000000
     + fraction"

definition parse_rfc3339 :: "string \<Rightarrow> TimePoint Result" where
  "parse_rfc3339 text =
     (if length text < 20
      then Inl (Error InvalidFormat ''timestamp is too short for RFC 3339'')
      else case parse_fields text of
        None \<Rightarrow> Inl (Error InvalidFormat ''timestamp is not an RFC 3339 instant'')
      | Some (year, month, day, hour, minute, second) \<Rightarrow>
          if month < 1 \<or> month > 12 \<or> day < 1 \<or> day > days_in_month year month \<or>
             hour > 23 \<or> minute > 59 \<or> second > 60
          then Inl (Error InvalidFormat ''timestamp has an out-of-range field'')
          else try_bind (parse_fraction (drop 19 text)) (\<lambda>(fraction, rest).
               try_bind (parse_zone rest) (\<lambda>_.
               Inr (from_unix_nanos (instant_nanos year month day hour minute second fraction)))))"

text \<open>\<open>%0wd\<close> of a non-negative value.\<close>

definition zero_pad :: "nat \<Rightarrow> int \<Rightarrow> string" where
  "zero_pad w v = replicate (w - length (decimal (nat v))) CHR ''0'' @ decimal (nat v)"

text \<open>Trailing zeros of the nine fractional digits are dropped, keeping at least one digit.\<close>

definition trim_zeros :: "string \<Rightarrow> string" where
  "trim_zeros cs =
     (case rev (dropWhile (\<lambda>c. c = CHR ''0'') (rev cs)) of [] \<Rightarrow> take 1 cs | ds \<Rightarrow> ds)"

definition floor_split :: "int \<Rightarrow> int \<Rightarrow> int \<times> int" where
  "floor_split a b =
     (let q = tdiv a b; r = tmod a b in if r < 0 then (q - 1, r + b) else (q, r))"

definition to_rfc3339 :: "TimePoint \<Rightarrow> string" where
  "to_rfc3339 t =
     (if \<not> is_set t then ''unset''
      else case floor_split (nanos t) 1000000000 of (seconds, fraction) \<Rightarrow>
           case floor_split seconds 86400 of (days, remainder) \<Rightarrow>
           case civil_from_days days of (year, month, day) \<Rightarrow>
             zero_pad 4 year @ ''-'' @ zero_pad 2 month @ ''-'' @ zero_pad 2 day @ ''T'' @
             zero_pad 2 (tdiv remainder 3600) @ '':'' @
             zero_pad 2 (tdiv (tmod remainder 3600) 60) @ '':'' @ zero_pad 2 (tmod remainder 60) @
             (if fraction = 0 then '''' else ''.'' @ trim_zeros (zero_pad 9 fraction)) @ ''Z'')"

section \<open>Arithmetic of the calendar\<close>

lemma tdiv_nonneg: "0 \<le> a \<Longrightarrow> 0 < b \<Longrightarrow> tdiv a b = a div b"
  by (cases "a = 0") (simp_all add: tdiv_def)

lemma tmod_nonneg: "0 \<le> a \<Longrightarrow> 0 < b \<Longrightarrow> tmod a b = a mod b"
  by (simp add: tmod_def tdiv_nonneg minus_mult_div_eq_mod)

lemma tdiv_neg: "a < 0 \<Longrightarrow> 0 < b \<Longrightarrow> tdiv a b = - ((- a) div b)"
  by (simp add: tdiv_def)

text \<open>The correction of a negative remainder turns truncation into floor division.\<close>

lemma floor_split_unique:
  "a = b * q + r \<Longrightarrow> 0 \<le> r \<Longrightarrow> r < b \<Longrightarrow> (q, r) = (a div b, a mod b)" for a :: int
  by (metis int_div_pos_eq int_mod_pos_eq)

lemma floor_split_eq:
  assumes b: "0 < b"
  shows "floor_split a b = (a div b, a mod b)"
proof (cases "0 \<le> a")
  case True
  moreover have "\<not> a mod b < 0" using b by (simp add: not_less)
  ultimately show ?thesis
    using b by (simp add: floor_split_def tdiv_nonneg tmod_nonneg Let_def)
next
  case False
  have "tmod a b = a + b * ((- a) div b)" using False b by (simp add: tmod_def tdiv_neg)
  moreover have "b * ((- a) div b) + (- a) mod b = - a" by simp
  ultimately have r: "tmod a b = - ((- a) mod b)" by linarith
  have m: "0 \<le> (- a) mod b" "(- a) mod b < b" using b by simp_all
  have eq: "a = b * tdiv a b + tmod a b" by (simp add: tmod_def)
  show ?thesis
  proof (cases "tmod a b < 0")
    case True
    then have "floor_split a b = (tdiv a b - 1, tmod a b + b)"
      by (simp add: floor_split_def)
    also have "\<dots> = (a div b, a mod b)"
      by (rule floor_split_unique) (use True m r eq in \<open>auto simp: right_diff_distrib\<close>)
    finally show ?thesis .
  next
    case False
    then have "floor_split a b = (tdiv a b, tmod a b)"
      by (simp add: floor_split_def)
    also have "\<dots> = (a div b, a mod b)"
      by (rule floor_split_unique) (use False m r eq b in linarith)+
    finally show ?thesis .
  qed
qed

text \<open>The era is the floor quotient: the source adjusts the dividend before truncating.\<close>

lemma era_floor:
  assumes n: "0 < n" and c: "c = n - 1"
  shows "tdiv (if z \<ge> 0 then z else z - c) n = z div n"
proof (cases "z \<ge> 0")
  case True
  then show ?thesis using n by (simp add: tdiv_nonneg)
next
  case False
  have "(n - 1 - z) div n = - (z div n)"
  proof (rule int_div_pos_eq[where r = "n - 1 - z mod n"])
    show "n - 1 - z = n * - (z div n) + (n - 1 - z mod n)"
      using mult_div_mod_eq[of n z] by (simp add: algebra_simps)
  qed (use n pos_mod_bound[of n z] pos_mod_sign[of n z] in linarith)+
  then show ?thesis using False n by (simp add: c tdiv_neg algebra_simps)
qed

lemma year_of_century:
  fixes r b :: int
  assumes "0 \<le> b" "b \<le> 3" "0 \<le> r" "r < 36524"
  defines "k \<equiv> (24 * b + r) div 1460"
  defines "t \<equiv> (r - k) div 365"
  shows "0 \<le> t" "t \<le> 99" "0 \<le> r - 365 * t - t div 4" "r - 365 * t - t div 4 \<le> 365"
proof -
  define q where "q = t div 4"
  have k: "1460 * k \<le> 24 * b + r" "24 * b + r < 1460 * k + 1460"
    unfolding k_def by linarith+
  have t: "365 * t \<le> r - k" "r - k < 365 * t + 365" unfolding t_def by linarith+
  have q: "4 * q \<le> t" "t \<le> 4 * q + 3" unfolding q_def by linarith+
  have "0 \<le> k" unfolding k_def using assms by simp
  have "k \<le> 25" using k assms by linarith
  show "0 \<le> t" using k t assms \<open>0 \<le> k\<close> by linarith
  show "t \<le> 99" using t assms \<open>0 \<le> k\<close> k by linarith
  have "q \<le> k"
  proof -
    have "1460 * q \<le> 24 * b + r" using t q assms \<open>0 \<le> k\<close> by linarith
    then show ?thesis using k by linarith
  qed
  moreover have "k \<le> q + 1"
  proof -
    have "1459 * k \<le> 24 * b + 1460 * q + 1459" using t q k by linarith
    moreover have "q \<le> 24" using q \<open>t \<le> 99\<close> by linarith
    ultimately show ?thesis using assms by linarith
  qed
  ultimately show "0 \<le> r - 365 * t - t div 4" "r - 365 * t - t div 4 \<le> 365"
    using t by (simp_all add: q_def)
qed

text \<open>
  The 400-year cycle: the year of era is below 400 and the day of year below 366, for each of
  the 146097 days of an era.
\<close>

definition year_of_era :: "int \<Rightarrow> int" where
  "year_of_era doe = (doe - doe div 1460 + doe div 36524 - doe div 146096) div 365"

lemma year_of_era_bounds:
  assumes "0 \<le> doe" and "doe < 146097"
  shows "0 \<le> year_of_era doe" "year_of_era doe \<le> 399"
    "0 \<le> doe - (365 * year_of_era doe + year_of_era doe div 4 - year_of_era doe div 100)"
    "doe - (365 * year_of_era doe + year_of_era doe div 4 - year_of_era doe div 100) \<le> 365"
proof -
  have "0 \<le> year_of_era doe \<and> year_of_era doe \<le> 399 \<and>
    0 \<le> doe - (365 * year_of_era doe + year_of_era doe div 4 - year_of_era doe div 100) \<and>
    doe - (365 * year_of_era doe + year_of_era doe div 4 - year_of_era doe div 100) \<le> 365"
  proof (cases "doe = 146096")
    case True
    then show ?thesis by (simp add: year_of_era_def)
  next
    case False
    define b r where "b = doe div 36524" and "r = doe mod 36524"
    have doe: "doe = 36524 * b + r" and r: "0 \<le> r" "r < 36524" unfolding b_def r_def by auto
    have b: "0 \<le> b" "b \<le> 3" using assms False doe r by linarith+
    define k t where "k = (24 * b + r) div 1460" and "t = (r - k) div 365"
    have a: "doe div 1460 = 25 * b + k"
      unfolding k_def doe using div_mult_self1[of 1460 "24 * b + r" "25 * b"] by (simp add: algebra_simps)
    have c: "doe div 146096 = 0" using assms False by auto
    have "year_of_era doe = (r - k + 365 * (100 * b)) div 365"
      unfolding year_of_era_def a c b_def[symmetric] by (simp add: doe algebra_simps)
    then have y: "year_of_era doe = 100 * b + t"
      unfolding t_def using div_mult_self2[of 365 "r - k" "100 * b"] by simp
    note tb = year_of_century[OF b r, folded k_def, folded t_def]
    have cycle: "(100 * b + t) div 4 = 25 * b + t div 4" "(100 * b + t) div 100 = b"
      using tb(1,2) by linarith+
    show ?thesis unfolding y cycle using tb b by (simp add: doe)
  qed
  then show "0 \<le> year_of_era doe" "year_of_era doe \<le> 399"
    "0 \<le> doe - (365 * year_of_era doe + year_of_era doe div 4 - year_of_era doe div 100)"
    "doe - (365 * year_of_era doe + year_of_era doe div 4 - year_of_era doe div 100) \<le> 365"
    by blast+
qed

text \<open>\<open>civil_from_days\<close> with its divisions resolved.\<close>

lemma civil_from_days_eq:
  fixes z0 :: int
  defines "era \<equiv> (z0 + 719468) div 146097" and "doe \<equiv> (z0 + 719468) mod 146097"
  defines "yoe \<equiv> year_of_era doe"
  defines "doy \<equiv> doe - (365 * yoe + yoe div 4 - yoe div 100)"
  defines "mp \<equiv> (5 * doy + 2) div 153"
  defines "m \<equiv> mp + (if mp < 10 then 3 else - 9)"
  shows "civil_from_days z0 =
           (yoe + era * 400 + (if m \<le> 2 then 1 else 0), m, doy - (153 * mp + 2) div 5 + 1)"
    and "0 \<le> yoe" "yoe \<le> 399" "0 \<le> doy" "doy \<le> 365" "0 \<le> mp" "mp \<le> 11"
    and "z0 + 719468 = era * 146097 + doe"
proof -
  have d: "0 \<le> doe" "doe < 146097" unfolding doe_def by auto
  note yb = year_of_era_bounds[OF d, folded yoe_def, folded doy_def]
  show "0 \<le> yoe" "yoe \<le> 399" "0 \<le> doy" "doy \<le> 365" by (fact yb)+
  show mp: "0 \<le> mp" "mp \<le> 11" unfolding mp_def using yb by linarith+
  show z: "z0 + 719468 = era * 146097 + doe" unfolding era_def doe_def by simp
  have sub: "z0 + 719468 - era * 146097 = doe" using z by simp
  have "0 \<le> doe - doe div 1460 + doe div 36524 - doe div 146096" using d by linarith
  then have ye: "tdiv (doe - tdiv doe 1460 + tdiv doe 36524 - tdiv doe 146096) 365 = yoe"
    using d by (simp add: tdiv_nonneg yoe_def year_of_era_def)
  have era: "tdiv (if z0 + 719468 \<ge> 0 then z0 + 719468 else z0 + 719468 - 146096) 146097 = era"
    unfolding era_def by (rule era_floor) simp_all
  show "civil_from_days z0 =
          (yoe + era * 400 + (if m \<le> 2 then 1 else 0), m, doy - (153 * mp + 2) div 5 + 1)"
    unfolding civil_from_days_def Let_def era sub ye
    using yb mp by (simp add: tdiv_nonneg doy_def[symmetric] mp_def[symmetric] m_def)
qed

section \<open>Properties\<close>

text \<open>
  Converting a day number to a Gregorian date and back gives the same day, for every day
  number.
\<close>

theorem civil_roundtrip:
  "(case civil_from_days z of (year, month, day) \<Rightarrow> days_from_civil year month day) = z"
proof -
  define era doe where "era = (z + 719468) div 146097" and "doe = (z + 719468) mod 146097"
  define yoe where "yoe = year_of_era doe"
  define doy where "doy = doe - (365 * yoe + yoe div 4 - yoe div 100)"
  define mp where "mp = (5 * doy + 2) div 153"
  define m where "m = mp + (if mp < 10 then 3 else - 9)"
  note defs = era_def doe_def yoe_def doy_def mp_def m_def
  note c = civil_from_days_eq[of z, folded era_def doe_def, folded yoe_def, folded doy_def,
      folded mp_def, folded m_def]
  have m: "m + (if m > 2 then - 3 else 9) = mp" "(m \<le> 2) = (mp \<ge> 10)"
    using c(6,7) by (auto simp: m_def)
  have y: "tdiv (if yoe + era * 400 \<ge> 0 then yoe + era * 400 else yoe + era * 400 - 399) 400 = era"
    by (subst era_floor) (use c(2,3) in simp_all)
  have yr: "yoe + era * 400 + (if m \<le> 2 then 1 else 0) - (if m \<le> 2 then 1 else 0) = yoe + era * 400"
    by simp
  have "days_from_civil (yoe + era * 400 + (if m \<le> 2 then 1 else 0)) m (doy - (153 * mp + 2) div 5 + 1)
      = era * 146097 + doe - 719468"
    unfolding days_from_civil_def Let_def yr y m(1) using c(2-7)
    by (simp add: tdiv_nonneg doy_def)
  then show ?thesis using c(8) by (simp add: c(1))
qed

text \<open>
  The difference of two instants is exact, and reported as an error precisely when it
  does not fit the 64-bit range.
\<close>

theorem difference_exact:
  "difference later earlier = Inr d \<longleftrightarrow>
     - (2 ^ 63) \<le> nanos later - nanos earlier \<and> nanos later - nanos earlier < 2 ^ 63 \<and>
     sint d = nanos later - nanos earlier"
proof -
  have "difference later earlier = Inr d \<longleftrightarrow>
      checked_sub_signed (unix_nanos later) (unix_nanos earlier) = Inr d"
    by (auto simp: difference_def checked_sub_signed_def Let_def)
  moreover have "checked_sub_signed (unix_nanos later) (unix_nanos earlier) = Inr d \<longleftrightarrow>
      - (2 ^ 63) \<le> nanos later - nanos earlier \<and> nanos later - nanos earlier < 2 ^ 63 \<and>
      sint d = nanos later - nanos earlier"
    using sub_signed_exact[of "unix_nanos later" "unix_nanos earlier" d] by (simp add: nanos_def)
  ultimately show ?thesis by simp
qed

text \<open>
  The reader accepts any four-digit year, but the nanosecond count of an instant after
  2262 does not fit 64 bits. Under wrap-around the year 2300 reads as an instant before 1970,
  with no error reported.
\<close>

theorem parse_rfc3339_overflow:
  "case parse_rfc3339 ''2300-01-01T00:00:00Z'' of
     Inl _ \<Rightarrow> False
   | Inr t \<Rightarrow> is_set t \<and> nanos t < 0 \<and> t < from_unix_nanos 0"
  by code_simp

end
