(* ===== verification/Digests.thy ===== *)
theory Digests
  imports Identity
begin

unbundle bit_operations_syntax

text \<open>
  Content digests (\<open>include/pathobs/digest.hpp\<close>, \<open>src/digest.cpp\<close>): the streaming SHA-256, the
  table-driven CRC-32C and the hexadecimal form of a digest. The array \<open>buffer_\<close> with its fill
  count \<open>buffered_\<close> is the list of the buffered bytes.
\<close>

section \<open>SHA-256\<close>

text \<open>The round constants, row by row as the source lists them.\<close>

definition kSha256K :: "u32 list" where
  "kSha256K =
    concat
    [[0x428a2f98, 0x71374491, 0xb5c0fbcf, 0xe9b5dba5, 0x3956c25b, 0x59f111f1, 0x923f82a4],
     [0xab1c5ed5, 0xd807aa98, 0x12835b01, 0x243185be, 0x550c7dc3, 0x72be5d74, 0x80deb1fe],
     [0x9bdc06a7, 0xc19bf174, 0xe49b69c1, 0xefbe4786, 0x0fc19dc6, 0x240ca1cc, 0x2de92c6f],
     [0x4a7484aa, 0x5cb0a9dc, 0x76f988da, 0x983e5152, 0xa831c66d, 0xb00327c8, 0xbf597fc7],
     [0xc6e00bf3, 0xd5a79147, 0x06ca6351, 0x14292967, 0x27b70a85, 0x2e1b2138, 0x4d2c6dfc],
     [0x53380d13, 0x650a7354, 0x766a0abb, 0x81c2c92e, 0x92722c85, 0xa2bfe8a1, 0xa81a664b],
     [0xc24b8b70, 0xc76c51a3, 0xd192e819, 0xd6990624, 0xf40e3585, 0x106aa070, 0x19a4c116],
     [0x1e376c08, 0x2748774c, 0x34b0bcb5, 0x391c0cb3, 0x4ed8aa4a, 0x5b9cca4f, 0x682e6ff3],
     [0x748f82ee, 0x78a5636f, 0x84c87814, 0x8cc70208, 0x90befffa, 0xa4506ceb, 0xbef9a3f7],
     [0xc67178f2]]"

definition rotr :: "u32 \<Rightarrow> nat \<Rightarrow> u32" where
  "rotr v n = drop_bit n v OR push_bit (32 - n) v"

definition big_sigma0 :: "u32 \<Rightarrow> u32" where
  "big_sigma0 x = rotr x 2 XOR rotr x 13 XOR rotr x 22"

definition big_sigma1 :: "u32 \<Rightarrow> u32" where
  "big_sigma1 x = rotr x 6 XOR rotr x 11 XOR rotr x 25"

definition small_sigma0 :: "u32 \<Rightarrow> u32" where
  "small_sigma0 x = rotr x 7 XOR rotr x 18 XOR drop_bit 3 x"

definition small_sigma1 :: "u32 \<Rightarrow> u32" where
  "small_sigma1 x = rotr x 17 XOR rotr x 19 XOR drop_bit 10 x"

definition sha_init :: "u32 list" where
  "sha_init = [0x6a09e667, 0xbb67ae85, 0x3c6ef372, 0xa54ff53a,
               0x510e527f, 0x9b05688c, 0x1f83d9ab, 0x5be0cd19]"

definition be_word :: "byte \<Rightarrow> byte \<Rightarrow> byte \<Rightarrow> byte \<Rightarrow> u32" where
  "be_word a b c d =
     push_bit 24 (ucast a) OR push_bit 16 (ucast b) OR push_bit 8 (ucast c) OR ucast d"

definition schedule_head :: "byte list \<Rightarrow> u32 list" where
  "schedule_head block =
     map (\<lambda>i. be_word (block ! (i * 4)) (block ! (i * 4 + 1)) (block ! (i * 4 + 2)) (block ! (i * 4 + 3)))
       [0..<16]"

fun schedule_extend :: "nat \<Rightarrow> u32 list \<Rightarrow> u32 list" where
  "schedule_extend 0 w = w"
| "schedule_extend (Suc n) w =
     (let i = length w
      in schedule_extend n
           (w @ [small_sigma1 (w ! (i - 2)) + w ! (i - 7) + small_sigma0 (w ! (i - 15)) + w ! (i - 16)]))"

type_synonym sha_vars = "u32 \<times> u32 \<times> u32 \<times> u32 \<times> u32 \<times> u32 \<times> u32 \<times> u32"

definition sha_round :: "u32 list \<Rightarrow> nat \<Rightarrow> sha_vars \<Rightarrow> sha_vars" where
  "sha_round schedule i v =
     (case v of (a, b, c, d, e, f, g, h) \<Rightarrow>
        let temp1 = h + big_sigma1 e + ((e AND f) XOR ((NOT e) AND g)) + kSha256K ! i + schedule ! i;
            temp2 = big_sigma0 a + ((a AND b) XOR (a AND c) XOR (b AND c))
        in (temp1 + temp2, a, b, c, d + temp1, e, f, g))"

definition compress :: "u32 list \<Rightarrow> byte list \<Rightarrow> u32 list" where
  "compress st block =
     (let schedule = schedule_extend 48 (schedule_head block)
      in case fold (sha_round schedule) [0..<64]
                (st ! 0, st ! 1, st ! 2, st ! 3, st ! 4, st ! 5, st ! 6, st ! 7) of
           (a, b, c, d, e, f, g, h) \<Rightarrow>
             [st ! 0 + a, st ! 1 + b, st ! 2 + c, st ! 3 + d,
              st ! 4 + e, st ! 5 + f, st ! 6 + g, st ! 7 + h])"

record Sha256 =
  sha_state :: "u32 list"
  sha_buffer :: "byte list"
  sha_byte_count :: u64

definition Sha256_new :: Sha256 where
  "Sha256_new = \<lparr>sha_state = sha_init, sha_buffer = [], sha_byte_count = 0\<rparr>"

text \<open>Whole blocks are compressed straight from the input; the rest is buffered.\<close>

function sha_absorb :: "u32 list \<Rightarrow> byte list \<Rightarrow> u32 list \<times> byte list" where
  "sha_absorb st data =
     (if 64 \<le> length data then sha_absorb (compress st (take 64 data)) (drop 64 data)
      else (st, data))"
  by pat_completeness auto
termination
  by (relation "measure (\<lambda>(st, data). length data)") auto

declare sha_absorb.simps [simp del]

definition sha_update :: "Sha256 \<Rightarrow> byte list \<Rightarrow> Sha256" where
  "sha_update s data =
     (let counted = s\<lparr>sha_byte_count := sha_byte_count s + of_nat (length data)\<rparr>;
          room = 64 - length (sha_buffer s)
      in if sha_buffer s \<noteq> []
         then let filled = sha_buffer s @ take room data; rest = drop room data
              in if length filled = 64
                 then case sha_absorb (compress (sha_state s) filled) rest of (st, buf) \<Rightarrow>
                        counted\<lparr>sha_state := st, sha_buffer := buf\<rparr>
                 else counted\<lparr>sha_buffer := filled\<rparr>
         else case sha_absorb (sha_state s) data of (st, buf) \<Rightarrow>
                counted\<lparr>sha_state := st, sha_buffer := buf\<rparr>)"

lemma sha_absorb_short: "length data < 64 \<Longrightarrow> sha_absorb st data = (st, data)"
  by (subst sha_absorb.simps) simp

lemma sha_absorb_block:
  "64 \<le> length data \<Longrightarrow> sha_absorb st data = sha_absorb (compress st (take 64 data)) (drop 64 data)"
  by (subst sha_absorb.simps) simp

text \<open>
  Buffering is invisible: an update absorbs the buffer followed by the new bytes, whichever of
  the three branches of the code it takes.
\<close>

lemma sha_update_eq:
  assumes "length (sha_buffer s) < 64"
  shows "sha_update s data =
    (case sha_absorb (sha_state s) (sha_buffer s @ data) of (st, buf) \<Rightarrow>
       s\<lparr>sha_byte_count := sha_byte_count s + of_nat (length data),
         sha_state := st, sha_buffer := buf\<rparr>)"
proof (cases "64 \<le> length (sha_buffer s @ data)")
  case True
  then show ?thesis using assms
    by (cases "sha_buffer s = []") (simp_all add: sha_update_def Let_def sha_absorb_block)
next
  case False
  then show ?thesis using assms
    by (cases "sha_buffer s = []") (simp_all add: sha_update_def Let_def sha_absorb_short)
qed

lemma sha_absorb_buffer: "length (snd (sha_absorb st data)) = length data mod 64"
proof (induction st data rule: sha_absorb.induct)
  case (1 st data)
  then show ?case
    by (cases "64 \<le> length data") (simp_all add: sha_absorb_short sha_absorb_block le_mod_geq)
qed

lemma sha_update_buffer:
  assumes "length (sha_buffer s) < 64"
  shows "length (sha_buffer (sha_update s data)) = (length (sha_buffer s) + length data) mod 64"
  using sha_absorb_buffer[of "sha_state s" "sha_buffer s @ data"] assms
  by (simp add: sha_update_eq prod.case_eq_if)

text \<open>The padding loop feeds zero bytes until 56 bytes are buffered.\<close>

definition pad_distance :: "nat \<Rightarrow> nat" where
  "pad_distance n = (if n \<le> 56 then 56 - n else 120 - n)"

lemma pad_distance_step:
  "n < 64 \<Longrightarrow> n \<noteq> 56 \<Longrightarrow> pad_distance (Suc n mod 64) < pad_distance n"
  by (cases "n = 63") (auto simp: pad_distance_def)

function sha_pad :: "Sha256 \<Rightarrow> Sha256" where
  "sha_pad s =
     (if length (sha_buffer s) = 56 \<or> 64 \<le> length (sha_buffer s) then s
      else sha_pad (sha_update s [0]))"
  by pat_completeness auto
termination
proof (relation "measure (\<lambda>s. pad_distance (length (sha_buffer s)))", goal_cases)
  case (2 s)
  then show ?case using pad_distance_step by (simp add: sha_update_buffer)
qed simp

declare sha_pad.simps [simp del]

definition be_bytes_u64 :: "u64 \<Rightarrow> byte list" where
  "be_bytes_u64 v = map (\<lambda>i. ucast (drop_bit (56 - i * 8) v)) [0..<8]"

definition be_bytes_u32 :: "u32 \<Rightarrow> byte list" where
  "be_bytes_u32 v = [ucast (drop_bit 24 v), ucast (drop_bit 16 v), ucast (drop_bit 8 v), ucast v]"

text \<open>\<open>finish\<close> returns the digest and resets the hasher.\<close>

definition sha_finish :: "Sha256 \<Rightarrow> byte list \<times> Sha256" where
  "sha_finish s =
     (let bit_length = sha_byte_count s * 8;
          padded = sha_pad (sha_update s [0x80]);
          st = compress (sha_state padded) (sha_buffer padded @ be_bytes_u64 bit_length)
      in (concat (map be_bytes_u32 st), Sha256_new))"

definition Digest_of :: hasher where
  "Digest_of data = Digest (fst (sha_finish (sha_update Sha256_new data)))"


section \<open>CRC-32C\<close>

definition crc_bit :: "u32 \<Rightarrow> u32" where
  "crc_bit crc = (if crc AND 1 \<noteq> 0 then drop_bit 1 crc XOR 0x82f63b78 else drop_bit 1 crc)"

definition crc32c_table :: "u32 list" where
  "crc32c_table = map (\<lambda>i. (crc_bit ^^ 8) (word_of_nat i)) [0..<256]"

definition crc32c_byte :: "byte \<Rightarrow> u32 \<Rightarrow> u32" where
  "crc32c_byte b crc = crc32c_table ! unat ((crc XOR ucast b) AND 0xff) XOR drop_bit 8 crc"

definition crc32c :: "byte list \<Rightarrow> u32" where
  "crc32c data = fold crc32c_byte data 0xffffffff XOR 0xffffffff"

text \<open>The definition of the code: eight bit steps per byte, without a table.\<close>

definition crc32c_reference :: "byte list \<Rightarrow> u32" where
  "crc32c_reference data =
     fold (\<lambda>b crc. (crc_bit ^^ 8) (crc XOR ucast b)) data 0xffffffff XOR 0xffffffff"

section \<open>Hexadecimal text\<close>

definition hex_digit :: "nat \<Rightarrow> char" where
  "hex_digit v = (if v < 10 then char_of (48 + v) else char_of (97 + (v - 10)))"

definition hex_bytes :: "byte list \<Rightarrow> string" where
  "hex_bytes bs = concat (map (\<lambda>b. [hex_digit (unat b div 16), hex_digit (unat b mod 16)]) bs)"

definition Digest_hex :: "Digest \<Rightarrow> string" where
  "Digest_hex d = hex_bytes (digest_bytes d)"

definition nibble :: "char \<Rightarrow> nat option" where
  "nibble c =
     (let n = of_char c :: nat
      in if 48 \<le> n \<and> n \<le> 57 then Some (n - 48)
         else if 97 \<le> n \<and> n \<le> 102 then Some (n - 97 + 10)
         else if 65 \<le> n \<and> n \<le> 70 then Some (n - 65 + 10)
         else None)"

fun unhex :: "string \<Rightarrow> byte list option" where
  "unhex (h # l # rest) =
     (case (nibble h, nibble l) of
        (Some hi, Some lo) \<Rightarrow> map_option (\<lambda>bs. word_of_nat (hi * 16 + lo) # bs) (unhex rest)
      | _ \<Rightarrow> None)"
| "unhex _ = Some []"

definition parse_hex :: "string \<Rightarrow> Digest Result" where
  "parse_hex hex =
     (if length hex \<noteq> 64
      then Inl (Error InvalidFormat ''digest must be 64 hexadecimal characters'')
      else case unhex hex of
             None \<Rightarrow> Inl (Error InvalidFormat ''digest contains a non-hexadecimal character'')
           | Some bs \<Rightarrow> Inr (Digest bs))"

definition DigestId_str :: "'tag DigestId \<Rightarrow> string" where
  "DigestId_str i = hex_bytes (digest_id_bytes i)"

definition DigestId_parse :: "string \<Rightarrow> 'tag DigestId Result" where
  "DigestId_parse hex =
     (if length hex \<noteq> 32
      then Inl (Error InvalidIdentity ''digest identity has the wrong length'')
      else case unhex hex of
             None \<Rightarrow> Inl (Error InvalidIdentity ''digest identity is not hexadecimal'')
           | Some bs \<Rightarrow> Inr (DigestId bs))"

section \<open>Lemmas\<close>

subsection \<open>Streaming and padding\<close>

lemma sha_absorb_append:
  "sha_absorb st (xs @ ys) = (case sha_absorb st xs of (st', buf) \<Rightarrow> sha_absorb st' (buf @ ys))"
proof (induction st xs rule: sha_absorb.induct)
  case (1 st xs)
  then show ?case
    by (cases "64 \<le> length xs") (simp_all add: sha_absorb_short sha_absorb_block[of xs] sha_absorb_block[of "xs @ ys"])
qed

lemma sha_update_append:
  assumes "length (sha_buffer s) < 64"
  shows "sha_update (sha_update s xs) ys = sha_update s (xs @ ys)"
proof -
  obtain st buf where a: "sha_absorb (sha_state s) (sha_buffer s @ xs) = (st, buf)"
    by (cases "sha_absorb (sha_state s) (sha_buffer s @ xs)")
  have "length (sha_buffer (sha_update s xs)) < 64"
    using assms by (simp add: sha_update_buffer)
  moreover have "sha_absorb (sha_state s) (sha_buffer s @ xs @ ys) = sha_absorb st (buf @ ys)"
    using sha_absorb_append[of "sha_state s" "sha_buffer s @ xs" ys] a by simp
  ultimately show ?thesis
    using assms a by (simp add: sha_update_eq prod.case_eq_if)
qed

lemma sha_update_Nil: "length (sha_buffer s) < 64 \<Longrightarrow> sha_update s [] = s"
  by (simp add: sha_update_eq sha_absorb_short)

lemma pad_distance_Suc:
  "n < 64 \<Longrightarrow> n \<noteq> 56 \<Longrightarrow> pad_distance n = Suc (pad_distance (Suc n mod 64))"
  by (cases "n = 63") (auto simp: pad_distance_def)

lemma sha_pad_eq:
  assumes "length (sha_buffer s) < 64"
  shows "sha_pad s = sha_update s (replicate (pad_distance (length (sha_buffer s))) 0)"
  using assms
proof (induction s rule: sha_pad.induct)
  case (1 s)
  show ?case
  proof (cases "length (sha_buffer s) = 56")
    case True
    then show ?thesis
      using 1(2) by (subst sha_pad.simps) (simp add: pad_distance_def sha_update_Nil)
  next
    case False
    have len: "length (sha_buffer (sha_update s [0])) = Suc (length (sha_buffer s)) mod 64"
      using 1(2) by (simp add: sha_update_buffer)
    have "sha_pad s = sha_pad (sha_update s [0])"
      using False 1(2) by (subst sha_pad.simps) simp
    also have "\<dots> = sha_update (sha_update s [0])
        (replicate (pad_distance (Suc (length (sha_buffer s)) mod 64)) 0)"
      using 1 False len by simp
    also have "\<dots> = sha_update s (replicate (pad_distance (length (sha_buffer s))) 0)"
      using 1(2) False pad_distance_Suc[of "length (sha_buffer s)"] by (simp add: sha_update_append)
    finally show ?thesis .
  qed
qed

text \<open>The padded message of the standard.\<close>

definition sha_padded :: "byte list \<Rightarrow> byte list" where
  "sha_padded data =
     data @ [0x80] @ replicate (pad_distance (Suc (length data) mod 64)) 0 @
     be_bytes_u64 (of_nat (length data) * 8)"

lemma pad_distance_fills: "(n + pad_distance (n mod 64)) mod 64 = 56"
proof -
  have "n mod 64 < 64" by simp
  then have "n mod 64 + pad_distance (n mod 64) = 56 \<or> n mod 64 + pad_distance (n mod 64) = 120"
    by (cases "n mod 64 \<le> 56") (simp_all add: pad_distance_def)
  then have "(n mod 64 + pad_distance (n mod 64)) mod 64 = 56" by auto
  then show ?thesis by (simp add: mod_add_left_eq)
qed

lemma sha_padded_blocks: "length (sha_padded data) mod 64 = 0"
proof -
  let ?k = "Suc (length data) + pad_distance (Suc (length data) mod 64)"
  have "(?k + 8) mod 64 = (?k mod 64 + 8) mod 64" by (simp only: mod_add_left_eq)
  also have "\<dots> = 0" by (simp only: pad_distance_fills) simp
  finally show ?thesis by (simp add: sha_padded_def be_bytes_u64_def ac_simps)
qed

subsection \<open>CRC-32C\<close>

lemma crc_bit_linear: "crc_bit (a XOR b) = crc_bit a XOR crc_bit b"
proof -
  have odd: "x AND 1 \<noteq> 0 \<longleftrightarrow> bit x 0" for x :: u32
    by (simp add: and_one_eq bit_0 odd_iff_mod_2_eq_one)
  have "(a XOR b) AND 1 \<noteq> 0 \<longleftrightarrow> (a AND 1 \<noteq> 0) \<noteq> (b AND 1 \<noteq> 0)"
    unfolding odd by (simp add: bit_xor_iff)
  then show ?thesis
    by (auto simp: crc_bit_def drop_bit_xor ac_simps)
qed

lemma crc_bits_linear: "(crc_bit ^^ n) (a XOR b) = (crc_bit ^^ n) a XOR (crc_bit ^^ n) b"
  by (induction n) (simp_all add: crc_bit_linear)

text \<open>A register whose low bits are clear is only shifted.\<close>

lemma crc_bits_high: "\<forall>i<n. \<not> bit c i \<Longrightarrow> (crc_bit ^^ n) c = drop_bit n c" for c :: u32
proof (induction n)
  case (Suc n)
  then have "\<not> bit (drop_bit n c) 0" by (simp add: bit_drop_bit_eq)
  then have "drop_bit n c AND 1 = 0" by (simp add: and_one_eq bit_0 odd_iff_mod_2_eq_one)
  with Suc show ?case by (simp add: crc_bit_def)
qed simp

lemma crc32c_byte_eq: "crc32c_byte b crc = (crc_bit ^^ 8) (crc XOR ucast b)"
proof -
  define c where "c = crc XOR ucast b"
  have lt: "unat (c AND 0xff) < 256"
    using word_and_le1[of c "0xff"] by (simp add: word_le_nat_alt)
  have "crc32c_table ! unat (c AND 0xff) = (crc_bit ^^ 8) (c AND 0xff)"
    using lt by (simp add: crc32c_table_def)
  moreover have "drop_bit 8 crc = (crc_bit ^^ 8) (c AND NOT 0xff)"
  proof -
    have "0xff = (mask 8 :: u32)" by (simp add: mask_eq_exp_minus_1)
    then have "\<forall>i<8. \<not> bit (c AND NOT 0xff) i"
      by (simp only: bit_simps) simp
    moreover have "drop_bit 8 (c AND NOT 0xff) = drop_bit 8 crc"
      unfolding c_def \<open>0xff = mask 8\<close>
      by (rule bit_word_eqI) (auto simp: bit_simps dest: bit_imp_le_length)
    ultimately show ?thesis by (simp add: crc_bits_high)
  qed
  moreover have "(c AND 0xff) XOR (c AND NOT 0xff) = c"
    by (rule bit_word_eqI) (auto simp: bit_simps)
  ultimately show ?thesis
    unfolding crc32c_byte_def c_def[symmetric] by (metis crc_bits_linear)
qed

subsection \<open>Hexadecimal text\<close>

lemma nibble_hex_digit: "v < 16 \<Longrightarrow> nibble (hex_digit v) = Some v"
  by (auto simp: nibble_def hex_digit_def)

lemma unhex_hex_bytes: "unhex (hex_bytes bs) = Some bs"
proof (induction bs)
  case (Cons b bs)
  have "unat b < 256" using unsigned_less[of b] by simp
  then have "nibble (hex_digit (unat b div 16)) = Some (unat b div 16)"
    "nibble (hex_digit (unat b mod 16)) = Some (unat b mod 16)"
    by (auto intro!: nibble_hex_digit)
  moreover have "word_of_nat (unat b div 16 * 16 + unat b mod 16) = b"
    by simp
  ultimately show ?case using Cons by (simp add: hex_bytes_def)
qed (simp add: hex_bytes_def)

lemma hex_bytes_length: "length (hex_bytes bs) = 2 * length bs"
  by (induction bs) (simp_all add: hex_bytes_def)

lemma DigestId_parse_str:
  "length (digest_id_bytes i) = 16 \<Longrightarrow> DigestId_parse (DigestId_str i) = Inr i"
  by (simp add: DigestId_parse_def DigestId_str_def unhex_hex_bytes hex_bytes_length)

section \<open>Properties\<close>

text \<open>
  The buffered SHA-256 computes the hash of the standard: the digest is the state after
  compressing, block by block, the message padded with one bit, zeros and its length, and the
  padded message consists of whole blocks, so nothing is left in the buffer.
\<close>

theorem Digest_of_padded:
  "Digest_of data =
     Digest (concat (map be_bytes_u32 (fst (sha_absorb sha_init (sha_padded data))))) \<and>
   snd (sha_absorb sha_init (sha_padded data)) = []"
proof -
  let ?n = "pad_distance (Suc (length data) mod 64)"
  let ?body = "data @ [0x80] @ replicate ?n 0"
  obtain st buf where a: "sha_absorb sha_init ?body = (st, buf)"
    by (cases "sha_absorb sha_init ?body")
  have new: "sha_buffer Sha256_new = []" "sha_state Sha256_new = sha_init" "sha_byte_count Sha256_new = 0"
    by (simp_all add: Sha256_new_def)
  have "length (sha_buffer (sha_update Sha256_new (data @ [0x80]))) = Suc (length data) mod 64"
    by (simp add: sha_update_buffer new)
  then have "sha_pad (sha_update (sha_update Sha256_new data) [0x80]) = sha_update Sha256_new ?body"
    by (simp add: sha_pad_eq sha_update_append new)
  moreover have "sha_byte_count (sha_update Sha256_new data) = of_nat (length data)"
    by (simp add: sha_update_eq new prod.case_eq_if)
  moreover have "length buf = 56"
    using sha_absorb_buffer[of sha_init ?body] a pad_distance_fills[of "Suc (length data)"]
    by simp
  then have "sha_absorb sha_init (sha_padded data) =
      (compress st (buf @ be_bytes_u64 (of_nat (length data) * 8)), [])"
    using sha_absorb_append[of sha_init ?body] a
    by (simp add: sha_padded_def be_bytes_u64_def sha_absorb_block sha_absorb_short)
  ultimately show ?thesis
    using a by (simp add: Digest_of_def sha_finish_def Let_def sha_update_eq new)
qed

text \<open>
  The table-driven CRC-32C equals the bit-by-bit definition on every input.
\<close>

theorem crc32c_table_driven: "crc32c data = crc32c_reference data"
proof -
  have "crc32c_byte = (\<lambda>b crc. (crc_bit ^^ 8) (crc XOR ucast b))"
    by (intro ext) (rule crc32c_byte_eq)
  then show ?thesis by (simp only: crc32c_def crc32c_reference_def)
qed

text \<open>
  The hexadecimal form of every 32-byte digest parses back to the digest.
\<close>

theorem parse_hex_hex: "length (digest_bytes d) = 32 \<Longrightarrow> parse_hex (Digest_hex d) = Inr d"
  by (simp add: parse_hex_def Digest_hex_def unhex_hex_bytes hex_bytes_length)

theorem parse_hex_hex_witness:
  "length (digest_bytes (Digest (replicate 32 0xa5))) = 32 \<and>
   parse_hex (Digest_hex (Digest (replicate 32 0xa5))) = Inr (Digest (replicate 32 0xa5))"
  using parse_hex_hex[of "Digest (replicate 32 0xa5)"] by simp

end
