(* ===== verification/Canonical.thy ===== *)
theory Canonical
  imports Identity
begin

unbundle bit_operations_syntax

text \<open>
  The canonical encoding of \<open>include/pathobs/canonical.hpp\<close> and \<open>src/canonical.cpp\<close>: fixed width,
  little endian, explicit lengths. A writer operation is modelled by the bytes it appends to the
  buffer, so the buffer after a run of operations is their concatenation. A reader is the rest of
  its input (\<open>data_\<close> from \<open>offset_\<close> on); an operation returns its value and the reader after it,
  and a failed operation ends the decoding, as \<open>PATHOBS_TRY\<close> does in every caller.

  The locales state what the encoding is for: a \<open>prefix_code\<close> never gives two objects the same
  bytes, whatever follows them, and a \<open>codec\<close> reads back what it wrote.
\<close>

section \<open>Writer\<close>

definition le_bytes :: "nat \<Rightarrow> 'w::len word \<Rightarrow> byte list" where
  "le_bytes n v = map (\<lambda>i. ucast (drop_bit (8 * i) v)) [0..<n]"

definition write_u8 :: "byte \<Rightarrow> byte list" where
  "write_u8 v = [v]"

definition write_bool :: "bool \<Rightarrow> byte list" where
  "write_bool v = write_u8 (if v then 1 else 0)"

definition write_u16 :: "u16 \<Rightarrow> byte list" where
  "write_u16 v = le_bytes 2 v"

definition write_u32 :: "u32 \<Rightarrow> byte list" where
  "write_u32 v = le_bytes 4 v"

definition write_u64 :: "u64 \<Rightarrow> byte list" where
  "write_u64 v = le_bytes 8 v"

definition write_i64 :: "i64 \<Rightarrow> byte list" where
  "write_i64 v = write_u64 v"

text \<open>The length is cast to 32 bits, so a longer sequence wraps its prefix.\<close>

definition write_bytes :: "byte list \<Rightarrow> byte list" where
  "write_bytes bs = write_u32 (of_nat (length bs)) @ bs"

definition text_bytes :: "string \<Rightarrow> byte list" where
  "text_bytes s = map of_char s"

definition write_text :: "string \<Rightarrow> byte list" where
  "write_text s = write_u32 (of_nat (length s)) @ text_bytes s"

definition write_digest :: "Digest \<Rightarrow> byte list" where
  "write_digest d = digest_bytes d"

definition write_id :: "'tag StrongId \<Rightarrow> byte list" where
  "write_id i = write_u64 (id_value i)"

definition write_digest_id :: "'tag DigestId \<Rightarrow> byte list" where
  "write_digest_id i = write_bytes (digest_id_bytes i)"

text \<open>An optional identity: its presence, then its value (zero when absent).\<close>

definition write_maybe :: "'tag MaybeId \<Rightarrow> byte list" where
  "write_maybe m = write_bool (present m) @ write_id (maybe_value m)"

definition write_count :: "nat \<Rightarrow> byte list" where
  "write_count n = write_u32 (of_nat n)"

section \<open>Reader\<close>

type_synonym reader = "byte list"
type_synonym 'a read = "reader \<Rightarrow> ('a \<times> reader) Result"

definition read_take :: "nat \<Rightarrow> byte list read" where
  "read_take n r =
     (if n > length r then Inl (Error TruncatedInput ''canonical payload ended early'')
      else Inr (take n r, drop n r))"

definition le_value :: "byte list \<Rightarrow> 'w::len word" where
  "le_value bs = fold (\<lambda>i v. v OR push_bit (8 * i) (ucast (bs ! i))) [0..<length bs] 0"

definition read_le :: "nat \<Rightarrow> 'w::len word read" where
  "read_le n r = try_bind (read_take n r) (\<lambda>(bs, r). Inr (le_value bs, r))"

definition read_u8 :: "byte read" where
  "read_u8 r = try_bind (read_take 1 r) (\<lambda>(bs, r). Inr (hd bs, r))"

definition read_bool :: "bool read" where
  "read_bool r =
     try_bind (read_u8 r) (\<lambda>(v, r).
       if v > 1 then Inl (Error InvalidFormat ''canonical boolean is not 0 or 1'')
       else Inr (v = 1, r))"

definition read_u16 :: "u16 read" where
  "read_u16 = read_le 2"

definition read_u32 :: "u32 read" where
  "read_u32 = read_le 4"

definition read_u64 :: "u64 read" where
  "read_u64 = read_le 8"

definition read_i64 :: "i64 read" where
  "read_i64 = read_u64"

definition read_digest :: "Digest read" where
  "read_digest r = try_bind (read_take 32 r) (\<lambda>(bs, r). Inr (Digest bs, r))"

definition read_bytes :: "u32 \<Rightarrow> byte list read" where
  "read_bytes max_bytes r =
     try_bind (read_u32 r) (\<lambda>(length, r).
       if length > max_bytes
       then Inl (Error CapacityExceeded ''canonical byte string exceeds the configured bound'')
       else read_take (unat length) r)"

definition read_text :: "u32 \<Rightarrow> string read" where
  "read_text max_bytes r =
     try_bind (read_u32 r) (\<lambda>(length, r).
       if length > max_bytes
       then Inl (Error CapacityExceeded ''canonical text exceeds the configured bound'')
       else try_bind (read_take (unat length) r) (\<lambda>(bs, r). Inr (map (char_of \<circ> unat) bs, r)))"

definition read_count :: "u32 \<Rightarrow> nat read" where
  "read_count max_count r =
     try_bind (read_u32 r) (\<lambda>(value, r).
       if value > max_count
       then Inl (Error CapacityExceeded ''canonical sequence count exceeds the configured bound'')
       else Inr (unat value, r))"

definition read_id :: "'tag StrongId read" where
  "read_id r = try_bind (read_u64 r) (\<lambda>(v, r). Inr (StrongId v, r))"

text \<open>A short byte string is padded with zeros to the digest width before it is cut to 16 bytes.\<close>

definition read_digest_id :: "'tag DigestId read" where
  "read_digest_id r =
     try_bind (read_bytes 64 r) (\<lambda>(raw, r).
       if length raw > 32 then Inl (Error InvalidFormat ''digest identity is too long'')
       else Inr (from_digest (Digest (raw @ replicate (32 - length raw) 0)), r))"

definition expect_end :: "reader \<Rightarrow> Status" where
  "expect_end r =
     (if r \<noteq> [] then Inl (Error InvalidFormat ''canonical payload has trailing bytes'') else ok)"

text \<open>The loop every decoder of a sequence runs: the count, then that many elements.\<close>

fun read_many :: "'a read \<Rightarrow> nat \<Rightarrow> 'a list read" where
  "read_many rd 0 r = Inr ([], r)"
| "read_many rd (Suc n) r =
     try_bind (rd r) (\<lambda>(x, r). try_bind (read_many rd n r) (\<lambda>(xs, r). Inr (x # xs, r)))"

definition read_list :: "u32 \<Rightarrow> 'a read \<Rightarrow> 'a list read" where
  "read_list max_count rd r = try_bind (read_count max_count r) (\<lambda>(n, r). read_many rd n r)"

definition write_list :: "('a \<Rightarrow> byte list) \<Rightarrow> 'a list \<Rightarrow> byte list" where
  "write_list wr xs = write_count (length xs) @ concat (map wr xs)"

section \<open>Contracts\<close>

locale prefix_code =
  fixes wr :: "'a \<Rightarrow> byte list" and wf :: "'a \<Rightarrow> bool"
  assumes unambiguous: "wf x \<Longrightarrow> wf y \<Longrightarrow> wr x @ r = wr y @ s \<Longrightarrow> x = y \<and> r = s"
begin

lemma inj: "wf x \<Longrightarrow> wf y \<Longrightarrow> wr x = wr y \<Longrightarrow> x = y"
  using unambiguous[of x y "[]" "[]"] by simp

lemma append_eq: "wf x \<Longrightarrow> wf y \<Longrightarrow> wr x @ r = wr y @ s \<longleftrightarrow> x = y \<and> r = s"
  using unambiguous by blast

lemma eq: "wf x \<Longrightarrow> wf y \<Longrightarrow> wr x = wr y \<longleftrightarrow> x = y"
  using inj by blast

lemma concat_unambiguous:
  "length xs = length ys \<Longrightarrow> list_all wf xs \<Longrightarrow> list_all wf ys \<Longrightarrow>
   concat (map wr xs) @ r = concat (map wr ys) @ s \<Longrightarrow> xs = ys \<and> r = s"
proof (induction xs ys rule: list_induct2)
  case (Cons x xs y ys)
  have "wr x @ (concat (map wr xs) @ r) = wr y @ (concat (map wr ys) @ s)"
    using Cons.prems(3) by simp
  moreover have "wf x" "wf y" "list_all wf xs" "list_all wf ys" using Cons.prems(1,2) by simp_all
  ultimately show ?case using unambiguous Cons.IH by blast
qed simp

end

locale codec =
  fixes wr :: "'a \<Rightarrow> byte list" and rd :: "'a read" and wf :: "'a \<Rightarrow> bool"
  assumes read_write: "wf x \<Longrightarrow> rd (wr x @ r) = Inr (x, r)"
begin

lemma read_write_end: "wf x \<Longrightarrow> rd (wr x) = Inr (x, [])"
  using read_write[of x "[]"] by simp

lemma read_many_write:
  "list_all wf xs \<Longrightarrow> read_many rd (length xs) (concat (map wr xs) @ r) = Inr (xs, r)"
  by (induction xs) (simp_all add: read_write)

end

sublocale codec \<subseteq> prefix_code wr wf
proof
  fix x y r s
  assume "wf x" "wf y" and eq: "wr x @ r = wr y @ s"
  have "rd (wr x @ r) = Inr (x, r)" using \<open>wf x\<close> by (rule read_write)
  moreover have "rd (wr y @ s) = Inr (y, s)" using \<open>wf y\<close> by (rule read_write)
  ultimately have "(Inr (x, r) :: Error + _) = Inr (y, s)" by (simp only: eq)
  then show "x = y \<and> r = s" by simp
qed

section \<open>Little endian words\<close>

lemma length_le_bytes [simp]: "length (le_bytes n v) = n"
  by (simp add: le_bytes_def)

lemma bit_le_value_upto:
  fixes bs :: "byte list"
  assumes "n \<le> length bs" and "8 * n \<le> LENGTH('w::len)"
  shows "bit (fold (\<lambda>i v. v OR push_bit (8 * i) (ucast (bs ! i))) [0..<n] (0 :: 'w word)) k \<longleftrightarrow>
    k < 8 * n \<and> bit (bs ! (k div 8)) (k mod 8)"
  using assms
proof (induction n)
  case (Suc n)
  have top: "bit (push_bit (8 * n) (ucast (bs ! n)) :: 'w word) k \<longleftrightarrow>
    8 * n \<le> k \<and> k < 8 * Suc n \<and> bit (bs ! n) (k - 8 * n)"
    using Suc.prems bit_imp_le_length[of "bs ! n" "k - 8 * n"] by (auto simp: bit_simps)
  have "k div 8 = n \<and> k mod 8 = k - 8 * n" if "8 * n \<le> k" "k < 8 * Suc n"
    using that by (metis add.commute div_nat_eqI minus_mod_eq_mult_div mult.commute mult_Suc mult_Suc_right
        modulo_nat_def)
  with Suc top show ?case by (auto simp: bit_or_iff)
qed simp

lemma le_value_le_bytes:
  "8 * n = LENGTH('w) \<Longrightarrow> le_value (le_bytes n v) = (v :: 'w::len word)"
proof (rule bit_word_eqI)
  fix k assume n: "8 * n = LENGTH('w)" and k: "k < LENGTH('w)"
  then have "k div 8 < n" by simp
  moreover have "8 * (k div 8) + k mod 8 = k" by simp
  ultimately show "bit (le_value (le_bytes n v) :: 'w word) k \<longleftrightarrow> bit v k"
    using n k bit_le_value_upto[of n "le_bytes n v" k, where 'w='w]
    by (simp add: le_value_def le_bytes_def bit_simps)
qed

lemma le_bytes_le_value:
  "length bs = n \<Longrightarrow> 8 * n = LENGTH('w) \<Longrightarrow> le_bytes n (le_value bs :: 'w::len word) = bs"
proof (rule nth_equalityI)
  fix i assume n: "length bs = n" "8 * n = LENGTH('w)" and i: "i < length (le_bytes n (le_value bs :: 'w word))"
  show "le_bytes n (le_value bs :: 'w word) ! i = bs ! i"
  proof (rule bit_word_eqI)
    fix k assume "k < LENGTH(8)"
    then show "bit (le_bytes n (le_value bs :: 'w word) ! i) k \<longleftrightarrow> bit (bs ! i) k"
      using n i bit_le_value_upto[of n bs "8 * i + k", where 'w='w]
      by (simp add: le_value_def le_bytes_def bit_simps)
  qed
qed simp

lemma read_le_le_bytes:
  "8 * n = LENGTH('w) \<Longrightarrow> read_le n (le_bytes n v @ r) = Inr (v :: 'w::len word, r)"
  by (simp add: read_le_def read_take_def le_value_le_bytes)

section \<open>Reading back what was written\<close>

lemma read_write_u8 [codec_simps]: "read_u8 (write_u8 v @ r) = Inr (v, r)"
  by (simp add: read_u8_def write_u8_def read_take_def)

lemma read_write_bool [codec_simps]: "read_bool (write_bool v @ r) = Inr (v, r)"
  by (simp add: read_bool_def write_bool_def codec_simps)

lemma read_write_words [codec_simps]:
  "read_u16 (write_u16 a @ r) = Inr (a, r)"
  "read_u32 (write_u32 b @ r) = Inr (b, r)"
  "read_u64 (write_u64 c @ r) = Inr (c, r)"
  "read_i64 (write_i64 d @ r) = Inr (d, r)"
  by (simp_all add: read_u16_def write_u16_def read_u32_def write_u32_def read_u64_def write_u64_def
      read_i64_def write_i64_def read_le_le_bytes)

lemma read_write_id [codec_simps]: "read_id (write_id i @ r) = Inr (i, r)"
  by (simp add: read_id_def write_id_def codec_simps)

lemma fits_u32:
  assumes "n \<le> unat (m :: u32)"
  shows "unat (of_nat n :: u32) = n" and "\<not> m < of_nat n"
proof -
  have "unat m < 2 ^ 32" using unsigned_less[of m] by simp
  then have "n < 2 ^ 32" using assms by simp
  then show *: "unat (of_nat n :: u32) = n" by (simp add: unsigned_of_nat take_bit_nat_eq_self)
  then show "\<not> m < of_nat n" using assms by (simp add: word_less_nat_alt)
qed

lemma unat_max_u32: "unat (- 1 :: u32) = 2 ^ 32 - 1"
  by (simp add: unsigned_minus_1_eq_mask mask_eq_exp_minus_1)

lemma read_write_bytes [codec_simps]:
  "length bs \<le> unat m \<Longrightarrow> read_bytes m (write_bytes bs @ r) = Inr (bs, r)"
  using fits_u32[of "length bs" m]
  by (simp add: read_bytes_def write_bytes_def codec_simps read_take_def)

lemma char_of_text: "map (char_of \<circ> unat) (text_bytes s) = s"
proof -
  have "unat (of_char c :: byte) = of_char c" for c
  proof -
    have "(of_char c :: byte) = of_nat (of_char c)" by (simp add: of_nat_of_char)
    then show ?thesis by (simp add: unsigned_of_nat take_bit_nat_eq_self)
  qed
  then show ?thesis by (simp add: text_bytes_def comp_def)
qed

lemma read_write_text [codec_simps]:
  "length s \<le> unat m \<Longrightarrow> read_text m (write_text s @ r) = Inr (s, r)"
  using fits_u32[of "length s" m] char_of_text[of s]
  by (simp add: read_text_def write_text_def codec_simps read_take_def text_bytes_def)

lemma read_write_digest [codec_simps]:
  "length (digest_bytes d) = 32 \<Longrightarrow> read_digest (write_digest d @ r) = Inr (d, r)"
  by (simp add: read_digest_def write_digest_def read_take_def)

lemma read_write_digest_id [codec_simps]:
  "length (digest_id_bytes i) = 16 \<Longrightarrow> read_digest_id (write_digest_id i @ r) = Inr (i, r)"
  by (simp add: read_digest_id_def write_digest_id_def codec_simps from_digest_def)

lemma read_write_count [codec_simps]:
  "n \<le> unat m \<Longrightarrow> read_count m (write_count n @ r) = Inr (n, r)"
  using fits_u32[of n m] by (simp add: read_count_def write_count_def codec_simps)

text \<open>The primitive codecs, in the shape the composite ones build on.\<close>

interpretation u8_codec: codec write_u8 read_u8 "\<lambda>_. True"
  by unfold_locales (simp add: codec_simps)

interpretation bool_codec: codec write_bool read_bool "\<lambda>_. True"
  by unfold_locales (simp add: codec_simps)

interpretation u16_codec: codec write_u16 read_u16 "\<lambda>_. True"
  by unfold_locales (simp add: codec_simps)

interpretation u32_codec: codec write_u32 read_u32 "\<lambda>_. True"
  by unfold_locales (simp add: codec_simps)

interpretation u64_codec: codec write_u64 read_u64 "\<lambda>_. True"
  by unfold_locales (simp add: codec_simps)

interpretation i64_codec: codec write_i64 read_i64 "\<lambda>_. True"
  by unfold_locales (simp add: codec_simps)

interpretation id_codec: codec write_id read_id "\<lambda>_. True"
  by unfold_locales (simp add: codec_simps)

interpretation text_codec: codec write_text "read_text m" "\<lambda>s. length s \<le> unat m" for m
  by unfold_locales (simp add: codec_simps)

interpretation digest_codec: codec write_digest read_digest "\<lambda>d. length (digest_bytes d) = 32"
  by unfold_locales (simp add: codec_simps)

interpretation digest_id_codec: codec write_digest_id read_digest_id "\<lambda>i. length (digest_id_bytes i) = 16"
  by unfold_locales (simp add: codec_simps)

lemmas primitive_prefix_simps [prefix_simps] =
  u8_codec.append_eq[OF TrueI TrueI] u8_codec.eq[OF TrueI TrueI]
  bool_codec.append_eq[OF TrueI TrueI] bool_codec.eq[OF TrueI TrueI]
  u16_codec.append_eq[OF TrueI TrueI] u16_codec.eq[OF TrueI TrueI]
  u32_codec.append_eq[OF TrueI TrueI] u32_codec.eq[OF TrueI TrueI]
  u64_codec.append_eq[OF TrueI TrueI] u64_codec.eq[OF TrueI TrueI]
  i64_codec.append_eq[OF TrueI TrueI] i64_codec.eq[OF TrueI TrueI]
  id_codec.append_eq[OF TrueI TrueI] id_codec.eq[OF TrueI TrueI]
  digest_id_codec.append_eq digest_id_codec.eq digest_codec.append_eq digest_codec.eq

interpretation maybe_code: prefix_code write_maybe "\<lambda>_. True"
  by unfold_locales (auto simp: write_maybe_def prefix_simps intro: MaybeId.expand)

lemmas maybe_prefix_simps [prefix_simps] =
  maybe_code.append_eq[OF TrueI TrueI] maybe_code.eq[OF TrueI TrueI]

text \<open>Text has the largest bound its 32-bit length prefix can express.\<close>

definition encodable_text :: "string \<Rightarrow> bool" where
  "encodable_text s \<longleftrightarrow> length s < 2 ^ 32"

lemma write_text_append_eq [prefix_simps]:
  "encodable_text a \<Longrightarrow> encodable_text b \<Longrightarrow> write_text a @ r = write_text b @ s \<longleftrightarrow> a = b \<and> r = s"
  using text_codec.append_eq[of a "- 1" b r s] unat_max_u32 by (auto simp: encodable_text_def)

context codec
begin

lemma read_list_write:
  "length xs \<le> unat m \<Longrightarrow> list_all wf xs \<Longrightarrow> read_list m rd (write_list wr xs @ r) = Inr (xs, r)"
  by (simp add: read_list_def write_list_def codec_simps read_many_write)

end

context prefix_code
begin

lemma list_unambiguous:
  assumes "list_all wf xs" and "list_all wf ys" and "length xs < 2 ^ 32" and "length ys < 2 ^ 32"
    and "write_list wr xs @ r = write_list wr ys @ s"
  shows "xs = ys \<and> r = s"
proof -
  have "write_u32 (of_nat (length xs)) @ (concat (map wr xs) @ r) =
        write_u32 (of_nat (length ys)) @ (concat (map wr ys) @ s)"
    using assms(5) by (simp add: write_list_def write_count_def)
  then have "(of_nat (length xs) :: u32) = of_nat (length ys)"
    and tail: "concat (map wr xs) @ r = concat (map wr ys) @ s"
    using u32_codec.unambiguous by blast+
  then have "unat (of_nat (length xs) :: u32) = unat (of_nat (length ys) :: u32)" by simp
  then have "length xs = length ys"
    using assms(3,4) by (simp add: unsigned_of_nat take_bit_nat_eq_self)
  then show ?thesis using concat_unambiguous[OF _ assms(1,2) tail] by simp
qed

lemma list_append_eq:
  assumes "list_all wf xs" and "list_all wf ys" and "length xs < 2 ^ 32" and "length ys < 2 ^ 32"
  shows "write_list wr xs @ r = write_list wr ys @ s \<longleftrightarrow> xs = ys \<and> r = s"
  using list_unambiguous[OF assms] by blast

end

section \<open>Properties\<close>

text \<open>
  A bounded text written by the canonical writer is read back by the canonical reader, which
  stops exactly where the writer stopped.
\<close>

theorem canonical_text_roundtrip:
  "length s \<le> unat max_bytes \<Longrightarrow> read_text max_bytes (write_text s @ rest) = Inr (s, rest)"
  by (rule read_write_text)

theorem canonical_text_roundtrip_witness:
  "length ''leaf-7'' \<le> unat (8 :: u32) \<and>
   read_text 8 (write_text ''leaf-7'' @ [1, 2]) = Inr (''leaf-7'', [1, 2])"
  using canonical_text_roundtrip[of "''leaf-7''" 8 "[1, 2]"] by simp

end
