(* ===== verification/Source.thy ===== *)
theory Source
  imports Canonical TimeModel
begin

text \<open>
  Sources, their registry and the sequence ledger (\<open>include/pathobs/source.hpp\<close>,
  \<open>src/source.cpp\<close>). The registry and the ledger are mutex-protected maps; one call is one atomic
  step, modelled as a function from the map before to the outcome and the map after.
\<close>

section \<open>Enumerations\<close>

datatype SourceKind =
    SourceKind_Unknown | RoutingAuthority | TopologyAuthority | TelemetryObserver
  | ReplayFile | TestHarness | Simulator

datatype ProofSurface =
    ProofSurface_Unknown | Real | Synthetic | Unsupported

datatype AuthorityClass =
    AuthorityClass_None | Informational | Advisory | Authoritative

fun SourceKind_to_string :: "SourceKind \<Rightarrow> string" where
  "SourceKind_to_string SourceKind_Unknown = ''unknown''"
| "SourceKind_to_string RoutingAuthority = ''routing_authority''"
| "SourceKind_to_string TopologyAuthority = ''topology_authority''"
| "SourceKind_to_string TelemetryObserver = ''telemetry_observer''"
| "SourceKind_to_string ReplayFile = ''replay_file''"
| "SourceKind_to_string TestHarness = ''test_harness''"
| "SourceKind_to_string Simulator = ''simulator''"

definition parse_source_kind :: "string \<Rightarrow> SourceKind Result" where
  "parse_source_kind =
     parse_enum
       [(''unknown'', SourceKind_Unknown), (''routing_authority'', RoutingAuthority),
        (''topology_authority'', TopologyAuthority), (''telemetry_observer'', TelemetryObserver),
        (''replay_file'', ReplayFile), (''test_harness'', TestHarness), (''simulator'', Simulator)]
       ''unknown source kind''"

fun SourceKind_code :: "SourceKind \<Rightarrow> byte" where
  "SourceKind_code SourceKind_Unknown = 0"
| "SourceKind_code RoutingAuthority = 1"
| "SourceKind_code TopologyAuthority = 2"
| "SourceKind_code TelemetryObserver = 3"
| "SourceKind_code ReplayFile = 4"
| "SourceKind_code TestHarness = 5"
| "SourceKind_code Simulator = 6"

fun ProofSurface_to_string :: "ProofSurface \<Rightarrow> string" where
  "ProofSurface_to_string ProofSurface_Unknown = ''unknown''"
| "ProofSurface_to_string Real = ''real''"
| "ProofSurface_to_string Synthetic = ''synthetic''"
| "ProofSurface_to_string Unsupported = ''unsupported''"

definition parse_proof_surface :: "string \<Rightarrow> ProofSurface Result" where
  "parse_proof_surface =
     parse_enum
       [(''unknown'', ProofSurface_Unknown), (''real'', Real), (''synthetic'', Synthetic),
        (''unsupported'', Unsupported)]
       ''unknown proof surface''"

fun ProofSurface_code :: "ProofSurface \<Rightarrow> byte" where
  "ProofSurface_code ProofSurface_Unknown = 0"
| "ProofSurface_code Real = 1"
| "ProofSurface_code Synthetic = 2"
| "ProofSurface_code Unsupported = 3"

fun AuthorityClass_to_string :: "AuthorityClass \<Rightarrow> string" where
  "AuthorityClass_to_string AuthorityClass_None = ''none''"
| "AuthorityClass_to_string Informational = ''informational''"
| "AuthorityClass_to_string Advisory = ''advisory''"
| "AuthorityClass_to_string Authoritative = ''authoritative''"

definition parse_authority_class :: "string \<Rightarrow> AuthorityClass Result" where
  "parse_authority_class =
     parse_enum
       [(''none'', AuthorityClass_None), (''informational'', Informational),
        (''advisory'', Advisory), (''authoritative'', Authoritative)]
       ''unknown authority class''"

fun AuthorityClass_code :: "AuthorityClass \<Rightarrow> byte" where
  "AuthorityClass_code AuthorityClass_None = 0"
| "AuthorityClass_code Informational = 1"
| "AuthorityClass_code Advisory = 2"
| "AuthorityClass_code Authoritative = 3"

interpretation source_kind: text_enum SourceKind_to_string parse_source_kind SourceKind_code
  apply (rule text_enum_table[OF parse_source_kind_def])
  subgoal by simp
  subgoal for x by (cases x) simp_all
  subgoal for x y by (cases x; cases y) simp_all
  done

interpretation proof_surface: text_enum ProofSurface_to_string parse_proof_surface ProofSurface_code
  apply (rule text_enum_table[OF parse_proof_surface_def])
  subgoal by simp
  subgoal for x by (cases x) simp_all
  subgoal for x y by (cases x; cases y) simp_all
  done

interpretation authority_class:
  text_enum AuthorityClass_to_string parse_authority_class AuthorityClass_code
  apply (rule text_enum_table[OF parse_authority_class_def])
  subgoal by simp
  subgoal for x by (cases x) simp_all
  subgoal for x y by (cases x; cases y) simp_all
  done

lemmas source_enum_eq [enum_simps] =
  source_kind.code_eq proof_surface.code_eq authority_class.code_eq

section \<open>Descriptors\<close>

record SourceCapabilities =
  expected_state :: bool
  observed_evidence :: bool
  topology_capability :: bool

record SourceDescriptor =
  source_id :: SourceId
  source_name :: string
  source_kind :: SourceKind
  source_surface :: ProofSurface
  source_authority :: AuthorityClass
  source_capabilities :: SourceCapabilities
  max_observation_age :: Duration
  clock_skew_tolerance :: Duration

definition SourceDescriptor_validate :: "SourceDescriptor \<Rightarrow> Status" where
  "SourceDescriptor_validate d =
     (let c = source_capabilities d;
          routing_capable = expected_state c \<or> topology_capability c
      in first_error
        [guard_err (\<not> valid_id (source_id d)) InvalidIdentity ''source descriptor has no identity'',
         guard_err (source_name d = []) InvalidArgument ''source descriptor has no name'',
         guard_err (length (source_name d) > 256) OutOfRange ''source name is too long'',
         guard_err (source_kind d = SourceKind_Unknown) InvalidArgument ''source kind must be stated'',
         guard_err (source_surface d = ProofSurface_Unknown) InvalidArgument
           ''source proof surface must be stated as real, synthetic or unsupported'',
         guard_err (source_authority d = AuthorityClass_None) InvalidArgument
           ''source authority class must be stated'',
         guard_err (routing_capable \<and> source_authority d \<noteq> Authoritative) InvalidArgument
           ''a source that publishes expected state must be authoritative'',
         guard_err (\<not> expected_state c \<and> \<not> observed_evidence c \<and> \<not> topology_capability c)
           InvalidArgument ''source declares no capability'',
         guard_err (sint (max_observation_age d) < 0) InvalidArgument
           ''source max observation age must not be negative'',
         guard_err (sint (clock_skew_tolerance d) < 0) InvalidArgument
           ''source clock skew tolerance must not be negative''])"

text \<open>The canonical bytes of a descriptor and their digest.\<close>

definition SourceDescriptor_bytes :: "SourceDescriptor \<Rightarrow> byte list" where
  "SourceDescriptor_bytes d =
     write_text ''pathobs.source'' @ write_id (source_id d) @ write_text (source_name d) @
     write_u8 (SourceKind_code (source_kind d)) @
     write_u8 (ProofSurface_code (source_surface d)) @
     write_u8 (AuthorityClass_code (source_authority d)) @
     write_bool (expected_state (source_capabilities d)) @
     write_bool (observed_evidence (source_capabilities d)) @
     write_bool (topology_capability (source_capabilities d)) @
     write_i64 (max_observation_age d) @ write_i64 (clock_skew_tolerance d)"

definition SourceDescriptor_canonical_digest :: "hasher \<Rightarrow> SourceDescriptor \<Rightarrow> Digest" where
  "SourceDescriptor_canonical_digest H d = H (SourceDescriptor_bytes d)"

section \<open>Registry\<close>

type_synonym SourceRegistry = "(SourceId, SourceDescriptor) omap"

definition register_source :: "hasher \<Rightarrow> SourceDescriptor \<Rightarrow> SourceRegistry \<Rightarrow> Status \<times> SourceRegistry" where
  "register_source H d sources =
     (case SourceDescriptor_validate d of
        Inl e \<Rightarrow> (Inl e, sources)
      | Inr _ \<Rightarrow>
          (case map_find sources (source_id d) of
             Some existing \<Rightarrow>
               if SourceDescriptor_canonical_digest H existing = SourceDescriptor_canonical_digest H d
               then (ok, sources)
               else (Inl (Error DuplicateIdentity
                       ''a different source is already registered with this identity''), sources)
           | None \<Rightarrow> (ok, map_put (source_id d) d sources)))"

definition registry_contains :: "SourceRegistry \<Rightarrow> SourceId \<Rightarrow> bool" where
  "registry_contains sources i \<longleftrightarrow> map_find sources i \<noteq> None"

definition registry_find :: "SourceRegistry \<Rightarrow> SourceId \<Rightarrow> SourceDescriptor Result" where
  "registry_find sources i =
     (case map_find sources i of
        None \<Rightarrow> Inl (Error UnknownIdentity ''source is not registered'')
      | Some d \<Rightarrow> Inr d)"

definition registry_all :: "SourceRegistry \<Rightarrow> SourceDescriptor list" where
  "registry_all sources = map snd sources"

definition registry_size :: "SourceRegistry \<Rightarrow> nat" where
  "registry_size sources = length sources"

section \<open>Sequence ledger\<close>

datatype Verdict = InOrder | Gap | Replay | NewIncarnation

record Outcome =
  verdict :: Verdict
  outcome_missing :: u64
  outcome_highest :: SourceSequence

record LedgerEntry =
  entry_incarnation :: SourceIncarnationId
  entry_highest :: SourceSequence
  entry_missing :: u64
  entry_accepted :: u64
  entry_replays :: u64

type_synonym SourceSequenceLedger = "(SourceId, LedgerEntry) omap"

definition new_entry :: LedgerEntry where
  "new_entry = \<lparr>entry_incarnation = no_id, entry_highest = no_id, entry_missing = 0,
                entry_accepted = 0, entry_replays = 0\<rparr>"

text \<open>\<open>entries_[source]\<close> creates the entry when it is missing.\<close>

definition ledger_entry :: "SourceSequenceLedger \<Rightarrow> SourceId \<Rightarrow> LedgerEntry" where
  "ledger_entry entries s = (case map_find entries s of None \<Rightarrow> new_entry | Some e \<Rightarrow> e)"

definition entry_observe ::
  "SourceIncarnationId \<Rightarrow> SourceSequence \<Rightarrow> LedgerEntry \<Rightarrow> Outcome \<times> LedgerEntry" where
  "entry_observe inc seq e =
     (if \<not> valid_id (entry_incarnation e) \<or> entry_incarnation e \<noteq> inc
      then if valid_id (entry_incarnation e)
           then (\<lparr>verdict = NewIncarnation, outcome_missing = 0, outcome_highest = seq\<rparr>,
                 e\<lparr>entry_incarnation := inc, entry_highest := seq, entry_missing := 0,
                   entry_accepted := entry_accepted e + 1\<rparr>)
           else (\<lparr>verdict = InOrder, outcome_missing = 0, outcome_highest = seq\<rparr>,
                 e\<lparr>entry_incarnation := inc, entry_highest := seq,
                   entry_accepted := entry_accepted e + 1\<rparr>)
      else if seq \<le> entry_highest e
      then (\<lparr>verdict = Replay, outcome_missing = 0, outcome_highest = entry_highest e\<rparr>,
            e\<lparr>entry_replays := entry_replays e + 1\<rparr>)
      else let gap = id_value seq - id_value (entry_highest e) - 1
           in (\<lparr>verdict = (if gap > 0 then Gap else InOrder),
                outcome_missing = (if gap > 0 then gap else 0), outcome_highest = seq\<rparr>,
               e\<lparr>entry_missing := (if gap > 0 then entry_missing e + gap else entry_missing e),
                 entry_highest := seq, entry_accepted := entry_accepted e + 1\<rparr>))"

definition observe ::
  "SourceId \<Rightarrow> SourceIncarnationId \<Rightarrow> SourceSequence \<Rightarrow> SourceSequenceLedger
   \<Rightarrow> Outcome \<times> SourceSequenceLedger" where
  "observe s inc seq entries =
     (case entry_observe inc seq (ledger_entry entries s) of
        (out, e) \<Rightarrow> (out, map_put s e entries))"

definition missing_total :: "SourceSequenceLedger \<Rightarrow> SourceId \<Rightarrow> u64" where
  "missing_total entries s = (case map_find entries s of None \<Rightarrow> 0 | Some e \<Rightarrow> entry_missing e)"

definition has_gap :: "SourceSequenceLedger \<Rightarrow> SourceId \<Rightarrow> bool" where
  "has_gap entries s = (case map_find entries s of None \<Rightarrow> False | Some e \<Rightarrow> entry_missing e > 0)"

definition tracked_incarnations :: "SourceSequenceLedger \<Rightarrow> nat" where
  "tracked_incarnations entries = length entries"

definition gap_counts :: "SourceSequenceLedger \<Rightarrow> (SourceId, u64) omap" where
  "gap_counts entries = map (\<lambda>(s, e). (s, entry_missing e)) entries"

section \<open>Lemmas\<close>

subsection \<open>Descriptors\<close>

lemma SourceDescriptor_valid_iff:
  "SourceDescriptor_validate d = Inr u \<longleftrightarrow>
     valid_id (source_id d) \<and> source_name d \<noteq> [] \<and> length (source_name d) \<le> 256 \<and>
     source_kind d \<noteq> SourceKind_Unknown \<and> source_surface d \<noteq> ProofSurface_Unknown \<and>
     source_authority d \<noteq> AuthorityClass_None \<and>
     (expected_state (source_capabilities d) \<or> topology_capability (source_capabilities d) \<longrightarrow>
        source_authority d = Authoritative) \<and>
     (expected_state (source_capabilities d) \<or> observed_evidence (source_capabilities d) \<or>
        topology_capability (source_capabilities d)) \<and>
     0 \<le> sint (max_observation_age d) \<and> 0 \<le> sint (clock_skew_tolerance d)"
  unfolding SourceDescriptor_validate_def
  by (simp add: Let_def first_error_Inr not_less del: first_error.simps) blast

lemma encodable_literal [prefix_simps]: "encodable_text ''pathobs.source''"
  by (simp add: encodable_text_def)

text \<open>The canonical bytes determine the descriptor: two descriptors never share an encoding.\<close>

lemma SourceDescriptor_bytes_inj:
  assumes "encodable_text (source_name a)" and "encodable_text (source_name b)"
    and "SourceDescriptor_bytes a = SourceDescriptor_bytes b"
  shows "a = b"
  using assms by (simp add: SourceDescriptor_bytes_def prefix_simps enum_simps)

subsection \<open>Registry\<close>

text \<open>Every stored descriptor is valid and stored under its own identity.\<close>

definition registry_inv :: "SourceRegistry \<Rightarrow> bool" where
  "registry_inv sources \<longleftrightarrow>
     map_inv sources \<and> list_all (\<lambda>(i, d). source_id d = i \<and> SourceDescriptor_validate d = ok) sources"

text \<open>
  What the runtime relies on: a registration is accepted only for a valid descriptor, keeps what
  is registered and touches no other identity.
\<close>

locale registry =
  fixes register :: "'d \<Rightarrow> 'r \<Rightarrow> Status \<times> 'r"
    and lookup :: "'r \<Rightarrow> 'k \<Rightarrow> 'd option"
    and key :: "'d \<Rightarrow> 'k"
    and valid :: "'d \<Rightarrow> bool"
    and inv :: "'r \<Rightarrow> bool"
  assumes register_new: "valid d \<Longrightarrow> lookup r (key d) = None \<Longrightarrow>
      fst (register d r) = ok \<and> lookup (snd (register d r)) = (lookup r)(key d \<mapsto> d)"
    and register_old: "lookup r (key d) = Some d' \<Longrightarrow> lookup (snd (register d r)) = lookup r"
    and register_invalid: "\<not> valid d \<Longrightarrow> \<not> has_value (fst (register d r)) \<and> snd (register d r) = r"
    and register_inv: "inv r \<Longrightarrow> inv (snd (register d r))"
    and lookup_valid: "inv r \<Longrightarrow> lookup r k = Some d \<Longrightarrow> valid d \<and> key d = k"
begin

definition register_all :: "'d list \<Rightarrow> 'r \<Rightarrow> 'r" where
  "register_all ds r = fold (\<lambda>d r. snd (register d r)) ds r"

lemma lookup_stays: "lookup r k = Some d \<Longrightarrow> lookup (snd (register d' r)) k = Some d"
proof (cases "lookup r (key d')")
  case None
  assume l: "lookup r k = Some d"
  then have "key d' \<noteq> k" using None by auto
  then show ?thesis using l None register_new[of d' r] register_invalid[of d' r]
    by (cases "valid d'") auto
qed (simp add: register_old)

text \<open>A registered source keeps its descriptor through any later registrations.\<close>

lemma lookup_stays_all: "lookup r k = Some d \<Longrightarrow> lookup (register_all ds r) k = Some d"
  unfolding register_all_def by (induction ds arbitrary: r) (simp_all add: lookup_stays)

lemma register_all_inv: "inv r \<Longrightarrow> inv (register_all ds r)"
  unfolding register_all_def by (induction ds arbitrary: r) (simp_all add: register_inv)

end

lemma registry_inv_put:
  assumes "registry_inv r" and "SourceDescriptor_validate d = ok"
  shows "registry_inv (map_put (source_id d) d r)"
proof -
  have "set (map_put k v m) \<subseteq> insert (k, v) (set m)" for k :: SourceId and v :: SourceDescriptor and m
    by (induction k v m rule: map_put.induct) auto
  then show ?thesis using assms
    by (fastforce simp: registry_inv_def map_inv_put list_all_iff)
qed

interpretation sources:
  registry "register_source H" map_find source_id "\<lambda>d. SourceDescriptor_validate d = ok" registry_inv for H
proof
  fix d d' r k
  show "SourceDescriptor_validate d = ok \<Longrightarrow> map_find r (source_id d) = None \<Longrightarrow>
      fst (register_source H d r) = ok \<and>
      map_find (snd (register_source H d r)) = (map_find r)(source_id d \<mapsto> d)"
    by (simp add: register_source_def map_find_put)
  show "map_find r (source_id d) = Some d' \<Longrightarrow> map_find (snd (register_source H d r)) = map_find r"
    by (auto simp: register_source_def split: sum.splits)
  show "SourceDescriptor_validate d \<noteq> ok \<Longrightarrow>
      \<not> has_value (fst (register_source H d r)) \<and> snd (register_source H d r) = r"
    by (auto simp: register_source_def split: sum.splits)
  show "registry_inv r \<Longrightarrow> registry_inv (snd (register_source H d r))"
    by (auto simp: register_source_def registry_inv_put split: sum.splits option.splits)
  show "registry_inv r \<Longrightarrow> map_find r k = Some d \<Longrightarrow> SourceDescriptor_validate d = ok \<and> source_id d = k"
    by (auto simp: registry_inv_def list_all_iff map_find_def dest!: map_of_SomeD)
qed

subsection \<open>Ledger\<close>

text \<open>A run of observations of one incarnation of one source.\<close>

fun entry_run :: "SourceIncarnationId \<Rightarrow> SourceSequence list \<Rightarrow> LedgerEntry \<Rightarrow> Outcome list \<times> LedgerEntry" where
  "entry_run inc [] e = ([], e)"
| "entry_run inc (q # qs) e =
     (case entry_observe inc q e of (out, e) \<Rightarrow>
        case entry_run inc qs e of (outs, e) \<Rightarrow> (out # outs, e))"

fun ledger_run ::
  "SourceId \<Rightarrow> SourceIncarnationId \<Rightarrow> SourceSequence list \<Rightarrow> SourceSequenceLedger
   \<Rightarrow> Outcome list \<times> SourceSequenceLedger" where
  "ledger_run s inc [] l = ([], l)"
| "ledger_run s inc (q # qs) l =
     (case observe s inc q l of (out, l) \<Rightarrow>
        case ledger_run s inc qs l of (outs, l) \<Rightarrow> (out # outs, l))"

lemma ledger_entry_put [simp]: "ledger_entry (map_put s e l) s = e"
  by (simp add: ledger_entry_def map_find_put)

lemma ledger_run_entry:
  "fst (ledger_run s inc qs l) = fst (entry_run inc qs (ledger_entry l s)) \<and>
   ledger_entry (snd (ledger_run s inc qs l)) s = snd (entry_run inc qs (ledger_entry l s))"
  by (induction qs arbitrary: l) (simp_all add: observe_def prod.case_eq_if)

text \<open>The strictly increasing maxima of a sequence: what a replay-free reading of it keeps.\<close>

fun new_maxima :: "'a::linorder \<Rightarrow> 'a list \<Rightarrow> 'a list" where
  "new_maxima m [] = []"
| "new_maxima m (q # qs) = (if q \<le> m then new_maxima m qs else q # new_maxima q qs)"

lemma new_maxima_sorted: "sorted_wrt (<) (m # new_maxima m qs)"
proof (induction qs arbitrary: m)
  case (Cons q qs)
  show ?case using Cons[of m] Cons[of q] by fastforce
qed simp

definition accepted_of :: "SourceSequence list \<Rightarrow> Outcome list \<Rightarrow> SourceSequence list" where
  "accepted_of qs outs = map fst (filter (\<lambda>(q, out). verdict out \<noteq> Replay) (zip qs outs))"

lemma entry_observe_advance:
  assumes "valid_id (entry_incarnation e)" and "\<not> q \<le> entry_highest e"
  obtains out e' where "entry_observe (entry_incarnation e) q e = (out, e')" "verdict out \<noteq> Replay"
    "entry_incarnation e' = entry_incarnation e" "entry_highest e' = q"
    "entry_missing e' = entry_missing e + (id_value q - id_value (entry_highest e) - 1)"
proof -
  have "verdict (fst (entry_observe (entry_incarnation e) q e)) \<noteq> Replay"
    "entry_incarnation (snd (entry_observe (entry_incarnation e) q e)) = entry_incarnation e"
    "entry_highest (snd (entry_observe (entry_incarnation e) q e)) = q"
    "entry_missing (snd (entry_observe (entry_incarnation e) q e)) =
       entry_missing e + (id_value q - id_value (entry_highest e) - 1)"
    using assms by (simp_all add: entry_observe_def Let_def word_gt_0)
  then show ?thesis using that by (metis prod.collapse)
qed

lemma entry_run_current:
  assumes "valid_id inc" and "entry_incarnation e = inc"
  shows "accepted_of qs (fst (entry_run inc qs e)) = new_maxima (entry_highest e) qs \<and>
    entry_incarnation (snd (entry_run inc qs e)) = inc \<and>
    entry_highest (snd (entry_run inc qs e)) = last (entry_highest e # new_maxima (entry_highest e) qs) \<and>
    entry_missing (snd (entry_run inc qs e)) =
      entry_missing e + (id_value (entry_highest (snd (entry_run inc qs e))) - id_value (entry_highest e))
      - of_nat (length (new_maxima (entry_highest e) qs))"
  using assms
proof (induction qs arbitrary: e)
  case (Cons q qs)
  show ?case
  proof (cases "q \<le> entry_highest e")
    case True
    then show ?thesis
      using Cons.IH[of "e\<lparr>entry_replays := entry_replays e + 1\<rparr>"] Cons.prems
      by (simp add: entry_observe_def accepted_of_def prod.case_eq_if)
  next
    case False
    from entry_observe_advance[OF _ False] Cons.prems obtain out e' where
      e': "entry_observe inc q e = (out, e')" "verdict out \<noteq> Replay" "entry_incarnation e' = inc"
        "entry_highest e' = q"
        "entry_missing e' = entry_missing e + (id_value q - id_value (entry_highest e) - 1)"
      by metis
    define h where "h = entry_highest (snd (entry_run inc qs e'))"
    note ih = Cons.IH[OF Cons.prems(1) e'(3), unfolded h_def[symmetric] e'(4)]
    then have "entry_missing (snd (entry_run inc qs e')) =
        entry_missing e' + (id_value h - id_value q) - of_nat (length (new_maxima q qs))" by blast
    also have "\<dots> = entry_missing e + (id_value h - id_value (entry_highest e)) -
        (1 + of_nat (length (new_maxima q qs)))"
      unfolding e'(5) by simp
    finally show ?thesis using ih e'(1,2) False
      by (simp add: accepted_of_def prod.case_eq_if h_def[symmetric])
  qed
qed (simp add: accepted_of_def)

section \<open>Properties\<close>



text \<open>
  A gap is never repaired within an incarnation: a number at or below the high-water mark,
  the missing range included, is refused as a replay and changes nothing but the replay counter,
  so the missing total stays as it was.
\<close>

theorem ledger_gap_not_repaired:
  assumes "map_find ledger s = Some e" and "valid_id (entry_incarnation e)"
    and "seq \<le> entry_highest e"
  shows "verdict (fst (observe s (entry_incarnation e) seq ledger)) = Replay \<and>
    map_find (snd (observe s (entry_incarnation e) seq ledger)) =
      (map_find ledger)(s \<mapsto> e\<lparr>entry_replays := entry_replays e + 1\<rparr>) \<and>
    missing_total (snd (observe s (entry_incarnation e) seq ledger)) s = missing_total ledger s"
  using assms by (simp add: observe_def ledger_entry_def entry_observe_def missing_total_def map_find_put)

theorem ledger_gap_not_repaired_witness:
  "(let l = snd (ledger_run (StrongId 1) (StrongId 9) [StrongId 3, StrongId 8] []);
        r = observe (StrongId 1) (StrongId 9) (StrongId 5) l
    in verdict (fst r) = Replay \<and> missing_total (snd r) (StrongId 1) = 4)"
proof -
  let ?e = "\<lparr>entry_incarnation = StrongId 9, entry_highest = StrongId 8, entry_missing = 4,
             entry_accepted = 2, entry_replays = 0\<rparr>"
  have l: "snd (ledger_run (StrongId 1) (StrongId 9) [StrongId 3, StrongId 8] []) = [(StrongId 1, ?e)]"
    by (simp add: observe_def ledger_entry_def entry_observe_def new_entry_def no_id_def map_find_def)
  then show ?thesis
    using ledger_gap_not_repaired[of "[(StrongId 1, ?e)]" "StrongId 1" ?e "StrongId 5"]
    by (simp add: map_find_def missing_total_def Let_def)
qed

text \<open>
  Registering is monotone: a registered source keeps its descriptor through any sequence of
  further registrations, and every stored descriptor stays valid and keyed by its own identity.
\<close>

theorem registry_monotone:
  assumes "registry_inv sources" and "registry_find sources i = Inr d"
  shows "registry_find (fold (\<lambda>d r. snd (register_source H d r)) ds sources) i = Inr d \<and>
    registry_inv (fold (\<lambda>d r. snd (register_source H d r)) ds sources) \<and>
    SourceDescriptor_validate d = ok \<and> source_id d = i"
proof -
  have "map_find sources i = Some d"
    using assms(2) by (auto simp: registry_find_def split: option.splits)
  then show ?thesis
    using sources.lookup_stays_all[of sources i d H ds] sources.register_all_inv[OF assms(1), of H ds]
      sources.lookup_valid[OF assms(1)]
    unfolding sources.register_all_def registry_find_def by simp
qed

definition example_source :: SourceDescriptor where
  "example_source =
     \<lparr>source_id = StrongId 1, source_name = ''tap'', source_kind = TelemetryObserver,
      source_surface = Synthetic, source_authority = Advisory,
      source_capabilities = \<lparr>expected_state = False, observed_evidence = True, topology_capability = False\<rparr>,
      max_observation_age = 1000, clock_skew_tolerance = 10\<rparr>"

lemma example_source_valid: "SourceDescriptor_validate example_source = ok"
  by (simp add: SourceDescriptor_valid_iff example_source_def)

theorem registry_monotone_witness:
  "registry_find (fold (\<lambda>d r. snd (register_source (\<lambda>_. zero_digest) d r))
     [example_source\<lparr>source_name := ''other''\<rparr>, example_source\<lparr>source_id := StrongId 2\<rparr>]
     [(StrongId 1, example_source)]) (StrongId 1) = Inr example_source"
proof -
  have "registry_inv [(StrongId 1, example_source)]"
    using example_source_valid by (simp add: registry_inv_def map_inv_def example_source_def)
  moreover have "registry_find [(StrongId 1, example_source)] (StrongId 1) = Inr example_source"
    by (simp add: registry_find_def map_find_def)
  ultimately show ?thesis by (rule registry_monotone[THEN conjunct1])
qed

end
