(* ===== verification/Topology.thy ===== *)
theory Topology
  imports Source Limits
begin

text \<open>
  Topology generations and link correlation (\<open>include/pathobs/topology.hpp\<close>,
  \<open>src/topology.cpp\<close>). \<open>finalize\<close> works on the generation in place; a failure leaves a value the
  runtime discards, so the model returns the finalized generation or the error.
\<close>

section \<open>Enumerations\<close>

datatype DeviceRole = DeviceRole_Unknown | Switch | Router | Host | LineCard | Appliance

datatype LinkKind = LinkKind_Unknown | Physical | Logical | Tunnel | Lag

fun DeviceRole_to_string :: "DeviceRole \<Rightarrow> string" where
  "DeviceRole_to_string DeviceRole_Unknown = ''unknown''"
| "DeviceRole_to_string Switch = ''switch''"
| "DeviceRole_to_string Router = ''router''"
| "DeviceRole_to_string Host = ''host''"
| "DeviceRole_to_string LineCard = ''line_card''"
| "DeviceRole_to_string Appliance = ''appliance''"

definition parse_device_role :: "string \<Rightarrow> DeviceRole Result" where
  "parse_device_role =
     parse_enum
       [(''unknown'', DeviceRole_Unknown), (''switch'', Switch), (''router'', Router),
        (''host'', Host), (''line_card'', LineCard), (''appliance'', Appliance)]
       ''unknown device role''"

fun DeviceRole_code :: "DeviceRole \<Rightarrow> byte" where
  "DeviceRole_code DeviceRole_Unknown = 0"
| "DeviceRole_code Switch = 1"
| "DeviceRole_code Router = 2"
| "DeviceRole_code Host = 3"
| "DeviceRole_code LineCard = 4"
| "DeviceRole_code Appliance = 5"

fun LinkKind_to_string :: "LinkKind \<Rightarrow> string" where
  "LinkKind_to_string LinkKind_Unknown = ''unknown''"
| "LinkKind_to_string Physical = ''physical''"
| "LinkKind_to_string Logical = ''logical''"
| "LinkKind_to_string Tunnel = ''tunnel''"
| "LinkKind_to_string Lag = ''lag''"

definition parse_link_kind :: "string \<Rightarrow> LinkKind Result" where
  "parse_link_kind =
     parse_enum
       [(''unknown'', LinkKind_Unknown), (''physical'', Physical), (''logical'', Logical),
        (''tunnel'', Tunnel), (''lag'', Lag)]
       ''unknown link kind''"

fun LinkKind_code :: "LinkKind \<Rightarrow> byte" where
  "LinkKind_code LinkKind_Unknown = 0"
| "LinkKind_code Physical = 1"
| "LinkKind_code Logical = 2"
| "LinkKind_code Tunnel = 3"
| "LinkKind_code Lag = 4"

interpretation device_role: text_enum DeviceRole_to_string parse_device_role DeviceRole_code
  apply (rule text_enum_table[OF parse_device_role_def])
  subgoal by simp
  subgoal for x by (cases x) simp_all
  subgoal for x y by (cases x; cases y) simp_all
  done

interpretation link_kind: text_enum LinkKind_to_string parse_link_kind LinkKind_code
  apply (rule text_enum_table[OF parse_link_kind_def])
  subgoal by simp
  subgoal for x by (cases x) simp_all
  subgoal for x y by (cases x; cases y) simp_all
  done

lemmas topology_enum_eq [enum_simps] = device_role.code_eq link_kind.code_eq

section \<open>Records\<close>

record DeviceRecord =
  device_id :: DeviceId
  device_name :: string
  device_role :: DeviceRole

record PortRecord =
  port_id :: PortId
  port_device :: DeviceId
  port_name :: string
  port_index :: u32

record LinkRecord =
  link_id :: LinkId
  local_device :: DeviceId
  local_port :: PortId
  remote_device :: DeviceId
  remote_port :: PortId
  link_kind :: LinkKind

text \<open>A device and a port, compared lexicographically.\<close>

datatype HopEndpoint = HopEndpoint (hop_device: DeviceId) (hop_port: PortId)

instantiation HopEndpoint :: linorder
begin

definition less_eq_HopEndpoint :: "HopEndpoint \<Rightarrow> HopEndpoint \<Rightarrow> bool" where
  "less_eq_HopEndpoint a b \<longleftrightarrow>
     hop_device a < hop_device b \<or> hop_device a = hop_device b \<and> hop_port a \<le> hop_port b"

definition less_HopEndpoint :: "HopEndpoint \<Rightarrow> HopEndpoint \<Rightarrow> bool" where
  "less_HopEndpoint a b \<longleftrightarrow>
     hop_device a < hop_device b \<or> hop_device a = hop_device b \<and> hop_port a < hop_port b"

instance
  by standard (auto simp: less_eq_HopEndpoint_def less_HopEndpoint_def HopEndpoint.expand)

end

record TopologyGeneration =
  topo_id :: TopologyGenerationId
  topo_epoch :: EpochId
  topo_incarnation :: IncarnationId
  topo_revision :: RevisionId
  topo_sequence :: SourceSequence
  topo_source :: SourceId
  topo_created :: TimePoint
  topo_received :: TimePoint
  devices :: "DeviceRecord list"
  ports :: "PortRecord list"
  links :: "LinkRecord list"
  topo_digest :: Digest

section \<open>Canonical digest\<close>

definition write_device :: "DeviceRecord \<Rightarrow> byte list" where
  "write_device d = write_id (device_id d) @ write_text (device_name d) @ write_u8 (DeviceRole_code (device_role d))"

definition write_port :: "PortRecord \<Rightarrow> byte list" where
  "write_port p =
     write_id (port_id p) @ write_id (port_device p) @ write_text (port_name p) @ write_u32 (port_index p)"

definition write_link :: "LinkRecord \<Rightarrow> byte list" where
  "write_link l =
     write_id (link_id l) @ write_id (local_device l) @ write_id (local_port l) @
     write_id (remote_device l) @ write_id (remote_port l) @ write_u8 (LinkKind_code (link_kind l))"

definition TopologyGeneration_bytes :: "TopologyGeneration \<Rightarrow> byte list" where
  "TopologyGeneration_bytes g =
     write_text ''pathobs.topology_generation'' @ write_id (topo_id g) @ write_id (topo_epoch g) @
     write_id (topo_incarnation g) @ write_id (topo_revision g) @ write_id (topo_sequence g) @
     write_id (topo_source g) @ write_i64 (unix_nanos (topo_created g)) @
     write_list write_device (devices g) @ write_list write_port (ports g) @
     write_list write_link (links g)"

definition TopologyGeneration_canonical_digest :: "hasher \<Rightarrow> TopologyGeneration \<Rightarrow> Digest" where
  "TopologyGeneration_canonical_digest H g = H (TopologyGeneration_bytes g)"

section \<open>Finalize\<close>

definition port_belongs :: "PortRecord list \<Rightarrow> PortId \<Rightarrow> DeviceId \<Rightarrow> bool" where
  "port_belongs ps p d =
     (case find_by_key port_id p ps of None \<Rightarrow> False | Some r \<Rightarrow> port_device r = d)"

definition device_present :: "DeviceRecord list \<Rightarrow> DeviceId \<Rightarrow> bool" where
  "device_present ds d = list_ex (\<lambda>r. device_id r = d) ds"

definition device_checks :: "DeviceRecord list \<Rightarrow> nat \<Rightarrow> Status list" where
  "device_checks ds i =
     [guard_err (\<not> valid_id (device_id (ds ! i))) InvalidIdentity
        ''topology contains a device without identity'',
      guard_err (repeats device_id ds i) DuplicateIdentity
        ''topology contains a duplicate device identity'']"

definition port_checks :: "DeviceRecord list \<Rightarrow> PortRecord list \<Rightarrow> nat \<Rightarrow> Status list" where
  "port_checks ds ps i =
     [guard_err (\<not> valid_id (port_id (ps ! i)) \<or> \<not> valid_id (port_device (ps ! i))) InvalidIdentity
        ''topology contains a port without identity'',
      guard_err (repeats port_id ps i) DuplicateIdentity
        ''topology contains a duplicate port identity'',
      guard_err (\<not> device_present ds (port_device (ps ! i))) UnknownIdentity
        ''topology port references a device that is not in the generation'']"

definition link_checks :: "PortRecord list \<Rightarrow> LinkRecord list \<Rightarrow> nat \<Rightarrow> Status list" where
  "link_checks ps ls i =
     (let link = ls ! i in
      [guard_err (\<not> valid_id (link_id link) \<or> \<not> valid_id (local_device link) \<or>
                  \<not> valid_id (local_port link) \<or> \<not> valid_id (remote_device link) \<or>
                  \<not> valid_id (remote_port link)) InvalidIdentity
         ''topology contains a link without identity'',
       guard_err (repeats link_id ls i) DuplicateIdentity
         ''topology contains a duplicate link identity'',
       guard_err (\<not> port_belongs ps (local_port link) (local_device link)) UnknownIdentity
         ''topology link local port does not belong to the local device'',
       guard_err (\<not> port_belongs ps (remote_port link) (remote_device link)) UnknownIdentity
         ''topology link remote port does not belong to the remote device''])"

definition TopologyGeneration_finalize ::
  "hasher \<Rightarrow> Limits \<Rightarrow> TopologyGeneration \<Rightarrow> TopologyGeneration Result" where
  "TopologyGeneration_finalize H limits g =
     try_bind (first_error
       [guard_err (\<not> valid_id (topo_id g) \<or> \<not> valid_id (topo_epoch g) \<or> \<not> valid_id (topo_incarnation g) \<or>
                   \<not> valid_id (topo_revision g) \<or> \<not> valid_id (topo_source g)) InvalidIdentity
          ''topology generation is missing one of generation, epoch, incarnation, revision or source'',
        guard_err (length (devices g) > unat (max_devices_per_topology limits)) CapacityExceeded
          ''topology device count exceeds the configured bound'',
        guard_err (length (links g) > unat (max_links_per_topology limits)) CapacityExceeded
          ''topology link count exceeds the configured bound'',
        guard_err (length (ports g) > unat (max_links_per_topology limits) * 2) CapacityExceeded
          ''topology port count exceeds the configured bound''])
     (\<lambda>_. let ds = sort_by_key device_id (devices g);
              ps = sort_by_key port_id (ports g);
              ls = sort_by_key link_id (links g);
              g = g\<lparr>devices := ds, ports := ps, links := ls\<rparr>
          in try_bind (first_error
               [indexed_checks (device_checks ds) (length ds),
                indexed_checks (port_checks ds ps) (length ps),
                indexed_checks (link_checks ps ls) (length ls)])
             (\<lambda>_. Inr (g\<lparr>topo_digest := TopologyGeneration_canonical_digest H g\<rparr>)))"

definition find_device :: "TopologyGeneration \<Rightarrow> DeviceId \<Rightarrow> DeviceRecord option" where
  "find_device g i = find_by_key device_id i (devices g)"

definition find_port :: "TopologyGeneration \<Rightarrow> PortId \<Rightarrow> PortRecord option" where
  "find_port g i = find_by_key port_id i (ports g)"

definition find_link :: "TopologyGeneration \<Rightarrow> LinkId \<Rightarrow> LinkRecord option" where
  "find_link g i = find_by_key link_id i (links g)"

section \<open>Index\<close>

record LinkResolution =
  resolved_link :: LinkId
  link_known :: bool
  link_ambiguous :: bool
  link_candidates :: nat

text \<open>The pointer to the generation is the generation itself, or none for a null pointer.\<close>

record TopologyIndex =
  index_generation :: "TopologyGeneration option"
  device_positions :: "(DeviceId, nat) omap"
  port_positions :: "(PortId, nat) omap"
  link_positions :: "(LinkId, nat) omap"
  links_by_endpoint :: "(HopEndpoint, LinkId list) omap"

definition empty_index :: TopologyIndex where
  "empty_index = \<lparr>index_generation = None, device_positions = [], port_positions = [],
                   link_positions = [], links_by_endpoint = []\<rparr>"

definition positions :: "('a \<Rightarrow> 'k::linorder) \<Rightarrow> 'a list \<Rightarrow> ('k, nat) omap" where
  "positions key xs = fold (\<lambda>i. map_emplace (key (xs ! i)) i) [0..<length xs] []"

definition push_link :: "HopEndpoint \<Rightarrow> LinkId \<Rightarrow> (HopEndpoint, LinkId list) omap \<Rightarrow> (HopEndpoint, LinkId list) omap" where
  "push_link ep l m = map_put ep ((case map_find m ep of None \<Rightarrow> [] | Some ls \<Rightarrow> ls) @ [l]) m"

definition add_link :: "LinkRecord \<Rightarrow> (HopEndpoint, LinkId list) omap \<Rightarrow> (HopEndpoint, LinkId list) omap" where
  "add_link l m =
     push_link (HopEndpoint (remote_device l) (remote_port l)) (link_id l)
       (push_link (HopEndpoint (local_device l) (local_port l)) (link_id l) m)"

definition TopologyIndex_build :: "TopologyGeneration \<Rightarrow> Limits \<Rightarrow> TopologyIndex Result" where
  "TopologyIndex_build g limits =
     (if length (devices g) > unat (max_devices_per_topology limits) \<or>
         length (links g) > unat (max_links_per_topology limits)
      then Inl (Error CapacityExceeded ''topology index would exceed the configured bound'')
      else Inr \<lparr>index_generation = Some g,
                device_positions = positions device_id (devices g),
                port_positions = positions port_id (ports g),
                link_positions = positions link_id (links g),
                links_by_endpoint =
                  map (\<lambda>(ep, ls). (ep, remdups_adj (std_sort (<) ls))) (fold add_link (links g) [])\<rparr>)"

definition resolve_link :: "TopologyIndex \<Rightarrow> DeviceId \<Rightarrow> PortId \<Rightarrow> LinkResolution Result" where
  "resolve_link ix d p =
     (case index_generation ix of
        None \<Rightarrow> Inl (Error InvalidState ''link correlation requested without a topology index'')
      | Some _ \<Rightarrow> Inr
          (case map_find (links_by_endpoint ix) (HopEndpoint d p) of
             None \<Rightarrow> \<lparr>resolved_link = no_id, link_known = False, link_ambiguous = False, link_candidates = 0\<rparr>
           | Some ls \<Rightarrow>
               if length ls = 1
               then \<lparr>resolved_link = hd ls, link_known = True, link_ambiguous = False,
                     link_candidates = length ls\<rparr>
               else \<lparr>resolved_link = no_id, link_known = False, link_ambiguous = True,
                     link_candidates = length ls\<rparr>))"

definition has_device :: "TopologyIndex \<Rightarrow> DeviceId \<Rightarrow> bool" where
  "has_device ix d \<longleftrightarrow> map_find (device_positions ix) d \<noteq> None"

definition has_port :: "TopologyIndex \<Rightarrow> DeviceId \<Rightarrow> PortId \<Rightarrow> bool" where
  "has_port ix d p =
     (case map_find (port_positions ix) p of
        None \<Rightarrow> False
      | Some i \<Rightarrow>
          (case index_generation ix of None \<Rightarrow> False | Some g \<Rightarrow> port_device (ports g ! i) = d))"

definition device_count :: "TopologyIndex \<Rightarrow> nat" where
  "device_count ix = (case index_generation ix of None \<Rightarrow> 0 | Some g \<Rightarrow> length (devices g))"

definition link_count :: "TopologyIndex \<Rightarrow> nat" where
  "link_count ix = (case index_generation ix of None \<Rightarrow> 0 | Some g \<Rightarrow> length (links g))"

section \<open>Lemmas\<close>

text \<open>What \<open>finalize\<close> establishes.\<close>

definition topology_inv :: "TopologyGeneration \<Rightarrow> bool" where
  "topology_inv g \<longleftrightarrow>
     sorted (map device_id (devices g)) \<and> distinct (map device_id (devices g)) \<and>
     sorted (map port_id (ports g)) \<and> distinct (map port_id (ports g)) \<and>
     sorted (map link_id (links g)) \<and> distinct (map link_id (links g)) \<and>
     list_all (\<lambda>d. valid_id (device_id d)) (devices g) \<and>
     list_all (\<lambda>p. valid_id (port_id p) \<and> port_device p \<in> device_id ` set (devices g)) (ports g) \<and>
     list_all (\<lambda>l. valid_id (link_id l) \<and>
       (\<exists>p\<in>set (ports g). port_id p = local_port l \<and> port_device p = local_device l) \<and>
       (\<exists>p\<in>set (ports g). port_id p = remote_port l \<and> port_device p = remote_device l)) (links g)"

lemma port_belongs_iff:
  assumes "sorted (map port_id ps)" and "distinct (map port_id ps)"
  shows "port_belongs ps p d \<longleftrightarrow> (\<exists>r\<in>set ps. port_id r = p \<and> port_device r = d)"
proof
  show "port_belongs ps p d \<Longrightarrow> \<exists>r\<in>set ps. port_id r = p \<and> port_device r = d"
    using find_by_key_sound[of port_id p ps] by (auto simp: port_belongs_def split: option.splits)
  assume "\<exists>r\<in>set ps. port_id r = p \<and> port_device r = d"
  then obtain r where r: "r \<in> set ps" "port_id r = p" "port_device r = d" by blast
  show "port_belongs ps p d"
    using find_by_key_complete[OF assms r(1)] r(2,3) by (simp add: port_belongs_def)
qed

lemma device_present_iff: "device_present ds d \<longleftrightarrow> d \<in> device_id ` set ds"
  by (auto simp: device_present_def list_ex_iff)

lemma sorted_checks_ok:
  "indexed_checks (device_checks ds) (length ds) = Inr u \<Longrightarrow> sorted (map device_id ds) \<Longrightarrow>
     distinct (map device_id ds) \<and> list_all (\<lambda>d. valid_id (device_id d)) ds"
  "indexed_checks (port_checks ds ps) (length ps) = Inr u \<Longrightarrow> sorted (map port_id ps) \<Longrightarrow>
     distinct (map port_id ps) \<and>
     list_all (\<lambda>p. valid_id (port_id p) \<and> port_device p \<in> device_id ` set ds) ps"
  "indexed_checks (link_checks ps ls) (length ls) = Inr u \<Longrightarrow> sorted (map link_id ls) \<Longrightarrow>
     distinct (map link_id ls) \<and>
     list_all (\<lambda>l. valid_id (link_id l) \<and> port_belongs ps (local_port l) (local_device l) \<and>
       port_belongs ps (remote_port l) (remote_device l)) ls"
  by (auto simp: indexed_checks_Inr device_checks_def port_checks_def link_checks_def Let_def
      device_present_iff list_all_length intro!: distinct_if_no_repeats)

lemma finalize_shape:
  assumes "TopologyGeneration_finalize H limits g = Inr g'"
  shows "devices g' = sort_by_key device_id (devices g) \<and> ports g' = sort_by_key port_id (ports g) \<and>
    links g' = sort_by_key link_id (links g) \<and>
    topo_digest g' = TopologyGeneration_canonical_digest H g' \<and>
    g' = g\<lparr>devices := devices g', ports := ports g', links := links g', topo_digest := topo_digest g'\<rparr>"
  using assms
  by (auto simp: TopologyGeneration_finalize_def try_bind_eq_Inr Let_def TopologyGeneration_canonical_digest_def
      TopologyGeneration_bytes_def)

lemma finalize_inv:
  assumes "TopologyGeneration_finalize H limits g = Inr g'"
  shows "topology_inv g'"
proof -
  have checks: "indexed_checks (device_checks (devices g')) (length (devices g')) = ok"
    "indexed_checks (port_checks (devices g') (ports g')) (length (ports g')) = ok"
    "indexed_checks (link_checks (ports g') (links g')) (length (links g')) = ok"
    using assms by (auto simp: TopologyGeneration_finalize_def try_bind_eq_Inr Let_def first_error_Inr
        simp del: first_error.simps)
  have sorted: "sorted (map device_id (devices g'))" "sorted (map port_id (ports g'))"
    "sorted (map link_id (links g'))"
    using finalize_shape[OF assms] by simp_all
  note d = sorted_checks_ok(1)[OF checks(1) sorted(1)]
    and p = sorted_checks_ok(2)[OF checks(2) sorted(2)]
    and l = sorted_checks_ok(3)[OF checks(3) sorted(3)]
  show ?thesis
    unfolding topology_inv_def using d p l sorted port_belongs_iff[OF sorted(2)]
    by (auto simp: list_all_iff)
qed

text \<open>The candidate links of an endpoint, read off the generation.\<close>

definition touching :: "TopologyGeneration \<Rightarrow> DeviceId \<Rightarrow> PortId \<Rightarrow> LinkId set" where
  "touching g d p =
     link_id ` {l \<in> set (links g). local_device l = d \<and> local_port l = p \<or>
                                   remote_device l = d \<and> remote_port l = p}"

definition bucket :: "(HopEndpoint, LinkId list) omap \<Rightarrow> HopEndpoint \<Rightarrow> LinkId list" where
  "bucket m ep = (case map_find m ep of None \<Rightarrow> [] | Some ls \<Rightarrow> ls)"

lemma bucket_push: "bucket (push_link ep l m) ep' = (if ep' = ep then bucket m ep @ [l] else bucket m ep')"
  by (simp add: bucket_def push_link_def map_find_put)

lemma bucket_fold:
  "set (bucket (fold add_link ls m) (HopEndpoint d p)) = set (bucket m (HopEndpoint d p)) \<union>
     link_id ` {l \<in> set ls. local_device l = d \<and> local_port l = p \<or> remote_device l = d \<and> remote_port l = p}"
  by (induction ls arbitrary: m) (auto simp: add_link_def bucket_push)

text \<open>No bucket of the index is empty.\<close>

lemma fold_add_link_nonempty:
  "\<forall>ep. map_find m ep \<noteq> Some [] \<Longrightarrow> map_find (fold add_link ls m) ep \<noteq> Some []"
proof (induction ls arbitrary: m)
  case (Cons l ls)
  have "\<forall>ep. map_find (push_link e i m) ep \<noteq> Some []" if "\<forall>ep. map_find m ep \<noteq> Some []" for e i m
    using that by (simp add: push_link_def map_find_put)
  then have "\<forall>ep. map_find (add_link l m) ep \<noteq> Some []"
    unfolding add_link_def using Cons.prems by blast
  then show ?case using Cons.IH by simp
qed simp

lemma map_find_map_value: "map_find (map (\<lambda>(k, v). (k, f v)) m) k = map_option f (map_find m k)"
  unfolding map_find_def by (induction m) auto

lemma finalize_perm:
  assumes "TopologyGeneration_finalize H limits g = Inr g'"
    and "mset ds = mset (devices g)" and "mset ps = mset (ports g)" and "mset ls = mset (links g)"
  shows "TopologyGeneration_finalize H limits (g\<lparr>devices := ds, ports := ps, links := ls\<rparr>) = Inr g'"
proof -
  note shape = finalize_shape[OF assms(1)] and inv = finalize_inv[OF assms(1), unfolded topology_inv_def]
  have "sort_by_key device_id ds = sort_by_key device_id (devices g)"
    by (rule sort_by_key_perm_sorted) (use assms(2) inv shape in simp_all)
  moreover have "sort_by_key port_id ps = sort_by_key port_id (ports g)"
    by (rule sort_by_key_perm_sorted) (use assms(3) inv shape in simp_all)
  moreover have "sort_by_key link_id ls = sort_by_key link_id (links g)"
    by (rule sort_by_key_perm_sorted) (use assms(4) inv shape in simp_all)
  moreover have "length ds = length (devices g)" "length ps = length (ports g)" "length ls = length (links g)"
    using assms(2-4) by (metis size_mset)+
  ultimately show ?thesis using assms(1)
    by (simp add: TopologyGeneration_finalize_def Let_def TopologyGeneration_canonical_digest_def
        TopologyGeneration_bytes_def)
qed

section \<open>Properties\<close>

text \<open>
  A finalized topology is well formed: devices, ports and links are sorted by valid, pairwise
  distinct identities, every port belongs to a device of the generation, both ends of every link
  are ports of the stated devices, the content is the submitted content, and binary search finds
  every device by its identity.
\<close>

theorem topology_finalize_sound:
  assumes "TopologyGeneration_finalize H limits g = Inr g'"
  shows "topology_inv g' \<and> mset (devices g') = mset (devices g) \<and> mset (ports g') = mset (ports g) \<and>
    mset (links g') = mset (links g) \<and>
    (\<forall>d. d \<in> set (devices g) \<longrightarrow> find_device g' (device_id d) = Some d)"
proof -
  note shape = finalize_shape[OF assms] and inv = finalize_inv[OF assms]
  have "find_device g' (device_id d) = Some d" if "d \<in> set (devices g)" for d
    unfolding find_device_def
    by (rule find_by_key_complete) (use inv that shape in \<open>auto simp: topology_inv_def\<close>)
  then show ?thesis using inv shape by simp
qed

definition example_device :: "u64 \<Rightarrow> DeviceRecord" where
  "example_device n = \<lparr>device_id = StrongId n, device_name = ''d'', device_role = Switch\<rparr>"

definition example_port :: "u64 \<Rightarrow> u64 \<Rightarrow> PortRecord" where
  "example_port n d = \<lparr>port_id = StrongId n, port_device = StrongId d, port_name = ''p'', port_index = 0\<rparr>"

definition example_link :: "u64 \<Rightarrow> u64 \<Rightarrow> u64 \<Rightarrow> u64 \<Rightarrow> u64 \<Rightarrow> LinkRecord" where
  "example_link n d p d' p' =
     \<lparr>link_id = StrongId n, local_device = StrongId d, local_port = StrongId p,
      remote_device = StrongId d', remote_port = StrongId p', link_kind = Physical\<rparr>"

definition example_topology :: TopologyGeneration where
  "example_topology =
     \<lparr>topo_id = StrongId 1, topo_epoch = StrongId 1, topo_incarnation = StrongId 1,
      topo_revision = StrongId 1, topo_sequence = StrongId 1, topo_source = StrongId 1,
      topo_created = unset, topo_received = unset,
      devices = [example_device 2, example_device 1],
      ports = [example_port 21 2, example_port 11 1],
      links = [example_link 5 1 11 2 21], topo_digest = zero_digest\<rparr>"

lemma example_topology_finalizes:
  "\<exists>g'. TopologyGeneration_finalize (\<lambda>_. zero_digest) default_limits example_topology = Inr g'"
  by (simp add: TopologyGeneration_finalize_def example_topology_def example_device_def example_port_def
      example_link_def default_limits_def guard_err_def std_sort_Cons indexed_checks_def Let_def
      device_checks_def port_checks_def link_checks_def repeats_def device_present_def port_belongs_def
      find_by_key_Cons upt_rec)

theorem topology_finalize_sound_witness:
  "\<exists>g'. TopologyGeneration_finalize (\<lambda>_. zero_digest) default_limits example_topology = Inr g' \<and>
        topology_inv g' \<and> find_device g' (StrongId 2) = Some (example_device 2)"
proof -
  obtain g' where g': "TopologyGeneration_finalize (\<lambda>_. zero_digest) default_limits example_topology = Inr g'"
    using example_topology_finalizes by blast
  have "example_device 2 \<in> set (devices example_topology)" "device_id (example_device 2) = StrongId 2"
    by (simp_all add: example_topology_def example_device_def)
  then show ?thesis using topology_finalize_sound[OF g'] g' by metis
qed

text \<open>
  Finalizing does not depend on the order of submission: any permutation of the devices,
  ports and links gives the same generation with the same digest.
\<close>

theorem topology_finalize_order_independent:
  assumes "TopologyGeneration_finalize H limits g = Inr g'"
    and "mset ds = mset (devices g)" and "mset ps = mset (ports g)" and "mset ls = mset (links g)"
  shows "TopologyGeneration_finalize H limits (g\<lparr>devices := ds, ports := ps, links := ls\<rparr>) = Inr g'"
  using assms by (rule finalize_perm)

theorem topology_finalize_order_independent_witness:
  "TopologyGeneration_finalize (\<lambda>_. zero_digest) default_limits
     (example_topology\<lparr>devices := rev (devices example_topology), ports := rev (ports example_topology),
                        links := rev (links example_topology)\<rparr>) =
   TopologyGeneration_finalize (\<lambda>_. zero_digest) default_limits example_topology"
proof -
  obtain g' where g': "TopologyGeneration_finalize (\<lambda>_. zero_digest) default_limits example_topology = Inr g'"
    using example_topology_finalizes by blast
  show ?thesis
    unfolding g' by (rule topology_finalize_order_independent[OF g']) simp_all
qed

text \<open>
  Link correlation is conservative and exact: the index resolves an endpoint to a link
  precisely when one and only one link of the generation has that endpoint at either end; with
  none or several it reports the number of candidates and no link.
\<close>

theorem resolve_link_exact:
  assumes "TopologyIndex_build g limits = Inr ix"
  shows "\<exists>res. resolve_link ix d p = Inr res \<and>
    link_candidates res = card (touching g d p) \<and>
    (link_known res \<longleftrightarrow> touching g d p = {resolved_link res}) \<and>
    (link_ambiguous res \<longleftrightarrow> card (touching g d p) \<ge> 2) \<and>
    (\<not> link_known res \<longleftrightarrow> resolved_link res = no_id \<and> card (touching g d p) \<noteq> 1)"
proof -
  let ?m = "fold add_link (links g) []"
  let ?ls = "bucket ?m (HopEndpoint d p)"
  have ix: "index_generation ix = Some g"
    "links_by_endpoint ix = map (\<lambda>(ep, ls). (ep, remdups_adj (std_sort (<) ls))) ?m"
    using assms by (auto simp: TopologyIndex_build_def split: if_splits)
  have set: "set ?ls = touching g d p"
    using bucket_fold[of "links g" "[]" d p] by (simp add: bucket_def touching_def)
  show ?thesis
  proof (cases "map_find ?m (HopEndpoint d p)")
    case None
    then have "touching g d p = {}" using set by (simp add: bucket_def)
    then show ?thesis using None ix by (simp add: resolve_link_def map_find_map_value)
  next
    case (Some ls)
    then have ls: "set ls = touching g d p" "ls \<noteq> []"
      using set fold_add_link_nonempty[of "[]" "links g" "HopEndpoint d p"] by (auto simp: bucket_def)
    have n: "length (remdups_adj (std_sort (<) ls)) = card (touching g d p)"
      using ls(1) by (simp add: length_unique_sorted)
    have "card (touching g d p) \<noteq> 0" using ls by (metis card_0_eq finite_set set_empty)
    moreover have "touching g d p = {hd (remdups_adj (std_sort (<) ls))}" if "card (touching g d p) = 1"
      using unique_sorted_singleton[of ls] n that ls(1) by simp
    moreover have "card (touching g d p) = 1" if "touching g d p = {x}" for x using that by simp
    ultimately show ?thesis
      using Some ix n by (auto simp: resolve_link_def map_find_map_value)
  qed
qed

theorem resolve_link_exact_witness:
  "\<exists>ix res. TopologyIndex_build example_topology default_limits = Inr ix \<and>
     resolve_link ix (StrongId 2) (StrongId 21) = Inr res \<and> link_known res \<and> resolved_link res = StrongId 5"
proof -
  have "length (devices example_topology) \<le> unat (max_devices_per_topology default_limits)"
    "length (links example_topology) \<le> unat (max_links_per_topology default_limits)"
    by (simp_all add: example_topology_def default_limits_def)
  then obtain ix where ix: "TopologyIndex_build example_topology default_limits = Inr ix"
    unfolding TopologyIndex_build_def by simp
  have "links example_topology = [example_link 5 1 11 2 21]" by (simp add: example_topology_def)
  then have t: "touching example_topology (StrongId 2) (StrongId 21) = {StrongId 5}"
    unfolding touching_def by (simp add: example_link_def cong: conj_cong)
  obtain res where res: "resolve_link ix (StrongId 2) (StrongId 21) = Inr res"
    "\<not> link_known res \<longleftrightarrow> resolved_link res = no_id \<and> card {StrongId 5 :: LinkId} \<noteq> 1"
    "link_known res \<longleftrightarrow> {StrongId 5} = {resolved_link res}"
    using resolve_link_exact[OF ix, of "StrongId 2" "StrongId 21"] unfolding t by blast
  then have "link_known res" by simp
  then have "resolved_link res = StrongId 5" using res(3) by auto
  then show ?thesis using ix res(1) \<open>link_known res\<close> by blast
qed

end
