(* ===== verification/Observed.thy ===== *)
theory Observed
  imports Source Limits
begin

text \<open>
  Observed path evidence (\<open>include/pathobs/observed.hpp\<close>, \<open>src/observed.cpp\<close>): the record a source
  submits, its validation, and its content-derived identity.
\<close>

section \<open>Enumerations\<close>

datatype HopLinkProvenance = Provenance_Absent | Provenance_Observed | Provenance_Correlated

datatype EvidenceCompleteness = Evidence_Unknown | Evidence_Partial | Evidence_Complete

fun HopLinkProvenance_to_string :: "HopLinkProvenance \<Rightarrow> string" where
  "HopLinkProvenance_to_string Provenance_Absent = ''absent''"
| "HopLinkProvenance_to_string Provenance_Observed = ''observed''"
| "HopLinkProvenance_to_string Provenance_Correlated = ''correlated''"

definition parse_hop_link_provenance :: "string \<Rightarrow> HopLinkProvenance Result" where
  "parse_hop_link_provenance =
     parse_enum
       [(''absent'', Provenance_Absent), (''observed'', Provenance_Observed),
        (''correlated'', Provenance_Correlated)]
       ''unknown hop link provenance''"

fun HopLinkProvenance_code :: "HopLinkProvenance \<Rightarrow> byte" where
  "HopLinkProvenance_code Provenance_Absent = 0"
| "HopLinkProvenance_code Provenance_Observed = 1"
| "HopLinkProvenance_code Provenance_Correlated = 2"

fun EvidenceCompleteness_to_string :: "EvidenceCompleteness \<Rightarrow> string" where
  "EvidenceCompleteness_to_string Evidence_Unknown = ''unknown''"
| "EvidenceCompleteness_to_string Evidence_Partial = ''partial''"
| "EvidenceCompleteness_to_string Evidence_Complete = ''complete''"

definition parse_evidence_completeness :: "string \<Rightarrow> EvidenceCompleteness Result" where
  "parse_evidence_completeness =
     parse_enum
       [(''unknown'', Evidence_Unknown), (''partial'', Evidence_Partial),
        (''complete'', Evidence_Complete)]
       ''unknown evidence completeness''"

fun EvidenceCompleteness_code :: "EvidenceCompleteness \<Rightarrow> byte" where
  "EvidenceCompleteness_code Evidence_Unknown = 0"
| "EvidenceCompleteness_code Evidence_Partial = 1"
| "EvidenceCompleteness_code Evidence_Complete = 2"

interpretation hop_link_provenance:
  text_enum HopLinkProvenance_to_string parse_hop_link_provenance HopLinkProvenance_code
  apply (rule text_enum_table[OF parse_hop_link_provenance_def])
  subgoal by simp
  subgoal for x by (cases x) simp_all
  subgoal for x y by (cases x; cases y) simp_all
  done

interpretation evidence_completeness:
  text_enum EvidenceCompleteness_to_string parse_evidence_completeness EvidenceCompleteness_code
  apply (rule text_enum_table[OF parse_evidence_completeness_def])
  subgoal by simp
  subgoal for x by (cases x) simp_all
  subgoal for x y by (cases x; cases y) simp_all
  done

lemmas observed_enum_eq [enum_simps] = hop_link_provenance.code_eq evidence_completeness.code_eq

section \<open>Records\<close>

record ObservedHop =
  oh_index :: u32
  oh_device :: DeviceId
  oh_ingress :: PortId
  oh_egress :: PortId
  oh_link :: LinkId
  oh_link_provenance :: HopLinkProvenance
  oh_at :: TimePoint

record ObservedPathEvidence =
  ev_id :: EvidenceId
  ev_source :: SourceId
  ev_incarnation :: SourceIncarnationId
  ev_sequence :: SourceSequence
  ev_surface :: ProofSurface
  ev_authority :: AuthorityClass
  ev_path :: "PathIdTag MaybeId"
  ev_group :: "PathGroupIdTag MaybeId"
  ev_origin :: "DeviceIdTag MaybeId"
  ev_destination :: "DeviceIdTag MaybeId"
  ev_epoch :: EpochId
  claimed_incarnation :: IncarnationId
  ev_route_generation :: "RouteGenerationIdTag MaybeId"
  ev_topology_generation :: "TopologyGenerationIdTag MaybeId"
  ev_revision :: RevisionId
  observed_at :: TimePoint
  received_at :: TimePoint
  ev_hops :: "ObservedHop list"
  source_truncated :: bool
  declared_completeness :: EvidenceCompleteness
  payload_digest :: Digest
  ev_note :: string

section \<open>Identity\<close>

definition write_observed_hop :: "ObservedHop \<Rightarrow> byte list" where
  "write_observed_hop h =
     write_u32 (oh_index h) @ write_id (oh_device h) @ write_id (oh_ingress h) @ write_id (oh_egress h) @
     write_id (oh_link h) @ write_u8 (HopLinkProvenance_code (oh_link_provenance h)) @
     write_i64 (unix_nanos (oh_at h))"

definition write_canonical :: "ObservedPathEvidence \<Rightarrow> byte list" where
  "write_canonical e =
     write_text ''pathobs.evidence'' @
     write_id (ev_source e) @ write_id (ev_incarnation e) @ write_id (ev_sequence e) @
     write_u8 (ProofSurface_code (ev_surface e)) @ write_u8 (AuthorityClass_code (ev_authority e)) @
     write_maybe (ev_path e) @ write_maybe (ev_group e) @ write_maybe (ev_origin e) @
     write_maybe (ev_destination e) @ write_id (ev_epoch e) @ write_id (claimed_incarnation e) @
     write_maybe (ev_route_generation e) @ write_maybe (ev_topology_generation e) @
     write_id (ev_revision e) @ write_i64 (unix_nanos (observed_at e)) @
     write_bool (source_truncated e) @
     write_u8 (EvidenceCompleteness_code (declared_completeness e)) @
     write_digest (payload_digest e) @ write_text (ev_note e) @
     write_list write_observed_hop (ev_hops e)"

definition evidence_canonical_digest :: "hasher \<Rightarrow> ObservedPathEvidence \<Rightarrow> Digest" where
  "evidence_canonical_digest H e = H (write_canonical e)"

definition compute_evidence_id :: "hasher \<Rightarrow> ObservedPathEvidence \<Rightarrow> EvidenceId" where
  "compute_evidence_id H e = from_digest (H (write_canonical e))"

definition seal :: "hasher \<Rightarrow> ObservedPathEvidence \<Rightarrow> ObservedPathEvidence" where
  "seal H e = e\<lparr>ev_id := from_digest (H (write_canonical e))\<rparr>"

section \<open>Validation\<close>

definition hop_indices_are_contiguous :: "ObservedHop list \<Rightarrow> bool" where
  "hop_indices_are_contiguous hops = list_all (\<lambda>i. unat (oh_index (hops ! i)) = i) [0..<length hops]"

definition hop_checks :: "ObservedHop list \<Rightarrow> nat \<Rightarrow> Status list" where
  "hop_checks hops i =
     (let hop = hops ! i in
      [guard_err (\<not> valid_id (oh_device hop)) InvalidIdentity ''observed hop has no device identity'',
       guard_err (valid_id (oh_link hop) \<and> oh_link_provenance hop = Provenance_Absent) InvalidArgument
         ''observed hop states a link identity without saying how it was obtained'',
       guard_err (\<not> valid_id (oh_link hop) \<and> oh_link_provenance hop \<noteq> Provenance_Absent) InvalidArgument
         ''observed hop claims link provenance without a link identity'',
       guard_err (i > 0 \<and> oh_index hop \<le> oh_index (hops ! (i - 1))) InvalidArgument
         ''observed hop indices are not strictly ascending''])"

definition evidence_validate :: "hasher \<Rightarrow> Limits \<Rightarrow> ObservedPathEvidence \<Rightarrow> Status" where
  "evidence_validate H limits e = first_error
     [guard_err (\<not> valid_id (ev_source e)) InvalidIdentity ''evidence has no source identity'',
      guard_err (\<not> valid_id (ev_incarnation e)) InvalidIdentity ''evidence has no source incarnation'',
      guard_err (\<not> valid_id (ev_sequence e)) InvalidIdentity ''evidence has no source sequence'',
      guard_err (\<not> valid_id (ev_epoch e)) InvalidIdentity ''evidence does not state an epoch'',
      guard_err (\<not> valid_id (claimed_incarnation e)) InvalidIdentity
        ''evidence does not state a component incarnation'',
      guard_err (\<not> valid_id (ev_revision e)) InvalidIdentity ''evidence does not state a revision'',
      guard_err (ev_surface e = ProofSurface_Unknown) InvalidArgument
        ''evidence does not state a proof surface'',
      guard_err (ev_authority e = AuthorityClass_None) InvalidArgument
        ''evidence does not state an authority class'',
      guard_err (length (ev_hops e) > unat (max_hops_per_path limits)) CapacityExceeded
        ''evidence hop count exceeds the configured bound'',
      guard_err (length (ev_note e) > 4096) OutOfRange ''evidence note exceeds the configured bound'',
      guard_err (valid_digest_id (ev_id e) \<and> compute_evidence_id H e \<noteq> ev_id e) IntegrityFailure
        ''evidence identity does not match its content'',
      guard_err (\<not> is_set (observed_at e) \<and> \<not> is_set (received_at e)) InvalidArgument
        ''evidence carries neither an observation nor a receive timestamp'',
      indexed_checks (hop_checks (ev_hops e)) (length (ev_hops e)),
      guard_err (present (ev_origin e) \<and> present (ev_destination e) \<and>
                 maybe_value (ev_origin e) = maybe_value (ev_destination e) \<and> length (ev_hops e) > 1)
        InvalidArgument ''evidence states identical origin and destination for a multi hop observation'']"

definition claimed_completeness :: "ObservedPathEvidence \<Rightarrow> EvidenceCompleteness" where
  "claimed_completeness e =
     (if source_truncated e then Evidence_Partial
      else if declared_completeness e \<noteq> Evidence_Unknown then declared_completeness e
      else Evidence_Unknown)"

section \<open>Lemmas\<close>

interpretation hop_code: prefix_code write_observed_hop "\<lambda>_. True"
proof
  fix x y :: ObservedHop and r s
  assume "write_observed_hop x @ r = write_observed_hop y @ s"
  then show "x = y \<and> r = s"
    by (simp add: write_observed_hop_def prefix_simps enum_simps TimePoint.expand)
qed

lemma hop_list_append_eq [prefix_simps]:
  "length xs < 2 ^ 32 \<Longrightarrow> length ys < 2 ^ 32 \<Longrightarrow>
   write_list write_observed_hop xs = write_list write_observed_hop ys \<longleftrightarrow> xs = ys"
  using hop_code.list_append_eq[of xs ys "[]" "[]"] by (simp add: list_all_iff)

lemma encodable_evidence_literal [prefix_simps]: "encodable_text ''pathobs.evidence''"
  by (simp add: encodable_text_def)

text \<open>The records whose lengths fit the prefixes of the encoding, which validation implies.\<close>

definition encodable_evidence :: "ObservedPathEvidence \<Rightarrow> bool" where
  "encodable_evidence e \<longleftrightarrow>
     encodable_text (ev_note e) \<and> length (ev_hops e) < 2 ^ 32 \<and> length (digest_bytes (payload_digest e)) = 32"

text \<open>The content of a record: everything but its identity and its receive time.\<close>

definition same_content :: "ObservedPathEvidence \<Rightarrow> ObservedPathEvidence \<Rightarrow> bool" where
  "same_content a b \<longleftrightarrow> a = b\<lparr>ev_id := ev_id a, received_at := received_at a\<rparr>"

lemma write_canonical_ignores [simp]:
  "write_canonical (e\<lparr>ev_id := i\<rparr>) = write_canonical e"
  "write_canonical (e\<lparr>received_at := t\<rparr>) = write_canonical e"
  by (simp_all add: write_canonical_def)

lemma same_content_canonical: "same_content a b \<Longrightarrow> write_canonical a = write_canonical b"
  unfolding same_content_def by (metis write_canonical_ignores)

lemma write_canonical_unambiguous:
  assumes "encodable_evidence a" and "encodable_evidence b" and "write_canonical a = write_canonical b"
  shows "same_content a b"
proof -
  have "payload_digest a = payload_digest b" "ev_note a = ev_note b" "ev_hops a = ev_hops b"
    "unix_nanos (observed_at a) = unix_nanos (observed_at b)"
    "ev_source a = ev_source b" "ev_incarnation a = ev_incarnation b" "ev_sequence a = ev_sequence b"
    "ev_surface a = ev_surface b" "ev_authority a = ev_authority b" "ev_path a = ev_path b"
    "ev_group a = ev_group b" "ev_origin a = ev_origin b" "ev_destination a = ev_destination b"
    "ev_epoch a = ev_epoch b" "claimed_incarnation a = claimed_incarnation b"
    "ev_route_generation a = ev_route_generation b" "ev_topology_generation a = ev_topology_generation b"
    "ev_revision a = ev_revision b" "source_truncated a = source_truncated b"
    "declared_completeness a = declared_completeness b"
    using assms unfolding encodable_evidence_def write_canonical_def
    by (simp_all add: prefix_simps enum_simps)
  then show ?thesis
    unfolding same_content_def by (cases a; cases b) (simp add: TimePoint.expand)
qed

lemma evidence_validateD:
  assumes "evidence_validate H limits e = ok"
  shows "valid_id (ev_source e)" "valid_id (ev_epoch e)" "ev_surface e \<noteq> ProofSurface_Unknown"
    "ev_authority e \<noteq> AuthorityClass_None" "length (ev_hops e) \<le> unat (max_hops_per_path limits)"
    "length (ev_note e) \<le> 4096" "valid_digest_id (ev_id e) \<Longrightarrow> ev_id e = compute_evidence_id H e"
    "indexed_checks (hop_checks (ev_hops e)) (length (ev_hops e)) = ok"
  using assms unfolding evidence_validate_def
  by (simp_all add: first_error_Inr not_less del: first_error.simps)

lemma hop_checks_ok:
  assumes "indexed_checks (hop_checks hops) (length hops) = ok"
  shows "list_all (\<lambda>h. valid_id (oh_device h) \<and> (valid_id (oh_link h) \<longleftrightarrow> oh_link_provenance h \<noteq> Provenance_Absent)) hops"
    and "sorted_wrt (<) (map oh_index hops)"
proof -
  have *: "valid_id (oh_device (hops ! i)) \<and>
      (valid_id (oh_link (hops ! i)) \<longleftrightarrow> oh_link_provenance (hops ! i) \<noteq> Provenance_Absent) \<and>
      (0 < i \<longrightarrow> oh_index (hops ! (i - 1)) < oh_index (hops ! i))" if "i < length hops" for i
    using assms that by (auto simp: indexed_checks_Inr hop_checks_def Let_def)
  then show "list_all (\<lambda>h. valid_id (oh_device h) \<and>
      (valid_id (oh_link h) \<longleftrightarrow> oh_link_provenance h \<noteq> Provenance_Absent)) hops"
    by (simp add: list_all_length)
  show "sorted_wrt (<) (map oh_index hops)"
    unfolding sorted_wrt_iff_nth_Suc_transp[OF transp_on_less]
    using *[of "Suc i" for i] by fastforce
qed

section \<open>Properties\<close>

text \<open>
  Evidence identity is exactly content identity: two records have the same canonical encoding
  if and only if they agree on everything but their stated identity and their receive time.
\<close>

theorem evidence_encoding_exact:
  assumes "encodable_evidence a" and "encodable_evidence b"
  shows "write_canonical a = write_canonical b \<longleftrightarrow> same_content a b"
  using write_canonical_unambiguous[OF assms] same_content_canonical by blast

definition example_hop :: "u32 \<Rightarrow> u64 \<Rightarrow> u64 \<Rightarrow> u64 \<Rightarrow> ObservedHop" where
  "example_hop i d p q =
     \<lparr>oh_index = i, oh_device = StrongId d, oh_ingress = StrongId p, oh_egress = StrongId q,
      oh_link = StrongId (100 + d), oh_link_provenance = Provenance_Observed, oh_at = unset\<rparr>"

definition example_evidence :: ObservedPathEvidence where
  "example_evidence =
     \<lparr>ev_id = no_digest_id, ev_source = StrongId 7, ev_incarnation = StrongId 1, ev_sequence = StrongId 1,
      ev_surface = Synthetic, ev_authority = Advisory, ev_path = MaybeId (StrongId 1),
      ev_group = MaybeId (StrongId 1), ev_origin = absent, ev_destination = absent,
      ev_epoch = StrongId 1, claimed_incarnation = StrongId 1,
      ev_route_generation = MaybeId (StrongId 1), ev_topology_generation = MaybeId (StrongId 1),
      ev_revision = StrongId 1, observed_at = from_unix_nanos 1000, received_at = from_unix_nanos 1000,
      ev_hops = [example_hop 0 1 11 12, example_hop 1 2 21 22], source_truncated = False,
      declared_completeness = Evidence_Complete, payload_digest = zero_digest, ev_note = []\<rparr>"

theorem evidence_encoding_exact_witness:
  "write_canonical example_evidence \<noteq> write_canonical (example_evidence\<lparr>ev_sequence := StrongId 2\<rparr>) \<and>
   write_canonical example_evidence = write_canonical (example_evidence\<lparr>received_at := unset\<rparr>)"
proof -
  have "encodable_evidence example_evidence"
    "encodable_evidence (example_evidence\<lparr>ev_sequence := StrongId 2\<rparr>)"
    by (simp_all add: encodable_evidence_def encodable_text_def example_evidence_def zero_digest_def)
  moreover have "\<not> same_content example_evidence (example_evidence\<lparr>ev_sequence := StrongId 2\<rparr>)"
    by (simp add: same_content_def example_evidence_def)
  ultimately show ?thesis
    using evidence_encoding_exact[of example_evidence "example_evidence\<lparr>ev_sequence := StrongId 2\<rparr>"]
    by simp
qed

text \<open>
  A record that validates and carries an identity is sealed: its identity is the digest of its
  content, resealing it changes nothing, and the identity does not depend on the receive time. Its
  hops name devices, have strictly ascending indices, and state a link exactly when they say where
  it comes from.
\<close>

theorem validated_evidence_sealed:
  assumes "evidence_validate H limits e = ok" and "valid_digest_id (ev_id e)"
  shows "seal H e = e \<and> compute_evidence_id H (e\<lparr>received_at := t\<rparr>) = ev_id e \<and>
    sorted_wrt (<) (map oh_index (ev_hops e)) \<and>
    list_all (\<lambda>h. valid_id (oh_device h) \<and>
      (valid_id (oh_link h) \<longleftrightarrow> oh_link_provenance h \<noteq> Provenance_Absent)) (ev_hops e)"
proof -
  note v = evidence_validateD[OF assms(1)]
  have i: "compute_evidence_id H e = ev_id e" using v(7) assms(2) by simp
  then have "seal H e = e\<lparr>ev_id := ev_id e\<rparr>"
    by (simp only: seal_def compute_evidence_id_def[symmetric])
  moreover have "compute_evidence_id H (e\<lparr>received_at := t\<rparr>) = ev_id e"
    using i by (simp add: compute_evidence_id_def)
  ultimately show ?thesis using hop_checks_ok[OF v(8)] by simp
qed

theorem validated_evidence_sealed_witness:
  "evidence_validate (\<lambda>_. Digest (replicate 32 3)) default_limits
     (example_evidence\<lparr>ev_id := DigestId (replicate 16 3)\<rparr>) = ok \<and>
   seal (\<lambda>_. Digest (replicate 32 3)) (example_evidence\<lparr>ev_id := DigestId (replicate 16 3)\<rparr>) =
     example_evidence\<lparr>ev_id := DigestId (replicate 16 3)\<rparr>"
proof -
  let ?e = "example_evidence\<lparr>ev_id := DigestId (replicate 16 3)\<rparr>"
  have v: "evidence_validate (\<lambda>_. Digest (replicate 32 3)) default_limits ?e = ok"
    by (simp add: evidence_validate_def example_evidence_def guard_err_def compute_evidence_id_def
        from_digest_def default_limits_def is_set_def from_unix_nanos_def smin_def indexed_checks_def hop_checks_def
        example_hop_def Let_def absent_def no_id_def upt_rec)
  moreover have "valid_digest_id (ev_id ?e)" by (simp add: valid_digest_id_def)
  ultimately show ?thesis using validated_evidence_sealed[of "\<lambda>_. Digest (replicate 32 3)" default_limits ?e]
    by blast
qed

end
