(* ===== verification/Expected.thy ===== *)
theory Expected
  imports Topology Observed
begin

text \<open>
  Expected path state (\<open>include/pathobs/expected.hpp\<close>, \<open>src/expected.cpp\<close>): route generations as a
  routing authority publishes them, their finalization and lookups, and the comparison of an
  observed hop trace with one declared path.
\<close>

section \<open>Records\<close>

record ExpectedHop =
  eh_id :: HopId
  eh_index :: u32
  eh_device :: DeviceId
  eh_ingress :: PortId
  eh_egress :: PortId
  eh_egress_link :: LinkId
  has_egress_link :: bool

record ExpectedPath =
  path_id :: PathId
  path_group :: PathGroupId
  path_generation :: RouteGenerationId
  path_hops :: "ExpectedHop list"
  path_digest :: Digest

record PathGroup =
  group_id :: PathGroupId
  group_origin :: DeviceId
  group_destination :: DeviceId
  group_label :: string
  members :: "PathId list"

definition multipath :: "PathGroup \<Rightarrow> bool" where
  "multipath g \<longleftrightarrow> length (members g) > 1"

record RouteGeneration =
  route_id :: RouteGenerationId
  route_epoch :: EpochId
  route_incarnation :: IncarnationId
  route_revision :: RevisionId
  route_sequence :: SourceSequence
  route_source :: SourceId
  route_topology :: TopologyGenerationId
  route_created :: TimePoint
  route_received :: TimePoint
  groups :: "PathGroup list"
  paths :: "ExpectedPath list"
  route_digest :: Digest

section \<open>Canonical digests\<close>

definition write_expected_hop :: "ExpectedHop \<Rightarrow> byte list" where
  "write_expected_hop h =
     write_id (eh_id h) @ write_u32 (eh_index h) @ write_id (eh_device h) @ write_id (eh_ingress h) @
     write_id (eh_egress h) @ write_bool (has_egress_link h) @ write_id (eh_egress_link h)"

definition ExpectedPath_bytes :: "ExpectedPath \<Rightarrow> byte list" where
  "ExpectedPath_bytes p =
     write_text ''pathobs.expected_path'' @ write_id (path_id p) @ write_id (path_group p) @
     write_id (path_generation p) @ write_list write_expected_hop (path_hops p)"

definition ExpectedPath_canonical_digest :: "hasher \<Rightarrow> ExpectedPath \<Rightarrow> Digest" where
  "ExpectedPath_canonical_digest H p = H (ExpectedPath_bytes p)"

definition write_group :: "PathGroup \<Rightarrow> byte list" where
  "write_group g =
     write_id (group_id g) @ write_id (group_origin g) @ write_id (group_destination g) @
     write_text (group_label g) @ write_list write_id (members g)"

definition RouteGeneration_bytes :: "hasher \<Rightarrow> RouteGeneration \<Rightarrow> byte list" where
  "RouteGeneration_bytes H g =
     write_text ''pathobs.route_generation'' @ write_id (route_id g) @ write_id (route_epoch g) @
     write_id (route_incarnation g) @ write_id (route_revision g) @ write_id (route_sequence g) @
     write_id (route_source g) @ write_id (route_topology g) @
     write_i64 (unix_nanos (route_created g)) @ write_list write_group (groups g) @
     write_list (\<lambda>p. write_digest (ExpectedPath_canonical_digest H p)) (paths g)"

definition RouteGeneration_canonical_digest :: "hasher \<Rightarrow> RouteGeneration \<Rightarrow> Digest" where
  "RouteGeneration_canonical_digest H g = H (RouteGeneration_bytes H g)"

section \<open>Finalize\<close>

definition expected_hop_checks :: "ExpectedHop list \<Rightarrow> nat \<Rightarrow> Status list" where
  "expected_hop_checks hops i =
     (let hop = hops ! i in
      [guard_err (\<not> valid_id (eh_id hop) \<or> \<not> valid_id (eh_device hop) \<or>
                  \<not> valid_id (eh_ingress hop) \<or> \<not> valid_id (eh_egress hop)) InvalidIdentity
         ''expected hop is missing an identity'',
       guard_err (unat (eh_index hop) \<noteq> i) InvalidArgument
         ''expected hop index does not match its position''])"

definition path_checks :: "Limits \<Rightarrow> RouteGenerationId \<Rightarrow> ExpectedPath list \<Rightarrow> nat \<Rightarrow> Status list" where
  "path_checks limits gen ps i =
     (let path = ps ! i in
      [guard_err (\<not> valid_id (path_id path) \<or> \<not> valid_id (path_group path) \<or>
                  \<not> valid_id (path_generation path)) InvalidIdentity
         ''expected path is missing an identity'',
       guard_err (path_generation path \<noteq> gen) InvalidArgument
         ''expected path names a different route generation than its container'',
       guard_err (repeats path_id ps i) DuplicateIdentity
         ''route generation contains a duplicate path'',
       guard_err (path_hops path = []) InvalidArgument ''expected path has no hops'',
       guard_err (length (path_hops path) > unat (max_hops_per_path limits)) CapacityExceeded
         ''expected path exceeds the hop bound'',
       indexed_checks (expected_hop_checks (path_hops path)) (length (path_hops path))])"

definition normal_members :: "PathId list \<Rightarrow> PathId list" where
  "normal_members ms = remdups_adj (std_sort (<) ms)"

definition member_checks :: "ExpectedPath list \<Rightarrow> PathGroupId \<Rightarrow> PathId \<Rightarrow> Status list" where
  "member_checks ps grp m =
     (case find_by_key path_id m ps of
        None \<Rightarrow> [Inl (Error UnknownIdentity
                 ''path group references a path that is not in the generation'')]
      | Some p \<Rightarrow> [guard_err (path_group p \<noteq> grp) InvalidArgument
                 ''path group and path disagree about group membership''])"

definition group_checks :: "Limits \<Rightarrow> ExpectedPath list \<Rightarrow> PathGroup list \<Rightarrow> nat \<Rightarrow> Status list" where
  "group_checks limits ps gs i =
     (let group = gs ! i in
      [guard_err (\<not> valid_id (group_id group) \<or> \<not> valid_id (group_origin group) \<or>
                  \<not> valid_id (group_destination group)) InvalidIdentity
         ''path group is missing an identity'',
       guard_err (repeats group_id gs i) DuplicateIdentity
         ''route generation contains a duplicate group'',
       guard_err (length (members group) > unat (max_members_per_group limits)) CapacityExceeded
         ''path group exceeds the member bound'',
       guard_err (normal_members (members group) = []) InvalidArgument ''path group has no members''] @
      concat (map (member_checks ps (group_id group)) (normal_members (members group))))"

definition RouteGeneration_finalize ::
  "hasher \<Rightarrow> Limits \<Rightarrow> RouteGeneration \<Rightarrow> RouteGeneration Result" where
  "RouteGeneration_finalize H limits g =
     try_bind (first_error
       [guard_err (\<not> valid_id (route_id g) \<or> \<not> valid_id (route_epoch g) \<or> \<not> valid_id (route_incarnation g) \<or>
                   \<not> valid_id (route_revision g) \<or> \<not> valid_id (route_source g) \<or>
                   \<not> valid_id (route_topology g)) InvalidIdentity
          ''route generation is missing one of generation, epoch, incarnation, revision, source or topology'',
        guard_err (length (paths g) > unat (max_paths_per_generation limits)) CapacityExceeded
          ''route generation path count exceeds the bound'',
        guard_err (length (groups g) > unat (max_groups_per_generation limits)) CapacityExceeded
          ''route generation group count exceeds the bound''])
     (\<lambda>_. let ps = sort_by_key path_id (paths g);
              gs = sort_by_key group_id (groups g)
          in try_bind (first_error
               [indexed_checks (path_checks limits (route_id g) ps) (length ps),
                indexed_checks (group_checks limits ps gs) (length gs)])
             (\<lambda>_. let g = g\<lparr>
                      paths := map (\<lambda>p. p\<lparr>path_digest := ExpectedPath_canonical_digest H p\<rparr>) ps,
                      groups := map (\<lambda>grp. grp\<lparr>members := normal_members (members grp)\<rparr>) gs\<rparr>
                  in Inr (g\<lparr>route_digest := RouteGeneration_canonical_digest H g\<rparr>)))"

definition find_path :: "RouteGeneration \<Rightarrow> PathId \<Rightarrow> ExpectedPath option" where
  "find_path g i = find_by_key path_id i (paths g)"

definition find_group :: "RouteGeneration \<Rightarrow> PathGroupId \<Rightarrow> PathGroup option" where
  "find_group g i = find_by_key group_id i (groups g)"

text \<open>The first group with the endpoints, and whether there is a second.\<close>

definition find_group_by_endpoints :: "RouteGeneration \<Rightarrow> DeviceId \<Rightarrow> DeviceId \<Rightarrow> PathGroup option \<times> bool" where
  "find_group_by_endpoints g origin destination =
     (let found = filter (\<lambda>grp. group_origin grp = origin \<and> group_destination grp = destination) (groups g)
      in (case found of [] \<Rightarrow> None | grp # _ \<Rightarrow> Some grp, length found > 1))"

section \<open>Trace comparison\<close>

datatype TraceMatch = Trace_Exact | Trace_Prefix | Trace_Mismatch | Trace_Incomparable

record TraceComparison =
  trace_match :: TraceMatch
  first_difference :: u32
  has_difference :: bool

definition hops_agree :: "ExpectedHop \<Rightarrow> ObservedHop \<Rightarrow> bool" where
  "hops_agree e h \<longleftrightarrow>
     eh_device e = oh_device h \<and>
     \<not> (valid_id (oh_ingress h) \<and> eh_ingress e \<noteq> oh_ingress h) \<and>
     \<not> (valid_id (oh_egress h) \<and> eh_egress e \<noteq> oh_egress h) \<and>
     \<not> (has_egress_link e \<and> valid_id (oh_link h) \<and> oh_link_provenance h \<noteq> Provenance_Absent \<and>
        eh_egress_link e \<noteq> oh_link h)"

text \<open>The first position at which both sides have a hop and disagree.\<close>

fun first_disagreement :: "ExpectedHop list \<Rightarrow> ObservedHop list \<Rightarrow> ExpectedHop option" where
  "first_disagreement (e # es) (h # hs) =
     (if \<not> hops_agree e h then Some e else first_disagreement es hs)"
| "first_disagreement _ _ = None"

definition compare_trace :: "ExpectedPath \<Rightarrow> ObservedHop list \<Rightarrow> TraceComparison" where
  "compare_trace p observed =
     (if path_hops p = [] \<or> observed = []
      then \<lparr>trace_match = Trace_Incomparable, first_difference = 0, has_difference = False\<rparr>
      else case first_disagreement (path_hops p) observed of
             Some e \<Rightarrow> \<lparr>trace_match = Trace_Mismatch, first_difference = eh_index e, has_difference = True\<rparr>
           | None \<Rightarrow>
               if length observed < length (path_hops p)
               then \<lparr>trace_match = Trace_Prefix, first_difference = 0, has_difference = False\<rparr>
               else \<lparr>trace_match = Trace_Exact, first_difference = 0, has_difference = False\<rparr>)"

section \<open>Lemmas\<close>

lemma first_disagreement_None:
  "first_disagreement es hs = None \<longleftrightarrow> (\<forall>i < min (length es) (length hs). hops_agree (es ! i) (hs ! i))"
  by (induction es hs rule: first_disagreement.induct) (simp_all add: All_less_Suc2)

lemma first_disagreement_Some:
  "first_disagreement es hs = Some e \<longleftrightarrow>
     (\<exists>i < min (length es) (length hs). e = es ! i \<and> \<not> hops_agree (es ! i) (hs ! i) \<and>
        (\<forall>j<i. hops_agree (es ! j) (hs ! j)))"
  by (induction es hs rule: first_disagreement.induct) (auto simp: All_less_Suc2 Ex_less_Suc2)

lemma first_disagreement_append:
  "length es \<le> length hs \<Longrightarrow> first_disagreement es (hs @ extra) = first_disagreement es hs"
  by (induction es hs rule: first_disagreement.induct) auto

text \<open>What finalizing a route generation establishes.\<close>

definition route_inv :: "RouteGeneration \<Rightarrow> bool" where
  "route_inv g \<longleftrightarrow>
     sorted (map path_id (paths g)) \<and> distinct (map path_id (paths g)) \<and>
     sorted (map group_id (groups g)) \<and> distinct (map group_id (groups g)) \<and>
     list_all (\<lambda>p. valid_id (path_id p) \<and> path_generation p = route_id g \<and> path_hops p \<noteq> [] \<and>
       (\<forall>i<length (path_hops p). unat (eh_index (path_hops p ! i)) = i)) (paths g) \<and>
     list_all (\<lambda>grp. valid_id (group_id grp) \<and> members grp \<noteq> [] \<and> sorted_wrt (<) (members grp) \<and>
       (\<forall>m\<in>set (members grp). \<exists>p. find_path g m = Some p \<and> path_group p = group_id grp)) (groups g)"

lemma find_by_key_map:
  assumes "\<And>x. key (f x) = key x"
  shows "find_by_key key k (map f xs) = map_option f (find_by_key key k xs)"
  by (induction xs) (simp_all add: find_by_key_Cons assms)

lemma path_checks_ok:
  assumes "indexed_checks (path_checks limits gen ps) (length ps) = ok" and "sorted (map path_id ps)"
  shows "distinct (map path_id ps) \<and>
    list_all (\<lambda>p. valid_id (path_id p) \<and> path_generation p = gen \<and> path_hops p \<noteq> [] \<and>
       (\<forall>i<length (path_hops p). unat (eh_index (path_hops p ! i)) = i)) ps"
  using assms
  by (auto simp: indexed_checks_Inr path_checks_def expected_hop_checks_def Let_def list_all_length
      intro!: distinct_if_no_repeats)

lemma normal_members_sorted: "sorted_wrt (<) (normal_members ms)"
  using distinct_remdups_adj_sorted[OF sorted_std_sort_less[of ms]] sorted_std_sort_less[of ms]
  by (simp add: normal_members_def strict_sorted_iff)

lemma group_checks_ok:
  assumes "indexed_checks (group_checks limits ps gs) (length gs) = ok" and "sorted (map group_id gs)"
  shows "distinct (map group_id gs) \<and>
    list_all (\<lambda>grp. valid_id (group_id grp) \<and> normal_members (members grp) \<noteq> [] \<and>
       (\<forall>m\<in>set (normal_members (members grp)).
          \<exists>p. find_by_key path_id m ps = Some p \<and> path_group p = group_id grp)) gs"
proof -
  have *: "\<not> repeats group_id gs i \<and> valid_id (group_id (gs ! i)) \<and> normal_members (members (gs ! i)) \<noteq> [] \<and>
      (\<forall>m\<in>set (normal_members (members (gs ! i))). \<forall>s\<in>set (member_checks ps (group_id (gs ! i)) m). \<exists>v. s = Inr v)"
    if "i < length gs" for i
    using assms(1) that by (auto simp: indexed_checks_Inr group_checks_def Let_def)
  have "\<exists>p. find_by_key path_id m ps = Some p \<and> path_group p = grp"
    if "\<forall>s\<in>set (member_checks ps grp m). \<exists>v. s = Inr v" for m grp
    using that by (auto simp: member_checks_def split: option.splits)
  then show ?thesis using * distinct_if_no_repeats[OF assms(2)] by (simp add: list_all_length)
qed

lemma route_finalize_shape:
  assumes "RouteGeneration_finalize H limits g = Inr g'"
  shows "paths g' = map (\<lambda>p. p\<lparr>path_digest := ExpectedPath_canonical_digest H p\<rparr>) (sort_by_key path_id (paths g))"
    and "groups g' = map (\<lambda>grp. grp\<lparr>members := normal_members (members grp)\<rparr>) (sort_by_key group_id (groups g))"
    and "route_digest g' = RouteGeneration_canonical_digest H g'"
    and "route_id g' = route_id g"
    and "indexed_checks (path_checks limits (route_id g) (sort_by_key path_id (paths g))) (length (paths g)) = ok"
    and "indexed_checks (group_checks limits (sort_by_key path_id (paths g)) (sort_by_key group_id (groups g)))
           (length (groups g)) = ok"
  using assms
  by (auto simp: RouteGeneration_finalize_def try_bind_eq_Inr Let_def RouteGeneration_canonical_digest_def
      RouteGeneration_bytes_def first_error_Inr simp del: first_error.simps)

lemma route_finalize_inv:
  assumes "RouteGeneration_finalize H limits g = Inr g'"
  shows "route_inv g'"
proof -
  note shape = route_finalize_shape[OF assms]
  have p: "distinct (map path_id (sort_by_key path_id (paths g))) \<and>
    list_all (\<lambda>p. valid_id (path_id p) \<and> path_generation p = route_id g \<and> path_hops p \<noteq> [] \<and>
       (\<forall>i<length (path_hops p). unat (eh_index (path_hops p ! i)) = i)) (sort_by_key path_id (paths g))"
    by (rule path_checks_ok) (use shape(5) in simp_all)
  have gr: "distinct (map group_id (sort_by_key group_id (groups g))) \<and>
    list_all (\<lambda>grp. valid_id (group_id grp) \<and> normal_members (members grp) \<noteq> [] \<and>
       (\<forall>m\<in>set (normal_members (members grp)).
          \<exists>p. find_by_key path_id m (sort_by_key path_id (paths g)) = Some p \<and> path_group p = group_id grp))
      (sort_by_key group_id (groups g))"
    by (rule group_checks_ok) (use shape(6) in simp_all)
  have keep: "map path_id (paths g') = map path_id (sort_by_key path_id (paths g))"
    "map group_id (groups g') = map group_id (sort_by_key group_id (groups g))"
    by (simp_all add: shape(1,2))
  have "\<exists>p. find_path g' m = Some p \<and> path_group p = i"
    if "\<exists>p. find_by_key path_id m (sort_by_key path_id (paths g)) = Some p \<and> path_group p = i" for m i
    using that by (auto simp: find_path_def shape(1) find_by_key_map)
  then show ?thesis
    unfolding route_inv_def keep shape(4) using p gr
    by (auto simp: list_all_iff shape(1,2) normal_members_sorted)
qed

lemma route_finalize_perm:
  assumes "RouteGeneration_finalize H limits g = Inr g'"
    and "mset ps = mset (paths g)" and "mset gs = mset (groups g)"
  shows "RouteGeneration_finalize H limits (g\<lparr>paths := ps, groups := gs\<rparr>) = Inr g'"
proof -
  note shape = route_finalize_shape[OF assms(1)]
  have "sort_by_key path_id ps = sort_by_key path_id (paths g)"
    using path_checks_ok[of limits "route_id g" "sort_by_key path_id (paths g)"] shape(5)
    by (intro sort_by_key_perm_sorted[OF assms(2)]) simp
  moreover have "sort_by_key group_id gs = sort_by_key group_id (groups g)"
    using group_checks_ok[of limits "sort_by_key path_id (paths g)" "sort_by_key group_id (groups g)"] shape(6)
    by (intro sort_by_key_perm_sorted[OF assms(3)]) simp
  moreover have "length ps = length (paths g)" "length gs = length (groups g)"
    using assms(2,3) by (metis size_mset)+
  ultimately show ?thesis using assms(1)
    by (simp add: RouteGeneration_finalize_def Let_def RouteGeneration_canonical_digest_def
        RouteGeneration_bytes_def)
qed

section \<open>Properties\<close>

text \<open>
  The trace comparison is exact. It is incomparable when one side has no hops; otherwise it is
  a mismatch precisely when some common position disagrees, and then reports the index of the first
  one; with agreement on all common positions it is exact or a prefix according to whether the
  observation reaches the end of the declared path.
\<close>

theorem compare_trace_spec:
  "compare_trace p observed =
     (if path_hops p = [] \<or> observed = []
      then \<lparr>trace_match = Trace_Incomparable, first_difference = 0, has_difference = False\<rparr>
      else if (\<exists>i < min (length (path_hops p)) (length observed). \<not> hops_agree (path_hops p ! i) (observed ! i))
      then \<lparr>trace_match = Trace_Mismatch,
            first_difference = eh_index (path_hops p ! (LEAST i. i < length (path_hops p) \<and> i < length observed \<and>
                                                       \<not> hops_agree (path_hops p ! i) (observed ! i))),
            has_difference = True\<rparr>
      else \<lparr>trace_match = (if length observed < length (path_hops p) then Trace_Prefix else Trace_Exact),
            first_difference = 0, has_difference = False\<rparr>)"
proof (cases "first_disagreement (path_hops p) observed")
  case None
  then show ?thesis
    using first_disagreement_None[of "path_hops p" observed] by (auto simp: compare_trace_def)
next
  case (Some e)
  then obtain i where i: "i < length (path_hops p)" "i < length observed" "e = path_hops p ! i"
    "\<not> hops_agree (path_hops p ! i) (observed ! i)" "\<forall>j<i. hops_agree (path_hops p ! j) (observed ! j)"
    by (auto simp: first_disagreement_Some)
  have "(LEAST i. i < length (path_hops p) \<and> i < length observed \<and>
          \<not> hops_agree (path_hops p ! i) (observed ! i)) = i"
    by (rule Least_equality) (use i in \<open>auto simp: not_less[symmetric]\<close>)
  then show ?thesis using Some i by (auto simp: compare_trace_def)
qed

text \<open>
  Hops observed beyond the end of the declared path are not compared: an observation that
  matches exactly still matches exactly with any further hops appended.
\<close>

theorem compare_trace_ignores_extra_hops:
  assumes "trace_match (compare_trace p observed) = Trace_Exact"
  shows "trace_match (compare_trace p (observed @ extra)) = Trace_Exact"
proof -
  have "length (path_hops p) \<le> length observed"
    using assms by (auto simp: compare_trace_def split: if_splits option.splits)
  then show ?thesis
    using assms by (auto simp: compare_trace_def first_disagreement_append split: if_splits option.splits)
qed

definition example_expected_hop :: "u32 \<Rightarrow> u64 \<Rightarrow> u64 \<Rightarrow> u64 \<Rightarrow> ExpectedHop" where
  "example_expected_hop i d p q =
     \<lparr>eh_id = StrongId (ucast i + 1), eh_index = i, eh_device = StrongId d, eh_ingress = StrongId p,
      eh_egress = StrongId q, eh_egress_link = no_id, has_egress_link = False\<rparr>"

definition example_path :: "u64 \<Rightarrow> ExpectedHop list \<Rightarrow> ExpectedPath" where
  "example_path n hops =
     \<lparr>path_id = StrongId n, path_group = StrongId 1, path_generation = StrongId 1, path_hops = hops,
      path_digest = zero_digest\<rparr>"

definition example_routes :: RouteGeneration where
  "example_routes =
     \<lparr>route_id = StrongId 1, route_epoch = StrongId 1, route_incarnation = StrongId 1,
      route_revision = StrongId 1, route_sequence = StrongId 1, route_source = StrongId 1,
      route_topology = StrongId 1, route_created = unset, route_received = unset,
      groups = [\<lparr>group_id = StrongId 1, group_origin = StrongId 1, group_destination = StrongId 2,
                 group_label = ''g'', members = [StrongId 2, StrongId 1, StrongId 2]\<rparr>],
      paths = [example_path 2 [example_expected_hop 0 1 11 13, example_expected_hop 1 2 23 22],
               example_path 1 [example_expected_hop 0 1 11 12, example_expected_hop 1 2 21 22]],
      route_digest = zero_digest\<rparr>"

theorem compare_trace_ignores_extra_hops_witness:
  "trace_match (compare_trace (example_path 1 [example_expected_hop 0 1 11 12, example_expected_hop 1 2 21 22])
     ([example_hop 0 1 11 12, example_hop 1 2 21 22] @ [example_hop 2 9 91 92])) = Trace_Exact"
  by (rule compare_trace_ignores_extra_hops)
    (simp add: compare_trace_def example_path_def example_expected_hop_def example_hop_def hops_agree_def)


lemma example_routes_finalize:
  "\<exists>g'. RouteGeneration_finalize (\<lambda>_. zero_digest) default_limits example_routes = Inr g' \<and>
        map path_id (paths g') = [StrongId 1, StrongId 2]"
  by (simp add: RouteGeneration_finalize_def example_routes_def example_path_def example_expected_hop_def
      default_limits_def guard_err_def std_sort_Cons indexed_checks_def Let_def path_checks_def group_checks_def
      member_checks_def normal_members_def repeats_def expected_hop_checks_def find_by_key_Cons upt_rec)


text \<open>
  The published order of paths and groups is irrelevant: any permutation finalizes to the same
  generation with the same digest.
\<close>

theorem routes_finalize_order_independent:
  assumes "RouteGeneration_finalize H limits g = Inr g'"
    and "mset ps = mset (paths g)" and "mset gs = mset (groups g)"
  shows "RouteGeneration_finalize H limits (g\<lparr>paths := ps, groups := gs\<rparr>) = Inr g'"
  using assms by (rule route_finalize_perm)

theorem routes_finalize_order_independent_witness:
  "RouteGeneration_finalize (\<lambda>_. zero_digest) default_limits
     (example_routes\<lparr>paths := rev (paths example_routes), groups := rev (groups example_routes)\<rparr>) =
   RouteGeneration_finalize (\<lambda>_. zero_digest) default_limits example_routes"
proof -
  obtain g' where g': "RouteGeneration_finalize (\<lambda>_. zero_digest) default_limits example_routes = Inr g'"
    using example_routes_finalize by blast
  show ?thesis unfolding g' by (rule routes_finalize_order_independent[OF g']) simp_all
qed

end
