(* ===== verification/Freshness.thy ===== *)
theory Freshness
  imports Observed
begin

text \<open>
  Freshness of evidence and of generations (\<open>include/pathobs/freshness.hpp\<close>,
  \<open>src/freshness.cpp\<close>), always against a supplied evaluation time. Ages are differences of signed
  64-bit nanosecond counts and wrap as the subtraction in the code does. The explanatory text of an
  assessment (\<open>reason\<close>) is not modelled.
\<close>

datatype Freshness = Freshness_Unknown | Fresh | Stale | Expired | Future

fun Freshness_to_string :: "Freshness \<Rightarrow> string" where
  "Freshness_to_string Freshness_Unknown = ''unknown''"
| "Freshness_to_string Fresh = ''fresh''"
| "Freshness_to_string Stale = ''stale''"
| "Freshness_to_string Expired = ''expired''"
| "Freshness_to_string Future = ''future''"

definition parse_freshness :: "string \<Rightarrow> Freshness Result" where
  "parse_freshness =
     parse_enum
       [(''unknown'', Freshness_Unknown), (''fresh'', Fresh), (''stale'', Stale),
        (''expired'', Expired), (''future'', Future)]
       ''unknown freshness value''"

fun Freshness_code :: "Freshness \<Rightarrow> byte" where
  "Freshness_code Freshness_Unknown = 0"
| "Freshness_code Fresh = 1"
| "Freshness_code Stale = 2"
| "Freshness_code Expired = 3"
| "Freshness_code Future = 4"

interpretation freshness: text_enum Freshness_to_string parse_freshness Freshness_code
  apply (rule text_enum_table[OF parse_freshness_def])
  subgoal by simp
  subgoal for x by (cases x) simp_all
  subgoal for x y by (cases x; cases y) simp_all
  done

lemmas freshness_enum_eq [enum_simps] = freshness.code_eq

fun freshness_severity :: "Freshness \<Rightarrow> nat" where
  "freshness_severity Fresh = 0"
| "freshness_severity Freshness_Unknown = 1"
| "freshness_severity Stale = 2"
| "freshness_severity Expired = 3"
| "freshness_severity Future = 4"

definition worse_of :: "Freshness \<Rightarrow> Freshness \<Rightarrow> Freshness" where
  "worse_of a b = (if freshness_severity a \<ge> freshness_severity b then a else b)"

definition is_compliance_capable :: "Freshness \<Rightarrow> bool" where
  "is_compliance_capable f \<longleftrightarrow> f = Fresh"

record FreshnessPolicy =
  evidence_max_age :: Duration
  evidence_expiry :: Duration
  generation_max_age :: Duration
  generation_expiry :: Duration
  skew_tolerance :: Duration
  max_observation_latency :: Duration

definition default_freshness_policy :: FreshnessPolicy where
  "default_freshness_policy =
     \<lparr>evidence_max_age = 30 * 1000000000, evidence_expiry = 600 * 1000000000,
      generation_max_age = 300 * 1000000000, generation_expiry = 1800 * 1000000000,
      skew_tolerance = 1000000000, max_observation_latency = 5 * 1000000000\<rparr>"

definition FreshnessPolicy_validate :: "FreshnessPolicy \<Rightarrow> Status" where
  "FreshnessPolicy_validate p = first_error
     [guard_err (sint (evidence_max_age p) < 0 \<or> sint (evidence_expiry p) < 0 \<or>
                 sint (generation_max_age p) < 0 \<or> sint (generation_expiry p) < 0 \<or>
                 sint (skew_tolerance p) < 0 \<or> sint (max_observation_latency p) < 0) InvalidArgument
        ''freshness policy durations must not be negative'',
      guard_err (sint (evidence_expiry p) < sint (evidence_max_age p)) InvalidArgument
        ''evidence expiry must not be shorter than the evidence freshness horizon'',
      guard_err (sint (generation_expiry p) < sint (generation_max_age p)) InvalidArgument
        ''generation expiry must not be shorter than the generation freshness horizon'']"

record FreshnessAssessment =
  fa_state :: Freshness
  fa_age :: Duration
  fa_skew :: Duration
  skew_detected :: bool
  age_known :: bool

definition unknown_assessment :: FreshnessAssessment where
  "unknown_assessment = \<lparr>fa_state = Freshness_Unknown, fa_age = 0, fa_skew = 0,
                         skew_detected = False, age_known = False\<rparr>"

definition classify_age :: "Duration \<Rightarrow> Duration \<Rightarrow> Duration \<Rightarrow> Freshness" where
  "classify_age age max_age expiry =
     (if sint age \<le> sint max_age then Fresh
      else if sint age \<le> sint expiry then Stale
      else Expired)"

text \<open>The second half of the evidence assessment: the source clock against the receive time.\<close>

definition assess_skew :: "ObservedPathEvidence \<Rightarrow> FreshnessPolicy \<Rightarrow> FreshnessAssessment \<Rightarrow> FreshnessAssessment" where
  "assess_skew e policy a =
     (if is_set (observed_at e)
      then let skew_nanos = unix_nanos (observed_at e) - unix_nanos (received_at e);
               a = a\<lparr>fa_skew := skew_nanos\<rparr>
           in if sint skew_nanos > sint (skew_tolerance policy)
              then a\<lparr>skew_detected := True, fa_state := worse_of (fa_state a) Future\<rparr>
              else if sint (- skew_nanos) > sint (max_observation_latency policy)
              then a\<lparr>skew_detected := True, fa_state := worse_of (fa_state a) Freshness_Unknown\<rparr>
              else a
      else a)"

definition assess_evidence :: "ObservedPathEvidence \<Rightarrow> TimePoint \<Rightarrow> FreshnessPolicy \<Rightarrow> FreshnessAssessment" where
  "assess_evidence e now policy =
     (if \<not> is_set now then unknown_assessment
      else if \<not> is_set (received_at e) then unknown_assessment
      else let age_nanos = unix_nanos now - unix_nanos (received_at e);
               a = unknown_assessment\<lparr>age_known := True, fa_age := age_nanos\<rparr>
           in if sint age_nanos < 0
              then if sint (- age_nanos) > sint (skew_tolerance policy)
                   then a\<lparr>fa_state := Future, fa_skew := - age_nanos, skew_detected := True\<rparr>
                   else assess_skew e policy (a\<lparr>fa_state := Fresh, fa_age := 0\<rparr>)
              else assess_skew e policy
                     (a\<lparr>fa_state := classify_age age_nanos (evidence_max_age policy) (evidence_expiry policy)\<rparr>))"

definition assess_generation :: "TimePoint \<Rightarrow> TimePoint \<Rightarrow> TimePoint \<Rightarrow> FreshnessPolicy \<Rightarrow> FreshnessAssessment" where
  "assess_generation created received now policy =
     (let anchor = (if is_set received then received else created)
      in if \<not> is_set now then unknown_assessment
         else if \<not> is_set anchor then unknown_assessment
         else let age_nanos = unix_nanos now - unix_nanos anchor;
                  a = unknown_assessment\<lparr>age_known := True, fa_age := age_nanos\<rparr>
              in if sint age_nanos < 0
                 then if sint (- age_nanos) > sint (skew_tolerance policy)
                      then a\<lparr>fa_state := Future, fa_skew := - age_nanos, skew_detected := True\<rparr>
                      else a\<lparr>fa_state := Fresh, fa_age := 0\<rparr>
                 else a\<lparr>fa_state := classify_age age_nanos (generation_max_age policy) (generation_expiry policy)\<rparr>)"

section \<open>Lemmas\<close>

interpretation worse: comm_monoid worse_of Fresh
proof
  fix a b c
  show "worse_of (worse_of a b) c = worse_of a (worse_of b c)"
    by (cases a; cases b; cases c) (simp_all add: worse_of_def)
  show "worse_of a b = worse_of b a" by (cases a; cases b) (simp_all add: worse_of_def)
  show "worse_of a Fresh = a" by (cases a) (simp_all add: worse_of_def)
qed

lemma worse_of_Fresh: "worse_of a b = Fresh \<longleftrightarrow> a = Fresh \<and> b = Fresh"
  by (cases a; cases b) (simp_all add: worse_of_def)

text \<open>The worst freshness of a collection is fresh only when every member is.\<close>

lemma fold_worse_of: "fold (\<lambda>x w. worse_of w (f x)) xs w = Fresh \<longleftrightarrow> w = Fresh \<and> (\<forall>x\<in>set xs. f x = Fresh)"
  by (induction xs arbitrary: w) (auto simp: worse_of_Fresh)

lemma FreshnessPolicy_validD:
  assumes "FreshnessPolicy_validate p = ok"
  shows "0 \<le> sint (evidence_max_age p)" "0 \<le> sint (skew_tolerance p)" "0 \<le> sint (max_observation_latency p)"
    "sint (evidence_max_age p) \<le> sint (evidence_expiry p)"
  using assms by (auto simp: FreshnessPolicy_validate_def first_error_Inr not_less simp del: first_error.simps)

text \<open>Instants between the years 1970 and 2262 never overflow when subtracted.\<close>

definition after_epoch :: "TimePoint \<Rightarrow> bool" where
  "after_epoch t \<longleftrightarrow> 0 \<le> sint (unix_nanos t)"

lemma after_epoch_diff:
  assumes "after_epoch a" and "after_epoch b"
  shows "sint (unix_nanos a - unix_nanos b) = sint (unix_nanos a) - sint (unix_nanos b)"
proof -
  have "sint (unix_nanos a) < 2 ^ 63" "sint (unix_nanos b) < 2 ^ 63"
    using sint_bounds(2)[of "unix_nanos a"] sint_bounds(2)[of "unix_nanos b"] by simp_all
  then show ?thesis
    using assms by (intro sint_sub_eq) (simp_all add: after_epoch_def)
qed

lemma after_epoch_set: "after_epoch t \<Longrightarrow> is_set t"
  by (auto simp: after_epoch_def is_set_def smin_def)

lemma assess_skew_state:
  "fa_state (assess_skew e policy a) = Fresh \<longleftrightarrow>
     fa_state a = Fresh \<and>
     (is_set (observed_at e) \<longrightarrow>
        sint (unix_nanos (observed_at e) - unix_nanos (received_at e)) \<le> sint (skew_tolerance policy) \<and>
        sint (- (unix_nanos (observed_at e) - unix_nanos (received_at e))) \<le> sint (max_observation_latency policy))"
  by (simp add: assess_skew_def Let_def worse_of_Fresh not_less)

lemma classify_age_Fresh: "classify_age age m x = Fresh \<longleftrightarrow> sint age \<le> sint m"
  by (simp add: classify_age_def)

lemma assess_evidence_Fresh:
  assumes "after_epoch now" and "after_epoch (received_at e)"
    and "is_set (observed_at e) \<longrightarrow> after_epoch (observed_at e)" and "FreshnessPolicy_validate policy = ok"
  shows "fa_state (assess_evidence e now policy) = Fresh \<longleftrightarrow>
    nanos now - nanos (received_at e) \<le> sint (evidence_max_age policy) \<and>
    nanos (received_at e) - nanos now \<le> sint (skew_tolerance policy) \<and>
    (is_set (observed_at e) \<longrightarrow>
       nanos (observed_at e) - nanos (received_at e) \<le> sint (skew_tolerance policy) \<and>
       nanos (received_at e) - nanos (observed_at e) \<le> sint (max_observation_latency policy))"
proof -
  note d = after_epoch_diff[OF assms(1,2)] after_epoch_diff[OF assms(2,1)] and v = FreshnessPolicy_validD[OF assms(4)]
  have o: "sint (unix_nanos (observed_at e) - unix_nanos (received_at e)) = nanos (observed_at e) - nanos (received_at e) \<and>
      sint (unix_nanos (received_at e) - unix_nanos (observed_at e)) = nanos (received_at e) - nanos (observed_at e)"
    if "is_set (observed_at e)"
    using after_epoch_diff[of "observed_at e" "received_at e"] after_epoch_diff[of "received_at e" "observed_at e"]
      assms(2,3) that by (simp add: nanos_def)
  have sets: "is_set now" "is_set (received_at e)" using assms(1,2) after_epoch_set by auto
  show ?thesis
    using v o sets
    by (auto simp: assess_evidence_def Let_def d assess_skew_state classify_age_Fresh nanos_def)
qed

section \<open>Properties\<close>

text \<open>
  C39: evidence is fresh exactly when it was received within the freshness horizon and not ahead of
  the evaluation time by more than the skew tolerance, and its source clock, when stated, is
  neither ahead of the receive time beyond the tolerance nor behind it beyond the tolerated latency.
\<close>

theorem evidence_fresh_iff:
  assumes "after_epoch now" and "after_epoch (received_at e)"
    and "is_set (observed_at e) \<longrightarrow> after_epoch (observed_at e)" and "FreshnessPolicy_validate policy = ok"
  shows "fa_state (assess_evidence e now policy) = Fresh \<longleftrightarrow>
    nanos now - nanos (received_at e) \<le> sint (evidence_max_age policy) \<and>
    nanos (received_at e) - nanos now \<le> sint (skew_tolerance policy) \<and>
    (is_set (observed_at e) \<longrightarrow>
       nanos (observed_at e) - nanos (received_at e) \<le> sint (skew_tolerance policy) \<and>
       nanos (received_at e) - nanos (observed_at e) \<le> sint (max_observation_latency policy))"
  using assms by (rule assess_evidence_Fresh)

lemma default_freshness_policy_valid: "FreshnessPolicy_validate default_freshness_policy = ok"
  by (simp add: FreshnessPolicy_validate_def default_freshness_policy_def guard_err_def)

theorem evidence_fresh_iff_witness:
  "fa_state (assess_evidence example_evidence (from_unix_nanos 2000) default_freshness_policy) = Fresh \<and>
   fa_state (assess_evidence example_evidence (from_unix_nanos 30000001001) default_freshness_policy) \<noteq> Fresh"
proof -
  have h: "after_epoch (from_unix_nanos 2000)" "after_epoch (from_unix_nanos 30000001001)"
    "after_epoch (received_at example_evidence)"
    "is_set (observed_at example_evidence) \<longrightarrow> after_epoch (observed_at example_evidence)"
    by (simp_all add: example_evidence_def from_unix_nanos_def after_epoch_def nanos_def)
  show ?thesis
    using evidence_fresh_iff[OF h(1,3,4) default_freshness_policy_valid]
      evidence_fresh_iff[OF h(2,3,4) default_freshness_policy_valid]
    by (simp add: example_evidence_def from_unix_nanos_def nanos_def default_freshness_policy_def)
qed

text \<open>
  Time never makes evidence fresh again: once a record is not fresh at an evaluation time at
  or after its receive time, it is not fresh at any later evaluation time, whatever restarts lie
  in between.
\<close>

theorem staleness_is_permanent:
  assumes "after_epoch now" and "after_epoch (received_at e)"
    and "is_set (observed_at e) \<longrightarrow> after_epoch (observed_at e)" and "FreshnessPolicy_validate policy = ok"
    and "nanos (received_at e) \<le> nanos now" and "fa_state (assess_evidence e now policy) \<noteq> Fresh"
    and "nanos now \<le> nanos later"
  shows "fa_state (assess_evidence e later policy) \<noteq> Fresh"
proof -
  have "after_epoch later" using assms(1,7) by (simp add: after_epoch_def nanos_def)
  then show ?thesis
    using assms FreshnessPolicy_validD[OF assms(4)]
      assess_evidence_Fresh[OF assms(1-4)] assess_evidence_Fresh[OF _ assms(2-4), of later]
    by auto
qed

theorem staleness_is_permanent_witness:
  "fa_state (assess_evidence example_evidence (from_unix_nanos 90000000000) default_freshness_policy) \<noteq> Fresh"
proof -
  let ?now = "from_unix_nanos 30000001001"
  have h: "after_epoch ?now" "after_epoch (received_at example_evidence)"
    "is_set (observed_at example_evidence) \<longrightarrow> after_epoch (observed_at example_evidence)"
    "nanos (received_at example_evidence) \<le> nanos ?now" "nanos ?now \<le> nanos (from_unix_nanos 90000000000)"
    by (simp_all add: example_evidence_def from_unix_nanos_def after_epoch_def nanos_def)
  have "fa_state (assess_evidence example_evidence ?now default_freshness_policy) \<noteq> Fresh"
    using assess_evidence_Fresh[OF h(1-3) default_freshness_policy_valid]
    by (simp add: example_evidence_def from_unix_nanos_def nanos_def default_freshness_policy_def)
  from staleness_is_permanent[OF h(1-3) default_freshness_policy_valid h(4) this h(5)] show ?thesis .
qed

end
