(* ===== verification/Divergence.thy ===== *)
theory Divergence
  imports Source
begin

text \<open>
  The divergence vocabulary (\<open>include/pathobs/divergence.hpp\<close>, \<open>src/divergence.cpp\<close>): the closed list
  of classes with their code, category and precedence, the choice of the primary class, and the
  outcome and consistency enumerations of a comparison.
\<close>

section \<open>Classes\<close>

datatype DivergenceClass =
    Class_None | EpochFenced | EpochAhead | IncarnationFenced
  | SourceSequenceReplay | RevisionFenced | RevisionAhead | RouteGenerationMismatch
  | TopologyGenerationMismatch | AuthorityInsufficient | EvidenceUnsupported | EvidenceExpired
  | EvidenceStale | EvidenceConflicting | EvidenceIncomplete | EvidenceAmbiguous
  | EvidenceUnknown | ObservationGap | LinkUnresolved | PathUnknownToPlan
  | HopMissing | HopUnexpected | HopOrderViolation | DeviceMismatch
  | PortMismatch | LinkMismatch

datatype DivergenceCategory =
    Category_None | Fencing | Generation | Authority | EvidenceQuality | Structural

datatype DivergenceDescriptor =
  Descriptor (descriptor_value: DivergenceClass) (descriptor_code: string)
    (descriptor_category: DivergenceCategory) (descriptor_precedence: nat)

text \<open>The numeric value of a class is its position in the table.\<close>

fun DivergenceClass_code :: "DivergenceClass \<Rightarrow> byte" where
  "DivergenceClass_code Class_None = 0"
| "DivergenceClass_code EpochFenced = 1"
| "DivergenceClass_code EpochAhead = 2"
| "DivergenceClass_code IncarnationFenced = 3"
| "DivergenceClass_code SourceSequenceReplay = 4"
| "DivergenceClass_code RevisionFenced = 5"
| "DivergenceClass_code RevisionAhead = 6"
| "DivergenceClass_code RouteGenerationMismatch = 7"
| "DivergenceClass_code TopologyGenerationMismatch = 8"
| "DivergenceClass_code AuthorityInsufficient = 9"
| "DivergenceClass_code EvidenceUnsupported = 10"
| "DivergenceClass_code EvidenceExpired = 11"
| "DivergenceClass_code EvidenceStale = 12"
| "DivergenceClass_code EvidenceConflicting = 13"
| "DivergenceClass_code EvidenceIncomplete = 14"
| "DivergenceClass_code EvidenceAmbiguous = 15"
| "DivergenceClass_code EvidenceUnknown = 16"
| "DivergenceClass_code ObservationGap = 17"
| "DivergenceClass_code LinkUnresolved = 18"
| "DivergenceClass_code PathUnknownToPlan = 19"
| "DivergenceClass_code HopMissing = 20"
| "DivergenceClass_code HopUnexpected = 21"
| "DivergenceClass_code HopOrderViolation = 22"
| "DivergenceClass_code DeviceMismatch = 23"
| "DivergenceClass_code PortMismatch = 24"
| "DivergenceClass_code LinkMismatch = 25"

definition kDescriptors :: "DivergenceDescriptor list" where
  "kDescriptors =
     [Descriptor Class_None ''none'' Category_None 0,
      Descriptor EpochFenced ''epoch_fenced'' Fencing 10,
      Descriptor EpochAhead ''epoch_ahead'' Fencing 11,
      Descriptor IncarnationFenced ''incarnation_fenced'' Fencing 12,
      Descriptor SourceSequenceReplay ''source_sequence_replay'' Fencing 13,
      Descriptor RevisionFenced ''revision_fenced'' Fencing 14,
      Descriptor RevisionAhead ''revision_ahead'' Fencing 15,
      Descriptor RouteGenerationMismatch ''route_generation_mismatch'' Generation 20,
      Descriptor TopologyGenerationMismatch ''topology_generation_mismatch'' Generation 21,
      Descriptor AuthorityInsufficient ''authority_insufficient'' Authority 25,
      Descriptor EvidenceUnsupported ''evidence_unsupported'' EvidenceQuality 30,
      Descriptor EvidenceExpired ''evidence_expired'' EvidenceQuality 31,
      Descriptor EvidenceStale ''evidence_stale'' EvidenceQuality 32,
      Descriptor EvidenceConflicting ''evidence_conflicting'' EvidenceQuality 40,
      Descriptor EvidenceIncomplete ''evidence_incomplete'' EvidenceQuality 41,
      Descriptor EvidenceAmbiguous ''evidence_ambiguous'' EvidenceQuality 42,
      Descriptor EvidenceUnknown ''evidence_unknown'' EvidenceQuality 43,
      Descriptor ObservationGap ''observation_gap'' EvidenceQuality 44,
      Descriptor LinkUnresolved ''link_unresolved'' EvidenceQuality 45,
      Descriptor PathUnknownToPlan ''path_unknown_to_plan'' Structural 50,
      Descriptor HopMissing ''hop_missing'' Structural 51,
      Descriptor HopUnexpected ''hop_unexpected'' Structural 52,
      Descriptor HopOrderViolation ''hop_order_violation'' Structural 53,
      Descriptor DeviceMismatch ''device_mismatch'' Structural 54,
      Descriptor PortMismatch ''port_mismatch'' Structural 55,
      Descriptor LinkMismatch ''link_mismatch'' Structural 56]"

definition describe :: "DivergenceClass \<Rightarrow> DivergenceDescriptor" where
  "describe c =
     (let i = unat (DivergenceClass_code c)
      in if i \<ge> length kDescriptors then kDescriptors ! 0 else kDescriptors ! i)"

definition to_code :: "DivergenceClass \<Rightarrow> string" where
  "to_code c = descriptor_code (describe c)"

definition parse_divergence_code :: "string \<Rightarrow> DivergenceClass Result" where
  "parse_divergence_code code =
     (case List.find (\<lambda>d. code = descriptor_code d) kDescriptors of
        Some d \<Rightarrow> Inr (descriptor_value d)
      | None \<Rightarrow> Inl (Error InvalidFormat ''unknown divergence code''))"

definition category_of :: "DivergenceClass \<Rightarrow> DivergenceCategory" where
  "category_of c = descriptor_category (describe c)"

definition precedence_of :: "DivergenceClass \<Rightarrow> nat" where
  "precedence_of c = descriptor_precedence (describe c)"

definition indicates_divergence :: "DivergenceClass \<Rightarrow> bool" where
  "indicates_divergence c \<longleftrightarrow> category_of c = Structural"

definition is_evidence_quality :: "DivergenceClass \<Rightarrow> bool" where
  "is_evidence_quality c \<longleftrightarrow>
     category_of c = EvidenceQuality \<or> category_of c = Fencing \<or>
     category_of c = Generation \<or> category_of c = Authority"

definition is_fencing :: "DivergenceClass \<Rightarrow> bool" where
  "is_fencing c \<longleftrightarrow> category_of c = Fencing"

fun DivergenceCategory_to_string :: "DivergenceCategory \<Rightarrow> string" where
  "DivergenceCategory_to_string Category_None = ''none''"
| "DivergenceCategory_to_string Fencing = ''fencing''"
| "DivergenceCategory_to_string Generation = ''generation''"
| "DivergenceCategory_to_string Authority = ''authority''"
| "DivergenceCategory_to_string EvidenceQuality = ''evidence_quality''"
| "DivergenceCategory_to_string Structural = ''structural''"

definition parse_divergence_category :: "string \<Rightarrow> DivergenceCategory Result" where
  "parse_divergence_category =
     parse_enum
       [(''none'', Category_None), (''fencing'', Fencing), (''generation'', Generation),
        (''authority'', Authority), (''evidence_quality'', EvidenceQuality),
        (''structural'', Structural)]
       ''unknown divergence category''"

fun DivergenceCategory_code :: "DivergenceCategory \<Rightarrow> byte" where
  "DivergenceCategory_code Category_None = 0"
| "DivergenceCategory_code Fencing = 1"
| "DivergenceCategory_code Generation = 2"
| "DivergenceCategory_code Authority = 3"
| "DivergenceCategory_code EvidenceQuality = 4"
| "DivergenceCategory_code Structural = 5"

section \<open>Primary class\<close>

text \<open>One iteration of the selection loop; \<open>Class_None\<close> stands for \<open>have_best == false\<close>.\<close>

definition better :: "DivergenceClass \<Rightarrow> DivergenceClass \<Rightarrow> bool" where
  "better candidate best \<longleftrightarrow>
     precedence_of candidate < precedence_of best \<or>
     precedence_of candidate = precedence_of best \<and>
     DivergenceClass_code candidate < DivergenceClass_code best"

definition primary_step :: "DivergenceClass \<Rightarrow> DivergenceClass \<Rightarrow> DivergenceClass" where
  "primary_step candidate best =
     (if candidate = Class_None then best
      else if best = Class_None then candidate
      else if better candidate best then candidate
      else best)"

definition select_primary :: "DivergenceClass list \<Rightarrow> DivergenceClass" where
  "select_primary classes = fold primary_step classes Class_None"

section \<open>Outcomes\<close>

datatype MatchOutcome = NoExpectedState | Match | Divergent | Indeterminate | Outcome_Unsupported

fun MatchOutcome_to_string :: "MatchOutcome \<Rightarrow> string" where
  "MatchOutcome_to_string NoExpectedState = ''no_expected_state''"
| "MatchOutcome_to_string Match = ''match''"
| "MatchOutcome_to_string Divergent = ''divergent''"
| "MatchOutcome_to_string Indeterminate = ''indeterminate''"
| "MatchOutcome_to_string Outcome_Unsupported = ''unsupported''"

definition parse_match_outcome :: "string \<Rightarrow> MatchOutcome Result" where
  "parse_match_outcome =
     parse_enum
       [(''no_expected_state'', NoExpectedState), (''match'', Match), (''divergent'', Divergent),
        (''indeterminate'', Indeterminate), (''unsupported'', Outcome_Unsupported)]
       ''unknown match outcome''"

fun MatchOutcome_code :: "MatchOutcome \<Rightarrow> byte" where
  "MatchOutcome_code NoExpectedState = 0"
| "MatchOutcome_code Match = 1"
| "MatchOutcome_code Divergent = 2"
| "MatchOutcome_code Indeterminate = 3"
| "MatchOutcome_code Outcome_Unsupported = 4"

definition is_compliance :: "MatchOutcome \<Rightarrow> bool" where
  "is_compliance out \<longleftrightarrow> out = Match"

datatype ObservationConsistency =
  Consistency_Unknown | Consistent | Ambiguous | Conflicting | Consistency_Unsupported

fun ObservationConsistency_to_string :: "ObservationConsistency \<Rightarrow> string" where
  "ObservationConsistency_to_string Consistency_Unknown = ''unknown''"
| "ObservationConsistency_to_string Consistent = ''consistent''"
| "ObservationConsistency_to_string Ambiguous = ''ambiguous''"
| "ObservationConsistency_to_string Conflicting = ''conflicting''"
| "ObservationConsistency_to_string Consistency_Unsupported = ''unsupported''"

definition parse_observation_consistency :: "string \<Rightarrow> ObservationConsistency Result" where
  "parse_observation_consistency =
     parse_enum
       [(''unknown'', Consistency_Unknown), (''consistent'', Consistent), (''ambiguous'', Ambiguous),
        (''conflicting'', Conflicting), (''unsupported'', Consistency_Unsupported)]
       ''unknown observation consistency''"

fun ObservationConsistency_code :: "ObservationConsistency \<Rightarrow> byte" where
  "ObservationConsistency_code Consistency_Unknown = 0"
| "ObservationConsistency_code Consistent = 1"
| "ObservationConsistency_code Ambiguous = 2"
| "ObservationConsistency_code Conflicting = 3"
| "ObservationConsistency_code Consistency_Unsupported = 4"

interpretation divergence_category:
  text_enum DivergenceCategory_to_string parse_divergence_category DivergenceCategory_code
  apply (rule text_enum_table[OF parse_divergence_category_def])
  subgoal by simp
  subgoal for x by (cases x) simp_all
  subgoal for x y by (cases x; cases y) simp_all
  done

interpretation match_outcome: text_enum MatchOutcome_to_string parse_match_outcome MatchOutcome_code
  apply (rule text_enum_table[OF parse_match_outcome_def])
  subgoal by simp
  subgoal for x by (cases x) simp_all
  subgoal for x y by (cases x; cases y) simp_all
  done

interpretation observation_consistency:
  text_enum ObservationConsistency_to_string parse_observation_consistency ObservationConsistency_code
  apply (rule text_enum_table[OF parse_observation_consistency_def])
  subgoal by simp
  subgoal for x by (cases x) simp_all
  subgoal for x y by (cases x; cases y) simp_all
  done

section \<open>Lemmas\<close>

text \<open>The table is consistent: each class describes itself, and precedences are all different.\<close>

lemma describe_value: "descriptor_value (describe c) = c"
  by (cases c) (simp_all add: describe_def kDescriptors_def)

lemma describe_in_table: "describe c \<in> set kDescriptors"
  by (cases c) (simp_all add: describe_def kDescriptors_def)

lemma table_describes_all: "list_all (\<lambda>d. describe (descriptor_value d) = d) kDescriptors"
  by code_simp

lemma table_describes: "d \<in> set kDescriptors \<Longrightarrow> describe (descriptor_value d) = d"
  using table_describes_all by (simp add: list_all_iff)

lemma distinct_precedences: "distinct (map descriptor_precedence kDescriptors)"
  by (simp add: kDescriptors_def)

lemma distinct_codes: "distinct (map descriptor_code kDescriptors)"
  by (simp add: kDescriptors_def)

lemma precedence_inj: "precedence_of a = precedence_of b \<Longrightarrow> a = b"
  unfolding precedence_of_def
  by (metis describe_in_table describe_value distinct_map distinct_precedences inj_onD)

lemma precedence_None: "precedence_of Class_None = 0"
  by (simp add: precedence_of_def describe_def kDescriptors_def)

lemma precedence_pos: "c \<noteq> Class_None \<Longrightarrow> 0 < precedence_of c"
  using precedence_inj[of c Class_None] precedence_None by fastforce

text \<open>The ties the code breaks never arise, so the better class is the one of lower precedence.\<close>

lemma better_iff: "better a b \<longleftrightarrow> precedence_of a < precedence_of b"
  using precedence_inj[of a b] by (auto simp: better_def)

lemma primary_step_comm: "primary_step a (primary_step b c) = primary_step b (primary_step a c)"
proof (cases "precedence_of a" "precedence_of b" rule: linorder_cases)
  case equal
  then have "a = b" by (rule precedence_inj)
  then show ?thesis by simp
qed (auto simp: primary_step_def better_iff)

lemma primary_step_idem: "primary_step a (primary_step a c) = primary_step a c"
  by (auto simp: primary_step_def better_iff)

interpretation primary: comp_fun_idem primary_step
  by unfold_locales (auto simp: fun_eq_iff primary_step_comm primary_step_idem)

lemma select_primary_set: "select_primary classes = Finite_Set.fold primary_step Class_None (set classes)"
  unfolding select_primary_def by (rule primary.fold_set_fold[symmetric])

lemma select_primary_min:
  "select_primary (c # cs) =
     (let p = select_primary cs in if c = Class_None then p else if p = Class_None then c
      else if precedence_of c < precedence_of p then c else p)"
proof -
  have "select_primary (c # cs) = select_primary (cs @ [c])" unfolding select_primary_set by simp
  then show ?thesis by (simp add: select_primary_def primary_step_def better_iff Let_def)
qed

lemma select_primary_None: "select_primary cs = Class_None \<longleftrightarrow> (\<forall>c\<in>set cs. c = Class_None)"
  by (induction cs) (auto simp: select_primary_min select_primary_def[of "[]"] Let_def)

lemma select_primary_lowest:
  "c \<in> set cs \<Longrightarrow> c \<noteq> Class_None \<Longrightarrow>
   select_primary cs \<in> set cs \<and> precedence_of (select_primary cs) \<le> precedence_of c"
proof (induction cs arbitrary: c)
  case (Cons d cs)
  show ?case
  proof (cases "\<forall>x\<in>set cs. x = Class_None")
    case True
    then have "select_primary cs = Class_None" by (simp add: select_primary_None)
    then show ?thesis using Cons.prems True by (auto simp: select_primary_min Let_def)
  next
    case False
    then obtain x where "x \<in> set cs" "x \<noteq> Class_None" by blast
    then have "select_primary cs \<in> set cs" "select_primary cs \<noteq> Class_None"
      using Cons.IH[of x] by (auto simp: select_primary_None)
    then show ?thesis
      using Cons by (auto simp: select_primary_min Let_def intro: less_imp_le dest: Cons.IH)
  qed
qed simp

section \<open>Properties\<close>

text \<open>
  The primary class is the class of lowest precedence among those reported, it is none only
  when nothing is reported, and it depends on the set of classes alone, neither on their order nor
  on repetitions.
\<close>

theorem select_primary_spec:
  "(select_primary cs = Class_None \<longleftrightarrow> set cs \<subseteq> {Class_None}) \<and>
   (c \<in> set cs \<and> c \<noteq> Class_None \<longrightarrow>
      select_primary cs \<in> set cs \<and>
      (c = select_primary cs \<or> precedence_of (select_primary cs) < precedence_of c)) \<and>
   (set ds = set cs \<longrightarrow> select_primary ds = select_primary cs)"
proof -
  have "c = select_primary cs \<or> precedence_of (select_primary cs) < precedence_of c"
    if "c \<in> set cs" "c \<noteq> Class_None"
    using select_primary_lowest[OF that] precedence_inj[of "select_primary cs" c]
    by (metis order_le_imp_less_or_eq)
  then show ?thesis
    using select_primary_lowest[of c cs]
    by (auto simp: select_primary_None) (simp_all add: select_primary_set)
qed

theorem select_primary_spec_witness:
  "select_primary [EvidenceStale, EpochFenced, EvidenceStale] =
   select_primary [EpochFenced, EvidenceStale]"
  using select_primary_spec[of "[EpochFenced, EvidenceStale]" EpochFenced
      "[EvidenceStale, EpochFenced, EvidenceStale]"]
  by auto

text \<open>
  Every divergence class has its own stable code: the code parses back to the class and to no
  other, and a text that is no code is refused.
\<close>

theorem divergence_code_roundtrip:
  "parse_divergence_code code = Inr c \<longleftrightarrow> code = to_code c"
proof
  assume "parse_divergence_code code = Inr c"
  then obtain d where "d \<in> set kDescriptors" "code = descriptor_code d" "c = descriptor_value d"
    by (auto simp: parse_divergence_code_def find_Some_iff split: option.splits) (metis nth_mem)
  then show "code = to_code c" by (simp add: to_code_def table_describes)
next
  assume c: "code = to_code c"
  obtain d where d: "List.find (\<lambda>d. code = descriptor_code d) kDescriptors = Some d"
    using c describe_in_table[of c]
    by (cases "List.find (\<lambda>d. code = descriptor_code d) kDescriptors") (auto simp: find_None_iff to_code_def)
  then have "d \<in> set kDescriptors" "descriptor_code d = descriptor_code (describe c)"
    using c by (auto simp: find_Some_iff to_code_def)
  then have "d = describe c"
    using distinct_codes describe_in_table[of c] by (metis distinct_map inj_onD)
  then show "parse_divergence_code code = Inr c"
    using d by (simp add: parse_divergence_code_def describe_value)
qed

end
