(* ===== verification/Compare.thy ===== *)
theory Compare
  imports Expected Freshness Divergence
begin

text \<open>
  The comparison engine (\<open>include/pathobs/compare.hpp\<close>, \<open>src/compare.cpp\<close>). \<open>compare\<close> is one long
  pure function; the model keeps its steps in source order, one definition per step, and \<open>compare\<close>
  composes them. The class set of the result is a list built by \<open>add_class\<close> in the order the code
  adds to it, since that order is part of the canonical encoding. The free text of a result
  (\<open>rationale\<close>, \<open>reason\<close>), which the canonical encoding excludes, is not modelled.
\<close>

section \<open>Records\<close>

record ComparisonPolicy =
  policy_freshness :: FreshnessPolicy
  require_advisory_or_higher :: bool
  require_real_surface_for_match :: bool
  multipath_ambiguity_is_divergence :: bool
  require_topology_for_match :: bool

definition ComparisonPolicy_validate :: "ComparisonPolicy \<Rightarrow> Status" where
  "ComparisonPolicy_validate p = FreshnessPolicy_validate (policy_freshness p)"

definition default_comparison_policy :: ComparisonPolicy where
  "default_comparison_policy =
     \<lparr>policy_freshness = default_freshness_policy, require_advisory_or_higher = True,
      require_real_surface_for_match = False, multipath_ambiguity_is_divergence = False,
      require_topology_for_match = True\<rparr>"

record AuthorityState =
  auth_epoch :: EpochId
  auth_incarnation :: IncarnationId
  auth_route_source :: SourceId
  auth_route_revision :: RevisionId
  auth_topology_source :: SourceId
  auth_topology_revision :: RevisionId

text \<open>The pointers of the context are options.\<close>

record ComparisonContext =
  ctx_routes :: "RouteGeneration option"
  ctx_topology :: "TopologyGeneration option"
  ctx_topology_index :: "TopologyIndex option"
  ctx_sources :: "SourceRegistry option"
  ctx_authority :: AuthorityState
  ctx_now :: TimePoint

record ComparisonRequest =
  req_generation :: RouteGenerationId
  req_group :: "PathGroupIdTag MaybeId"
  req_path :: "PathIdTag MaybeId"
  req_evidence :: "ObservedPathEvidence list"
  source_sequence_gap :: bool

record EvidenceJudgement =
  judged_id :: EvidenceId
  judged_accepted :: bool
  judged_rejection :: DivergenceClass
  judged_freshness :: Freshness
  judged_surface :: ProofSurface
  judged_authority :: AuthorityClass
  judged_completeness :: EvidenceCompleteness
  judged_classes :: "DivergenceClass list"

text \<open>\<open>has_expected\<close> and \<open>has_observed\<close> say whether the optional hops are there.\<close>

record HopDifference =
  diff_index :: u32
  diff_detail :: DivergenceClass
  diff_expected :: "ExpectedHop option"
  diff_observed :: "ObservedHop option"

record ComparisonResult =
  cmp_id :: ComparisonId
  cmp_generation :: RouteGenerationId
  cmp_topology :: TopologyGenerationId
  cmp_group :: "PathGroupIdTag MaybeId"
  cmp_path :: "PathIdTag MaybeId"
  matched_path :: "PathIdTag MaybeId"
  outcome :: MatchOutcome
  primary :: DivergenceClass
  classes :: "DivergenceClass list"
  cmp_freshness :: Freshness
  completeness :: EvidenceCompleteness
  consistency :: ObservationConsistency
  cmp_surface :: ProofSurface
  cmp_multipath :: bool
  multipath_ambiguous :: bool
  evidence_offered :: nat
  evidence_considered :: nat
  evidence_rejected :: nat
  duplicate_evidence :: nat
  judgements :: "EvidenceJudgement list"
  differences :: "HopDifference list"
  evaluated_at :: TimePoint

record Working =
  w_evidence :: ObservedPathEvidence
  w_hops :: "ObservedHop list"
  w_freshness :: Freshness
  w_classes :: "DivergenceClass list"
  w_rejection :: DivergenceClass
  w_accepted :: bool
  w_trace_digest :: Digest
  matches_a_member :: bool
  trace_is_prefix :: bool
  trace_is_exact :: bool
  matched_members :: "PathId list"

section \<open>Helpers of the engine\<close>

definition hops_compatible :: "ObservedHop \<Rightarrow> ObservedHop \<Rightarrow> bool" where
  "hops_compatible a b \<longleftrightarrow>
     oh_device a = oh_device b \<and>
     \<not> (valid_id (oh_ingress a) \<and> valid_id (oh_ingress b) \<and> oh_ingress a \<noteq> oh_ingress b) \<and>
     \<not> (valid_id (oh_egress a) \<and> valid_id (oh_egress b) \<and> oh_egress a \<noteq> oh_egress b) \<and>
     \<not> (valid_id (oh_link a) \<and> valid_id (oh_link b) \<and> oh_link_provenance a \<noteq> Provenance_Absent \<and>
        oh_link_provenance b \<noteq> Provenance_Absent \<and> oh_link a \<noteq> oh_link b)"

definition traces_compatible :: "ObservedHop list \<Rightarrow> ObservedHop list \<Rightarrow> bool" where
  "traces_compatible a b = list_all (\<lambda>(x, y). hops_compatible x y) (zip a b)"

definition write_trace_hop :: "ObservedHop \<Rightarrow> byte list" where
  "write_trace_hop h =
     write_u32 (oh_index h) @ write_id (oh_device h) @ write_id (oh_ingress h) @ write_id (oh_egress h) @
     write_id (oh_link h) @ write_u8 (HopLinkProvenance_code (oh_link_provenance h))"

definition trace_digest :: "hasher \<Rightarrow> ObservedHop list \<Rightarrow> Digest" where
  "trace_digest H hops = H (write_text ''pathobs.trace'' @ write_list write_trace_hop hops)"

definition per_hop_class :: "ExpectedHop \<Rightarrow> ObservedHop \<Rightarrow> DivergenceClass" where
  "per_hop_class e h =
     (if eh_device e \<noteq> oh_device h then DeviceMismatch
      else if valid_id (oh_ingress h) \<and> eh_ingress e \<noteq> oh_ingress h then PortMismatch
      else if valid_id (oh_egress h) \<and> eh_egress e \<noteq> oh_egress h then PortMismatch
      else if has_egress_link e \<and> valid_id (oh_link h) \<and>
              oh_link_provenance h \<noteq> Provenance_Absent \<and> eh_egress_link e \<noteq> oh_link h then LinkMismatch
      else Class_None)"

definition add_class :: "DivergenceClass \<Rightarrow> DivergenceClass list \<Rightarrow> DivergenceClass list" where
  "add_class c cs = (if c = Class_None then cs else if c \<in> set cs then cs else cs @ [c])"

definition same_devices_different_order :: "ExpectedHop list \<Rightarrow> ObservedHop list \<Rightarrow> bool" where
  "same_devices_different_order expected observed =
     (if length expected \<noteq> length observed \<or> expected = [] then False
      else if std_sort (<) (map eh_device expected) \<noteq> std_sort (<) (map oh_device observed) then False
      else list_ex (\<lambda>(e, h). eh_device e \<noteq> oh_device h) (zip expected observed))"

section \<open>Canonical form of a result\<close>

definition write_class :: "DivergenceClass \<Rightarrow> byte list" where
  "write_class c = write_u8 (DivergenceClass_code c)"

definition write_judgement :: "EvidenceJudgement \<Rightarrow> byte list" where
  "write_judgement j =
     write_digest_id (judged_id j) @ write_bool (judged_accepted j) @ write_class (judged_rejection j) @
     write_u8 (Freshness_code (judged_freshness j)) @ write_u8 (ProofSurface_code (judged_surface j)) @
     write_u8 (AuthorityClass_code (judged_authority j)) @
     write_u8 (EvidenceCompleteness_code (judged_completeness j)) @
     write_list write_class (judged_classes j)"

definition write_difference :: "HopDifference \<Rightarrow> byte list" where
  "write_difference d =
     write_u32 (diff_index d) @ write_class (diff_detail d) @
     write_bool (diff_expected d \<noteq> None) @ write_bool (diff_observed d \<noteq> None)"

definition ComparisonResult_bytes :: "ComparisonResult \<Rightarrow> byte list" where
  "ComparisonResult_bytes r =
     write_text ''pathobs.comparison'' @ write_id (cmp_generation r) @ write_id (cmp_topology r) @
     write_maybe (cmp_group r) @ write_maybe (cmp_path r) @ write_maybe (matched_path r) @
     write_u8 (MatchOutcome_code (outcome r)) @ write_class (primary r) @
     write_list write_class (classes r) @
     write_u8 (Freshness_code (cmp_freshness r)) @ write_u8 (EvidenceCompleteness_code (completeness r)) @
     write_u8 (ObservationConsistency_code (consistency r)) @
     write_u8 (ProofSurface_code (cmp_surface r)) @
     write_bool (cmp_multipath r) @ write_bool (multipath_ambiguous r) @
     write_u32 (of_nat (evidence_considered r)) @ write_u32 (of_nat (evidence_rejected r)) @
     write_list write_judgement (judgements r) @ write_list write_difference (differences r) @
     write_i64 (unix_nanos (evaluated_at r))"

definition ComparisonResult_seal :: "hasher \<Rightarrow> ComparisonResult \<Rightarrow> ComparisonResult" where
  "ComparisonResult_seal H r = r\<lparr>cmp_id := from_digest (H (ComparisonResult_bytes r))\<rparr>"

definition has_class :: "ComparisonResult \<Rightarrow> DivergenceClass \<Rightarrow> bool" where
  "has_class r c \<longleftrightarrow> c \<in> set (classes r)"

section \<open>Subject of the comparison\<close>

definition generation_matches :: "ComparisonRequest \<Rightarrow> ComparisonContext \<Rightarrow> bool" where
  "generation_matches request ctx =
     (case ctx_routes ctx of
        None \<Rightarrow> False
      | Some routes \<Rightarrow>
          route_id routes = req_generation request \<and>
          route_epoch routes = auth_epoch (ctx_authority ctx) \<and>
          route_incarnation routes = auth_incarnation (ctx_authority ctx))"

definition topology_matches :: "RouteGeneration \<Rightarrow> ComparisonContext \<Rightarrow> bool" where
  "topology_matches routes ctx =
     (case ctx_topology ctx of
        None \<Rightarrow> False
      | Some topo \<Rightarrow>
          \<not> (topo_id topo \<noteq> route_topology routes \<or>
             topo_epoch topo \<noteq> auth_epoch (ctx_authority ctx) \<or>
             topo_incarnation topo \<noteq> auth_incarnation (ctx_authority ctx)))"

definition group_of_path :: "RouteGeneration \<Rightarrow> PathId \<Rightarrow> PathGroup option" where
  "group_of_path routes i =
     (case find_path routes i of None \<Rightarrow> None | Some p \<Rightarrow> find_group routes (path_group p))"

definition group_of_evidence :: "RouteGeneration \<Rightarrow> ObservedPathEvidence \<Rightarrow> PathGroup option" where
  "group_of_evidence routes e =
     (if present (ev_group e) then find_group routes (maybe_value (ev_group e))
      else if present (ev_path e) then group_of_path routes (maybe_value (ev_path e))
      else if present (ev_origin e) \<and> present (ev_destination e)
      then fst (find_group_by_endpoints routes (maybe_value (ev_origin e)) (maybe_value (ev_destination e)))
      else None)"

fun first_group :: "RouteGeneration \<Rightarrow> ObservedPathEvidence list \<Rightarrow> PathGroup option" where
  "first_group routes [] = None"
| "first_group routes (e # es) =
     (case group_of_evidence routes e of Some g \<Rightarrow> Some g | None \<Rightarrow> first_group routes es)"

definition resolve_subject :: "RouteGeneration \<Rightarrow> ComparisonRequest \<Rightarrow> PathGroup option" where
  "resolve_subject routes request =
     (if present (req_group request) then find_group routes (maybe_value (req_group request))
      else if present (req_path request) then group_of_path routes (maybe_value (req_path request))
      else first_group routes (req_evidence request))"

section \<open>Judging one record\<close>

definition new_working :: "ObservedPathEvidence \<Rightarrow> Working" where
  "new_working e =
     \<lparr>w_evidence = e, w_hops = [], w_freshness = Freshness_Unknown, w_classes = [],
      w_rejection = Class_None, w_accepted = False, w_trace_digest = zero_digest,
      matches_a_member = False, trace_is_prefix = False, trace_is_exact = False, matched_members = []\<rparr>"

definition reject :: "DivergenceClass \<Rightarrow> Working \<Rightarrow> Working" where
  "reject c w = w\<lparr>w_rejection := c, w_classes := add_class c (w_classes w)\<rparr>"

definition effective_policy :: "SourceDescriptor \<Rightarrow> FreshnessPolicy \<Rightarrow> FreshnessPolicy" where
  "effective_policy src p =
     (let p' = (if sint (max_observation_age src) > 0
                then p\<lparr>evidence_max_age := max_observation_age src,
                       evidence_expiry := (if sint (max_observation_age src) < sint (evidence_expiry p)
                                           then evidence_expiry p else max_observation_age src)\<rparr>
                else p)
      in if sint (clock_skew_tolerance src) > 0
         then p'\<lparr>skew_tolerance := clock_skew_tolerance src\<rparr> else p')"

definition fencing_classes ::
  "ComparisonPolicy \<Rightarrow> ComparisonRequest \<Rightarrow> ComparisonContext \<Rightarrow> RouteGeneration
   \<Rightarrow> ObservedPathEvidence \<Rightarrow> DivergenceClass list" where
  "fencing_classes policy request ctx routes e =
     (let auth = ctx_authority ctx;
          cs = [];
          cs = (if ev_epoch e \<noteq> auth_epoch auth
                then add_class (if ev_epoch e < auth_epoch auth then EpochFenced else EpochAhead) cs else cs);
          cs = (if claimed_incarnation e \<noteq> auth_incarnation auth then add_class IncarnationFenced cs else cs);
          cs = (if present (ev_route_generation e) \<and> maybe_value (ev_route_generation e) \<noteq> req_generation request
                then add_class RouteGenerationMismatch cs else cs);
          cs = (if present (ev_topology_generation e) \<and>
                   maybe_value (ev_topology_generation e) \<noteq> route_topology routes
                then add_class TopologyGenerationMismatch cs else cs);
          cs = (if ev_revision e < auth_route_revision auth then add_class RevisionFenced cs
                else if ev_revision e > auth_route_revision auth then add_class RevisionAhead cs else cs);
          cs = (if ev_surface e = Unsupported then add_class EvidenceUnsupported cs
                else if ev_surface e = ProofSurface_Unknown then add_class EvidenceUnknown cs else cs);
          cs = (if require_advisory_or_higher policy \<and>
                   AuthorityClass_code (ev_authority e) < AuthorityClass_code Advisory
                then add_class AuthorityInsufficient cs else cs)
      in cs)"

definition correlate_hop :: "TopologyIndex \<Rightarrow> ObservedHop \<Rightarrow> ObservedHop" where
  "correlate_hop ix hop =
     (if valid_id (oh_link hop) \<or> \<not> valid_id (oh_device hop) \<or> \<not> valid_id (oh_egress hop) then hop
      else case resolve_link ix (oh_device hop) (oh_egress hop) of
             Inl _ \<Rightarrow> hop
           | Inr res \<Rightarrow>
               if link_known res
               then hop\<lparr>oh_link := resolved_link res, oh_link_provenance := Provenance_Correlated\<rparr>
               else hop)"

definition correlate :: "ComparisonContext \<Rightarrow> ObservedHop list \<Rightarrow> ObservedHop list" where
  "correlate ctx hops =
     (case ctx_topology_index ctx of
        None \<Rightarrow> hops
      | Some ix \<Rightarrow> if index_generation ix \<noteq> None then map (correlate_hop ix) hops else hops)"

text \<open>The checks after registration: freshness, fencing, then correlation of an accepted record.\<close>

definition judge_fenced ::
  "hasher \<Rightarrow> ComparisonPolicy \<Rightarrow> ComparisonRequest \<Rightarrow> ComparisonContext \<Rightarrow> RouteGeneration
   \<Rightarrow> FreshnessPolicy \<Rightarrow> ObservedPathEvidence \<Rightarrow> Working" where
  "judge_fenced H policy request ctx routes effective e =
     (let item = (new_working e)\<lparr>w_freshness := fa_state (assess_evidence e (ctx_now ctx) effective),
                                 w_classes := fencing_classes policy request ctx routes e\<rparr>;
          rejection = select_primary (w_classes item);
          hops = correlate ctx (ev_hops e)
      in if rejection \<noteq> Class_None then item\<lparr>w_rejection := rejection\<rparr>
         else item\<lparr>w_accepted := True, w_hops := hops, w_trace_digest := trace_digest H hops\<rparr>)"

definition judge ::
  "hasher \<Rightarrow> Limits \<Rightarrow> ComparisonPolicy \<Rightarrow> ComparisonRequest \<Rightarrow> ComparisonContext \<Rightarrow> RouteGeneration
   \<Rightarrow> ObservedPathEvidence \<Rightarrow> Working" where
  "judge H limits policy request ctx routes e =
     (case evidence_validate H limits e of
        Inl _ \<Rightarrow> reject EvidenceUnknown (new_working e)
      | Inr _ \<Rightarrow>
          (case ctx_sources ctx of
             None \<Rightarrow> judge_fenced H policy request ctx routes (policy_freshness policy) e
           | Some sources \<Rightarrow>
               (case registry_find sources (ev_source e) of
                  Inl _ \<Rightarrow> reject AuthorityInsufficient (new_working e)
                | Inr src \<Rightarrow>
                    if AuthorityClass_code (ev_authority e) > AuthorityClass_code (source_authority src)
                    then reject AuthorityInsufficient (new_working e)
                    else judge_fenced H policy request ctx routes
                           (effective_policy src (policy_freshness policy)) e)))"

section \<open>Order and duplicates\<close>

definition working_less :: "Working \<Rightarrow> Working \<Rightarrow> bool" where
  "working_less a b =
     (let x = w_evidence a; y = w_evidence b
      in if ev_authority x \<noteq> ev_authority y
         then AuthorityClass_code (ev_authority x) > AuthorityClass_code (ev_authority y)
         else if freshness_severity (w_freshness a) \<noteq> freshness_severity (w_freshness b)
         then freshness_severity (w_freshness a) < freshness_severity (w_freshness b)
         else if declared_completeness x \<noteq> declared_completeness y
         then EvidenceCompleteness_code (declared_completeness x) > EvidenceCompleteness_code (declared_completeness y)
         else if received_at x \<noteq> received_at y then received_at x > received_at y
         else if ev_sequence x \<noteq> ev_sequence y then ev_sequence x > ev_sequence y
         else ev_id x < ev_id y)"

fun unique_records :: "Working list \<Rightarrow> Working list" where
  "unique_records (a # b # ws) =
     (if ev_id (w_evidence a) = ev_id (w_evidence b) then unique_records (a # ws)
      else a # unique_records (b # ws))"
| "unique_records ws = ws"

definition judgement_of :: "Working \<Rightarrow> EvidenceJudgement" where
  "judgement_of w =
     \<lparr>judged_id = ev_id (w_evidence w), judged_accepted = w_accepted w, judged_rejection = w_rejection w,
      judged_freshness = w_freshness w, judged_surface = ev_surface (w_evidence w),
      judged_authority = ev_authority (w_evidence w),
      judged_completeness = claimed_completeness (w_evidence w), judged_classes = w_classes w\<rparr>"

definition rejection_classes :: "Working list \<Rightarrow> DivergenceClass list \<Rightarrow> DivergenceClass list" where
  "rejection_classes ws cs =
     fold (\<lambda>w cs. if \<not> w_accepted w \<and> w_rejection w \<noteq> Class_None then add_class (w_rejection w) cs else cs) ws cs"

section \<open>No accepted record\<close>

definition strongest_rejection :: "Working list \<Rightarrow> DivergenceClass" where
  "strongest_rejection ws =
     fold (\<lambda>w best. if w_rejection w = Class_None then best
                    else if best = EvidenceUnknown \<or> precedence_of (w_rejection w) < precedence_of best
                    then w_rejection w else best) ws EvidenceUnknown"

definition finish_unaccepted :: "Working list \<Rightarrow> ComparisonResult \<Rightarrow> ComparisonResult" where
  "finish_unaccepted ws r =
     (let rejection = strongest_rejection ws;
          cs = add_class rejection (classes r)
      in r\<lparr>classes := cs, primary := select_primary cs,
           outcome := (if rejection = EvidenceUnsupported then Outcome_Unsupported else Indeterminate),
           cmp_freshness := Freshness_Unknown, completeness := Evidence_Unknown,
           consistency := (if rejection = EvidenceUnsupported then Consistency_Unsupported
                           else Consistency_Unknown),
           cmp_surface := (if list_ex (\<lambda>w. \<not> w_accepted w \<and> w_rejection w = EvidenceUnsupported) ws
                           then Unsupported else cmp_surface r)\<rparr>)"

section \<open>Matching the members of the group\<close>

definition group_paths :: "RouteGeneration \<Rightarrow> PathGroup \<Rightarrow> ExpectedPath list" where
  "group_paths routes g = List.map_filter (find_path routes) (members g)"

definition note_member :: "PathId \<Rightarrow> Working \<Rightarrow> Working" where
  "note_member i w =
     w\<lparr>matches_a_member := True,
       matched_members := (if i \<in> set (matched_members w) then matched_members w
                           else matched_members w @ [i])\<rparr>"

definition match_member :: "ExpectedPath \<Rightarrow> Working \<Rightarrow> Working" where
  "match_member p w =
     (case trace_match (compare_trace p (w_hops w)) of
        Trace_Exact \<Rightarrow> note_member (path_id p) (w\<lparr>trace_is_exact := True\<rparr>)
      | Trace_Prefix \<Rightarrow> note_member (path_id p) (w\<lparr>trace_is_prefix := True\<rparr>)
      | _ \<Rightarrow> w)"

definition match_members :: "ExpectedPath list \<Rightarrow> Working \<Rightarrow> Working" where
  "match_members ps w = (if w_accepted w then fold match_member ps w else w)"

text \<open>The path of the request, else of the first record that claims a path of the group, else the
  member with the smallest identity.\<close>

definition path_in_group :: "RouteGeneration \<Rightarrow> PathGroup \<Rightarrow> PathIdTag MaybeId \<Rightarrow> ExpectedPath option" where
  "path_in_group routes g m =
     (if present m
      then case find_path routes (maybe_value m) of
             None \<Rightarrow> None
           | Some p \<Rightarrow> if path_group p = group_id g then Some p else None
      else None)"

fun first_claimed :: "RouteGeneration \<Rightarrow> PathGroup \<Rightarrow> ObservedPathEvidence list \<Rightarrow> ExpectedPath option" where
  "first_claimed routes g [] = None"
| "first_claimed routes g (e # es) =
     (case path_in_group routes g (ev_path e) of Some p \<Rightarrow> Some p | None \<Rightarrow> first_claimed routes g es)"

fun min_path :: "ExpectedPath list \<Rightarrow> ExpectedPath option" where
  "min_path [] = None"
| "min_path (p # ps) = Some (fold (\<lambda>q best. if path_id q < path_id best then q else best) ps p)"

definition reference_path ::
  "RouteGeneration \<Rightarrow> ComparisonRequest \<Rightarrow> PathGroup \<Rightarrow> ExpectedPath list \<Rightarrow> ExpectedPath option" where
  "reference_path routes request g ps =
     (case path_in_group routes g (req_path request) of
        Some p \<Rightarrow> Some p
      | None \<Rightarrow>
          (case first_claimed routes g (req_evidence request) of
             Some p \<Rightarrow> Some p
           | None \<Rightarrow> min_path ps))"

definition distinct_member_count :: "Working list \<Rightarrow> nat" where
  "distinct_member_count ws = card (set (concat (map matched_members ws)))"

section \<open>Consistency, freshness and surface\<close>

definition records_conflict :: "Working \<Rightarrow> Working \<Rightarrow> bool" where
  "records_conflict a b \<longleftrightarrow>
     present (ev_path (w_evidence a)) \<and> present (ev_path (w_evidence b)) \<and>
     maybe_value (ev_path (w_evidence a)) = maybe_value (ev_path (w_evidence b)) \<and>
     \<not> traces_compatible (w_hops a) (w_hops b)"

fun any_conflict :: "Working list \<Rightarrow> bool" where
  "any_conflict [] = False"
| "any_conflict (a # ws) = (list_ex (records_conflict a) ws \<or> any_conflict ws)"

definition worst_surface_of :: "Working list \<Rightarrow> ProofSurface" where
  "worst_surface_of ws =
     fold (\<lambda>w worst. if ProofSurface_code (ev_surface (w_evidence w)) > ProofSurface_code worst
                     then ev_surface (w_evidence w) else worst) ws Real"

definition worst_freshness_of :: "Working list \<Rightarrow> Freshness" where
  "worst_freshness_of ws = fold (\<lambda>w worst. worse_of worst (w_freshness w)) ws Fresh"

definition set_consistency :: "bool \<Rightarrow> ProofSurface \<Rightarrow> nat \<Rightarrow> ComparisonResult \<Rightarrow> ComparisonResult" where
  "set_consistency conflicting surface distinct_members r =
     (if conflicting
      then r\<lparr>consistency := Conflicting, classes := add_class EvidenceConflicting (classes r)\<rparr>
      else if surface = Unsupported then r\<lparr>consistency := Consistency_Unsupported\<rparr>
      else if distinct_members > 1
      then r\<lparr>consistency := Ambiguous, multipath_ambiguous := True,
             classes := add_class EvidenceAmbiguous (classes r)\<rparr>
      else r\<lparr>consistency := Consistent\<rparr>)"

section \<open>Completeness\<close>

definition shortest_member :: "ExpectedPath list \<Rightarrow> nat" where
  "shortest_member ps = fold (\<lambda>p n. min n (length (path_hops p))) ps (length (path_hops (hd ps)))"

definition record_incomplete :: "ExpectedPath list \<Rightarrow> Working \<Rightarrow> bool" where
  "record_incomplete ps w \<longleftrightarrow>
     source_truncated (w_evidence w) \<or>
     declared_completeness (w_evidence w) = Evidence_Partial \<or>
     \<not> hop_indices_are_contiguous (w_hops w) \<or>
     (trace_is_prefix w \<and> \<not> trace_is_exact w) \<or>
     (\<not> matches_a_member w \<and> ps \<noteq> [] \<and> length (w_hops w) < shortest_member ps)"

definition derived_completeness :: "bool \<Rightarrow> ExpectedPath list \<Rightarrow> Working list \<Rightarrow> EvidenceCompleteness" where
  "derived_completeness gap ps accepted =
     (if list_ex (record_incomplete ps) accepted \<or> gap then Evidence_Partial else Evidence_Complete)"

section \<open>Hop differences\<close>

definition hop_difference :: "ExpectedHop list \<Rightarrow> ObservedHop list \<Rightarrow> bool \<Rightarrow> nat \<Rightarrow> HopDifference" where
  "hop_difference expected observed order_violation i =
     (let has_expected = i < length expected; has_observed = i < length observed
      in \<lparr>diff_index = of_nat i,
          diff_detail =
            (if has_expected \<and> has_observed
             then let detail = per_hop_class (expected ! i) (observed ! i)
                  in if order_violation \<and> detail = DeviceMismatch then HopOrderViolation else detail
             else if \<not> has_expected \<and> has_observed then HopUnexpected
             else HopMissing),
          diff_expected = (if has_expected then Some (expected ! i) else None),
          diff_observed = (if has_observed then Some (observed ! i) else None)\<rparr>)"

definition hop_differences :: "ExpectedHop list \<Rightarrow> ObservedHop list \<Rightarrow> HopDifference list" where
  "hop_differences expected observed =
     filter (\<lambda>d. diff_detail d \<noteq> Class_None)
       (map (hop_difference expected observed (same_devices_different_order expected observed))
          [0..<max (length expected) (length observed)])"

definition add_differences :: "bool \<Rightarrow> ExpectedPath option \<Rightarrow> Working \<Rightarrow> ComparisonResult \<Rightarrow> ComparisonResult" where
  "add_differences structural reference representative r =
     (case reference of
        None \<Rightarrow> r
      | Some p \<Rightarrow>
          if structural
          then let ds = hop_differences (path_hops p) (w_hops representative)
               in r\<lparr>differences := ds, classes := fold (\<lambda>d. add_class (diff_detail d)) ds (classes r)\<rparr>
          else r)"

text \<open>A link the plan declares and the evidence does not support, at a hop that did not diverge.\<close>

definition link_unresolved_at :: "ExpectedHop list \<Rightarrow> ObservedHop list \<Rightarrow> HopDifference list \<Rightarrow> nat \<Rightarrow> bool" where
  "link_unresolved_at expected observed ds i \<longleftrightarrow>
     \<not> list_ex (\<lambda>d. unat (diff_index d) = i) ds \<and> has_egress_link (expected ! i) \<and>
     (\<not> valid_id (oh_link (observed ! i)) \<or> oh_link_provenance (observed ! i) = Provenance_Absent)"

definition check_links :: "ExpectedPath option \<Rightarrow> Working \<Rightarrow> ComparisonResult \<Rightarrow> ComparisonResult" where
  "check_links reference representative r =
     (case reference of
        None \<Rightarrow> r
      | Some p \<Rightarrow>
          if list_ex (link_unresolved_at (path_hops p) (w_hops representative) (differences r))
               [0..<min (length (path_hops p)) (length (w_hops representative))]
          then r\<lparr>classes := add_class LinkUnresolved (classes r), completeness := Evidence_Partial\<rparr>
          else r)"

definition claims_anything :: "Working \<Rightarrow> bool" where
  "claims_anything w \<longleftrightarrow> present (ev_path (w_evidence w)) \<or> present (ev_group (w_evidence w))"

definition claims_known :: "RouteGeneration \<Rightarrow> Working \<Rightarrow> bool" where
  "claims_known routes w =
     (if present (ev_path (w_evidence w))
      then find_path routes (maybe_value (ev_path (w_evidence w))) \<noteq> None
      else present (ev_group (w_evidence w)) \<and>
           find_group routes (maybe_value (ev_group (w_evidence w))) \<noteq> None)"

definition check_known ::
  "RouteGeneration \<Rightarrow> ComparisonRequest \<Rightarrow> Working list \<Rightarrow> ComparisonResult \<Rightarrow> ComparisonResult" where
  "check_known routes request accepted r =
     (if present (req_path request) \<and> find_path routes (maybe_value (req_path request)) = None \<or>
         list_ex claims_anything accepted \<and> \<not> list_ex (claims_known routes) accepted
      then r\<lparr>classes := add_class PathUnknownToPlan (classes r)\<rparr>
      else r)"

section \<open>Outcome\<close>

type_synonym verdict_state = "MatchOutcome \<times> DivergenceClass list"

definition gate_surface :: "ProofSurface \<Rightarrow> verdict_state \<Rightarrow> verdict_state" where
  "gate_surface surface st =
     (case st of (out, cs) \<Rightarrow>
        if surface = Unsupported then (Outcome_Unsupported, add_class EvidenceUnsupported cs)
        else if surface = ProofSurface_Unknown then (Indeterminate, add_class EvidenceUnknown cs)
        else (out, cs))"

definition gate_conflict :: "bool \<Rightarrow> verdict_state \<Rightarrow> verdict_state" where
  "gate_conflict conflicting st =
     (case st of (out, cs) \<Rightarrow>
        if out \<noteq> Outcome_Unsupported \<and> conflicting then (Indeterminate, cs) else (out, cs))"

definition gate_freshness :: "bool \<Rightarrow> Freshness \<Rightarrow> verdict_state \<Rightarrow> verdict_state" where
  "gate_freshness conflicting worst st =
     (case st of (out, cs) \<Rightarrow>
        if out \<noteq> Outcome_Unsupported \<and> \<not> conflicting \<and> \<not> is_compliance_capable worst
        then (Indeterminate,
              add_class (case worst of Stale \<Rightarrow> EvidenceStale | Expired \<Rightarrow> EvidenceExpired
                                     | _ \<Rightarrow> EvidenceUnknown) cs)
        else (out, cs))"

definition gate_structural :: "bool \<Rightarrow> verdict_state \<Rightarrow> verdict_state" where
  "gate_structural structural st =
     (case st of (out, cs) \<Rightarrow> if out = Match \<and> structural then (Divergent, cs) else (out, cs))"

definition gate_ambiguity :: "ComparisonPolicy \<Rightarrow> bool \<Rightarrow> verdict_state \<Rightarrow> verdict_state" where
  "gate_ambiguity policy ambiguous st =
     (case st of (out, cs) \<Rightarrow>
        if out = Match \<and> multipath_ambiguity_is_divergence policy \<and> ambiguous
        then (Indeterminate, add_class EvidenceAmbiguous cs) else (out, cs))"

definition gate_completeness :: "EvidenceCompleteness \<Rightarrow> verdict_state \<Rightarrow> verdict_state" where
  "gate_completeness derived st =
     (case st of (out, cs) \<Rightarrow>
        if out = Match \<and> derived \<noteq> Evidence_Complete
        then (Indeterminate, add_class EvidenceIncomplete cs) else (out, cs))"

definition gate_authority ::
  "ComparisonPolicy \<Rightarrow> bool \<Rightarrow> AuthorityClass \<Rightarrow> ProofSurface \<Rightarrow> verdict_state \<Rightarrow> verdict_state" where
  "gate_authority policy topology_ok auth surface st =
     (case st of (out, cs) \<Rightarrow>
        if out = Match
        then if require_topology_for_match policy \<and> \<not> topology_ok
             then (Indeterminate, add_class TopologyGenerationMismatch cs)
             else if AuthorityClass_code auth < AuthorityClass_code Advisory
             then (Indeterminate, add_class AuthorityInsufficient cs)
             else if require_real_surface_for_match policy \<and> surface \<noteq> Real
             then (Indeterminate, add_class EvidenceUnsupported cs)
             else (out, cs)
        else (out, cs))"

definition gate_named :: "bool \<Rightarrow> verdict_state \<Rightarrow> verdict_state" where
  "gate_named unnamed st =
     (case st of (out, cs) \<Rightarrow>
        if out = Match \<and> unnamed then (Indeterminate, add_class EvidenceUnknown cs) else (out, cs))"

text \<open>The gates in their contractual order, from a tentative Match.\<close>

definition final_gates ::
  "ComparisonPolicy \<Rightarrow> bool \<Rightarrow> bool \<Rightarrow> bool \<Rightarrow> bool \<Rightarrow> bool \<Rightarrow> AuthorityClass \<Rightarrow> ComparisonResult \<Rightarrow> verdict_state" where
  "final_gates policy topology_ok conflicting structural nothing_matched has_members auth r =
     gate_named (\<not> present (matched_path r) \<and> has_members)
      (gate_named nothing_matched
       (gate_authority policy topology_ok auth (cmp_surface r)
        (gate_completeness (completeness r)
         (gate_ambiguity policy (multipath_ambiguous r)
          (gate_structural structural
           (gate_freshness conflicting (cmp_freshness r)
            (gate_conflict conflicting
             (gate_surface (cmp_surface r) (Match, classes r)))))))))"

section \<open>compare\<close>

text \<open>
  The part after the accepted records are known and there is at least one: everything up to the
  gates, then the gates. \<open>accepted\<close> holds the accepted records with their matched members; the
  rejected ones have none, so counting distinct members over the accepted ones counts them all.
\<close>

definition describe_accepted ::
  "ComparisonRequest \<Rightarrow> RouteGeneration \<Rightarrow> PathGroup \<Rightarrow> ExpectedPath list \<Rightarrow> Working list
   \<Rightarrow> ComparisonResult \<Rightarrow> ComparisonResult" where
  "describe_accepted request routes g ps accepted r =
     (let representative = hd accepted;
          reference = reference_path routes request g ps;
          structural = (\<not> list_ex matches_a_member accepted \<and> w_hops representative \<noteq> []);
          surface = worst_surface_of accepted;
          r = r\<lparr>matched_path := (case matched_members representative of
                                  [] \<Rightarrow> absent | i # _ \<Rightarrow> MaybeId i),
                cmp_surface := surface, cmp_freshness := worst_freshness_of accepted\<rparr>;
          r = set_consistency (any_conflict accepted) surface (distinct_member_count accepted) r;
          r = r\<lparr>completeness := derived_completeness (source_sequence_gap request) ps accepted\<rparr>;
          r = add_differences structural reference representative r;
          r = check_links reference representative r
      in check_known routes request accepted r)"

definition finish_accepted ::
  "ComparisonPolicy \<Rightarrow> ComparisonRequest \<Rightarrow> RouteGeneration \<Rightarrow> bool \<Rightarrow> PathGroup \<Rightarrow> Working list
   \<Rightarrow> ComparisonResult \<Rightarrow> ComparisonResult" where
  "finish_accepted policy request routes topology_ok g ws r =
     (let ps = group_paths routes g;
          accepted = filter w_accepted (map (match_members ps) ws);
          representative = hd accepted;
          any_matches_member = list_ex matches_a_member accepted;
          r = describe_accepted request routes g ps accepted r;
          verdict =
            final_gates policy topology_ok (any_conflict accepted)
              (\<not> any_matches_member \<and> w_hops representative \<noteq> [])
              (members g \<noteq> [] \<and> matched_members representative = [] \<and> \<not> any_matches_member)
              (ps \<noteq> []) (ev_authority (w_evidence representative)) r
      in r\<lparr>outcome := fst verdict, classes := snd verdict, primary := select_primary (snd verdict)\<rparr>)"

definition new_result :: "ComparisonRequest \<Rightarrow> ComparisonContext \<Rightarrow> ComparisonResult" where
  "new_result request ctx =
     \<lparr>cmp_id = no_digest_id, cmp_generation = req_generation request, cmp_topology = no_id,
      cmp_group = req_group request, cmp_path = req_path request, matched_path = absent,
      outcome = NoExpectedState, primary = Class_None, classes = [], cmp_freshness = Freshness_Unknown,
      completeness = Evidence_Unknown, consistency = Consistency_Unknown,
      cmp_surface = ProofSurface_Unknown, cmp_multipath = False, multipath_ambiguous = False,
      evidence_offered = length (req_evidence request), evidence_considered = 0, evidence_rejected = 0,
      duplicate_evidence = 0, judgements = [], differences = [], evaluated_at = ctx_now ctx\<rparr>"

text \<open>The judged, ordered and deduplicated records.\<close>

definition working_records ::
  "hasher \<Rightarrow> Limits \<Rightarrow> ComparisonPolicy \<Rightarrow> ComparisonRequest \<Rightarrow> ComparisonContext \<Rightarrow> RouteGeneration
   \<Rightarrow> Working list" where
  "working_records H limits policy request ctx routes =
     unique_records (std_sort working_less (map (judge H limits policy request ctx routes) (req_evidence request)))"

text \<open>The counts, judgements and exclusions that are reported before any trace is read.\<close>

definition report_records :: "ComparisonRequest \<Rightarrow> PathGroup \<Rightarrow> Working list \<Rightarrow> ComparisonResult \<Rightarrow> ComparisonResult" where
  "report_records request g ws r =
     (let accepted = filter w_accepted ws;
          cs = rejection_classes ws (classes r)
      in r\<lparr>cmp_group := MaybeId (group_id g), cmp_multipath := multipath g,
           duplicate_evidence := length (req_evidence request) - length ws,
           evidence_considered := length accepted,
           evidence_rejected := length ws - length accepted,
           judgements := map judgement_of ws,
           classes := (if source_sequence_gap request then add_class ObservationGap cs else cs)\<rparr>)"

text \<open>The comparison of a resolved subject.\<close>

definition compare_group_subject ::
  "hasher \<Rightarrow> Limits \<Rightarrow> ComparisonPolicy \<Rightarrow> ComparisonRequest \<Rightarrow> ComparisonContext \<Rightarrow> RouteGeneration
   \<Rightarrow> PathGroup \<Rightarrow> ComparisonResult \<Rightarrow> ComparisonResult" where
  "compare_group_subject H limits policy request ctx routes g r =
     (let ws = working_records H limits policy request ctx routes;
          r = report_records request g ws r
      in if filter w_accepted ws = [] then finish_unaccepted ws r
         else finish_accepted policy request routes (topology_matches routes ctx) g ws r)"

definition compare ::
  "hasher \<Rightarrow> Limits \<Rightarrow> ComparisonPolicy \<Rightarrow> ComparisonRequest \<Rightarrow> ComparisonContext
   \<Rightarrow> ComparisonResult Result" where
  "compare H limits policy request ctx =
     try_bind (first_error
       [ComparisonPolicy_validate policy,
        guard_err (\<not> valid_id (req_generation request)) InvalidIdentity
          ''comparison request has no route generation'',
        guard_err (length (req_evidence request) > unat (max_evidence_per_comparison limits)) CapacityExceeded
          ''comparison request exceeds the configured evidence bound''])
     (\<lambda>_. let r = new_result request ctx
          in Inr (ComparisonResult_seal H
            (case ctx_routes ctx of
               Some routes \<Rightarrow>
                 if generation_matches request ctx
                 then let r = r\<lparr>cmp_topology := route_topology routes,
                                classes := (if topology_matches routes ctx then classes r
                                            else add_class TopologyGenerationMismatch (classes r))\<rparr>
                      in case resolve_subject routes request of
                           None \<Rightarrow> r\<lparr>outcome := NoExpectedState, primary := Class_None\<rparr>
                         | Some g \<Rightarrow> compare_group_subject H limits policy request ctx routes g r
                 else r\<lparr>classes := add_class RouteGenerationMismatch (classes r),
                        primary := RouteGenerationMismatch, outcome := Indeterminate\<rparr>
             | None \<Rightarrow> r\<lparr>classes := add_class RouteGenerationMismatch (classes r),
                        primary := RouteGenerationMismatch, outcome := Indeterminate\<rparr>)))"

end
