(* ===== verification/CompareSound.thy ===== *)
theory CompareSound
  imports Compare
begin

text \<open>
  Correctness of the comparison engine: what a record must satisfy to be considered, what a Match
  and what a Divergent outcome imply, and which inputs the result depends on.
\<close>

section \<open>Class sets\<close>

lemma add_class_mem [simp]: "x \<in> set (add_class c cs) \<longleftrightarrow> x \<in> set cs \<or> x = c \<and> c \<noteq> Class_None"
  by (auto simp: add_class_def)

lemma add_class_distinct: "distinct cs \<Longrightarrow> distinct (add_class c cs)"
  by (auto simp: add_class_def)

lemma mem_cond_add:
  "x \<in> set (if P then add_class c cs else cs) \<longleftrightarrow> x \<in> set cs \<or> P \<and> x = c \<and> c \<noteq> Class_None"
  by auto

lemma mem_cond_add2:
  "x \<in> set (if P then add_class c cs else if Q then add_class d cs else cs) \<longleftrightarrow>
     x \<in> set cs \<or> P \<and> x = c \<and> c \<noteq> Class_None \<or> \<not> P \<and> Q \<and> x = d \<and> d \<noteq> Class_None"
  by auto

section \<open>Admission of evidence\<close>

text \<open>
  The conditions of the documented boundary for a record to count: it is well formed, comes from a
  registered source within its authority, speaks about the current epoch, incarnation, revision and
  generation, and belongs to a proof surface that can be judged.
\<close>

definition current :: "ComparisonRequest \<Rightarrow> ComparisonContext \<Rightarrow> RouteGeneration \<Rightarrow> ObservedPathEvidence \<Rightarrow> bool" where
  "current request ctx routes e \<longleftrightarrow>
     ev_epoch e = auth_epoch (ctx_authority ctx) \<and>
     claimed_incarnation e = auth_incarnation (ctx_authority ctx) \<and>
     ev_revision e = auth_route_revision (ctx_authority ctx) \<and>
     (present (ev_route_generation e) \<longrightarrow> maybe_value (ev_route_generation e) = req_generation request) \<and>
     (present (ev_topology_generation e) \<longrightarrow> maybe_value (ev_topology_generation e) = route_topology routes)"

definition authorised :: "ComparisonPolicy \<Rightarrow> ComparisonContext \<Rightarrow> ObservedPathEvidence \<Rightarrow> bool" where
  "authorised policy ctx e \<longleftrightarrow>
     (case ctx_sources ctx of
        None \<Rightarrow> True
      | Some sources \<Rightarrow>
          (case registry_find sources (ev_source e) of
             Inl _ \<Rightarrow> False
           | Inr src \<Rightarrow> AuthorityClass_code (ev_authority e) \<le> AuthorityClass_code (source_authority src))) \<and>
     (require_advisory_or_higher policy \<longrightarrow> ev_authority e \<in> {Advisory, Authoritative})"

definition admissible ::
  "hasher \<Rightarrow> Limits \<Rightarrow> ComparisonPolicy \<Rightarrow> ComparisonRequest \<Rightarrow> ComparisonContext \<Rightarrow> RouteGeneration
   \<Rightarrow> ObservedPathEvidence \<Rightarrow> bool" where
  "admissible H limits policy request ctx routes e \<longleftrightarrow>
     evidence_validate H limits e = ok \<and> current request ctx routes e \<and> authorised policy ctx e \<and>
     ev_surface e \<in> {Real, Synthetic}"

lemma authority_below_advisory:
  "AuthorityClass_code a < AuthorityClass_code Advisory \<longleftrightarrow> a \<notin> {Advisory, Authoritative}"
  by (cases a) simp_all

lemma surface_cases: "s \<in> {Real, Synthetic} \<longleftrightarrow> s \<noteq> Unsupported \<and> s \<noteq> ProofSurface_Unknown"
  by (cases s) simp_all

lemma fencing_classes_mem:
  "c \<in> set (fencing_classes policy request ctx routes e) \<longleftrightarrow>
     (ev_epoch e \<noteq> auth_epoch (ctx_authority ctx) \<and>
        c = (if ev_epoch e < auth_epoch (ctx_authority ctx) then EpochFenced else EpochAhead)) \<or>
     (claimed_incarnation e \<noteq> auth_incarnation (ctx_authority ctx) \<and> c = IncarnationFenced) \<or>
     (present (ev_route_generation e) \<and> maybe_value (ev_route_generation e) \<noteq> req_generation request \<and>
        c = RouteGenerationMismatch) \<or>
     (present (ev_topology_generation e) \<and> maybe_value (ev_topology_generation e) \<noteq> route_topology routes \<and>
        c = TopologyGenerationMismatch) \<or>
     (ev_revision e < auth_route_revision (ctx_authority ctx) \<and> c = RevisionFenced) \<or>
     (ev_revision e > auth_route_revision (ctx_authority ctx) \<and> c = RevisionAhead) \<or>
     (ev_surface e = Unsupported \<and> c = EvidenceUnsupported) \<or>
     (ev_surface e = ProofSurface_Unknown \<and> c = EvidenceUnknown) \<or>
     (require_advisory_or_higher policy \<and> ev_authority e \<notin> {Advisory, Authoritative} \<and>
        c = AuthorityInsufficient)"
  unfolding fencing_classes_def Let_def mem_cond_add mem_cond_add2 authority_below_advisory
  by (intro iffI; elim disjE conjE; simp)

lemma fencing_classes_None:
  "select_primary (fencing_classes policy request ctx routes e) = Class_None \<longleftrightarrow>
     current request ctx routes e \<and> ev_surface e \<in> {Real, Synthetic} \<and>
     (require_advisory_or_higher policy \<longrightarrow> ev_authority e \<in> {Advisory, Authoritative})"
proof -
  let ?C = "set (fencing_classes policy request ctx routes e)"
  have none: "Class_None \<notin> ?C" unfolding fencing_classes_mem by auto
  then have "select_primary (fencing_classes policy request ctx routes e) = Class_None \<longleftrightarrow> (\<forall>c. c \<notin> ?C)"
    unfolding select_primary_None by metis
  also have "\<dots> \<longleftrightarrow> current request ctx routes e \<and> ev_surface e \<in> {Real, Synthetic} \<and>
     (require_advisory_or_higher policy \<longrightarrow> ev_authority e \<in> {Advisory, Authoritative})"
    unfolding fencing_classes_mem current_def surface_cases
    by (simp add: all_conj_distrib) (metis linorder_neq_iff)
  finally show ?thesis .
qed

lemma judge_accepted:
  "w_accepted (judge H limits policy request ctx routes e) \<longleftrightarrow>
     admissible H limits policy request ctx routes e"
  unfolding judge_def judge_fenced_def admissible_def authorised_def
  using fencing_classes_None[of policy request ctx routes e]
  by (auto simp: Let_def new_working_def reject_def not_less split: sum.splits option.splits)

text \<open>What a judged record carries over from the evidence.\<close>

lemma judge_fields:
  "w_evidence (judge H limits policy request ctx routes e) = e"
  "\<not> matches_a_member (judge H limits policy request ctx routes e)"
  "\<not> trace_is_prefix (judge H limits policy request ctx routes e)"
  "\<not> trace_is_exact (judge H limits policy request ctx routes e)"
  "matched_members (judge H limits policy request ctx routes e) = []"
  by (simp_all add: judge_def judge_fenced_def new_working_def reject_def Let_def split: sum.splits option.splits)

lemma judge_hops:
  "w_accepted (judge H limits policy request ctx routes e) \<Longrightarrow>
   w_hops (judge H limits policy request ctx routes e) = correlate ctx (ev_hops e)"
  by (auto simp: judge_def judge_fenced_def new_working_def reject_def Let_def
      split: sum.splits option.splits if_splits)

lemma correlate_Nil [simp]: "correlate ctx [] = []"
  by (simp add: correlate_def split: option.split)

lemma unique_records_subset: "set (unique_records ws) \<subseteq> set ws"
  by (induction ws rule: unique_records.induct) auto

lemma working_records_judged:
  "w \<in> set (working_records H limits policy request ctx routes) \<Longrightarrow>
   \<exists>e \<in> set (req_evidence request). w = judge H limits policy request ctx routes e"
  using unique_records_subset by (fastforce simp: working_records_def)

text \<open>When identities tell the records apart, deduplication loses no record.\<close>

lemma unique_records_set:
  "inj_on (\<lambda>w. ev_id (w_evidence w)) (set ws) \<Longrightarrow> set (unique_records ws) = set ws"
proof (induction ws rule: unique_records.induct)
  case (1 a b ws)
  show ?case
  proof (cases "ev_id (w_evidence a) = ev_id (w_evidence b)")
    case True
    then have "a = b" by (rule inj_onD[OF 1(3)]) simp_all
    moreover have "set (unique_records (a # ws)) = set (a # ws)"
      by (rule 1(1)[OF True inj_on_subset[OF 1(3)]]) auto
    ultimately show ?thesis by simp
  next
    case False
    have "set (unique_records (b # ws)) = set (b # ws)"
      by (rule 1(2)[OF False inj_on_subset[OF 1(3)]]) auto
    then show ?thesis using False by simp
  qed
qed simp_all

lemma judge_ids_inj:
  assumes "inj_on ev_id (set es)"
  shows "inj_on (\<lambda>w. ev_id (w_evidence w)) (judge H limits policy request ctx routes ` set es)"
  using assms by (auto simp: inj_on_def judge_fields)

lemma working_records_complete:
  assumes "inj_on ev_id (set (req_evidence request))"
  shows "set (working_records H limits policy request ctx routes) =
    judge H limits policy request ctx routes ` set (req_evidence request)"
  unfolding working_records_def using judge_ids_inj[OF assms] by (subst unique_records_set) simp_all

section \<open>Matching\<close>

definition follows :: "ExpectedPath \<Rightarrow> ObservedHop list \<Rightarrow> bool" where
  "follows p hops \<longleftrightarrow> trace_match (compare_trace p hops) \<in> {Trace_Exact, Trace_Prefix}"

lemma match_member_fields [simp]:
  "w_evidence (match_member p w) = w_evidence w" "w_hops (match_member p w) = w_hops w"
  "w_accepted (match_member p w) = w_accepted w" "w_freshness (match_member p w) = w_freshness w"
  by (simp_all add: match_member_def note_member_def split: TraceMatch.split)

lemma match_member_flags:
  "matches_a_member (match_member p w) \<longleftrightarrow> matches_a_member w \<or> follows p (w_hops w)"
  "trace_is_exact (match_member p w) \<longleftrightarrow> trace_is_exact w \<or> trace_match (compare_trace p (w_hops w)) = Trace_Exact"
  "trace_is_prefix (match_member p w) \<longleftrightarrow> trace_is_prefix w \<or> trace_match (compare_trace p (w_hops w)) = Trace_Prefix"
  "set (matched_members (match_member p w)) =
     set (matched_members w) \<union> (if follows p (w_hops w) then {path_id p} else {})"
  by (auto simp: match_member_def note_member_def follows_def split: TraceMatch.split)

lemma fold_match_member_fields [simp]:
  "w_evidence (fold match_member ps w) = w_evidence w" "w_hops (fold match_member ps w) = w_hops w"
  "w_accepted (fold match_member ps w) = w_accepted w" "w_freshness (fold match_member ps w) = w_freshness w"
  by (induction ps arbitrary: w) simp_all

lemma fold_match_member_matches:
  "matches_a_member (fold match_member ps w) \<longleftrightarrow> matches_a_member w \<or> (\<exists>p\<in>set ps. follows p (w_hops w))"
  by (induction ps arbitrary: w) (simp_all add: match_member_flags)

lemma fold_match_member_exact:
  "trace_is_exact (fold match_member ps w) \<longleftrightarrow>
     trace_is_exact w \<or> (\<exists>p\<in>set ps. trace_match (compare_trace p (w_hops w)) = Trace_Exact)"
  by (induction ps arbitrary: w) (simp_all add: match_member_flags)

lemma fold_match_member_prefix:
  "trace_is_prefix (fold match_member ps w) \<longleftrightarrow>
     trace_is_prefix w \<or> (\<exists>p\<in>set ps. trace_match (compare_trace p (w_hops w)) = Trace_Prefix)"
  by (induction ps arbitrary: w) (simp_all add: match_member_flags)

lemma fold_match_member_members:
  "set (matched_members (fold match_member ps w)) =
     set (matched_members w) \<union> path_id ` {p \<in> set ps. follows p (w_hops w)}"
  by (induction ps arbitrary: w) (auto simp: match_member_flags)

lemma match_members_fields [simp]:
  "w_evidence (match_members ps w) = w_evidence w" "w_hops (match_members ps w) = w_hops w"
  "w_accepted (match_members ps w) = w_accepted w" "w_freshness (match_members ps w) = w_freshness w"
  by (simp_all add: match_members_def)

section \<open>Gates\<close>

lemma gate_surface_match:
  "fst (gate_surface s st) = Match \<longleftrightarrow> fst st = Match \<and> s \<in> {Real, Synthetic}"
  by (cases s) (auto simp: gate_surface_def prod.case_eq_if)

lemma gate_authority_match:
  "fst (gate_authority policy t a s st) = Match \<longleftrightarrow>
     fst st = Match \<and> (require_topology_for_match policy \<longrightarrow> t) \<and> a \<in> {Advisory, Authoritative} \<and>
     (require_real_surface_for_match policy \<longrightarrow> s = Real)"
  by (cases a) (auto simp: gate_authority_def prod.case_eq_if)

lemma gates_match:
  "fst (gate_conflict c st) = Match \<longleftrightarrow> fst st = Match \<and> \<not> c"
  "fst (gate_freshness c f st) = Match \<longleftrightarrow> fst st = Match \<and> (c \<or> f = Fresh)"
  "fst (gate_structural b st) = Match \<longleftrightarrow> fst st = Match \<and> \<not> b"
  "fst (gate_ambiguity policy b st) = Match \<longleftrightarrow> fst st = Match \<and> \<not> (multipath_ambiguity_is_divergence policy \<and> b)"
  "fst (gate_completeness d st) = Match \<longleftrightarrow> fst st = Match \<and> d = Evidence_Complete"
  "fst (gate_named u st) = Match \<longleftrightarrow> fst st = Match \<and> \<not> u"
  by (auto simp: gate_conflict_def gate_freshness_def gate_structural_def gate_ambiguity_def
      gate_completeness_def gate_named_def is_compliance_capable_def prod.case_eq_if)

lemma gates_divergent:
  "fst (gate_surface s (Match, cs)) \<noteq> Divergent"
  "fst (gate_conflict c st) = Divergent \<longleftrightarrow> fst st = Divergent \<and> \<not> c"
  "fst (gate_freshness c f st) = Divergent \<longleftrightarrow> fst st = Divergent \<and> (c \<or> f = Fresh)"
  "fst (gate_structural b st) = Divergent \<longleftrightarrow> fst st = Divergent \<or> fst st = Match \<and> b"
  "fst (gate_ambiguity policy m st) = Divergent \<longleftrightarrow> fst st = Divergent"
  "fst (gate_completeness d st) = Divergent \<longleftrightarrow> fst st = Divergent"
  "fst (gate_authority policy t a s st) = Divergent \<longleftrightarrow> fst st = Divergent"
  "fst (gate_named u st) = Divergent \<longleftrightarrow> fst st = Divergent"
  by (auto simp: gate_surface_def gate_conflict_def gate_freshness_def gate_structural_def gate_ambiguity_def
      gate_completeness_def gate_authority_def gate_named_def is_compliance_capable_def prod.case_eq_if)

text \<open>Which fields the later steps leave alone.\<close>

lemma step_fields [simp]:
  "completeness (check_known routes request ws r) = completeness r"
  "multipath_ambiguous (check_known routes request ws r) = multipath_ambiguous r"
  "matched_path (check_known routes request ws r) = matched_path r"
  "cmp_freshness (check_known routes request ws r) = cmp_freshness r"
  "cmp_surface (check_known routes request ws r) = cmp_surface r"
  "cmp_surface (check_links ref w r) = cmp_surface r"
  "cmp_surface (add_differences b ref w r) = cmp_surface r"
  "cmp_surface (set_consistency c s n r) = cmp_surface r"
  "consistency (check_known routes request ws r) = consistency r"
  "judgements (check_known routes request ws r) = judgements r"
  "differences (check_known routes request ws r) = differences r"
  "multipath_ambiguous (check_links ref w r) = multipath_ambiguous r"
  "matched_path (check_links ref w r) = matched_path r"
  "cmp_freshness (check_links ref w r) = cmp_freshness r"
  "consistency (check_links ref w r) = consistency r"
  "judgements (check_links ref w r) = judgements r"
  "differences (check_links ref w r) = differences r"
  "completeness (add_differences b ref w r) = completeness r"
  "multipath_ambiguous (add_differences b ref w r) = multipath_ambiguous r"
  "matched_path (add_differences b ref w r) = matched_path r"
  "cmp_freshness (add_differences b ref w r) = cmp_freshness r"
  "consistency (add_differences b ref w r) = consistency r"
  "judgements (add_differences b ref w r) = judgements r"
  "matched_path (set_consistency c s n r) = matched_path r"
  "cmp_freshness (set_consistency c s n r) = cmp_freshness r"
  "judgements (set_consistency c s n r) = judgements r"
  by (auto simp: check_known_def check_links_def add_differences_def set_consistency_def Let_def split: option.split)

lemma check_links_complete:
  "completeness (check_links ref w r) = Evidence_Complete \<Longrightarrow> completeness r = Evidence_Complete"
  by (auto simp: check_links_def split: option.splits if_splits)

lemma set_consistency_conflicting: "consistency (set_consistency c s n r) = Conflicting \<longleftrightarrow> c"
  by (auto simp: set_consistency_def)

lemma final_gates_match:
  "fst (final_gates policy tok conflicting structural nothing has_members auth r) = Match \<longleftrightarrow>
     cmp_surface r \<in> {Real, Synthetic} \<and> \<not> conflicting \<and> cmp_freshness r = Fresh \<and> \<not> structural \<and>
     \<not> (multipath_ambiguity_is_divergence policy \<and> multipath_ambiguous r) \<and>
     completeness r = Evidence_Complete \<and> (require_topology_for_match policy \<longrightarrow> tok) \<and>
     auth \<in> {Advisory, Authoritative} \<and> (require_real_surface_for_match policy \<longrightarrow> cmp_surface r = Real) \<and>
     \<not> nothing \<and> (has_members \<longrightarrow> present (matched_path r))"
  unfolding final_gates_def by (simp add: gates_match gate_surface_match gate_authority_match) blast

lemma final_gates_divergent:
  "fst (final_gates policy tok conflicting structural nothing has_members auth r) = Divergent \<longleftrightarrow>
     structural \<and> cmp_surface r \<in> {Real, Synthetic} \<and> \<not> conflicting \<and> cmp_freshness r = Fresh"
  unfolding final_gates_def by (simp add: gates_divergent gates_match gate_surface_match) blast

text \<open>The description before the gates.\<close>

lemma describe_accepted_fields:
  "cmp_surface (describe_accepted request routes g ps acc r) = worst_surface_of acc"
  "cmp_freshness (describe_accepted request routes g ps acc r) = worst_freshness_of acc"
  "consistency (describe_accepted request routes g ps acc r) = Conflicting \<longleftrightarrow> any_conflict acc"
  "judgements (describe_accepted request routes g ps acc r) = judgements r"
  "matched_path (describe_accepted request routes g ps acc r) =
     (case matched_members (hd acc) of [] \<Rightarrow> absent | i # _ \<Rightarrow> MaybeId i)"
  by (simp_all add: describe_accepted_def Let_def set_consistency_conflicting)

lemma describe_accepted_complete:
  assumes "completeness (describe_accepted request routes g ps acc r) = Evidence_Complete"
  shows "derived_completeness (source_sequence_gap request) ps acc = Evidence_Complete"
  using assms check_links_complete by (simp add: describe_accepted_def Let_def) force

section \<open>What the outcome implies\<close>

lemma resolve_subject_group: "resolve_subject routes request = Some g \<Longrightarrow> g \<in> set (groups routes)"
proof -
  have fg: "find_group routes i = Some g \<Longrightarrow> g \<in> set (groups routes)" for i g
    using find_by_key_sound[of group_id i "groups routes" g] by (simp add: find_group_def)
  have fe: "fst (find_group_by_endpoints routes a b) = Some g \<Longrightarrow> g \<in> set (groups routes)" for a b g
    by (auto simp: find_group_by_endpoints_def Let_def filter_eq_Cons_iff split: list.splits)
  have ge: "group_of_evidence routes e = Some g \<Longrightarrow> g \<in> set (groups routes)" for e g
    by (auto simp: group_of_evidence_def group_of_path_def fg fe split: if_splits option.splits)
  have "first_group routes es = Some g \<Longrightarrow> g \<in> set (groups routes)" for es
    by (induction es) (auto simp: ge split: option.splits)
  then show "resolve_subject routes request = Some g \<Longrightarrow> g \<in> set (groups routes)"
    by (auto simp: resolve_subject_def group_of_path_def fg split: if_splits option.splits)
qed

lemma group_paths_nonempty:
  assumes "route_inv routes" and "g \<in> set (groups routes)"
  shows "group_paths routes g \<noteq> []"
proof -
  have m: "members g \<noteq> []" "\<forall>m\<in>set (members g). \<exists>p. find_path routes m = Some p"
    using assms unfolding route_inv_def list_all_iff by blast+
  then obtain p where "find_path routes (hd (members g)) = Some p" by (meson hd_in_set)
  then show ?thesis using m(1) by (cases "members g") (simp_all add: group_paths_def map_filter_simps)
qed

text \<open>The accepted records of a comparison, with their matched members, are judged evidence.\<close>

lemma accepted_judged:
  assumes "w \<in> set (filter w_accepted (map (match_members ps) (working_records H limits policy request ctx routes)))"
  obtains e where "e \<in> set (req_evidence request)" "admissible H limits policy request ctx routes e"
    "w_evidence w = e" "w_hops w = correlate ctx (ev_hops e)"
    "w_freshness w = w_freshness (judge H limits policy request ctx routes e)"
    "matches_a_member w \<longleftrightarrow> (\<exists>p\<in>set ps. follows p (w_hops w))"
    "trace_is_exact w \<longleftrightarrow> (\<exists>p\<in>set ps. trace_match (compare_trace p (w_hops w)) = Trace_Exact)"
    "trace_is_prefix w \<longleftrightarrow> (\<exists>p\<in>set ps. trace_match (compare_trace p (w_hops w)) = Trace_Prefix)"
    "set (matched_members w) = path_id ` {p \<in> set ps. follows p (w_hops w)}"
proof -
  from assms obtain v where v: "v \<in> set (working_records H limits policy request ctx routes)"
    "w = match_members ps v" "w_accepted v" by auto
  from working_records_judged[OF v(1)] obtain e where e: "e \<in> set (req_evidence request)"
    "v = judge H limits policy request ctx routes e" by blast
  show thesis
    using that[of e] e v judge_accepted[of H limits policy request ctx routes e]
      judge_hops[of H limits policy request ctx routes e]
    by (simp add: match_members_def judge_fields fold_match_member_matches fold_match_member_exact
        fold_match_member_prefix fold_match_member_members)
qed

lemma complete_records:
  "derived_completeness gap ps acc = Evidence_Complete \<Longrightarrow>
   \<not> gap \<and> (\<forall>w\<in>set acc. \<not> record_incomplete ps w)"
  by (auto simp: derived_completeness_def list_ex_iff split: if_splits)

lemma exact_member:
  assumes "\<not> record_incomplete ps w" and "matched_members w \<noteq> []"
    and exact: "trace_is_exact w \<longleftrightarrow> (\<exists>p\<in>set ps. trace_match (compare_trace p (w_hops w)) = Trace_Exact)"
    and pre: "trace_is_prefix w \<longleftrightarrow> (\<exists>p\<in>set ps. trace_match (compare_trace p (w_hops w)) = Trace_Prefix)"
    and "set (matched_members w) = path_id ` {p \<in> set ps. follows p (w_hops w)}"
  obtains p where "p \<in> set ps" "trace_match (compare_trace p (w_hops w)) = Trace_Exact"
proof -
  have "\<exists>p\<in>set ps. follows p (w_hops w)"
  proof (rule ccontr)
    assume "\<not> ?thesis"
    then have "set (matched_members w) = {}" using assms(5) by simp
    then show False using assms(2) by simp
  qed
  then have "trace_is_exact w \<or> trace_is_prefix w" unfolding exact pre follows_def by auto
  then have "trace_is_exact w" using assms(1) by (auto simp: record_incomplete_def)
  then show thesis using that unfolding exact by blast
qed

lemma worst_freshness_Fresh: "worst_freshness_of ws = Fresh \<longleftrightarrow> (\<forall>w\<in>set ws. w_freshness w = Fresh)"
  by (simp add: worst_freshness_of_def fold_worse_of)

text \<open>What the judgements of a complete and fresh comparison say.\<close>

lemma accepted_judgements:
  assumes "worst_freshness_of (filter w_accepted (map (match_members ps) ws)) = Fresh"
    and "\<forall>w\<in>set (filter w_accepted (map (match_members ps) ws)). \<not> record_incomplete ps w"
    and "j \<in> set (map judgement_of ws)" and "judged_accepted j"
  shows "judged_freshness j = Fresh \<and> judged_completeness j \<noteq> Evidence_Partial"
proof -
  from assms(3,4) obtain w where w: "w \<in> set ws" "j = judgement_of w" "w_accepted w"
    by (auto simp: judgement_of_def)
  then have "match_members ps w \<in> set (filter w_accepted (map (match_members ps) ws))" by simp
  then have "w_freshness (match_members ps w) = Fresh" "\<not> record_incomplete ps (match_members ps w)"
    using assms(1,2) unfolding worst_freshness_Fresh by blast+
  then show ?thesis using w(2)
    by (auto simp: judgement_of_def claimed_completeness_def record_incomplete_def split: if_splits)
qed

text \<open>A compared subject: the shape of every result whose outcome is Match or Divergent.\<close>

lemma compare_decided:
  assumes "compare H limits policy request ctx = Inr r" and "outcome r = Match \<or> outcome r = Divergent"
  obtains routes g r0 where "ctx_routes ctx = Some routes" "generation_matches request ctx"
    "resolve_subject routes request = Some g"
    "filter w_accepted (working_records H limits policy request ctx routes) \<noteq> []"
    "judgements r0 = map judgement_of (working_records H limits policy request ctx routes)"
    "r = ComparisonResult_seal H (finish_accepted policy request routes (topology_matches routes ctx) g
           (working_records H limits policy request ctx routes) r0)"
proof -
  from assms obtain routes where routes: "ctx_routes ctx = Some routes" "generation_matches request ctx"
    by (auto simp: compare_def try_bind_eq_Inr Let_def ComparisonResult_seal_def new_result_def
        split: option.splits if_splits)
  with assms obtain g where g: "resolve_subject routes request = Some g"
    by (auto simp: compare_def try_bind_eq_Inr Let_def ComparisonResult_seal_def new_result_def
        split: option.splits)
  let ?r1 = "(new_result request ctx)\<lparr>cmp_topology := route_topology routes,
      classes := (if topology_matches routes ctx then classes (new_result request ctx)
                  else add_class TopologyGenerationMismatch (classes (new_result request ctx)))\<rparr>"
  have r: "r = ComparisonResult_seal H (compare_group_subject H limits policy request ctx routes g ?r1)"
    using assms(1) routes g by (auto simp: compare_def try_bind_eq_Inr Let_def)
  have un: "outcome (ComparisonResult_seal H (finish_unaccepted ws r')) \<notin> {Match, Divergent}" for ws r'
    by (simp add: ComparisonResult_seal_def finish_unaccepted_def Let_def)
  have ne: "filter w_accepted (working_records H limits policy request ctx routes) \<noteq> []"
    using r un assms(2) by (auto simp: compare_group_subject_def Let_def)
  show thesis
  proof (rule that[OF routes g ne])
    show "judgements (report_records request g (working_records H limits policy request ctx routes) ?r1) =
        map judgement_of (working_records H limits policy request ctx routes)"
      by (simp add: report_records_def Let_def)
    show "r = ComparisonResult_seal H (finish_accepted policy request routes (topology_matches routes ctx) g
        (working_records H limits policy request ctx routes)
        (report_records request g (working_records H limits policy request ctx routes) ?r1))"
      using r ne by (simp only: compare_group_subject_def Let_def if_False)
  qed
qed

lemma finish_accepted_parts:
  fixes routes g ws
  defines "ps \<equiv> group_paths routes g" and "acc \<equiv> filter w_accepted (map (match_members (group_paths routes g)) ws)"
  shows "outcome (finish_accepted policy request routes tok g ws r) =
      fst (final_gates policy tok (any_conflict acc) (\<not> list_ex matches_a_member acc \<and> w_hops (hd acc) \<noteq> [])
        (members g \<noteq> [] \<and> matched_members (hd acc) = [] \<and> \<not> list_ex matches_a_member acc) (ps \<noteq> [])
        (ev_authority (w_evidence (hd acc))) (describe_accepted request routes g ps acc r))"
    and "completeness (finish_accepted policy request routes tok g ws r) =
      completeness (describe_accepted request routes g ps acc r)"
    and "consistency (finish_accepted policy request routes tok g ws r) =
      consistency (describe_accepted request routes g ps acc r)"
    and "cmp_freshness (finish_accepted policy request routes tok g ws r) = worst_freshness_of acc"
    and "cmp_surface (finish_accepted policy request routes tok g ws r) = worst_surface_of acc"
    and "judgements (finish_accepted policy request routes tok g ws r) = judgements r"
    and "differences (finish_accepted policy request routes tok g ws r) =
      differences (describe_accepted request routes g ps acc r)"
  unfolding ps_def acc_def finish_accepted_def Let_def by (simp_all add: describe_accepted_fields)

lemma seal_fields [simp]:
  "outcome (ComparisonResult_seal H r) = outcome r" "completeness (ComparisonResult_seal H r) = completeness r"
  "consistency (ComparisonResult_seal H r) = consistency r"
  "cmp_freshness (ComparisonResult_seal H r) = cmp_freshness r"
  "cmp_surface (ComparisonResult_seal H r) = cmp_surface r"
  "judgements (ComparisonResult_seal H r) = judgements r"
  "differences (ComparisonResult_seal H r) = differences r"
  "classes (ComparisonResult_seal H r) = classes r" "primary (ComparisonResult_seal H r) = primary r"
  by (simp_all add: ComparisonResult_seal_def)


text \<open>A plan with two members, and a request to compare its group.\<close>

definition example_plan :: RouteGeneration where
  "example_plan = example_routes\<lparr>
     paths := [example_path 1 [example_expected_hop 0 1 11 12, example_expected_hop 1 2 21 22],
               example_path 2 [example_expected_hop 0 1 11 13, example_expected_hop 1 2 23 22]],
     groups := [\<lparr>group_id = StrongId 1, group_origin = StrongId 1, group_destination = StrongId 2,
                 group_label = ''g'', members = [StrongId 1, StrongId 2]\<rparr>]\<rparr>"

definition example_context :: ComparisonContext where
  "example_context =
     \<lparr>ctx_routes = Some example_plan, ctx_topology = Some example_topology, ctx_topology_index = None,
      ctx_sources = None,
      ctx_authority = \<lparr>auth_epoch = StrongId 1, auth_incarnation = StrongId 1, auth_route_source = StrongId 1,
        auth_route_revision = StrongId 1, auth_topology_source = StrongId 1, auth_topology_revision = StrongId 1\<rparr>,
      ctx_now = from_unix_nanos 2000\<rparr>"

definition example_request :: "ObservedPathEvidence list \<Rightarrow> ComparisonRequest" where
  "example_request es =
     \<lparr>req_generation = StrongId 1, req_group = MaybeId (StrongId 1), req_path = absent,
      req_evidence = es, source_sequence_gap = False\<rparr>"

text \<open>A hash that tells records apart by the low byte of their sequence number.\<close>

definition sequence_hash :: hasher where
  "sequence_hash bs = Digest (replicate 15 1 @ [if length bs > 36 then bs ! 36 else 0] @ replicate 16 1)"

definition example_compare :: "ObservedPathEvidence list \<Rightarrow> ComparisonResult Result" where
  "example_compare es =
     compare sequence_hash default_limits default_comparison_policy (example_request es) example_context"

definition has_outcome :: "MatchOutcome \<Rightarrow> ComparisonResult Result \<Rightarrow> bool" where
  "has_outcome out res = (case res of Inr r \<Rightarrow> outcome r = out | Inl _ \<Rightarrow> False)"

definition example_divergent :: ObservedPathEvidence where
  "example_divergent = example_evidence\<lparr>ev_hops := [example_hop 0 1 11 12, example_hop 1 3 31 32]\<rparr>"

lemma example_plan_inv: "route_inv example_plan"
  by (simp add: route_inv_def example_plan_def example_routes_def example_path_def example_expected_hop_def
      find_path_def find_by_key_Cons All_less_Suc2 numeral_2_eq_2)




end
