(* ===== verification/CompareOrder.thy ===== *)
theory CompareOrder
  imports CompareSound "HOL-Library.Product_Lexorder"
begin

text \<open>
  What the result of a comparison depends on: not on the order of the evidence and not on repeated
  delivery, as long as the subject is named and the records do not claim different paths of the
  compared group. The limits of that promise are shown on concrete requests at the end.
\<close>

section \<open>The working order\<close>

text \<open>The comparator of the engine is the lexicographic order of six keys, so a strict weak order.\<close>

type_synonym working_key = "int \<times> nat \<times> int \<times> int \<times> int \<times> EvidenceId"

definition working_key :: "Working \<Rightarrow> working_key" where
  "working_key w =
     (let e = w_evidence w
      in (- uint (AuthorityClass_code (ev_authority e)), freshness_severity (w_freshness w),
          - uint (EvidenceCompleteness_code (declared_completeness e)), - nanos (received_at e),
          - uint (id_value (ev_sequence e)), ev_id e))"

lemma StrongId_less_uint: "a < b \<longleftrightarrow> uint (id_value a) < uint (id_value b)" for a b :: "'t StrongId"
  by (cases a; cases b) (simp add: word_less_def)

lemma TimePoint_less_nanos: "a < b \<longleftrightarrow> nanos a < nanos b" for a b :: TimePoint
  by (simp add: less_TimePoint_def)

lemma TimePoint_eq_nanos: "a = b \<longleftrightarrow> nanos a = nanos b" for a b :: TimePoint
  by (cases a; cases b) (simp add: nanos_def sint_eq_iff)

lemma StrongId_eq_uint: "a = b \<longleftrightarrow> uint (id_value a) = uint (id_value b)" for a b :: "'t StrongId"
  by (cases a; cases b) (simp add: word_uint_eq_iff)

lemma working_less_key: "working_less a b \<longleftrightarrow> working_key a < working_key b"
proof -
  have a: "ev_authority x \<noteq> ev_authority y \<longleftrightarrow>
      uint (AuthorityClass_code (ev_authority x)) \<noteq> uint (AuthorityClass_code (ev_authority y))" for x y
    by (simp add: word_uint_eq_iff[symmetric] authority_class.code_eq)
  have c: "declared_completeness x \<noteq> declared_completeness y \<longleftrightarrow>
      uint (EvidenceCompleteness_code (declared_completeness x)) \<noteq>
      uint (EvidenceCompleteness_code (declared_completeness y))" for x y
    by (simp add: word_uint_eq_iff[symmetric] evidence_completeness.code_eq)
  show ?thesis
    unfolding working_less_def working_key_def Let_def a c
      TimePoint_eq_nanos[of "received_at (w_evidence a)"] TimePoint_less_nanos
      StrongId_eq_uint[of "ev_sequence (w_evidence a)"] StrongId_less_uint word_less_def
    by auto
qed

interpretation working_order: comparator working_less
  by unfold_locales (auto simp: working_less_key)

lemma std_sort_working: "std_sort working_less = sort_by_key working_key"
  unfolding working_less_key[abs_def] ..

section \<open>The judged records depend on the set of evidence only\<close>

lemma unique_records_adj:
  "inj_on (\<lambda>w. ev_id (w_evidence w)) (set ws) \<Longrightarrow> unique_records ws = remdups_adj ws"
proof (induction ws rule: unique_records.induct)
  case (1 a b ws)
  have eq: "ev_id (w_evidence a) = ev_id (w_evidence b) \<longleftrightarrow> a = b"
    using inj_onD[OF 1(3), of a b] by auto
  show ?case
  proof (cases "a = b")
    case True
    have "unique_records (a # ws) = remdups_adj (a # ws)"
      by (rule 1(1)) (use True 1(3) in \<open>auto intro: inj_on_subset\<close>)
    then show ?thesis using True by simp
  next
    case False
    have "unique_records (b # ws) = remdups_adj (b # ws)"
      by (rule 1(2)) (use False eq 1(3) in \<open>auto intro: inj_on_subset\<close>)
    then show ?thesis using False eq by simp
  qed
qed simp_all

lemma remdups_adj_map_inj_on:
  "inj_on f (set xs) \<Longrightarrow> remdups_adj (map f xs) = map f (remdups_adj xs)"
  by (induction xs rule: remdups_adj.induct) (auto simp: inj_on_def)

text \<open>A sorted sequence without its repetitions is determined by its set.\<close>

lemma remdups_adj_sorted_unique:
  fixes key :: "'a \<Rightarrow> 'k::linorder"
  assumes "set xs = set ys" and "inj_on key (set xs)"
  shows "remdups_adj (sort_by_key key xs) = remdups_adj (sort_by_key key ys)"
proof -
  have strict: "sorted (map key (remdups_adj (sort_by_key key zs)))" 
    "distinct (map key (remdups_adj (sort_by_key key zs)))" if "inj_on key (set zs)" for zs
  proof -
    have m: "map key (remdups_adj (sort_by_key key zs)) = remdups_adj (map key (sort_by_key key zs))"
      using that by (simp add: remdups_adj_map_inj_on)
    show "sorted (map key (remdups_adj (sort_by_key key zs)))"
      unfolding m by (rule sorted_remdups_adj) simp
    show "distinct (map key (remdups_adj (sort_by_key key zs)))"
      unfolding m by (rule distinct_remdups_adj_sorted) simp
  qed
  have "map key (remdups_adj (sort_by_key key xs)) = map key (remdups_adj (sort_by_key key ys))"
    using strict assms by (intro sorted_distinct_set_unique) simp_all
  then show ?thesis
    using assms by (intro map_inj_on[of key]) simp_all
qed

lemma working_records_set:
  assumes "set es = set (req_evidence request)" and inj: "inj_on ev_id (set (req_evidence request))"
  shows "working_records H limits policy (request\<lparr>req_evidence := es\<rparr>) ctx routes =
    working_records H limits policy request ctx routes"
proof -
  let ?J = "judge H limits policy request ctx routes"
  have "fencing_classes policy (request\<lparr>req_evidence := es\<rparr>) ctx routes = fencing_classes policy request ctx routes"
    by (intro ext) (simp add: fencing_classes_def)
  then have J: "judge H limits policy (request\<lparr>req_evidence := es\<rparr>) ctx routes = ?J"
    by (intro ext) (simp only: judge_def judge_fenced_def)
  have ids: "inj_on (\<lambda>w. ev_id (w_evidence w)) (?J ` set (req_evidence request))"
    by (rule judge_ids_inj[OF inj])
  then have keys: "inj_on working_key (?J ` set (req_evidence request))"
    by (auto simp: inj_on_def working_key_def Let_def)
  have "unique_records (std_sort working_less (map ?J zs)) = remdups_adj (sort_by_key working_key (map ?J zs))"
    if "set zs = set (req_evidence request)" for zs
    using ids that unfolding std_sort_working by (intro unique_records_adj) simp
  moreover have "remdups_adj (sort_by_key working_key (map ?J es)) =
      remdups_adj (sort_by_key working_key (map ?J (req_evidence request)))"
    using assms(1) keys by (intro remdups_adj_sorted_unique) simp_all
  ultimately show ?thesis
    unfolding working_records_def J using assms(1) by simp
qed

section \<open>The rest of the comparison\<close>

text \<open>The two counters that describe the delivery rather than the judged set.\<close>

definition with_counts :: "nat \<Rightarrow> nat \<Rightarrow> ComparisonResult \<Rightarrow> ComparisonResult" where
  "with_counts n m r = r\<lparr>evidence_offered := n, duplicate_evidence := m\<rparr>"

lemma with_counts_fields [simp]:
  "classes (with_counts n m r) = classes r" "differences (with_counts n m r) = differences r"
  "completeness (with_counts n m r) = completeness r" "matched_path (with_counts n m r) = matched_path r"
  "cmp_surface (with_counts n m r) = cmp_surface r" "cmp_freshness (with_counts n m r) = cmp_freshness r"
  "multipath_ambiguous (with_counts n m r) = multipath_ambiguous r"
  "evidence_offered (with_counts n m r) = n" "duplicate_evidence (with_counts n m r) = m"
  "with_counts n m (with_counts n' m' r) = with_counts n m r"
  by (simp_all add: with_counts_def)

lemma with_counts_updates:
  "(with_counts n m r)\<lparr>classes := cs\<rparr> = with_counts n m (r\<lparr>classes := cs\<rparr>)"
  "(with_counts n m r)\<lparr>completeness := d\<rparr> = with_counts n m (r\<lparr>completeness := d\<rparr>)"
  "(with_counts n m r)\<lparr>consistency := c\<rparr> = with_counts n m (r\<lparr>consistency := c\<rparr>)"
  "(with_counts n m r)\<lparr>multipath_ambiguous := b\<rparr> = with_counts n m (r\<lparr>multipath_ambiguous := b\<rparr>)"
  "(with_counts n m r)\<lparr>differences := ds\<rparr> = with_counts n m (r\<lparr>differences := ds\<rparr>)"
  "(with_counts n m r)\<lparr>matched_path := p\<rparr> = with_counts n m (r\<lparr>matched_path := p\<rparr>)"
  "(with_counts n m r)\<lparr>cmp_surface := s\<rparr> = with_counts n m (r\<lparr>cmp_surface := s\<rparr>)"
  "(with_counts n m r)\<lparr>cmp_freshness := f\<rparr> = with_counts n m (r\<lparr>cmp_freshness := f\<rparr>)"
  "(with_counts n m r)\<lparr>outcome := out\<rparr> = with_counts n m (r\<lparr>outcome := out\<rparr>)"
  "(with_counts n m r)\<lparr>primary := pr\<rparr> = with_counts n m (r\<lparr>primary := pr\<rparr>)"
  "(with_counts n m r)\<lparr>cmp_topology := t\<rparr> = with_counts n m (r\<lparr>cmp_topology := t\<rparr>)"
  "(with_counts n m r)\<lparr>cmp_id := i\<rparr> = with_counts n m (r\<lparr>cmp_id := i\<rparr>)"
  by (simp_all add: with_counts_def)

lemma with_counts_steps:
  "set_consistency c s k (with_counts n m r) = with_counts n m (set_consistency c s k r)"
  "add_differences b ref w (with_counts n m r) = with_counts n m (add_differences b ref w r)"
  "check_links ref w (with_counts n m r) = with_counts n m (check_links ref w r)"
  "check_known routes request ws (with_counts n m r) = with_counts n m (check_known routes request ws r)"
  by (simp_all add: set_consistency_def add_differences_def check_links_def check_known_def with_counts_updates
      Let_def split: option.split)

lemma seal_with_counts: "ComparisonResult_seal H (with_counts n m r) = with_counts n m (ComparisonResult_seal H r)"
proof -
  have "ComparisonResult_bytes (with_counts n m r) = ComparisonResult_bytes r"
    by (simp add: ComparisonResult_bytes_def with_counts_def)
  then show ?thesis by (simp add: ComparisonResult_seal_def with_counts_updates)
qed

lemma finish_unaccepted_with_counts:
  "finish_unaccepted ws (with_counts n m r) = with_counts n m (finish_unaccepted ws r)"
  by (simp add: finish_unaccepted_def Let_def with_counts_updates)

lemma describe_accepted_with_counts:
  assumes "reference_path routes (request\<lparr>req_evidence := es\<rparr>) g ps = reference_path routes request g ps"
  shows "describe_accepted (request\<lparr>req_evidence := es\<rparr>) routes g ps acc (with_counts n m r) =
    with_counts n m (describe_accepted request routes g ps acc r)"
proof -
  have "check_known routes (request\<lparr>req_evidence := es\<rparr>) acc r' = check_known routes request acc r'" for r'
    by (simp add: check_known_def)
  then show ?thesis
    unfolding describe_accepted_def Let_def assms
    by (simp add: with_counts_updates with_counts_steps)
qed

lemma finish_accepted_with_counts:
  assumes "reference_path routes (request\<lparr>req_evidence := es\<rparr>) g (group_paths routes g) =
    reference_path routes request g (group_paths routes g)"
  shows "finish_accepted policy (request\<lparr>req_evidence := es\<rparr>) routes tok g ws (with_counts n m r) =
    with_counts n m (finish_accepted policy request routes tok g ws r)"
  unfolding finish_accepted_def Let_def describe_accepted_with_counts[OF assms]
  by (simp add: final_gates_def with_counts_updates)

text \<open>No two records claim different paths of the compared group, or the request names the path.\<close>

definition reference_agreed :: "RouteGeneration \<Rightarrow> ComparisonRequest \<Rightarrow> PathGroup \<Rightarrow> bool" where
  "reference_agreed routes request g \<longleftrightarrow>
     path_in_group routes g (req_path request) \<noteq> None \<or>
     (\<forall>a b p q. a \<in> set (req_evidence request) \<and> b \<in> set (req_evidence request) \<and>
        path_in_group routes g (ev_path a) = Some p \<and> path_in_group routes g (ev_path b) = Some q \<longrightarrow> p = q)"

lemma first_claimed_None: "first_claimed routes g es = None \<longleftrightarrow> (\<forall>e\<in>set es. path_in_group routes g (ev_path e) = None)"
  by (induction es) (auto split: option.splits)

lemma first_claimed_Some:
  "first_claimed routes g es = Some p \<Longrightarrow> \<exists>e\<in>set es. path_in_group routes g (ev_path e) = Some p"
  by (induction es) (auto split: option.splits)

lemma reference_path_set:
  assumes "set es = set (req_evidence request)" and "reference_agreed routes request g"
  shows "reference_path routes (request\<lparr>req_evidence := es\<rparr>) g ps = reference_path routes request g ps"
proof (cases "path_in_group routes g (req_path request)")
  case None
  have "first_claimed routes g es = first_claimed routes g (req_evidence request)"
  proof (cases "first_claimed routes g es")
    case None
    then show ?thesis using assms(1) first_claimed_None by metis
  next
    case (Some p)
    then have "first_claimed routes g (req_evidence request) \<noteq> None"
      using assms(1) first_claimed_None by (metis option.distinct(1))
    then obtain q where q: "first_claimed routes g (req_evidence request) = Some q" by blast
    have "p = q"
      using first_claimed_Some[OF Some] first_claimed_Some[OF q] assms None
      unfolding reference_agreed_def by auto
    then show ?thesis using Some q by simp
  qed
  then show ?thesis using None by (simp add: reference_path_def)
qed (simp add: reference_path_def)

lemma report_records_delivery:
  "report_records (request\<lparr>req_evidence := es\<rparr>) g ws (with_counts n m r) =
     with_counts n (length es - length ws) (report_records request g ws r)"
  by (simp add: report_records_def Let_def with_counts_def)

lemma compare_group_subject_set:
  assumes "set es = set (req_evidence request)" and "inj_on ev_id (set (req_evidence request))"
    and "reference_agreed routes request g"
  shows "\<exists>k. compare_group_subject H limits policy (request\<lparr>req_evidence := es\<rparr>) ctx routes g (with_counts n m r) =
    with_counts n k (compare_group_subject H limits policy request ctx routes g r)"
  unfolding compare_group_subject_def Let_def working_records_set[OF assms(1,2)] report_records_delivery
    finish_accepted_with_counts[OF reference_path_set[OF assms(1,3)]] finish_unaccepted_with_counts
  by (intro exI[of _ "length es - length (working_records H limits policy request ctx routes)"]) simp

text \<open>
  C5: neither the order of the evidence nor repeated delivery changes a comparison. For a request
  that names its group or path, whose records do not claim different paths of that group and are
  told apart by their identities, every other way to deliver the same set of records gives the same
  result with the same identity; only the two delivery counters may differ.
\<close>

theorem compare_delivery_independent:
  assumes "compare H limits policy request ctx = Inr r"
    and "set es = set (req_evidence request)" and "inj_on ev_id (set (req_evidence request))"
    and "present (req_group request) \<or> present (req_path request)"
    and "\<forall>routes g. ctx_routes ctx = Some routes \<and> resolve_subject routes request = Some g \<longrightarrow>
      reference_agreed routes request g"
    and "length es \<le> unat (max_evidence_per_comparison limits)"
  shows "\<exists>k. compare H limits policy (request\<lparr>req_evidence := es\<rparr>) ctx = Inr (with_counts (length es) k r)"
proof -
  let ?req = "request\<lparr>req_evidence := es\<rparr>"
  have new: "new_result ?req ctx = with_counts (length es) 0 (new_result request ctx)"
    by (simp add: new_result_def with_counts_def)
  have gen: "generation_matches ?req ctx = generation_matches request ctx"
    by (simp add: generation_matches_def split: option.split)
  have subj: "resolve_subject routes ?req = resolve_subject routes request" for routes
    using assms(4) by (auto simp: resolve_subject_def)
  have ok: "first_error [ComparisonPolicy_validate policy,
        guard_err (\<not> valid_id (req_generation ?req)) InvalidIdentity ''comparison request has no route generation'',
        guard_err (length (req_evidence ?req) > unat (max_evidence_per_comparison limits)) CapacityExceeded
          ''comparison request exceeds the configured evidence bound''] = ok"
    using assms(1,6) by (auto simp: compare_def try_bind_eq_Inr first_error_Inr simp del: first_error.simps)
  note C = compare_def[unfolded Let_def]
  show ?thesis
  proof (cases "ctx_routes ctx = None \<or> \<not> generation_matches request ctx")
    case True
    then show ?thesis
      using assms(1) unfolding C ok new gen
      by (auto simp: try_bind_eq_Inr with_counts_updates seal_with_counts split: option.splits)
  next
    case False
    then obtain routes where routes: "ctx_routes ctx = Some routes" "generation_matches request ctx" by auto
    show ?thesis
    proof (cases "resolve_subject routes request")
      case None
      then show ?thesis
        using assms(1) routes unfolding C ok new gen
        by (auto simp: try_bind_eq_Inr with_counts_updates seal_with_counts subj)
    next
      case (Some g)
      from compare_group_subject_set[OF assms(2,3)] assms(5) routes(1) Some
      have "\<exists>k. compare_group_subject H limits policy ?req ctx routes g (with_counts n m r') =
          with_counts n k (compare_group_subject H limits policy request ctx routes g r')" for n m r'
        by blast
      then show ?thesis
        using assms(1) routes Some unfolding C ok new gen
        by (auto simp: try_bind_eq_Inr with_counts_updates subj seal_with_counts)
          (metis seal_with_counts)+
    qed
  qed
qed

definition numbered :: "u64 \<Rightarrow> ObservedPathEvidence \<Rightarrow> ObservedPathEvidence" where
  "numbered n e = seal sequence_hash (e\<lparr>ev_sequence := StrongId n\<rparr>)"

definition has_value_with :: "('a \<Rightarrow> bool) \<Rightarrow> 'a Result \<Rightarrow> bool" where
  "has_value_with P res = (case res of Inr r \<Rightarrow> P r | Inl _ \<Rightarrow> False)"

theorem compare_delivery_independent_witness:
  "\<exists>r k. example_compare [numbered 1 example_evidence, numbered 2 example_evidence] = Inr r \<and>
     example_compare [numbered 2 example_evidence, numbered 1 example_evidence, numbered 2 example_evidence] =
       Inr (with_counts 3 k r)"
proof -
  let ?es = "[numbered 1 example_evidence, numbered 2 example_evidence]"
  let ?ds = "[numbered 2 example_evidence, numbered 1 example_evidence, numbered 2 example_evidence]"
  have "has_value_with (\<lambda>_. True) (example_compare ?es)" by code_simp
  then obtain r where r: "example_compare ?es = Inr r" by (auto simp: has_value_with_def split: sum.splits)
  have req: "(example_request ?es)\<lparr>req_evidence := ?ds\<rparr> = example_request ?ds"
    "req_evidence (example_request ?es) = ?es"
    by (simp_all add: example_request_def)
  have path: "ev_path (numbered n example_evidence) = MaybeId (StrongId 1)" for n
    by (simp add: numbered_def seal_def example_evidence_def)
  have "reference_agreed routes (example_request ?es) g" for routes g
    unfolding reference_agreed_def req by (auto simp: path)
  moreover have "ev_id (numbered 1 example_evidence) \<noteq> ev_id (numbered 2 example_evidence)" by code_simp
  then have "inj_on ev_id (set ?es)" by (auto simp: inj_on_def)
  moreover have "present (req_group (example_request ?es))" by (simp add: example_request_def)
  moreover have "length ?ds \<le> unat (max_evidence_per_comparison default_limits)"
    by (simp add: default_limits_def)
  moreover have "set ?ds = set ?es" by auto
  ultimately obtain k where "example_compare ?ds = Inr (with_counts (length ?ds) k r)"
    using compare_delivery_independent[OF r[unfolded example_compare_def], of ?ds]
    unfolding example_compare_def req by blast
  then have "example_compare ?ds = Inr (with_counts 3 k r)" by (simp add: numeral_3_eq_3)
  then show ?thesis using r by blast
qed

section \<open>Where the promise ends\<close>

text \<open>A record of a superseded epoch that claims the second member.\<close>

definition fenced_record :: ObservedPathEvidence where
  "fenced_record = numbered 2 (example_evidence\<lparr>ev_epoch := StrongId 9, ev_path := MaybeId (StrongId 2)\<rparr>)"

definition first_expected :: "ComparisonResult \<Rightarrow> (u32 \<times> PortId) list" where
  "first_expected r = map (\<lambda>d. case diff_expected d of None \<Rightarrow> (diff_index d, no_id)
                                 | Some h \<Rightarrow> (diff_index d, eh_ingress h)) (differences r)"


text \<open>
  Agreement of one record hides the contradiction of another. Two fresh, accepted records, of
  which the second follows no member of the group, are reported as a consistent Match when they do
  not both claim the same path: only records that claim one path are compared with each other, and
  the structural verdict asks only that some record matches a member.
\<close>

theorem contradicting_record_unreported:
  "has_value_with (\<lambda>r. outcome r = Match \<and> consistency r = Consistent \<and> evidence_considered r = 2 \<and> classes r = [])
     (example_compare [numbered 2 example_evidence, numbered 1 (example_divergent\<lparr>ev_path := absent\<rparr>)]) \<and>
   list_all (\<lambda>p. \<not> follows p (ev_hops example_divergent)) (paths example_plan)"
  by (rule conjI) code_simp+

text \<open>A plan whose first member extends its second by one hop.\<close>

definition nested_plan :: RouteGeneration where
  "nested_plan = example_plan\<lparr>
     paths := [example_path 1 [example_expected_hop 0 1 11 12, example_expected_hop 1 2 21 22,
                               example_expected_hop 2 3 31 32],
               example_path 2 [example_expected_hop 0 1 11 12, example_expected_hop 1 2 21 22]]\<rparr>"

text \<open>
  The path a Match names need not be the path that was observed in full. With one member a
  prefix of another, an observation of the shorter member to its end is a Match that names the
  longer member, of which only a prefix was observed.
\<close>

theorem match_names_prefix_member:
  "has_value_with (\<lambda>r. outcome r = Match \<and> matched_path r = MaybeId (StrongId 1))
     (compare sequence_hash default_limits default_comparison_policy (example_request [example_evidence])
        (example_context\<lparr>ctx_routes := Some nested_plan\<rparr>)) \<and>
   trace_match (compare_trace (paths nested_plan ! 0) (ev_hops example_evidence)) = Trace_Prefix \<and>
   trace_match (compare_trace (paths nested_plan ! 1) (ev_hops example_evidence)) = Trace_Exact"
  by (intro conjI) code_simp+

text \<open>
  Records without an identity collapse. Two different unsealed records have the same null
  identity, so the engine counts the second as a duplicate of the first and never considers it.
\<close>

theorem unsealed_records_collapse:
  "has_value_with (\<lambda>r. evidence_considered r = 1 \<and> duplicate_evidence r = 1 \<and> outcome r = Match)
     (example_compare [example_evidence\<lparr>ev_sequence := StrongId 2\<rparr>, example_divergent])"
  by code_simp

end
