(* ===== verification/CompareComplete.thy ===== *)
theory CompareComplete
  imports CompareSound
begin

text \<open>
  The converse of \<open>CompareSound\<close>: what evidence is enough for a verdict. An engine that never decides would
  satisfy the soundness theorems; here the verdicts are reached.
\<close>

section \<open>Reaching the gates\<close>

text \<open>The result before any record is reported.\<close>

definition opened_result :: "ComparisonRequest \<Rightarrow> ComparisonContext \<Rightarrow> RouteGeneration \<Rightarrow> ComparisonResult" where
  "opened_result request ctx routes = (new_result request ctx)\<lparr>cmp_topology := route_topology routes,
     classes := (if topology_matches routes ctx then [] else add_class TopologyGenerationMismatch [])\<rparr>"

definition answerable :: "Limits \<Rightarrow> ComparisonPolicy \<Rightarrow> ComparisonRequest \<Rightarrow> ComparisonContext \<Rightarrow> RouteGeneration \<Rightarrow> PathGroup \<Rightarrow> bool" where
  "answerable limits policy request ctx routes g \<longleftrightarrow>
     ComparisonPolicy_validate policy = ok \<and> valid_id (req_generation request) \<and>
     length (req_evidence request) \<le> unat (max_evidence_per_comparison limits) \<and> req_evidence request \<noteq> [] \<and>
     ctx_routes ctx = Some routes \<and> route_inv routes \<and> generation_matches request ctx \<and>
     resolve_subject routes request = Some g"

lemma unique_records_nonempty: "ws \<noteq> [] \<Longrightarrow> unique_records ws \<noteq> []"
  by (induction ws rule: unique_records.induct) auto

lemma working_records_nonempty:
  "req_evidence request \<noteq> [] \<Longrightarrow> working_records H limits policy request ctx routes \<noteq> []"
  unfolding working_records_def by (rule unique_records_nonempty) (metis length_0_conv length_map length_std_sort)

text \<open>When every record is admissible, all of them are accepted.\<close>

lemma all_accepted:
  assumes "\<forall>e\<in>set (req_evidence request). admissible H limits policy request ctx routes e"
  shows "filter w_accepted (map (match_members ps) (working_records H limits policy request ctx routes)) =
    map (match_members ps) (working_records H limits policy request ctx routes)"
  using assms working_records_judged by (fastforce simp: filter_id_conv judge_accepted)

lemma compare_reaches_gates:
  assumes "answerable limits policy request ctx routes g"
    and "\<forall>e\<in>set (req_evidence request). admissible H limits policy request ctx routes e"
  shows "compare H limits policy request ctx = Inr (ComparisonResult_seal H
    (finish_accepted policy request routes (topology_matches routes ctx) g (working_records H limits policy request ctx routes)
      (report_records request g (working_records H limits policy request ctx routes) (opened_result request ctx routes))))"
proof -
  let ?ws = "working_records H limits policy request ctx routes"
  have "?ws \<noteq> []" using assms(1) by (intro working_records_nonempty) (simp add: answerable_def)
  moreover have "w_accepted w" if "w \<in> set ?ws" for w
    using working_records_judged[OF that] assms(2) by (auto simp: judge_accepted)
  ultimately have "filter w_accepted ?ws \<noteq> []" by (auto simp: filter_empty_conv dest: hd_in_set)
  then show ?thesis using assms(1)
    by (simp add: answerable_def compare_def guard_err_def Let_def compare_group_subject_def opened_result_def new_result_def)
qed

section \<open>Surfaces and links\<close>

lemma worst_surface_in:
  assumes "\<forall>w\<in>set ws. ev_surface (w_evidence w) \<in> S" and "Real \<in> S"
  shows "worst_surface_of ws \<in> S"
proof -
  have "fold (\<lambda>w worst. if ProofSurface_code (ev_surface (w_evidence w)) > ProofSurface_code worst
      then ev_surface (w_evidence w) else worst) ws s \<in> S" if "s \<in> S" for s
    using assms(1) that by (induction ws arbitrary: s) auto
  then show ?thesis using assms(2) by (simp add: worst_surface_of_def)
qed

text \<open>Every link that the path declares is stated by the observed hop.\<close>

definition links_shown :: "ExpectedPath \<Rightarrow> ObservedHop list \<Rightarrow> bool" where
  "links_shown q hops \<longleftrightarrow>
     (\<forall>i < min (length (path_hops q)) (length hops). has_egress_link (path_hops q ! i) \<longrightarrow>
        valid_id (oh_link (hops ! i)) \<and> oh_link_provenance (hops ! i) \<noteq> Provenance_Absent)"

lemma check_links_shown:
  assumes "\<forall>q. reference = Some q \<longrightarrow> links_shown q (w_hops w)"
  shows "check_links reference w r = r"
  using assms by (auto simp: check_links_def links_shown_def link_unresolved_at_def list_ex_iff split: option.split)

lemma no_conflict:
  assumes "\<forall>a\<in>set ws. \<forall>b\<in>set ws. traces_compatible (w_hops a) (w_hops b)"
  shows "\<not> any_conflict ws"
  using assms by (induction ws) (auto simp: list_ex_iff records_conflict_def)

section \<open>Match\<close>

text \<open>A record that is enough on its own: admissible, fresh, authoritative enough, complete, and exactly on \<open>p\<close>.\<close>

definition demonstrates ::
  "hasher \<Rightarrow> Limits \<Rightarrow> ComparisonPolicy \<Rightarrow> ComparisonRequest \<Rightarrow> ComparisonContext \<Rightarrow> RouteGeneration
   \<Rightarrow> PathGroup \<Rightarrow> ExpectedPath \<Rightarrow> ObservedPathEvidence \<Rightarrow> bool" where
  "demonstrates H limits policy request ctx routes g p e \<longleftrightarrow>
     admissible H limits policy request ctx routes e \<and> ev_authority e \<in> {Advisory, Authoritative} \<and>
     w_freshness (judge H limits policy request ctx routes e) = Fresh \<and>
     (require_real_surface_for_match policy \<longrightarrow> ev_surface e = Real) \<and>
     \<not> source_truncated e \<and> declared_completeness e \<noteq> Evidence_Partial \<and>
     hop_indices_are_contiguous (correlate ctx (ev_hops e)) \<and>
     trace_match (compare_trace p (correlate ctx (ev_hops e))) = Trace_Exact \<and>
     (\<forall>q\<in>set (group_paths routes g). follows q (correlate ctx (ev_hops e)) \<longrightarrow> q = p) \<and>
     (\<forall>q. reference_path routes request g (group_paths routes g) = Some q \<longrightarrow> links_shown q (correlate ctx (ev_hops e)))"

lemma group_paths_valid:
  assumes "route_inv routes" and "p \<in> set (group_paths routes g)"
  shows "valid_id (path_id p)"
proof -
  obtain i where "find_path routes i = Some p" using assms(2) by (auto simp: group_paths_def map_filter_def)
  then have "p \<in> set (paths routes)" using find_by_key_sound[of path_id i "paths routes" p] by (simp add: find_path_def)
  then show ?thesis using assms(1) by (auto simp: route_inv_def list_all_iff)
qed

lemma set_concat_singleton: "ws \<noteq> [] \<Longrightarrow> \<forall>w\<in>set ws. set (f w) = {x} \<Longrightarrow> set (concat (map f ws)) = {x}"
  by (cases ws) auto

text \<open>An accepted record that demonstrates a member of the group.\<close>

lemma demonstrating_record:
  assumes "w \<in> set (map (match_members (group_paths routes g)) (working_records H limits policy request ctx routes))"
    and "p \<in> set (group_paths routes g)"
    and "\<forall>e\<in>set (req_evidence request). demonstrates H limits policy request ctx routes g p e"
  obtains e where "e \<in> set (req_evidence request)" and "w_evidence w = e" and "w_hops w = correlate ctx (ev_hops e)"
    and "w_freshness w = Fresh" and "matches_a_member w" and "set (matched_members w) = {path_id p}"
    and "\<not> record_incomplete (group_paths routes g) w"
proof -
  let ?ps = "group_paths routes g"
  have "\<forall>e\<in>set (req_evidence request). admissible H limits policy request ctx routes e"
    using assms(3) by (simp add: demonstrates_def)
  from all_accepted[OF this] assms(1)
  have "w \<in> set (filter w_accepted (map (match_members ?ps) (working_records H limits policy request ctx routes)))" by simp
  then obtain e where e: "e \<in> set (req_evidence request)" "w_evidence w = e" "w_hops w = correlate ctx (ev_hops e)"
    "w_freshness w = w_freshness (judge H limits policy request ctx routes e)"
    "matches_a_member w \<longleftrightarrow> (\<exists>p\<in>set ?ps. follows p (w_hops w))"
    "trace_is_exact w \<longleftrightarrow> (\<exists>p\<in>set ?ps. trace_match (compare_trace p (w_hops w)) = Trace_Exact)"
    "set (matched_members w) = path_id ` {p \<in> set ?ps. follows p (w_hops w)}"
    by (rule accepted_judged)
  from assms(3) e(1) have d: "demonstrates H limits policy request ctx routes g p e" by blast
  then have x: "trace_match (compare_trace p (w_hops w)) = Trace_Exact"
    and only: "\<forall>q\<in>set ?ps. follows q (w_hops w) \<longrightarrow> q = p" unfolding demonstrates_def e(3) by blast+
  have f: "follows p (w_hops w)" by (simp add: follows_def x)
  then have members: "set (matched_members w) = {path_id p}" using only assms(2) unfolding e(7) by blast
  have exact: "trace_is_exact w" "matches_a_member w" unfolding e(5,6) using x f assms(2) by blast+
  have complete: "\<not> record_incomplete ?ps w"
    using d e(2,3) exact by (simp add: record_incomplete_def demonstrates_def)
  have "w_freshness w = Fresh" using d e(4) by (simp add: demonstrates_def)
  then show thesis by (rule that[OF e(1-3) _ exact(2) members complete])
qed

text \<open>
  C3: Sufficient evidence is answered with Match. When the request can be answered, the topology is current,
  there is no sequence gap, and every record is admissible, fresh, authoritative enough, complete and
  exactly on one member of the group that it alone follows, with the declared links shown and no two
  records contradicting each other, the engine returns Match, names that member and reports no difference.
\<close>

theorem match_complete:
  assumes "answerable limits policy request ctx routes g" and "topology_matches routes ctx"
    and "\<not> source_sequence_gap request" and "p \<in> set (group_paths routes g)"
    and "\<forall>e\<in>set (req_evidence request). demonstrates H limits policy request ctx routes g p e"
    and "\<forall>a\<in>set (req_evidence request). \<forall>b\<in>set (req_evidence request).
      traces_compatible (correlate ctx (ev_hops a)) (correlate ctx (ev_hops b))"
  shows "\<exists>r. compare H limits policy request ctx = Inr r \<and> outcome r = Match \<and>
    matched_path r = MaybeId (path_id p) \<and> consistency r = Consistent \<and> differences r = []"
proof -
  let ?ws = "working_records H limits policy request ctx routes"
  let ?ps = "group_paths routes g"
  let ?acc = "map (match_members ?ps) ?ws"
  let ?r0 = "report_records request g ?ws (opened_result request ctx routes)"
  have adm: "\<forall>e\<in>set (req_evidence request). admissible H limits policy request ctx routes e"
    using assms(5) by (simp add: demonstrates_def)
  note acc = all_accepted[OF adm, of ?ps]
  note good = demonstrating_record[OF _ assms(4,5)]
  have ne: "?acc \<noteq> []" using assms(1) working_records_nonempty by (simp add: answerable_def)
  then have "hd ?acc \<in> set ?acc" by (rule hd_in_set)
  then obtain e where e: "e \<in> set (req_evidence request)" "w_evidence (hd ?acc) = e" "w_hops (hd ?acc) = correlate ctx (ev_hops e)"
    "matches_a_member (hd ?acc)" "set (matched_members (hd ?acc)) = {path_id p}" by (rule good)
  then have d: "demonstrates H limits policy request ctx routes g p e" using assms(5) by blast
  obtain ms where m: "matched_members (hd ?acc) = path_id p # ms"
    using e(5) by (cases "matched_members (hd ?acc)") auto
  have surface: "worst_surface_of ?acc \<in> S" if "Real \<in> S" "\<forall>e\<in>set (req_evidence request). ev_surface e \<in> S" for S
    using that by (intro worst_surface_in) (metis good)+
  have s: "worst_surface_of ?acc \<in> {Real, Synthetic}" "require_real_surface_for_match policy \<longrightarrow> worst_surface_of ?acc = Real"
    using surface[of "{Real, Synthetic}"] surface[of "{Real}"] assms(5) by (auto simp: demonstrates_def admissible_def)
  then have supported: "worst_surface_of ?acc \<noteq> Unsupported" by auto
  have fresh: "worst_freshness_of ?acc = Fresh" unfolding worst_freshness_Fresh by (metis good)
  have conflict: "\<not> any_conflict ?acc" using assms(6) by (intro no_conflict) (metis good)
  have complete: "derived_completeness (source_sequence_gap request) ?ps ?acc = Evidence_Complete"
    using assms(3) good unfolding derived_completeness_def list_ex_iff by metis
  have "set (concat (map matched_members ?acc)) = {path_id p}" by (rule set_concat_singleton[OF ne]) (metis good)
  then have one: "distinct_member_count ?acc = 1" by (simp add: distinct_member_count_def)
  have some: "list_ex matches_a_member ?acc" using e(4) \<open>hd ?acc \<in> set ?acc\<close> by (auto simp: list_ex_iff)
  have links: "check_links (reference_path routes request g ?ps) (hd ?acc) r = r" for r
    using d e(3) by (intro check_links_shown) (simp add: demonstrates_def)
  have "valid_id (path_id p)" using group_paths_valid assms(1,4) by (auto simp: answerable_def)
  have fields: "completeness (describe_accepted request routes g ?ps ?acc ?r0) = Evidence_Complete"
    "multipath_ambiguous (describe_accepted request routes g ?ps ?acc ?r0) = False"
    "consistency (describe_accepted request routes g ?ps ?acc ?r0) = Consistent"
    "differences (describe_accepted request routes g ?ps ?acc ?r0) = []"
    "matched_path (describe_accepted request routes g ?ps ?acc ?r0) = MaybeId (path_id p)"
    using conflict one some supported complete m
    by (simp_all add: describe_accepted_def Let_def links set_consistency_def add_differences_def report_records_def
        opened_result_def new_result_def split: option.split list.split)
  note parts = finish_accepted_parts[of policy request routes "topology_matches routes ctx" g ?ws ?r0, unfolded acc]
  let ?r = "ComparisonResult_seal H (finish_accepted policy request routes (topology_matches routes ctx) g ?ws ?r0)"
  have "outcome ?r = Match"
    unfolding seal_fields parts(1) final_gates_match describe_accepted_fields(1,2) fields
    using s fresh conflict some d e(2) assms(2) \<open>valid_id (path_id p)\<close> by (auto simp: demonstrates_def present_def)
  moreover have "matched_path ?r = MaybeId (path_id p)"
    using fields(5) by (simp add: ComparisonResult_seal_def finish_accepted_def Let_def acc)
  ultimately show ?thesis
    using compare_reaches_gates[OF assms(1) adm] fields(3,4) by (simp add: parts)
qed

text \<open>One record on the first member of the example plan.\<close>

definition first_member :: ExpectedPath where
  "first_member = example_path 1 [example_expected_hop 0 1 11 12, example_expected_hop 1 2 21 22]"

lemma example_answerable:
  assumes "es = [example_evidence] \<or> es = [example_divergent]"
  shows "answerable default_limits default_comparison_policy (example_request es) example_context example_plan (hd (groups example_plan))"
proof -
  have "ComparisonPolicy_validate default_comparison_policy = ok" by code_simp
  moreover have "generation_matches (example_request es) example_context"
    by (simp add: generation_matches_def example_request_def example_context_def example_plan_def example_routes_def)
  moreover have "resolve_subject example_plan (example_request es) = Some (hd (groups example_plan))"
    by (simp add: resolve_subject_def example_request_def example_plan_def find_group_def find_by_key_Cons present_def valid_id_def)
  ultimately show ?thesis
    using assms example_plan_inv
    by (auto simp: answerable_def example_request_def example_context_def default_limits_def valid_id_def)
qed

lemma example_demonstrates:
  "demonstrates sequence_hash default_limits default_comparison_policy (example_request [example_evidence]) example_context
     example_plan (hd (groups example_plan)) first_member example_evidence"
proof -
  let ?r = "example_request [example_evidence]" and ?ps = "group_paths example_plan (hd (groups example_plan))"
  have "reference_path example_plan ?r (hd (groups example_plan)) ?ps = Some first_member" by code_simp
  moreover have "links_shown first_member (correlate example_context (ev_hops example_evidence))" by code_simp
  moreover have "admissible sequence_hash default_limits default_comparison_policy ?r example_context example_plan example_evidence"
    by code_simp
  moreover have "w_freshness (judge sequence_hash default_limits default_comparison_policy ?r example_context example_plan example_evidence) = Fresh"
    by code_simp
  moreover have "\<forall>q\<in>set ?ps. follows q (correlate example_context (ev_hops example_evidence)) \<longrightarrow> q = first_member"
    by code_simp
  moreover have "trace_match (compare_trace first_member (correlate example_context (ev_hops example_evidence))) = Trace_Exact"
    "hop_indices_are_contiguous (correlate example_context (ev_hops example_evidence))"
    "require_real_surface_for_match default_comparison_policy \<longrightarrow> ev_surface example_evidence = Real"
    "ev_authority example_evidence \<in> {Advisory, Authoritative}" "\<not> source_truncated example_evidence"
    "declared_completeness example_evidence \<noteq> Evidence_Partial"
    by code_simp+
  ultimately show ?thesis by (simp add: demonstrates_def)
qed

theorem match_complete_witness:
  "\<exists>r. example_compare [example_evidence] = Inr r \<and> outcome r = Match \<and> matched_path r = MaybeId (StrongId 1)"
proof -
  have "topology_matches example_plan example_context" by code_simp
  moreover have "first_member \<in> set (group_paths example_plan (hd (groups example_plan)))" by code_simp
  moreover have "traces_compatible (correlate example_context (ev_hops example_evidence)) (correlate example_context (ev_hops example_evidence))"
    by code_simp
  moreover have "path_id first_member = StrongId 1" by (simp add: first_member_def example_path_def)
  ultimately show ?thesis
    using match_complete[OF example_answerable, of "[example_evidence]" first_member sequence_hash] example_demonstrates
    by (auto simp: example_compare_def example_request_def)
qed

section \<open>Divergence\<close>

text \<open>
  C4: Contradicting evidence is answered with Divergent. When the request can be answered and every record is
  admissible, fresh, has hops and follows no member of the group, and no two records contradict each other,
  the engine returns Divergent and names no matched path.
\<close>

theorem divergent_complete:
  assumes "answerable limits policy request ctx routes g"
    and "\<forall>e\<in>set (req_evidence request). admissible H limits policy request ctx routes e \<and>
      w_freshness (judge H limits policy request ctx routes e) = Fresh \<and> ev_hops e \<noteq> [] \<and>
      (\<forall>q\<in>set (group_paths routes g). \<not> follows q (correlate ctx (ev_hops e)))"
    and "\<forall>a\<in>set (req_evidence request). \<forall>b\<in>set (req_evidence request).
      traces_compatible (correlate ctx (ev_hops a)) (correlate ctx (ev_hops b))"
  shows "\<exists>r. compare H limits policy request ctx = Inr r \<and> outcome r = Divergent \<and>
    matched_path r = absent \<and> consistency r \<noteq> Conflicting"
proof -
  let ?ws = "working_records H limits policy request ctx routes"
  let ?ps = "group_paths routes g"
  let ?acc = "map (match_members ?ps) ?ws"
  let ?r0 = "report_records request g ?ws (opened_result request ctx routes)"
  have adm: "\<forall>e\<in>set (req_evidence request). admissible H limits policy request ctx routes e" using assms(2) by blast
  note acc = all_accepted[OF adm, of ?ps]
  have good: "\<exists>e\<in>set (req_evidence request). ev_surface (w_evidence w) = ev_surface e \<and> w_hops w = correlate ctx (ev_hops e) \<and>
      w_freshness w = Fresh \<and> \<not> matches_a_member w \<and> matched_members w = [] \<and> w_hops w \<noteq> []" if "w \<in> set ?acc" for w
  proof -
    from that acc have "w \<in> set (filter w_accepted ?acc)" by simp
    then obtain e where e: "e \<in> set (req_evidence request)" "w_evidence w = e" "w_hops w = correlate ctx (ev_hops e)"
      "w_freshness w = w_freshness (judge H limits policy request ctx routes e)"
      "matches_a_member w \<longleftrightarrow> (\<exists>p\<in>set ?ps. follows p (w_hops w))"
      "set (matched_members w) = path_id ` {p \<in> set ?ps. follows p (w_hops w)}" by (rule accepted_judged)
    have "correlate ctx (ev_hops e) \<noteq> []" using assms(2) e(1) by (auto simp: correlate_def split: option.split)
    moreover have "set (matched_members w) = {}" using assms(2) e(1,3,6) by auto
    then have "matched_members w = []" by simp
    ultimately show ?thesis using assms(2) e(1-5) by (intro bexI[of _ e]) auto
  qed
  have ne: "?acc \<noteq> []" using assms(1) working_records_nonempty by (simp add: answerable_def)
  then have hd: "hd ?acc \<in> set ?acc" by (rule hd_in_set)
  note parts = finish_accepted_parts[of policy request routes "topology_matches routes ctx" g ?ws ?r0, unfolded acc]
  let ?r = "ComparisonResult_seal H (finish_accepted policy request routes (topology_matches routes ctx) g ?ws ?r0)"
  have "worst_surface_of ?acc \<in> {Real, Synthetic}"
    using good adm by (intro worst_surface_in) (auto simp: admissible_def simp del: set_map, metis)
  moreover have "worst_freshness_of ?acc = Fresh" unfolding worst_freshness_Fresh by (metis good)
  moreover have "\<not> any_conflict ?acc" using assms(3) by (intro no_conflict) (metis good)
  moreover have "\<not> list_ex matches_a_member ?acc" unfolding list_ex_iff by (metis good)
  moreover have "w_hops (hd ?acc) \<noteq> []" "matched_members (hd ?acc) = []" using good[OF hd] by blast+
  ultimately have "outcome ?r = Divergent" "consistency ?r \<noteq> Conflicting"
    unfolding seal_fields parts(1,3) final_gates_divergent describe_accepted_fields by blast+
  moreover have "matched_path ?r = absent"
    using \<open>matched_members (hd ?acc) = []\<close>
    by (simp add: ComparisonResult_seal_def finish_accepted_def Let_def acc describe_accepted_fields(5))
  ultimately show ?thesis using compare_reaches_gates[OF assms(1) adm] by blast
qed

theorem divergent_complete_witness:
  "\<exists>r. example_compare [example_divergent] = Inr r \<and> outcome r = Divergent \<and> matched_path r = absent"
proof -
  let ?r = "example_request [example_divergent]"
  have "admissible sequence_hash default_limits default_comparison_policy ?r example_context example_plan example_divergent \<and>
      w_freshness (judge sequence_hash default_limits default_comparison_policy ?r example_context example_plan example_divergent) = Fresh \<and>
      ev_hops example_divergent \<noteq> [] \<and>
      (\<forall>q\<in>set (group_paths example_plan (hd (groups example_plan))). \<not> follows q (correlate example_context (ev_hops example_divergent)))"
    "traces_compatible (correlate example_context (ev_hops example_divergent)) (correlate example_context (ev_hops example_divergent))"
    by code_simp+
  then show ?thesis
    using divergent_complete[OF example_answerable, of "[example_divergent]" sequence_hash]
    by (auto simp: example_compare_def example_request_def)
qed

end
