(* ===== verification/Finding.thy ===== *)
theory Finding
  imports CompareSound
begin

text \<open>
  The finding registry (finding.hpp, finding.cpp): the content-derived identity of a finding,
  folding a comparison result into the registry, the lifecycle Open / Acknowledged / Resolved,
  the bound with eviction of resolved findings, and restoration from a store.
\<close>

datatype FindingStatus = Open | Acknowledged | Resolved

fun FindingStatus_to_string :: "FindingStatus \<Rightarrow> string" where
  "FindingStatus_to_string Open = ''open''"
| "FindingStatus_to_string Acknowledged = ''acknowledged''"
| "FindingStatus_to_string Resolved = ''resolved''"

definition parse_finding_status :: "string \<Rightarrow> FindingStatus Result" where
  "parse_finding_status =
     parse_enum [(''open'', Open), (''acknowledged'', Acknowledged), (''resolved'', Resolved)]
       ''unknown finding status''"

record Finding =
  finding_id :: FindingId
  cls :: DivergenceClass
  finding_group :: "PathGroupIdTag MaybeId"
  finding_path :: "PathIdTag MaybeId"
  finding_generation :: RouteGenerationId
  finding_topology :: TopologyGenerationId
  finding_evidence :: "EvidenceId list"
  hop_indices :: "u32 list"
  status :: FindingStatus
  occurrences :: u64
  first_seen :: TimePoint
  last_seen :: TimePoint
  last_comparison :: ComparisonId
  finding_detail :: string

definition is_open :: "Finding \<Rightarrow> bool" where
  "is_open f = (status f \<noteq> Resolved)"

section \<open>Identity\<close>

text \<open>Only the stable tuple is hashed: not the status, the counts or the times.\<close>

definition Finding_bytes :: "Finding \<Rightarrow> byte list" where
  "Finding_bytes f =
     write_text ''pathobs.finding'' @ write_class (cls f) @ write_maybe (finding_group f) @
     write_maybe (finding_path f) @ write_id (finding_generation f) @ write_id (finding_topology f) @
     write_list write_digest_id (remdups_adj (std_sort (<) (finding_evidence f))) @
     write_list write_u32 (remdups_adj (std_sort (<) (hop_indices f)))"

definition identity_digest :: "hasher \<Rightarrow> Finding \<Rightarrow> Digest" where
  "identity_digest H f = H (Finding_bytes f)"

definition Finding_seal :: "hasher \<Rightarrow> Finding \<Rightarrow> Finding" where
  "Finding_seal H f = f\<lparr>finding_id := from_digest (identity_digest H f)\<rparr>"

section \<open>The registry\<close>

record FindingRegistry =
  finding_limits :: Limits
  findings :: "(FindingId, Finding) omap"
  evicted :: u64

definition new_findings :: "Limits \<Rightarrow> FindingRegistry" where
  "new_findings limits = \<lparr>finding_limits = limits, findings = [], evicted = 0\<rparr>"

definition candidate_finding :: "hasher \<Rightarrow> Limits \<Rightarrow> ComparisonResult \<Rightarrow> Finding" where
  "candidate_finding H limits result =
     Finding_seal H
       \<lparr>finding_id = no_digest_id, cls = primary result, finding_group = cmp_group result,
        finding_path = (if present (cmp_path result) then cmp_path result else matched_path result),
        finding_generation = cmp_generation result, finding_topology = cmp_topology result,
        finding_evidence =
          take (unat (max_finding_evidence limits)) (map judged_id (filter judged_accepted (judgements result))),
        hop_indices = map diff_index (differences result),
        status = Open, occurrences = 0, first_seen = unset, last_seen = unset,
        last_comparison = cmp_id result,
        finding_detail = ''primary class '' @ to_code (primary result)\<rparr>"

text \<open>A finding that is seen again.\<close>

definition seen_again :: "ComparisonResult \<Rightarrow> TimePoint \<Rightarrow> Finding \<Rightarrow> Finding" where
  "seen_again result now f =
     f\<lparr>occurrences := occurrences f + 1, last_seen := now, last_comparison := cmp_id result,
       status := (if status f = Resolved then Open else status f)\<rparr>"

text \<open>The eviction loop: the resolved finding that was seen least recently.\<close>

definition older_victim :: "FindingId \<times> Finding \<Rightarrow> FindingId \<times> Finding \<Rightarrow> bool" where
  "older_victim a v \<longleftrightarrow>
     last_seen (snd a) < last_seen (snd v) \<or> last_seen (snd a) = last_seen (snd v) \<and> fst a < fst v"

definition victim_step ::
  "FindingId \<times> Finding \<Rightarrow> (FindingId \<times> Finding) option \<Rightarrow> (FindingId \<times> Finding) option" where
  "victim_step entry victim =
     (if status (snd entry) \<noteq> Resolved then victim
      else case victim of
             None \<Rightarrow> Some entry
           | Some v \<Rightarrow> if older_victim entry v then Some entry else victim)"

definition eviction_victim :: "(FindingId, Finding) omap \<Rightarrow> (FindingId \<times> Finding) option" where
  "eviction_victim m = fold victim_step m None"

definition make_room :: "FindingRegistry \<Rightarrow> FindingRegistry Result" where
  "make_room reg =
     (if length (findings reg) \<ge> unat (max_findings (finding_limits reg))
      then case eviction_victim (findings reg) of
             None \<Rightarrow> Inl (Error CapacityExceeded
                       ''finding registry is full and holds no resolved finding to evict'')
           | Some v \<Rightarrow> Inr (reg\<lparr>findings := map_erase (fst v) (findings reg), evicted := evicted reg + 1\<rparr>)
      else Inr reg)"

definition record_finding ::
  "hasher \<Rightarrow> ComparisonResult \<Rightarrow> TimePoint \<Rightarrow> FindingRegistry \<Rightarrow> FindingId Result \<times> FindingRegistry" where
  "record_finding H result now reg =
     (if primary result = Class_None then (Inr no_digest_id, reg)
      else let candidate = candidate_finding H (finding_limits reg) result in
        case map_find (findings reg) (finding_id candidate) of
          Some f \<Rightarrow> (Inr (finding_id f),
                    reg\<lparr>findings := map_put (finding_id candidate) (seen_again result now f) (findings reg)\<rparr>)
        | None \<Rightarrow>
            (case make_room reg of
               Inl err \<Rightarrow> (Inl err, reg)
             | Inr reg' \<Rightarrow>
                 (Inr (finding_id candidate),
                  reg'\<lparr>findings :=
                    map_emplace (finding_id candidate)
                      (candidate\<lparr>occurrences := 1, first_seen := now, last_seen := now, status := Open\<rparr>)
                      (findings reg')\<rparr>)))"

definition find_finding :: "FindingRegistry \<Rightarrow> FindingId \<Rightarrow> Finding Result" where
  "find_finding reg i =
     (case map_find (findings reg) i of
        None \<Rightarrow> Inl (Error UnknownIdentity ''no such finding'') | Some f \<Rightarrow> Inr f)"

definition contains_finding :: "FindingRegistry \<Rightarrow> FindingId \<Rightarrow> bool" where
  "contains_finding reg i = (map_find (findings reg) i \<noteq> None)"

definition acknowledge :: "FindingId \<Rightarrow> TimePoint \<Rightarrow> FindingRegistry \<Rightarrow> Status \<times> FindingRegistry" where
  "acknowledge i now reg =
     (case map_find (findings reg) i of
        None \<Rightarrow> (Inl (Error UnknownIdentity ''no such finding''), reg)
      | Some f \<Rightarrow>
          if status f = Open
          then (ok, reg\<lparr>findings := map_put i (f\<lparr>status := Acknowledged, last_seen := now\<rparr>) (findings reg)\<rparr>)
          else (ok, reg))"

definition resolves :: "ComparisonResult \<Rightarrow> Finding \<Rightarrow> bool" where
  "resolves result f \<longleftrightarrow>
     is_open f \<and>
     (present (cmp_group result) \<and> present (finding_group f) \<and>
        maybe_value (cmp_group result) = maybe_value (finding_group f) \<or>
      present (cmp_path result) \<and> present (finding_path f) \<and>
        maybe_value (cmp_path result) = maybe_value (finding_path f)) \<and>
     \<not> finding_generation f > cmp_generation result"

definition resolve_from_match ::
  "ComparisonResult \<Rightarrow> TimePoint \<Rightarrow> FindingRegistry \<Rightarrow> nat \<times> FindingRegistry" where
  "resolve_from_match result now reg =
     (if outcome result \<noteq> Match then (0, reg)
      else (length (filter (resolves result \<circ> snd) (findings reg)),
            reg\<lparr>findings :=
              map_each (\<lambda>f. if resolves result f then f\<lparr>status := Resolved, last_seen := now\<rparr> else f)
                (findings reg)\<rparr>))"

definition finder_keeps_newest :: "Finding \<Rightarrow> Finding \<Rightarrow> bool" where
  "finder_keeps_newest existing candidate =
     (if last_seen candidate \<noteq> last_seen existing then last_seen candidate > last_seen existing
      else occurrences candidate > occurrences existing)"

definition restore_finding :: "hasher \<Rightarrow> Finding \<Rightarrow> FindingRegistry \<Rightarrow> Status \<times> FindingRegistry" where
  "restore_finding H f reg =
     (if from_digest (identity_digest H f) \<noteq> finding_id f
      then (Inl (Error IntegrityFailure ''restored finding identity does not match content''), reg)
      else case map_find (findings reg) (finding_id f) of
             Some existing \<Rightarrow>
               (ok, if finder_keeps_newest existing f
                    then reg\<lparr>findings := map_put (finding_id f) f (findings reg)\<rparr> else reg)
           | None \<Rightarrow>
               if length (findings reg) \<ge> unat (max_findings (finding_limits reg))
               then (Inl (Error CapacityExceeded ''finding registry is full''), reg)
               else (ok, reg\<lparr>findings := map_emplace (finding_id f) f (findings reg)\<rparr>))"

definition all_findings :: "FindingRegistry \<Rightarrow> Finding list" where
  "all_findings reg = map snd (findings reg)"

definition findings_size :: "FindingRegistry \<Rightarrow> nat" where
  "findings_size reg = length (findings reg)"

definition open_count :: "FindingRegistry \<Rightarrow> nat" where
  "open_count reg = length (filter (is_open \<circ> snd) (findings reg))"

definition clear_findings :: "FindingRegistry \<Rightarrow> FindingRegistry" where
  "clear_findings reg = reg\<lparr>findings := []\<rparr>"

section \<open>The invariant of the registry\<close>

text \<open>
  The registry is an ordered map within its bound, and every entry is filed under the identity
  its own content produces.
\<close>

definition sealed_entry :: "hasher \<Rightarrow> FindingId \<times> Finding \<Rightarrow> bool" where
  "sealed_entry H entry \<longleftrightarrow>
     finding_id (snd entry) = fst entry \<and> from_digest (identity_digest H (snd entry)) = fst entry"

definition findings_inv :: "hasher \<Rightarrow> FindingRegistry \<Rightarrow> bool" where
  "findings_inv H reg \<longleftrightarrow>
     map_inv (findings reg) \<and> length (findings reg) \<le> unat (max_findings (finding_limits reg)) \<and>
     list_all (sealed_entry H) (findings reg)"

lemma list_all_map_find:
  "map_inv m \<Longrightarrow> list_all P m \<longleftrightarrow> (\<forall>i f. map_find m i = Some f \<longrightarrow> P (i, f))"
  by (auto simp: list_all_iff std_map.find_entries)

lemma findings_inv_find:
  "findings_inv H reg \<longleftrightarrow>
     map_inv (findings reg) \<and> length (findings reg) \<le> unat (max_findings (finding_limits reg)) \<and>
     (\<forall>i f. map_find (findings reg) i = Some f \<longrightarrow> sealed_entry H (i, f))"
  by (auto simp: findings_inv_def list_all_map_find)

text \<open>The identity ignores everything the lifecycle changes, and the order and multiplicity of the evidence.\<close>

lemma Finding_bytes_ignores [simp]:
  "Finding_bytes (f\<lparr>finding_id := i\<rparr>) = Finding_bytes f"
  "Finding_bytes (f\<lparr>status := st\<rparr>) = Finding_bytes f"
  "Finding_bytes (f\<lparr>occurrences := n\<rparr>) = Finding_bytes f"
  "Finding_bytes (f\<lparr>first_seen := t\<rparr>) = Finding_bytes f"
  "Finding_bytes (f\<lparr>last_seen := t\<rparr>) = Finding_bytes f"
  "Finding_bytes (f\<lparr>last_comparison := c\<rparr>) = Finding_bytes f"
  by (simp_all add: Finding_bytes_def)

lemma identity_digest_set:
  assumes "set (finding_evidence f) = set (finding_evidence g)" and "set (hop_indices f) = set (hop_indices g)"
    and "cls f = cls g" and "finding_group f = finding_group g" and "finding_path f = finding_path g"
    and "finding_generation f = finding_generation g" and "finding_topology f = finding_topology g"
  shows "identity_digest H f = identity_digest H g"
  using assms by (simp add: identity_digest_def Finding_bytes_def sorted_unique_set)

lemma sealed_entry_simps [simp]:
  "sealed_entry H (i, f\<lparr>status := st\<rparr>) = sealed_entry H (i, f)"
  "sealed_entry H (i, f\<lparr>occurrences := n\<rparr>) = sealed_entry H (i, f)"
  "sealed_entry H (i, f\<lparr>first_seen := t\<rparr>) = sealed_entry H (i, f)"
  "sealed_entry H (i, f\<lparr>last_seen := t\<rparr>) = sealed_entry H (i, f)"
  "sealed_entry H (i, f\<lparr>last_comparison := c\<rparr>) = sealed_entry H (i, f)"
  by (simp_all add: sealed_entry_def identity_digest_def)

lemma sealed_seal: "sealed_entry H (finding_id (Finding_seal H f), Finding_seal H f)"
  by (simp add: sealed_entry_def Finding_seal_def identity_digest_def)

lemma sealed_candidate: "sealed_entry H (finding_id (candidate_finding H limits result), candidate_finding H limits result)"
  unfolding candidate_finding_def by (rule sealed_seal)

section \<open>Eviction\<close>

definition oldest_resolved :: "(FindingId, Finding) omap \<Rightarrow> FindingId \<times> Finding \<Rightarrow> bool" where
  "oldest_resolved m v \<longleftrightarrow>
     v \<in> set m \<and> \<not> is_open (snd v) \<and>
     (\<forall>e\<in>set m. \<not> is_open (snd e) \<longrightarrow> last_seen (snd v) \<le> last_seen (snd e))"

lemma victim_step_invariant:
  assumes "case v of None \<Rightarrow> list_all (is_open \<circ> snd) xs | Some e \<Rightarrow> oldest_resolved xs e"
  shows "case victim_step x v of None \<Rightarrow> list_all (is_open \<circ> snd) (xs @ [x])
         | Some e \<Rightarrow> oldest_resolved (xs @ [x]) e"
  using assms
  by (cases v) (auto simp: victim_step_def oldest_resolved_def is_open_def older_victim_def list_all_iff
      split: if_splits)

lemma eviction_victim_spec:
  "case eviction_victim m of None \<Rightarrow> list_all (is_open \<circ> snd) m | Some e \<Rightarrow> oldest_resolved m e"
  unfolding eviction_victim_def
  by (induction m rule: rev_induct) (use victim_step_invariant in \<open>auto\<close>)

lemma make_room_cases:
  assumes "findings_inv H reg" and "make_room reg = Inr reg'"
  obtains (room) "reg' = reg" "length (findings reg) < unat (max_findings (finding_limits reg))"
  | (evict) k g where "reg' = reg\<lparr>findings := map_erase k (findings reg), evicted := evicted reg + 1\<rparr>"
      "map_find (findings reg) k = Some g" "oldest_resolved (findings reg) (k, g)"
      "length (findings reg) = unat (max_findings (finding_limits reg))"
proof (cases "length (findings reg) < unat (max_findings (finding_limits reg))")
  case True
  with assms(2) room show thesis by (simp add: make_room_def)
next
  case False
  with assms(2) obtain k g where v: "eviction_victim (findings reg) = Some (k, g)"
    and reg': "reg' = reg\<lparr>findings := map_erase k (findings reg), evicted := evicted reg + 1\<rparr>"
    by (auto simp: make_room_def split: option.splits)
  have old: "oldest_resolved (findings reg) (k, g)" using eviction_victim_spec[of "findings reg"] v by simp
  then have "map_find (findings reg) k = Some g"
    using assms(1) by (simp add: findings_inv_def std_map.find_entries oldest_resolved_def)
  then show thesis using evict[OF reg' _ old] False assms(1) by (simp add: findings_inv_def)
qed

lemma make_room_inv:
  assumes "findings_inv H reg" and "make_room reg = Inr reg'"
  shows "findings_inv H reg' \<and> length (findings reg') < unat (max_findings (finding_limits reg)) \<and>
    finding_limits reg' = finding_limits reg"
  using assms
proof (cases rule: make_room_cases)
  case room
  with assms(1) show ?thesis by simp
next
  case (evict k g)
  then have "Suc (length (map_erase k (findings reg))) = length (findings reg)"
    using assms(1) by (intro map_erase_length) (auto simp: findings_inv_def)
  with evict assms(1) show ?thesis
    by (auto simp: findings_inv_find map_find_erase map_inv_erase split: if_splits)
qed

section \<open>Every operation keeps the invariant\<close>

lemma findings_inv_put:
  assumes "findings_inv H reg" and "sealed_entry H (i, f)"
    and "map_find (findings reg) i \<noteq> None \<or> length (findings reg) < unat (max_findings (finding_limits reg))"
  shows "findings_inv H (reg\<lparr>findings := map_put i f (findings reg)\<rparr>)"
  using assms by (auto simp: findings_inv_find std_map_laws)

lemma record_finding_inv:
  assumes "findings_inv H reg"
  shows "findings_inv H (snd (record_finding H result now reg))"
proof -
  let ?c = "candidate_finding H (finding_limits reg) result"
  have seen: "findings_inv H (reg\<lparr>findings := map_put (finding_id ?c) (seen_again result now f) (findings reg)\<rparr>)"
    if "map_find (findings reg) (finding_id ?c) = Some f" for f
    using assms that by (intro findings_inv_put) (auto simp: findings_inv_find seen_again_def)
  have added: "findings_inv H (reg'\<lparr>findings := map_emplace (finding_id ?c) f (findings reg')\<rparr>)"
    if "make_room reg = Inr reg'" and "sealed_entry H (finding_id ?c, f)" for reg' f
    using make_room_inv[OF assms that(1)] that(2)
    by (auto simp: map_emplace_def intro: findings_inv_put split: option.splits)
  show ?thesis
    using assms seen added sealed_candidate
    by (auto simp: record_finding_def Let_def split: option.splits sum.splits)
qed

lemma acknowledge_inv: "findings_inv H reg \<Longrightarrow> findings_inv H (snd (acknowledge i now reg))"
  by (auto simp: acknowledge_def findings_inv_find std_map_laws split: option.splits)

lemma resolve_from_match_inv: "findings_inv H reg \<Longrightarrow> findings_inv H (snd (resolve_from_match result now reg))"
  by (auto simp: resolve_from_match_def findings_inv_find std_map_laws)

lemma restore_finding_inv:
  assumes "findings_inv H reg"
  shows "findings_inv H (snd (restore_finding H f reg))"
proof (cases "from_digest (identity_digest H f) = finding_id f")
  case True
  then have "sealed_entry H (finding_id f, f)" by (simp add: sealed_entry_def)
  with assms show ?thesis
    by (auto simp: restore_finding_def map_emplace_def intro: findings_inv_put split: option.splits)
qed (use assms in \<open>simp add: restore_finding_def\<close>)

lemma clear_findings_inv: "findings_inv H (clear_findings reg)"
  by (simp add: clear_findings_def findings_inv_def)

text \<open>The operations of the registry as one step function, so that runs can be spoken about.\<close>

datatype FindingOp =
  Record_op ComparisonResult TimePoint
| Acknowledge_op FindingId TimePoint
| Resolve_op ComparisonResult TimePoint
| Restore_op Finding
| Clear_op

fun finding_step :: "hasher \<Rightarrow> FindingOp \<Rightarrow> FindingRegistry \<Rightarrow> FindingRegistry" where
  "finding_step H (Record_op result now) reg = snd (record_finding H result now reg)"
| "finding_step H (Acknowledge_op i now) reg = snd (acknowledge i now reg)"
| "finding_step H (Resolve_op result now) reg = snd (resolve_from_match result now reg)"
| "finding_step H (Restore_op f) reg = snd (restore_finding H f reg)"
| "finding_step H Clear_op reg = clear_findings reg"

lemma finding_step_inv: "findings_inv H reg \<Longrightarrow> findings_inv H (finding_step H op reg)"
  by (cases op) (simp_all add: record_finding_inv acknowledge_inv resolve_from_match_inv
      restore_finding_inv clear_findings_inv)

lemma new_findings_inv: "findings_inv H (new_findings limits)"
  by (simp add: new_findings_def findings_inv_def)

section \<open>Properties\<close>

text \<open>
  C7: whatever sequence of operations has run on a finding registry, it holds at most
  \<open>max_findings\<close> findings, ordered by identity, and every finding is filed under the identity that
  its own content produces.
\<close>

theorem finding_registry_inv:
  "findings_inv H (fold (finding_step H) ops (new_findings limits))"
  by (rule fold_invariant[where Q = "\<lambda>_. True"]) (simp_all add: finding_step_inv new_findings_inv)

lemma record_finding_cases:
  assumes "findings_inv H reg" and "primary result \<noteq> Class_None"
  obtains (seen) i f where "record_finding H result now reg =
      (Inr i, reg\<lparr>findings := map_put i (seen_again result now f) (findings reg)\<rparr>)"
      "map_find (findings reg) i = Some f"
  | (full) err where "record_finding H result now reg = (Inl err, reg)" "make_room reg = Inl err"
  | (added) i f reg' where "record_finding H result now reg =
      (Inr i, reg'\<lparr>findings := map_put i f (findings reg')\<rparr>)"
      "make_room reg = Inr reg'" "map_find (findings reg) i = None"
      "is_open f" "last_seen f = now" "last_comparison f = cmp_id result" "occurrences f = 1"
proof -
  let ?c = "candidate_finding H (finding_limits reg) result"
  let ?f = "?c\<lparr>occurrences := 1, first_seen := now, last_seen := now, status := Open\<rparr>"
  show thesis
  proof (cases "map_find (findings reg) (finding_id ?c)")
    case (Some f)
    then have "finding_id f = finding_id ?c"
      using assms(1) by (auto simp: findings_inv_find sealed_entry_def)
    then show thesis using seen[of "finding_id ?c" f] Some assms(2) by (simp add: record_finding_def Let_def)
  next
    case None
    show thesis
    proof (cases "make_room reg")
      case (Inl err)
      then show thesis using full[of err] None assms(2) by (simp add: record_finding_def Let_def)
    next
      case (Inr reg')
      have "map_find (findings reg') (finding_id ?c) = None"
        using assms(1) Inr by (cases rule: make_room_cases) (auto simp: None map_find_erase)
      then have "record_finding H result now reg =
          (Inr (finding_id ?c), reg'\<lparr>findings := map_put (finding_id ?c) ?f (findings reg')\<rparr>)"
        using None Inr assms(2) by (simp add: record_finding_def Let_def map_emplace_def)
      then show thesis using added[of "finding_id ?c" ?f reg'] None Inr
        by (simp add: is_open_def candidate_finding_def Finding_seal_def)
    qed
  qed
qed


text \<open>A divergent comparison result, as the engine would hand it over.\<close>

definition example_divergence :: "u64 \<Rightarrow> ComparisonResult" where
  "example_divergence n =
     (new_result (example_request []) example_context)\<lparr>cmp_group := MaybeId (StrongId n), primary := DeviceMismatch\<rparr>"


end
