(* ===== verification/History.thy ===== *)
theory History
  imports CompareSound "HOL-Library.Sublist"
begin

text \<open>
  The history store (history.hpp, history.cpp): one record per comparison, bounded per subject
  and in total, filtered and windowed queries, and pruning by age.
\<close>

record HistoryRecord =
  hist_id :: ComparisonId
  hist_generation :: RouteGenerationId
  hist_topology :: TopologyGenerationId
  hist_group :: "PathGroupIdTag MaybeId"
  hist_path :: "PathIdTag MaybeId"
  hist_matched_path :: "PathIdTag MaybeId"
  hist_outcome :: MatchOutcome
  hist_primary :: DivergenceClass
  hist_freshness :: Freshness
  hist_completeness :: EvidenceCompleteness
  hist_consistency :: ObservationConsistency
  hist_surface :: ProofSurface
  hist_considered :: u32
  hist_rejected :: u32
  hist_evaluated_at :: TimePoint

record HistoryQuery =
  query_group :: "PathGroupIdTag MaybeId"
  query_path :: "PathIdTag MaybeId"
  query_generation :: "RouteGenerationIdTag MaybeId"
  since :: TimePoint
  outcome_filter :: MatchOutcome
  filter_by_outcome :: bool
  query_limit :: nat
  query_now :: TimePoint
  apply_window :: bool

record HistoryQueryResult =
  records :: "HistoryRecord list"
  matched :: nat
  excluded_by_window :: nat
  excluded_by_filter :: nat
  truncated :: bool

record HistoryStore =
  history_limits :: Limits
  history_records :: "HistoryRecord list"
  evicted_by_limit :: u64
  evicted_by_window :: u64

definition new_history :: "Limits \<Rightarrow> HistoryStore" where
  "new_history limits =
     \<lparr>history_limits = limits, history_records = [], evicted_by_limit = 0, evicted_by_window = 0\<rparr>"

definition same_subject :: "HistoryRecord \<Rightarrow> PathGroupIdTag MaybeId \<Rightarrow> PathIdTag MaybeId \<Rightarrow> bool" where
  "same_subject r grp path \<longleftrightarrow>
     present grp \<and> present (hist_group r) \<and> maybe_value grp = maybe_value (hist_group r) \<or>
     present path \<and> present (hist_path r) \<and> maybe_value path = maybe_value (hist_path r)"

section \<open>append\<close>

definition history_record :: "ComparisonResult \<Rightarrow> HistoryRecord" where
  "history_record result =
     \<lparr>hist_id = cmp_id result, hist_generation = cmp_generation result, hist_topology = cmp_topology result,
      hist_group = cmp_group result, hist_path = cmp_path result, hist_matched_path = matched_path result,
      hist_outcome = outcome result, hist_primary = primary result, hist_freshness = cmp_freshness result,
      hist_completeness = completeness result, hist_consistency = consistency result,
      hist_surface = cmp_surface result, hist_considered = of_nat (evidence_considered result),
      hist_rejected = of_nat (evidence_rejected result), hist_evaluated_at = evaluated_at result\<rparr>"

definition subject_count :: "HistoryRecord list \<Rightarrow> HistoryRecord \<Rightarrow> nat" where
  "subject_count rs r = length (filter (\<lambda>r'. same_subject r' (hist_group r) (hist_path r)) rs)"

text \<open>The scan for the record whose subject is furthest over its cap: \<open>(worst_count, worst_index)\<close>.\<close>

definition worst_step :: "nat \<Rightarrow> HistoryRecord list \<Rightarrow> nat \<Rightarrow> nat \<times> nat \<Rightarrow> nat \<times> nat" where
  "worst_step cap rs i worst =
     (let n = subject_count rs (rs ! i) in if n > cap \<and> n > fst worst then (n, i) else worst)"

definition worst_index :: "nat \<Rightarrow> HistoryRecord list \<Rightarrow> nat" where
  "worst_index cap rs = snd (fold (worst_step cap rs) [0..<length rs] (0, length rs))"

definition erase_at :: "nat \<Rightarrow> 'a list \<Rightarrow> 'a list" where
  "erase_at i xs = take i xs @ drop (Suc i) xs"

lemma worst_index_le: "worst_index cap rs \<le> length rs"
proof -
  have "snd (fold (worst_step cap rs) [0..<length rs] (0, length rs)) \<le> length rs"
    by (rule fold_invariant[where Q = "\<lambda>i. i < length rs"]) (auto simp: worst_step_def Let_def)
  then show ?thesis by (simp add: worst_index_def)
qed

text \<open>The per-subject loop; it returns what is left and how many records it erased.\<close>

function trim_subjects :: "nat \<Rightarrow> HistoryRecord list \<Rightarrow> HistoryRecord list \<times> nat" where
  "trim_subjects cap rs =
     (let worst = worst_index cap rs
      in if worst = length rs then (rs, 0)
         else case trim_subjects cap (erase_at worst rs) of (rs', n) \<Rightarrow> (rs', Suc n))"
  by pat_completeness auto
termination
proof (relation "measure (\<lambda>(cap, rs). length rs)", goal_cases)
  case (2 cap rs worst)
  then show ?case using worst_index_le[of cap rs] by (auto simp: erase_at_def)
qed simp

declare trim_subjects.simps [simp del]

fun trim_oldest :: "nat \<Rightarrow> HistoryRecord list \<Rightarrow> HistoryRecord list \<times> nat" where
  "trim_oldest cap [] = ([], 0)"
| "trim_oldest cap (r # rs) =
     (if length (r # rs) > cap then case trim_oldest cap rs of (rs', n) \<Rightarrow> (rs', Suc n) else (r # rs, 0))"

definition history_append :: "ComparisonResult \<Rightarrow> HistoryStore \<Rightarrow> Status \<times> HistoryStore" where
  "history_append result h =
     (case trim_subjects (unat (max_history_per_group (history_limits h)))
             (history_records h @ [history_record result]) of
        (rs, n) \<Rightarrow>
          (case trim_oldest (unat (max_history_records (history_limits h))) rs of
             (rs', k) \<Rightarrow>
               (ok, h\<lparr>history_records := rs',
                      evicted_by_limit := evicted_by_limit h + of_nat n + of_nat k\<rparr>)))"

section \<open>query\<close>

definition out_of_window :: "Limits \<Rightarrow> TimePoint \<Rightarrow> TimePoint \<Rightarrow> bool" where
  "out_of_window limits now at =
     (let age = unix_nanos now - unix_nanos at in sint age > 0 \<and> age > history_window_nanos limits)"

definition passes_filter :: "HistoryQuery \<Rightarrow> HistoryRecord \<Rightarrow> bool" where
  "passes_filter q r \<longleftrightarrow>
     \<not> ((present (query_group q) \<or> present (query_path q)) \<and> \<not> same_subject r (query_group q) (query_path q)) \<and>
     \<not> (present (query_generation q) \<and> hist_generation r \<noteq> maybe_value (query_generation q)) \<and>
     \<not> (is_set (since q) \<and> is_set (hist_evaluated_at r) \<and> hist_evaluated_at r < since q) \<and>
     \<not> (filter_by_outcome q \<and> hist_outcome r \<noteq> outcome_filter q)"

definition windowed_out :: "Limits \<Rightarrow> HistoryQuery \<Rightarrow> HistoryRecord \<Rightarrow> bool" where
  "windowed_out limits q r \<longleftrightarrow>
     apply_window q \<and> is_set (query_now q) \<and> is_set (hist_evaluated_at r) \<and>
     out_of_window limits (query_now q) (hist_evaluated_at r)"

text \<open>One iteration of the selection loop over \<open>(selected, excluded_by_filter, excluded_by_window)\<close>.\<close>

definition select_step ::
  "Limits \<Rightarrow> HistoryQuery \<Rightarrow> HistoryRecord \<Rightarrow> HistoryRecord list \<times> nat \<times> nat \<Rightarrow> HistoryRecord list \<times> nat \<times> nat" where
  "select_step limits q r st =
     (case st of (selected, by_filter, by_window) \<Rightarrow>
        if \<not> passes_filter q r then (selected, Suc by_filter, by_window)
        else if windowed_out limits q r then (selected, by_filter, Suc by_window)
        else (selected @ [r], by_filter, by_window))"

definition newer_first :: "HistoryRecord \<Rightarrow> HistoryRecord \<Rightarrow> bool" where
  "newer_first a b =
     (if hist_evaluated_at a \<noteq> hist_evaluated_at b then hist_evaluated_at a > hist_evaluated_at b
      else hist_id a > hist_id b)"

definition query :: "HistoryQuery \<Rightarrow> HistoryStore \<Rightarrow> HistoryQueryResult" where
  "query q h =
     (case fold (select_step (history_limits h) q) (history_records h) ([], 0, 0) of
        (selected, by_filter, by_window) \<Rightarrow>
          let limit = min (query_limit q) (unat (max_export_records (history_limits h)));
              ordered = std_sort newer_first selected
          in \<lparr>records = take limit ordered, matched = length selected, excluded_by_window = by_window,
              excluded_by_filter = by_filter, truncated = (length ordered > limit)\<rparr>)"

section \<open>prune\<close>

fun prune_loop :: "Limits \<Rightarrow> TimePoint \<Rightarrow> HistoryRecord list \<Rightarrow> HistoryRecord list \<times> nat" where
  "prune_loop limits now [] = ([], 0)"
| "prune_loop limits now (r # rs) =
     (if \<not> is_set (hist_evaluated_at r) then (r # rs, 0)
      else if \<not> out_of_window limits now (hist_evaluated_at r) then (r # rs, 0)
      else case prune_loop limits now rs of (rs', n) \<Rightarrow> (rs', Suc n))"

definition prune :: "TimePoint \<Rightarrow> HistoryStore \<Rightarrow> nat Result \<times> HistoryStore" where
  "prune now h =
     (if \<not> is_set now then (Inl (Error InvalidArgument ''history prune requires an evaluation time''), h)
      else case prune_loop (history_limits h) now (history_records h) of
             (rs, n) \<Rightarrow> (Inr n, h\<lparr>history_records := rs, evicted_by_window := evicted_by_window h + of_nat n\<rparr>))"

definition history_size :: "HistoryStore \<Rightarrow> nat" where
  "history_size h = length (history_records h)"

definition clear_history :: "HistoryStore \<Rightarrow> HistoryStore" where
  "clear_history h = h\<lparr>history_records := []\<rparr>"

section \<open>The eviction loops\<close>

lemma worst_scan:
  assumes "k \<le> length rs" and "fold (worst_step cap rs) [0..<k] (0, length rs) = (n, w)"
  shows "n = 0 \<and> w = length rs \<and> (\<forall>i<k. subject_count rs (rs ! i) \<le> cap) \<or>
    w < k \<and> cap < n \<and> n = subject_count rs (rs ! w) \<and> (\<forall>i<k. subject_count rs (rs ! i) \<le> n)"
  using assms
proof (induction k arbitrary: n w)
  case (Suc k)
  obtain n' w' where prev: "fold (worst_step cap rs) [0..<k] (0, length rs) = (n', w')" by fastforce
  with Suc.prems(2) have "worst_step cap rs k (n', w') = (n, w)" by simp
  with Suc.IH[OF _ prev] Suc.prems(1) show ?case
    by (auto simp: worst_step_def Let_def less_Suc_eq split: if_splits)
qed simp

lemma worst_index_spec:
  "if worst_index cap rs = length rs then \<forall>r\<in>set rs. subject_count rs r \<le> cap
   else worst_index cap rs < length rs"
proof -
  obtain n w where scan: "fold (worst_step cap rs) [0..<length rs] (0, length rs) = (n, w)" by fastforce
  then have "worst_index cap rs = w" by (simp add: worst_index_def)
  with worst_scan[OF order_refl scan] show ?thesis by (auto simp: in_set_conv_nth)
qed

lemma erase_at_subseq: "subseq (erase_at i xs) xs"
proof (induction i arbitrary: xs)
  case 0
  then show ?case by (cases xs) (auto simp: erase_at_def)
next
  case (Suc i)
  then show ?case by (cases xs) (auto simp: erase_at_def)
qed

lemma length_erase_at: "i < length xs \<Longrightarrow> Suc (length (erase_at i xs)) = length xs"
  by (simp add: erase_at_def)

lemma trim_subjects_spec:
  "trim_subjects cap rs = (rs', n) \<Longrightarrow>
     subseq rs' rs \<and> length rs = length rs' + n \<and> (\<forall>r\<in>set rs'. subject_count rs' r \<le> cap)"
proof (induction cap rs arbitrary: rs' n rule: trim_subjects.induct)
  case (1 cap rs)
  show ?case
  proof (cases "worst_index cap rs = length rs")
    case True
    with 1(2) worst_index_spec[of cap rs] show ?thesis by (simp add: trim_subjects.simps)
  next
    case False
    let ?ys = "erase_at (worst_index cap rs) rs"
    obtain m where rec: "trim_subjects cap ?ys = (rs', m)" and n: "n = Suc m"
      using 1(2) False by (auto simp: trim_subjects.simps[of cap rs] split: prod.splits)
    have "worst_index cap rs < length rs" using worst_index_spec[of cap rs] False by simp
    then have "Suc (length ?ys) = length rs" by (rule length_erase_at)
    with 1(1)[OF refl False rec] n show ?thesis
      using subseq_order.trans[OF _ erase_at_subseq[of "worst_index cap rs" rs]] by auto
  qed
qed

lemma trim_oldest_eq: "trim_oldest cap rs = (drop (length rs - cap) rs, length rs - cap)"
  by (induction rs) (auto simp: Suc_diff_le)

lemma subject_count_drop: "subject_count (drop k rs) r \<le> subject_count rs r"
  unfolding subject_count_def
  by (metis append_take_drop_id filter_append le_add2 length_append)

lemma subseq_drop_list: "subseq (drop k xs) xs"
  by (metis append_take_drop_id list_emb_append2 subseq_order.order_refl)

lemma history_append_cases:
  assumes "history_append result h = (st, h')"
  obtains n where "st = ok" "history_limits h' = history_limits h"
    "subseq (history_records h') (history_records h @ [history_record result])"
    "Suc (length (history_records h)) = length (history_records h') + n"
    "evicted_by_limit h' = evicted_by_limit h + of_nat n" "evicted_by_window h' = evicted_by_window h"
    "\<forall>r\<in>set (history_records h'). subject_count (history_records h') r \<le> unat (max_history_per_group (history_limits h))"
    "length (history_records h') \<le> unat (max_history_records (history_limits h))"
proof -
  let ?cap = "unat (max_history_per_group (history_limits h))"
  let ?max = "unat (max_history_records (history_limits h))"
  let ?rs = "history_records h @ [history_record result]"
  obtain rs n where trim: "trim_subjects ?cap ?rs = (rs, n)" by fastforce
  let ?k = "length rs - ?max"
  have h': "st = ok" "h' = h\<lparr>history_records := drop ?k rs,
      evicted_by_limit := evicted_by_limit h + of_nat n + of_nat ?k\<rparr>"
    using assms by (simp_all add: history_append_def trim trim_oldest_eq split: prod.splits)
  note spec = trim_subjects_spec[OF trim]
  have "subseq (drop ?k rs) ?rs" using spec subseq_drop_list subseq_order.trans by blast
  moreover have "\<forall>r\<in>set (drop ?k rs). subject_count (drop ?k rs) r \<le> ?cap"
    using spec by (meson in_set_dropD order_trans subject_count_drop)
  moreover have "Suc (length (history_records h)) = length (drop ?k rs) + (n + ?k)"
    using spec by (simp split: nat_diff_split)
  ultimately show thesis
    using h' by (intro that[of "n + ?k"]) (simp_all add: algebra_simps)
qed

section \<open>The invariant of the store\<close>

definition history_inv :: "HistoryStore \<Rightarrow> bool" where
  "history_inv h \<longleftrightarrow>
     length (history_records h) \<le> unat (max_history_records (history_limits h)) \<and>
     list_all (\<lambda>r. subject_count (history_records h) r \<le> unat (max_history_per_group (history_limits h)))
       (history_records h)"

datatype HistoryOp = Append_op ComparisonResult | Prune_op TimePoint | Clear_history_op

fun history_step :: "HistoryOp \<Rightarrow> HistoryStore \<Rightarrow> HistoryStore" where
  "history_step (Append_op result) h = snd (history_append result h)"
| "history_step (Prune_op now) h = snd (prune now h)"
| "history_step Clear_history_op h = clear_history h"

lemma prune_loop_eq:
  "prune_loop limits now rs =
     (let old = (\<lambda>r. is_set (hist_evaluated_at r) \<and> out_of_window limits now (hist_evaluated_at r))
      in (dropWhile old rs, length (takeWhile old rs)))"
  by (induction rs) (simp_all add: Let_def)

lemma prune_suffix: "\<exists>k. history_records (snd (prune now h)) = drop k (history_records h)"
  by (auto simp: prune_def prune_loop_eq Let_def dropWhile_eq_drop intro: exI[of _ 0])

lemma history_limits_step: "history_limits (history_step op h) = history_limits h"
  by (cases op) (auto simp: history_append_def prune_def clear_history_def split: prod.splits)

lemma history_append_inv: "history_inv (snd (history_append result h))"
proof -
  obtain st h' where "history_append result h = (st, h')" by fastforce
  then show ?thesis by (rule history_append_cases) (use \<open>_ = (st, h')\<close> in \<open>simp add: history_inv_def list_all_iff\<close>)
qed

lemma prune_inv:
  assumes "history_inv h"
  shows "history_inv (snd (prune now h))"
proof -
  obtain k where k: "history_records (snd (prune now h)) = drop k (history_records h)"
    using prune_suffix by blast
  have "history_limits (snd (prune now h)) = history_limits h" using history_limits_step[of "Prune_op now" h] by simp
  with assms k show ?thesis
    by (auto simp: history_inv_def list_all_iff dest: in_set_dropD intro: order_trans[OF subject_count_drop])
qed

lemma new_history_inv: "history_inv (new_history limits)"
  by (simp add: new_history_def history_inv_def)

lemma history_step_inv: "history_inv h \<Longrightarrow> history_inv (history_step op h)"
  by (cases op) (simp_all add: history_append_inv prune_inv clear_history_def history_inv_def[of "h\<lparr>history_records := []\<rparr>"])

section \<open>Queries\<close>

interpretation newest: comparator newer_first
  by unfold_locales (auto simp: newer_first_def split: if_splits)

definition selected_by :: "HistoryQuery \<Rightarrow> HistoryStore \<Rightarrow> HistoryRecord \<Rightarrow> bool" where
  "selected_by q h r \<longleftrightarrow> passes_filter q r \<and> \<not> windowed_out (history_limits h) q r"

lemma select_fold:
  "fold (select_step limits q) rs (sel, f, w) =
     (sel @ filter (\<lambda>r. passes_filter q r \<and> \<not> windowed_out limits q r) rs,
      f + length (filter (\<lambda>r. \<not> passes_filter q r) rs),
      w + length (filter (\<lambda>r. passes_filter q r \<and> windowed_out limits q r) rs))"
  by (induction rs arbitrary: sel f w) (auto simp: select_step_def)

lemma query_eq:
  "query q h =
     (let limit = min (query_limit q) (unat (max_export_records (history_limits h)));
          chosen = filter (selected_by q h) (history_records h)
      in \<lparr>records = take limit (std_sort newer_first chosen), matched = length chosen,
          excluded_by_window =
            length (filter (\<lambda>r. passes_filter q r \<and> windowed_out (history_limits h) q r) (history_records h)),
          excluded_by_filter = length (filter (\<lambda>r. \<not> passes_filter q r) (history_records h)),
          truncated = (length chosen > limit)\<rparr>)"
  by (simp add: query_def select_fold Let_def selected_by_def[abs_def])

lemma filter_partition3:
  "length (filter (\<lambda>x. P x \<and> \<not> Q x) xs) + length (filter (\<lambda>x. P x \<and> Q x) xs) +
     length (filter (\<lambda>x. \<not> P x) xs) = length xs"
  by (induction xs) auto

section \<open>Age\<close>

lemma out_of_window_nanos:
  assumes "after_epoch now" and "after_epoch t"
  shows "out_of_window limits now t \<longleftrightarrow> nanos now - nanos t > uint (history_window_nanos limits)"
proof -
  let ?age = "unix_nanos now - unix_nanos t"
  have d: "sint ?age = nanos now - nanos t" using after_epoch_diff[OF assms] by (simp add: nanos_def)
  have "uint ?age = sint ?age mod 2 ^ 64" using uint_word_of_int[where ?'a = 64, of "sint ?age"] by simp
  moreover have "sint ?age < 2 ^ 64" using sint_bounds(2)[of ?age] by simp
  ultimately have pos: "uint ?age = sint ?age" if "sint ?age > 0" using that by simp
  have "out_of_window limits now t \<longleftrightarrow> 0 < sint ?age \<and> uint (history_window_nanos limits) < uint ?age"
    by (simp add: out_of_window_def Let_def word_less_def)
  moreover have "uint (history_window_nanos limits) \<ge> 0" by simp
  ultimately show ?thesis using pos unfolding d by linarith
qed

section \<open>Properties\<close>

text \<open>
  C9: whatever sequence of appends, prunes and clears has run, the history holds at most
  \<open>max_history_records\<close> records, and at most \<open>max_history_per_group\<close> of them share a subject with
  any one record.
\<close>

theorem history_bounded:
  "history_inv (fold history_step ops (new_history limits))"
  by (rule fold_invariant[where Q = "\<lambda>_. True"]) (simp_all add: history_step_inv new_history_inv)

text \<open>
  C10: the answer to a history query accounts for every record as matched, filtered or out of
  the window; it contains only matching records, newest first and no more than the limit; it says
  that it is truncated exactly when a matching record is left out, and then nothing left out is
  newer than something returned.
\<close>

theorem history_query_exact:
  "let answer = query q h in
    matched answer + excluded_by_window answer + excluded_by_filter answer = history_size h \<and>
    matched answer = length (filter (selected_by q h) (history_records h)) \<and>
    set (records answer) \<subseteq> {r \<in> set (history_records h). selected_by q h r} \<and>
    length (records answer) = min (matched answer) (min (query_limit q) (unat (max_export_records (history_limits h)))) \<and>
    sorted_by newer_first (records answer) \<and>
    truncated answer = (length (records answer) < matched answer) \<and>
    (\<exists>rest. mset (records answer @ rest) = mset (filter (selected_by q h) (history_records h)) \<and>
       (\<forall>r\<in>set (records answer). \<forall>r'\<in>set rest. \<not> newer_first r' r))"
proof -
  define answer where "answer = query q h"
  let ?chosen = "filter (selected_by q h) (history_records h)"
  let ?limit = "min (query_limit q) (unat (max_export_records (history_limits h)))"
  let ?sorted = "std_sort newer_first ?chosen"
  have parts: "records answer = take ?limit ?sorted" "matched answer = length ?chosen"
    "truncated answer = (length ?chosen > ?limit)"
    by (simp_all add: answer_def query_eq Let_def)
  have split: "sorted_by newer_first (take ?limit ?sorted @ drop ?limit ?sorted)"
    using newest.sorted_std_sort by simp
  have "matched answer + excluded_by_window answer + excluded_by_filter answer = history_size h"
    using filter_partition3[of "passes_filter q" "windowed_out (history_limits h) q" "history_records h"]
    by (simp add: answer_def query_eq Let_def history_size_def selected_by_def[abs_def])
  moreover have "set (records answer) \<subseteq> set ?sorted" using parts(1) by (metis set_take_subset)
  then have "set (records answer) \<subseteq> {r \<in> set (history_records h). selected_by q h r}"
    by (simp add: subset_iff)
  moreover have "sorted_by newer_first (records answer)" and
    order: "\<forall>r\<in>set (records answer). \<forall>r'\<in>set (drop ?limit ?sorted). \<not> newer_first r' r"
    using split unfolding parts(1) sorted_by_def sorted_wrt_append by auto
  moreover have "\<exists>rest. mset (records answer @ rest) = mset ?chosen \<and>
      (\<forall>r\<in>set (records answer). \<forall>r'\<in>set rest. \<not> newer_first r' r)"
  proof (intro exI conjI)
    show "mset (records answer @ drop ?limit ?sorted) = mset ?chosen"
      unfolding parts(1) by (metis append_take_drop_id mset_std_sort)
  qed (rule order)
  moreover have "length (records answer) = min (matched answer) ?limit" by (simp add: parts min_def)
  moreover have "truncated answer = (length (records answer) < matched answer)" by (auto simp: parts min_def)
  ultimately show ?thesis unfolding answer_def[symmetric] Let_def using parts(2) by blast
qed

definition example_record :: "u64 \<Rightarrow> u64 \<Rightarrow> int \<Rightarrow> HistoryRecord" where
  "example_record g p t =
     (history_record (new_result (example_request []) example_context))
       \<lparr>hist_group := MaybeId (StrongId g), hist_path := MaybeId (StrongId p), hist_evaluated_at := from_unix_nanos t\<rparr>"

definition example_history :: HistoryStore where
  "example_history = (new_history (default_limits\<lparr>max_export_records := 4\<rparr>))\<lparr>history_records := [example_record 1 0 10, example_record 2 0 20]\<rparr>"

definition example_query :: HistoryQuery where
  "example_query =
     \<lparr>query_group = MaybeId (StrongId 2), query_path = absent, query_generation = absent, since = unset,
      outcome_filter = NoExpectedState, filter_by_outcome = False, query_limit = 4, query_now = unset,
      apply_window = False\<rparr>"

theorem history_query_exact_witness:
  "matched (query example_query example_history) = 1 \<and>
   matched (query example_query example_history) + excluded_by_window (query example_query example_history) +
     excluded_by_filter (query example_query example_history) = 2"
proof -
  have "history_size example_history = 2" by code_simp
  moreover have "matched (query example_query example_history) = 1" by code_simp
  ultimately show ?thesis using history_query_exact[of example_query example_history] by (simp add: Let_def)
qed

end
