(* ===== verification/Codec.thy ===== *)
theory Codec
  imports Finding
begin

text \<open>
  The binary record format (codec.hpp, codec.cpp): one encoder and one bounded decoder per domain
  record, over the canonical writer and reader. A decoder is a function of the remaining input; an
  early return of the code is an error value. Enumerations that the code casts without a range
  check keep their byte, as the C++ object does.
\<close>

section \<open>Sequencing of reads\<close>

text \<open>\<open>PATHOBS_TRY(x, reader.\<dots>)\<close> followed by the rest of the decoder.\<close>

definition read_then :: "'a read \<Rightarrow> ('a \<Rightarrow> 'b read) \<Rightarrow> 'b read" where
  "read_then rd f r = try_bind (rd r) (\<lambda>(x, r). f x r)"

definition read_fail :: "ErrorCode \<Rightarrow> string \<Rightarrow> 'a read" where
  "read_fail code msg r = Inl (Error code msg)"

definition read_return :: "'a \<Rightarrow> 'a read" where
  "read_return x r = Inr (x, r)"

text \<open>A status or a result that does not touch the reader.\<close>

definition read_lift :: "'a Result \<Rightarrow> 'a read" where
  "read_lift res r = try_bind res (\<lambda>x. Inr (x, r))"

definition read_tag :: "string \<Rightarrow> string \<Rightarrow> 'a read \<Rightarrow> 'a read" where
  "read_tag expected msg rest =
     read_then (read_text 64) (\<lambda>tag. if tag \<noteq> expected then read_fail InvalidFormat msg else rest)"

lemma read_then_apply [codec_simps]: "read_then rd f r = try_bind (rd r) (\<lambda>(x, r). f x r)"
  by (rule read_then_def)

lemma read_return_apply [codec_simps]: "read_return x r = Inr (x, r)"
  by (rule read_return_def)

lemma read_lift_apply [codec_simps]: "read_lift (Inr x) r = Inr (x, r)" "read_lift (Inl e) r = Inl e"
  by (simp_all add: read_lift_def)

lemma read_tag_apply [codec_simps]:
  "length t \<le> 64 \<Longrightarrow> read_tag t msg rest (write_text t @ r) = rest r"
  by (simp add: read_tag_def codec_simps)

section \<open>Enumerations\<close>

text \<open>
  A checked enumeration: the byte is refused when it is greater than the last enumerator. The
  enumerators are numbered from zero without gaps, so the list of them in order is the cast.
\<close>

definition read_enum :: "'a list \<Rightarrow> string \<Rightarrow> 'a read" where
  "read_enum vals msg =
     read_then read_u8 (\<lambda>b.
       if b > of_nat (length vals - 1) then read_fail InvalidFormat msg
       else read_return (vals ! unat b))"

text \<open>The enumerator a raw byte names, if any.\<close>

definition named :: "'a list \<Rightarrow> byte \<Rightarrow> 'a option" where
  "named vals b = (if unat b < length vals then Some (vals ! unat b) else None)"

locale coded_enum =
  fixes vals :: "'a list" and code :: "'a \<Rightarrow> byte"
  assumes code_range: "unat (code x) < length vals"
    and code_value: "vals ! unat (code x) = x"
    and value_code: "i < length vals \<Longrightarrow> unat (code (vals ! i)) = i"
    and few_values: "length vals \<le> 256"
begin

lemma code_bound: "code x \<le> of_nat (length vals - 1)"
proof -
  obtain n where n: "length vals - 1 = n" by blast
  then have "n < 256" "unat (code x) \<le> n" using few_values code_range[of x] by simp_all
  moreover have "unat (of_nat n :: byte) = n"
    using \<open>n < 256\<close> by (simp add: unsigned_of_nat take_bit_nat_eq_self)
  ultimately show ?thesis unfolding n by (simp add: word_le_nat_alt)
qed

lemma read_enum_code: "read_enum vals msg (write_u8 (code x) @ r) = Inr (x, r)"
  using code_bound[of x] by (simp add: read_enum_def codec_simps code_value flip: not_le)

lemma named_code: "named vals (code x) = Some x"
  by (simp add: named_def code_range code_value)

lemma code_named: "named vals b = Some x \<Longrightarrow> code x = b"
  using value_code[of "unat b"] by (auto simp: named_def word_unat_eq_iff split: if_splits)

end

definition SourceKind_values :: "SourceKind list" where
  "SourceKind_values =
     [SourceKind_Unknown, RoutingAuthority, TopologyAuthority, TelemetryObserver, ReplayFile, TestHarness, Simulator]"

definition ProofSurface_values :: "ProofSurface list" where
  "ProofSurface_values = [ProofSurface_Unknown, Real, Synthetic, Unsupported]"

definition AuthorityClass_values :: "AuthorityClass list" where
  "AuthorityClass_values = [AuthorityClass_None, Informational, Advisory, Authoritative]"

definition DeviceRole_values :: "DeviceRole list" where
  "DeviceRole_values = [DeviceRole_Unknown, Switch, Router, Host, LineCard, Appliance]"

definition LinkKind_values :: "LinkKind list" where
  "LinkKind_values = [LinkKind_Unknown, Physical, Logical, Tunnel, Lag]"

definition HopLinkProvenance_values :: "HopLinkProvenance list" where
  "HopLinkProvenance_values = [Provenance_Absent, Provenance_Observed, Provenance_Correlated]"

definition EvidenceCompleteness_values :: "EvidenceCompleteness list" where
  "EvidenceCompleteness_values = [Evidence_Unknown, Evidence_Partial, Evidence_Complete]"

definition Freshness_values :: "Freshness list" where
  "Freshness_values = [Freshness_Unknown, Fresh, Stale, Expired, Future]"

definition DivergenceClass_values :: "DivergenceClass list" where
  "DivergenceClass_values =
     [Class_None, EpochFenced, EpochAhead, IncarnationFenced, SourceSequenceReplay, RevisionFenced,
      RevisionAhead, RouteGenerationMismatch, TopologyGenerationMismatch, AuthorityInsufficient,
      EvidenceUnsupported, EvidenceExpired, EvidenceStale, EvidenceConflicting, EvidenceIncomplete,
      EvidenceAmbiguous, EvidenceUnknown, ObservationGap, LinkUnresolved, PathUnknownToPlan, HopMissing,
      HopUnexpected, HopOrderViolation, DeviceMismatch, PortMismatch, LinkMismatch]"

definition MatchOutcome_values :: "MatchOutcome list" where
  "MatchOutcome_values = [NoExpectedState, Match, Divergent, Indeterminate, Outcome_Unsupported]"

definition ObservationConsistency_values :: "ObservationConsistency list" where
  "ObservationConsistency_values =
     [Consistency_Unknown, Consistent, Ambiguous, Conflicting, Consistency_Unsupported]"

definition FindingStatus_values :: "FindingStatus list" where
  "FindingStatus_values = [Open, Acknowledged, Resolved]"

fun FindingStatus_code :: "FindingStatus \<Rightarrow> byte" where
  "FindingStatus_code Open = 0"
| "FindingStatus_code Acknowledged = 1"
| "FindingStatus_code Resolved = 2"

lemma coded_enum_table:
  assumes "map (unat \<circ> code) vals = [0..<length vals]" and "\<And>x. x \<in> set vals" and "length vals \<le> 256"
  shows "coded_enum vals code"
proof
  fix x
  obtain i where i: "i < length vals" "vals ! i = x" using assms(2)[of x] by (auto simp: in_set_conv_nth)
  have "map (unat \<circ> code) vals ! i = [0..<length vals] ! i" by (simp only: assms(1))
  then have "unat (code x) = i" using i by simp
  with i show "unat (code x) < length vals" "vals ! unat (code x) = x" by simp_all
next
  fix i
  assume "i < length vals"
  moreover have "map (unat \<circ> code) vals ! i = [0..<length vals] ! i" by (simp only: assms(1))
  ultimately show "unat (code (vals ! i)) = i" by simp
qed (rule assms(3))

interpretation source_kind: coded_enum SourceKind_values SourceKind_code
  by (rule coded_enum_table, simp add: SourceKind_values_def upt_rec)
    (use SourceKind.nchotomy in \<open>auto simp: SourceKind_values_def\<close>)

interpretation proof_surface: coded_enum ProofSurface_values ProofSurface_code
  by (rule coded_enum_table, simp add: ProofSurface_values_def upt_rec)
    (use ProofSurface.nchotomy in \<open>auto simp: ProofSurface_values_def\<close>)

interpretation authority_class: coded_enum AuthorityClass_values AuthorityClass_code
  by (rule coded_enum_table, simp add: AuthorityClass_values_def upt_rec)
    (use AuthorityClass.nchotomy in \<open>auto simp: AuthorityClass_values_def\<close>)

interpretation device_role: coded_enum DeviceRole_values DeviceRole_code
  by (rule coded_enum_table, simp add: DeviceRole_values_def upt_rec)
    (use DeviceRole.nchotomy in \<open>auto simp: DeviceRole_values_def\<close>)

interpretation link_kind_enum: coded_enum LinkKind_values LinkKind_code
  by (rule coded_enum_table, simp add: LinkKind_values_def upt_rec)
    (use LinkKind.nchotomy in \<open>auto simp: LinkKind_values_def\<close>)

interpretation link_provenance: coded_enum HopLinkProvenance_values HopLinkProvenance_code
  by (rule coded_enum_table, simp add: HopLinkProvenance_values_def upt_rec)
    (use HopLinkProvenance.nchotomy in \<open>auto simp: HopLinkProvenance_values_def\<close>)

interpretation evidence_completeness: coded_enum EvidenceCompleteness_values EvidenceCompleteness_code
  by (rule coded_enum_table, simp add: EvidenceCompleteness_values_def upt_rec)
    (use EvidenceCompleteness.nchotomy in \<open>auto simp: EvidenceCompleteness_values_def\<close>)

interpretation freshness_enum: coded_enum Freshness_values Freshness_code
  by (rule coded_enum_table, simp add: Freshness_values_def upt_rec)
    (use Freshness.nchotomy in \<open>auto simp: Freshness_values_def\<close>)

interpretation divergence_class: coded_enum DivergenceClass_values DivergenceClass_code
  by (rule coded_enum_table, simp add: DivergenceClass_values_def upt_rec)
    (use DivergenceClass.nchotomy in \<open>auto simp: DivergenceClass_values_def\<close>)

interpretation match_outcome: coded_enum MatchOutcome_values MatchOutcome_code
  by (rule coded_enum_table, simp add: MatchOutcome_values_def upt_rec)
    (use MatchOutcome.nchotomy in \<open>auto simp: MatchOutcome_values_def\<close>)

interpretation consistency_enum: coded_enum ObservationConsistency_values ObservationConsistency_code
  by (rule coded_enum_table, simp add: ObservationConsistency_values_def upt_rec)
    (use ObservationConsistency.nchotomy in \<open>auto simp: ObservationConsistency_values_def\<close>)

interpretation finding_status: coded_enum FindingStatus_values FindingStatus_code
  by (rule coded_enum_table, simp add: FindingStatus_values_def upt_rec)
    (use FindingStatus.nchotomy in \<open>auto simp: FindingStatus_values_def\<close>)

lemmas enum_reads [codec_simps] =
  source_kind.read_enum_code proof_surface.read_enum_code authority_class.read_enum_code
  device_role.read_enum_code link_kind_enum.read_enum_code link_provenance.read_enum_code
  evidence_completeness.read_enum_code freshness_enum.read_enum_code divergence_class.read_enum_code
  match_outcome.read_enum_code consistency_enum.read_enum_code finding_status.read_enum_code

lemmas enum_names [codec_simps] =
  proof_surface.named_code authority_class.named_code evidence_completeness.named_code
  freshness_enum.named_code divergence_class.named_code consistency_enum.named_code

section \<open>Optional identities\<close>

definition read_maybe :: "'tag MaybeId read" where
  "read_maybe =
     read_then read_bool (\<lambda>b. read_then read_u64 (\<lambda>raw.
       read_return (if \<not> b then absent else MaybeId (from_value raw))))"

definition read_time :: "TimePoint read" where
  "read_time = read_then read_i64 (\<lambda>n. read_return (TimePoint n))"

definition write_time :: "TimePoint \<Rightarrow> byte list" where
  "write_time t = write_i64 (unix_nanos t)"

definition kMaxSequenceElements :: u32 where
  "kMaxSequenceElements = 4000000"

section \<open>Sources\<close>

definition encode_source :: "SourceDescriptor \<Rightarrow> byte list" where
  "encode_source v =
     write_text ''pathobs.record.source'' @ write_id (source_id v) @ write_text (source_name v) @
     write_u8 (SourceKind_code (source_kind v)) @ write_u8 (ProofSurface_code (source_surface v)) @
     write_u8 (AuthorityClass_code (source_authority v)) @
     write_bool (expected_state (source_capabilities v)) @
     write_bool (observed_evidence (source_capabilities v)) @
     write_bool (topology_capability (source_capabilities v)) @
     write_i64 (max_observation_age v) @ write_i64 (clock_skew_tolerance v)"

definition decode_source_descriptor :: "Limits \<Rightarrow> SourceDescriptor read" where
  "decode_source_descriptor limits =
     read_tag ''pathobs.record.source'' ''record is not a source descriptor''
      (read_then read_id (\<lambda>i.
       read_then (read_text (max_string_bytes limits)) (\<lambda>name.
       read_then (read_enum SourceKind_values ''source kind is out of range'') (\<lambda>kind.
       read_then (read_enum ProofSurface_values ''proof surface is out of range'') (\<lambda>surface.
       read_then (read_enum AuthorityClass_values ''authority class is out of range'') (\<lambda>authority.
       read_then read_bool (\<lambda>e.
       read_then read_bool (\<lambda>ob.
       read_then read_bool (\<lambda>t.
       read_then read_i64 (\<lambda>age.
       read_then read_i64 (\<lambda>skew.
         let v = \<lparr>source_id = i, source_name = name, source_kind = kind, source_surface = surface,
                  source_authority = authority,
                  source_capabilities = \<lparr>expected_state = e, observed_evidence = ob, topology_capability = t\<rparr>,
                  max_observation_age = age, clock_skew_tolerance = skew\<rparr>
         in read_then (read_lift (SourceDescriptor_validate v)) (\<lambda>_. read_return v))))))))))))"

section \<open>Topologies\<close>

definition encode_device :: "DeviceRecord \<Rightarrow> byte list" where
  "encode_device d = write_id (device_id d) @ write_text (device_name d) @ write_u8 (DeviceRole_code (device_role d))"

definition encode_port :: "PortRecord \<Rightarrow> byte list" where
  "encode_port p =
     write_id (port_id p) @ write_id (port_device p) @ write_text (port_name p) @ write_u32 (port_index p)"

definition encode_link :: "LinkRecord \<Rightarrow> byte list" where
  "encode_link l =
     write_id (link_id l) @ write_id (local_device l) @ write_id (local_port l) @
     write_id (remote_device l) @ write_id (remote_port l) @ write_u8 (LinkKind_code (link_kind l))"

definition encode_topology :: "TopologyGeneration \<Rightarrow> byte list" where
  "encode_topology v =
     write_text ''pathobs.record.topology'' @ write_id (topo_id v) @ write_id (topo_epoch v) @
     write_id (topo_incarnation v) @ write_id (topo_revision v) @ write_id (topo_sequence v) @
     write_id (topo_source v) @ write_time (topo_created v) @ write_time (topo_received v) @
     write_list encode_device (devices v) @ write_list encode_port (ports v) @ write_list encode_link (links v)"

definition decode_device :: "Limits \<Rightarrow> DeviceRecord read" where
  "decode_device limits =
     read_then read_id (\<lambda>i.
     read_then (read_text (max_string_bytes limits)) (\<lambda>name.
     read_then (read_enum DeviceRole_values ''device role is out of range'') (\<lambda>role.
       read_return \<lparr>device_id = i, device_name = name, device_role = role\<rparr>)))"

definition decode_port :: "Limits \<Rightarrow> PortRecord read" where
  "decode_port limits =
     read_then read_id (\<lambda>i.
     read_then read_id (\<lambda>d.
     read_then (read_text (max_string_bytes limits)) (\<lambda>name.
     read_then read_u32 (\<lambda>index.
       read_return \<lparr>port_id = i, port_device = d, port_name = name, port_index = index\<rparr>))))"

definition decode_link :: "LinkRecord read" where
  "decode_link =
     read_then read_id (\<lambda>i.
     read_then read_id (\<lambda>ld.
     read_then read_id (\<lambda>lp.
     read_then read_id (\<lambda>rd.
     read_then read_id (\<lambda>rp.
     read_then (read_enum LinkKind_values ''link kind is out of range'') (\<lambda>kind.
       read_return \<lparr>link_id = i, local_device = ld, local_port = lp, remote_device = rd, remote_port = rp,
                    link_kind = kind\<rparr>))))))"

definition decode_topology_generation :: "hasher \<Rightarrow> Limits \<Rightarrow> TopologyGeneration read" where
  "decode_topology_generation H limits =
     read_tag ''pathobs.record.topology'' ''record is not a topology generation''
      (read_then read_id (\<lambda>i.
       read_then read_id (\<lambda>epoch.
       read_then read_id (\<lambda>inc.
       read_then read_id (\<lambda>rev.
       read_then read_id (\<lambda>seq.
       read_then read_id (\<lambda>src.
       read_then read_time (\<lambda>created.
       read_then read_time (\<lambda>received.
       read_then (read_list (max_devices_per_topology limits) (decode_device limits)) (\<lambda>ds.
       read_then (read_list kMaxSequenceElements (decode_port limits)) (\<lambda>ps.
       read_then (read_list (max_links_per_topology limits) decode_link) (\<lambda>ls.
         read_lift (TopologyGeneration_finalize H limits
           \<lparr>topo_id = i, topo_epoch = epoch, topo_incarnation = inc, topo_revision = rev,
            topo_sequence = seq, topo_source = src, topo_created = created, topo_received = received,
            devices = ds, ports = ps, links = ls, topo_digest = zero_digest\<rparr>)))))))))))))"

section \<open>Route generations\<close>

definition encode_group :: "PathGroup \<Rightarrow> byte list" where
  "encode_group g =
     write_id (group_id g) @ write_id (group_origin g) @ write_id (group_destination g) @
     write_text (group_label g) @ write_list write_id (members g)"

definition encode_path :: "ExpectedPath \<Rightarrow> byte list" where
  "encode_path p =
     write_id (path_id p) @ write_id (path_group p) @ write_id (path_generation p) @
     write_list write_expected_hop (path_hops p)"

definition encode_routes :: "RouteGeneration \<Rightarrow> byte list" where
  "encode_routes v =
     write_text ''pathobs.record.routes'' @ write_id (route_id v) @ write_id (route_epoch v) @
     write_id (route_incarnation v) @ write_id (route_revision v) @ write_id (route_sequence v) @
     write_id (route_source v) @ write_id (route_topology v) @ write_time (route_created v) @
     write_time (route_received v) @ write_list encode_group (groups v) @ write_list encode_path (paths v)"

definition decode_group :: "Limits \<Rightarrow> PathGroup read" where
  "decode_group limits =
     read_then read_id (\<lambda>i.
     read_then read_id (\<lambda>origin.
     read_then read_id (\<lambda>destination.
     read_then (read_text (max_string_bytes limits)) (\<lambda>label.
     read_then (read_list (max_members_per_group limits) read_id) (\<lambda>ms.
       read_return \<lparr>group_id = i, group_origin = origin, group_destination = destination,
                    group_label = label, members = ms\<rparr>)))))"

definition decode_expected_hop :: "ExpectedHop read" where
  "decode_expected_hop =
     read_then read_id (\<lambda>i.
     read_then read_u32 (\<lambda>index.
     read_then read_id (\<lambda>d.
     read_then read_id (\<lambda>ingress.
     read_then read_id (\<lambda>egress.
     read_then read_bool (\<lambda>has_link.
     read_then read_id (\<lambda>link.
       read_return \<lparr>eh_id = i, eh_index = index, eh_device = d, eh_ingress = ingress, eh_egress = egress,
                    eh_egress_link = link, has_egress_link = has_link\<rparr>)))))))"

definition decode_path :: "Limits \<Rightarrow> ExpectedPath read" where
  "decode_path limits =
     read_then read_id (\<lambda>i.
     read_then read_id (\<lambda>g.
     read_then read_id (\<lambda>generation.
     read_then (read_list (max_hops_per_path limits) decode_expected_hop) (\<lambda>hops.
       read_return \<lparr>path_id = i, path_group = g, path_generation = generation, path_hops = hops,
                    path_digest = zero_digest\<rparr>))))"

definition decode_route_generation :: "hasher \<Rightarrow> Limits \<Rightarrow> RouteGeneration read" where
  "decode_route_generation H limits =
     read_tag ''pathobs.record.routes'' ''record is not a route generation''
      (read_then read_id (\<lambda>i.
       read_then read_id (\<lambda>epoch.
       read_then read_id (\<lambda>inc.
       read_then read_id (\<lambda>rev.
       read_then read_id (\<lambda>seq.
       read_then read_id (\<lambda>src.
       read_then read_id (\<lambda>topology.
       read_then read_time (\<lambda>created.
       read_then read_time (\<lambda>received.
       read_then (read_list (max_groups_per_generation limits) (decode_group limits)) (\<lambda>gs.
       read_then (read_list (max_paths_per_generation limits) (decode_path limits)) (\<lambda>ps.
         read_lift (RouteGeneration_finalize H limits
           \<lparr>route_id = i, route_epoch = epoch, route_incarnation = inc, route_revision = rev,
            route_sequence = seq, route_source = src, route_topology = topology, route_created = created,
            route_received = received, groups = gs, paths = ps, route_digest = zero_digest\<rparr>)))))))))))))"

section \<open>Evidence\<close>

definition encode_evidence :: "ObservedPathEvidence \<Rightarrow> byte list" where
  "encode_evidence v =
     write_text ''pathobs.record.evidence'' @ write_digest_id (ev_id v) @ write_id (ev_source v) @
     write_id (ev_incarnation v) @ write_id (ev_sequence v) @ write_u8 (ProofSurface_code (ev_surface v)) @
     write_u8 (AuthorityClass_code (ev_authority v)) @ write_maybe (ev_path v) @ write_maybe (ev_group v) @
     write_maybe (ev_origin v) @ write_maybe (ev_destination v) @ write_id (ev_epoch v) @
     write_id (claimed_incarnation v) @ write_maybe (ev_route_generation v) @
     write_maybe (ev_topology_generation v) @ write_id (ev_revision v) @ write_time (observed_at v) @
     write_time (received_at v) @ write_bool (source_truncated v) @
     write_u8 (EvidenceCompleteness_code (declared_completeness v)) @ write_digest (payload_digest v) @
     write_text (ev_note v) @ write_list write_observed_hop (ev_hops v)"

definition decode_observed_hop :: "ObservedHop read" where
  "decode_observed_hop =
     read_then read_u32 (\<lambda>index.
     read_then read_id (\<lambda>d.
     read_then read_id (\<lambda>ingress.
     read_then read_id (\<lambda>egress.
     read_then read_id (\<lambda>link.
     read_then (read_enum HopLinkProvenance_values ''hop link provenance is out of range'') (\<lambda>provenance.
     read_then read_time (\<lambda>at.
       read_return \<lparr>oh_index = index, oh_device = d, oh_ingress = ingress, oh_egress = egress, oh_link = link,
                    oh_link_provenance = provenance, oh_at = at\<rparr>)))))))"

text \<open>The final checks: the shape, then the identity, which is not yet stored in the record.\<close>

definition accept_evidence :: "hasher \<Rightarrow> Limits \<Rightarrow> EvidenceId \<Rightarrow> ObservedPathEvidence \<Rightarrow> ObservedPathEvidence Result" where
  "accept_evidence H limits stored v =
     try_bind (evidence_validate H limits v) (\<lambda>_.
       if compute_evidence_id H v \<noteq> stored
       then Inl (Error IntegrityFailure ''evidence identity does not match its content'')
       else Inr (v\<lparr>ev_id := stored\<rparr>))"

definition decode_evidence :: "hasher \<Rightarrow> Limits \<Rightarrow> ObservedPathEvidence read" where
  "decode_evidence H limits =
     read_tag ''pathobs.record.evidence'' ''record is not an evidence record''
      (read_then read_digest_id (\<lambda>stored.
       read_then read_id (\<lambda>src.
       read_then read_id (\<lambda>inc.
       read_then read_id (\<lambda>seq.
       read_then (read_enum ProofSurface_values ''proof surface is out of range'') (\<lambda>surface.
       read_then (read_enum AuthorityClass_values ''authority class is out of range'') (\<lambda>authority.
       read_then read_maybe (\<lambda>path.
       read_then read_maybe (\<lambda>grp.
       read_then read_maybe (\<lambda>origin.
       read_then read_maybe (\<lambda>destination.
       read_then read_id (\<lambda>epoch.
       read_then read_id (\<lambda>claimed.
       read_then read_maybe (\<lambda>generation.
       read_then read_maybe (\<lambda>topology.
       read_then read_id (\<lambda>rev.
       read_then read_time (\<lambda>observed.
       read_then read_time (\<lambda>received.
       read_then read_bool (\<lambda>truncated.
       read_then (read_enum EvidenceCompleteness_values ''evidence completeness is out of range'') (\<lambda>declared.
       read_then read_digest (\<lambda>payload.
       read_then (read_text 4096) (\<lambda>note.
       read_then (read_list (max_hops_per_path limits) decode_observed_hop) (\<lambda>hops.
         read_lift (accept_evidence H limits stored
           \<lparr>ev_id = no_digest_id, ev_source = src, ev_incarnation = inc, ev_sequence = seq, ev_surface = surface,
            ev_authority = authority, ev_path = path, ev_group = grp, ev_origin = origin,
            ev_destination = destination, ev_epoch = epoch, claimed_incarnation = claimed,
            ev_route_generation = generation, ev_topology_generation = topology, ev_revision = rev,
            observed_at = observed, received_at = received, ev_hops = hops, source_truncated = truncated,
            declared_completeness = declared, payload_digest = payload, ev_note = note\<rparr>))))))))))))))))))))))))"

section \<open>Comparison results\<close>

text \<open>
  What the record carries of a comparison. The decoder casts every enumeration but the outcome
  without a range check, so those fields are bytes; the hops of a difference and the counts that
  describe the submission are not written.
\<close>

record WireJudgement =
  wj_id :: EvidenceId
  wj_accepted :: bool
  wj_rejection :: byte
  wj_freshness :: byte
  wj_surface :: byte
  wj_authority :: byte
  wj_completeness :: byte
  wj_classes :: "byte list"

record WireDifference =
  wd_index :: u32
  wd_detail :: byte
  wd_has_expected :: bool
  wd_has_observed :: bool

record WireComparison =
  wc_id :: ComparisonId
  wc_generation :: RouteGenerationId
  wc_topology :: TopologyGenerationId
  wc_group :: "PathGroupIdTag MaybeId"
  wc_path :: "PathIdTag MaybeId"
  wc_matched_path :: "PathIdTag MaybeId"
  wc_outcome :: MatchOutcome
  wc_primary :: byte
  wc_classes :: "byte list"
  wc_freshness :: byte
  wc_completeness :: byte
  wc_consistency :: byte
  wc_surface :: byte
  wc_multipath :: bool
  wc_ambiguous :: bool
  wc_considered :: u32
  wc_rejected :: u32
  wc_judgements :: "WireJudgement list"
  wc_differences :: "WireDifference list"
  wc_evaluated_at :: TimePoint

definition write_wire_judgement :: "WireJudgement \<Rightarrow> byte list" where
  "write_wire_judgement j =
     write_digest_id (wj_id j) @ write_bool (wj_accepted j) @ write_u8 (wj_rejection j) @
     write_u8 (wj_freshness j) @ write_u8 (wj_surface j) @ write_u8 (wj_authority j) @
     write_u8 (wj_completeness j) @ write_list write_u8 (wj_classes j)"

definition write_wire_difference :: "WireDifference \<Rightarrow> byte list" where
  "write_wire_difference d =
     write_u32 (wd_index d) @ write_u8 (wd_detail d) @ write_bool (wd_has_expected d) @ write_bool (wd_has_observed d)"

definition WireComparison_bytes :: "WireComparison \<Rightarrow> byte list" where
  "WireComparison_bytes r =
     write_text ''pathobs.comparison'' @ write_id (wc_generation r) @ write_id (wc_topology r) @
     write_maybe (wc_group r) @ write_maybe (wc_path r) @ write_maybe (wc_matched_path r) @
     write_u8 (MatchOutcome_code (wc_outcome r)) @ write_u8 (wc_primary r) @ write_list write_u8 (wc_classes r) @
     write_u8 (wc_freshness r) @ write_u8 (wc_completeness r) @ write_u8 (wc_consistency r) @
     write_u8 (wc_surface r) @ write_bool (wc_multipath r) @ write_bool (wc_ambiguous r) @
     write_u32 (wc_considered r) @ write_u32 (wc_rejected r) @
     write_list write_wire_judgement (wc_judgements r) @ write_list write_wire_difference (wc_differences r) @
     write_time (wc_evaluated_at r)"

definition encode_comparison :: "ComparisonResult \<Rightarrow> byte list" where
  "encode_comparison v =
     write_text ''pathobs.record.comparison'' @ write_digest_id (cmp_id v) @ ComparisonResult_bytes v"

definition decode_judgement :: "WireJudgement read" where
  "decode_judgement =
     read_then read_digest_id (\<lambda>i.
     read_then read_bool (\<lambda>accepted.
     read_then read_u8 (\<lambda>rejection.
     read_then read_u8 (\<lambda>freshness.
     read_then read_u8 (\<lambda>surface.
     read_then read_u8 (\<lambda>authority.
     read_then read_u8 (\<lambda>complete.
     read_then (read_list 64 read_u8) (\<lambda>cs.
       read_return \<lparr>wj_id = i, wj_accepted = accepted, wj_rejection = rejection, wj_freshness = freshness,
                    wj_surface = surface, wj_authority = authority, wj_completeness = complete,
                    wj_classes = cs\<rparr>))))))))"

definition decode_difference :: "WireDifference read" where
  "decode_difference =
     read_then read_u32 (\<lambda>index.
     read_then read_u8 (\<lambda>detail.
     read_then read_bool (\<lambda>e.
     read_then read_bool (\<lambda>ob.
       read_return \<lparr>wd_index = index, wd_detail = detail, wd_has_expected = e, wd_has_observed = ob\<rparr>))))"

definition accept_comparison :: "hasher \<Rightarrow> ComparisonId \<Rightarrow> WireComparison \<Rightarrow> WireComparison Result" where
  "accept_comparison H stored v =
     (if from_digest (H (WireComparison_bytes v)) \<noteq> stored
      then Inl (Error IntegrityFailure ''comparison identity does not match its content'')
      else Inr (v\<lparr>wc_id := stored\<rparr>))"

definition decode_comparison :: "hasher \<Rightarrow> Limits \<Rightarrow> WireComparison read" where
  "decode_comparison H limits =
     read_tag ''pathobs.record.comparison'' ''record is not a comparison''
      (read_then read_digest_id (\<lambda>stored.
       read_tag ''pathobs.comparison'' ''comparison body tag does not match''
      (read_then read_id (\<lambda>generation.
       read_then read_id (\<lambda>topology.
       read_then read_maybe (\<lambda>grp.
       read_then read_maybe (\<lambda>path.
       read_then read_maybe (\<lambda>matched.
       read_then (read_enum MatchOutcome_values ''match outcome is out of range'') (\<lambda>out.
       read_then read_u8 (\<lambda>prim.
       read_then (read_list 64 read_u8) (\<lambda>cs.
       read_then read_u8 (\<lambda>freshness.
       read_then read_u8 (\<lambda>complete.
       read_then read_u8 (\<lambda>consistent.
       read_then read_u8 (\<lambda>surface.
       read_then read_bool (\<lambda>multi.
       read_then read_bool (\<lambda>ambiguous.
       read_then read_u32 (\<lambda>considered.
       read_then read_u32 (\<lambda>rejected.
       read_then (read_list (max_evidence_per_comparison limits) decode_judgement) (\<lambda>js.
       read_then (read_list (max_hops_per_path limits) decode_difference) (\<lambda>ds.
       read_then read_time (\<lambda>at.
         read_lift (accept_comparison H stored
           \<lparr>wc_id = no_digest_id, wc_generation = generation, wc_topology = topology, wc_group = grp,
            wc_path = path, wc_matched_path = matched, wc_outcome = out, wc_primary = prim, wc_classes = cs,
            wc_freshness = freshness, wc_completeness = complete, wc_consistency = consistent,
            wc_surface = surface, wc_multipath = multi, wc_ambiguous = ambiguous, wc_considered = considered,
            wc_rejected = rejected, wc_judgements = js, wc_differences = ds, wc_evaluated_at = at\<rparr>)))))))))))))))))))))))"

section \<open>Findings\<close>

text \<open>The class of a finding is cast without a range check: a decoded finding is its byte and the rest.\<close>

definition encode_finding :: "Finding \<Rightarrow> byte list" where
  "encode_finding v =
     write_text ''pathobs.record.finding'' @ write_digest_id (finding_id v) @ write_class (cls v) @
     write_maybe (finding_group v) @ write_maybe (finding_path v) @ write_id (finding_generation v) @
     write_id (finding_topology v) @ write_list write_digest_id (finding_evidence v) @
     write_list write_u32 (hop_indices v) @ write_u8 (FindingStatus_code (status v)) @
     write_u64 (occurrences v) @ write_time (first_seen v) @ write_time (last_seen v) @
     write_digest_id (last_comparison v) @ write_text (finding_detail v)"

definition wire_finding_bytes :: "byte \<Rightarrow> Finding \<Rightarrow> byte list" where
  "wire_finding_bytes c f =
     write_text ''pathobs.finding'' @ write_u8 c @ write_maybe (finding_group f) @
     write_maybe (finding_path f) @ write_id (finding_generation f) @ write_id (finding_topology f) @
     write_list write_digest_id (remdups_adj (std_sort (<) (finding_evidence f))) @
     write_list write_u32 (remdups_adj (std_sort (<) (hop_indices f)))"

definition accept_finding :: "hasher \<Rightarrow> FindingId \<Rightarrow> byte \<Rightarrow> Finding \<Rightarrow> (byte \<times> Finding) Result" where
  "accept_finding H stored c f =
     (if from_digest (H (wire_finding_bytes c f)) \<noteq> stored
      then Inl (Error IntegrityFailure ''finding identity does not match its content'')
      else Inr (c, f\<lparr>finding_id := stored\<rparr>))"

definition decode_finding :: "hasher \<Rightarrow> Limits \<Rightarrow> (byte \<times> Finding) read" where
  "decode_finding H limits =
     read_tag ''pathobs.record.finding'' ''record is not a finding''
      (read_then read_digest_id (\<lambda>stored.
       read_then read_u8 (\<lambda>c.
       read_then read_maybe (\<lambda>grp.
       read_then read_maybe (\<lambda>path.
       read_then read_id (\<lambda>generation.
       read_then read_id (\<lambda>topology.
       read_then (read_list (max_finding_evidence limits) read_digest_id) (\<lambda>es.
       read_then (read_list (max_hops_per_path limits) read_u32) (\<lambda>hops.
       read_then (read_enum FindingStatus_values ''finding status is out of range'') (\<lambda>st.
       read_then read_u64 (\<lambda>n.
       read_then read_time (\<lambda>first.
       read_then read_time (\<lambda>last.
       read_then read_digest_id (\<lambda>comparison.
       read_then (read_text (max_string_bytes limits)) (\<lambda>detail.
         read_lift (accept_finding H stored c
           \<lparr>finding_id = no_digest_id, cls = Class_None, finding_group = grp, finding_path = path,
            finding_generation = generation, finding_topology = topology, finding_evidence = es,
            hop_indices = hops, status = st, occurrences = n, first_seen = first, last_seen = last,
            last_comparison = comparison, finding_detail = detail\<rparr>))))))))))))))))"

section \<open>Whole payloads\<close>

definition decode_exact :: "'a read \<Rightarrow> byte list \<Rightarrow> 'a Result" where
  "decode_exact rd payload =
     try_bind (rd payload) (\<lambda>(v, r). try_bind (expect_end r) (\<lambda>_. Inr v))"

lemma decode_exact_Inr: "decode_exact rd payload = Inr v \<longleftrightarrow> rd payload = Inr (v, [])"
  by (auto simp: decode_exact_def try_bind_eq_Inr expect_end_def split: if_splits)

text \<open>The enumerators that the bytes of a decoded record name, if they all do.\<close>

definition named_judgement :: "WireJudgement \<Rightarrow> EvidenceJudgement option" where
  "named_judgement j =
     (case (named DivergenceClass_values (wj_rejection j), named Freshness_values (wj_freshness j),
            named ProofSurface_values (wj_surface j), named AuthorityClass_values (wj_authority j),
            named EvidenceCompleteness_values (wj_completeness j),
            those (map (named DivergenceClass_values) (wj_classes j))) of
        (Some rejection, Some freshness, Some surface, Some authority, Some complete, Some cs) \<Rightarrow>
          Some \<lparr>judged_id = wj_id j, judged_accepted = wj_accepted j, judged_rejection = rejection,
                judged_freshness = freshness, judged_surface = surface, judged_authority = authority,
                judged_completeness = complete, judged_classes = cs\<rparr>
      | _ \<Rightarrow> None)"

text \<open>The hops of a decoded difference are default constructed.\<close>

definition default_expected_hop :: ExpectedHop where
  "default_expected_hop =
     \<lparr>eh_id = no_id, eh_index = 0, eh_device = no_id, eh_ingress = no_id, eh_egress = no_id,
      eh_egress_link = no_id, has_egress_link = False\<rparr>"

definition default_observed_hop :: ObservedHop where
  "default_observed_hop =
     \<lparr>oh_index = 0, oh_device = no_id, oh_ingress = no_id, oh_egress = no_id, oh_link = no_id,
      oh_link_provenance = Provenance_Absent, oh_at = unset\<rparr>"

definition named_difference :: "WireDifference \<Rightarrow> HopDifference option" where
  "named_difference d =
     (case named DivergenceClass_values (wd_detail d) of
        None \<Rightarrow> None
      | Some detail \<Rightarrow>
          Some \<lparr>diff_index = wd_index d, diff_detail = detail,
                diff_expected = (if wd_has_expected d then Some default_expected_hop else None),
                diff_observed = (if wd_has_observed d then Some default_observed_hop else None)\<rparr>)"

definition named_comparison :: "WireComparison \<Rightarrow> ComparisonResult option" where
  "named_comparison v =
     (case (named DivergenceClass_values (wc_primary v),
            those (map (named DivergenceClass_values) (wc_classes v)),
            named Freshness_values (wc_freshness v), named EvidenceCompleteness_values (wc_completeness v),
            named ObservationConsistency_values (wc_consistency v), named ProofSurface_values (wc_surface v),
            those (map named_judgement (wc_judgements v)), those (map named_difference (wc_differences v))) of
        (Some prim, Some cs, Some freshness, Some complete, Some consistent, Some surface, Some js, Some ds) \<Rightarrow>
          Some \<lparr>cmp_id = wc_id v, cmp_generation = wc_generation v, cmp_topology = wc_topology v,
                cmp_group = wc_group v, cmp_path = wc_path v, matched_path = wc_matched_path v,
                outcome = wc_outcome v, primary = prim, classes = cs, cmp_freshness = freshness,
                completeness = complete, consistency = consistent, cmp_surface = surface,
                cmp_multipath = wc_multipath v, multipath_ambiguous = wc_ambiguous v, evidence_offered = 0,
                evidence_considered = unat (wc_considered v), evidence_rejected = unat (wc_rejected v),
                duplicate_evidence = 0, judgements = js, differences = ds, evaluated_at = wc_evaluated_at v\<rparr>
      | _ \<Rightarrow> None)"

definition named_finding :: "byte \<times> Finding \<Rightarrow> Finding option" where
  "named_finding v = map_option (\<lambda>c. (snd v)\<lparr>cls := c\<rparr>) (named DivergenceClass_values (fst v))"

end
