(* ===== verification/CodecRoundTrip.thy ===== *)
theory CodecRoundTrip
  imports Codec
begin

text \<open>
  The record format is a codec: every encoder is inverted by its decoder, for every record within
  the configured bounds; and no decoder accepts a record that breaks the invariant of its type.
\<close>

section \<open>Fields\<close>

lemma list_all_True [simp]: "list_all (\<lambda>_. True) xs"
  by (simp add: list_all_iff)

interpretation maybe_codec: codec write_maybe read_maybe "\<lambda>_. True"
  by unfold_locales
    (auto simp: write_maybe_def read_maybe_def codec_simps write_id_def from_value_def absent_def not_present_iff)

interpretation time_codec: codec write_time read_time "\<lambda>_. True"
  by unfold_locales (simp add: write_time_def read_time_def codec_simps)

lemmas field_reads [codec_simps] = maybe_codec.read_write[OF TrueI] time_codec.read_write[OF TrueI]

definition text_within :: "Limits \<Rightarrow> string \<Rightarrow> bool" where
  "text_within limits s \<longleftrightarrow> length s \<le> unat (max_string_bytes limits)"

interpretation device_codec: codec encode_device "decode_device limits" "\<lambda>d. text_within limits (device_name d)" for limits
  by unfold_locales (simp add: encode_device_def decode_device_def codec_simps text_within_def)

interpretation port_codec: codec encode_port "decode_port limits" "\<lambda>p. text_within limits (port_name p)" for limits
  by unfold_locales (simp add: encode_port_def decode_port_def codec_simps text_within_def)

interpretation link_codec: codec encode_link decode_link "\<lambda>_. True"
  by unfold_locales (simp add: encode_link_def decode_link_def codec_simps)

interpretation expected_hop_codec: codec write_expected_hop decode_expected_hop "\<lambda>_. True"
  by unfold_locales (simp add: write_expected_hop_def decode_expected_hop_def codec_simps)

interpretation observed_hop_codec: codec write_observed_hop decode_observed_hop "\<lambda>_. True"
  by unfold_locales (simp add: write_observed_hop_def decode_observed_hop_def codec_simps write_time_def[symmetric])

interpretation group_codec: codec encode_group "decode_group limits"
  "\<lambda>g. text_within limits (group_label g) \<and> length (members g) \<le> unat (max_members_per_group limits)" for limits
  by unfold_locales
    (simp add: encode_group_def decode_group_def codec_simps text_within_def id_codec.read_list_write)

interpretation path_codec: codec encode_path "decode_path limits"
  "\<lambda>p. length (path_hops p) \<le> unat (max_hops_per_path limits) \<and> path_digest p = zero_digest" for limits
  by unfold_locales
    (simp add: encode_path_def decode_path_def codec_simps expected_hop_codec.read_list_write)

definition judgement_wf :: "WireJudgement \<Rightarrow> bool" where
  "judgement_wf j \<longleftrightarrow> length (digest_id_bytes (wj_id j)) = 16 \<and> length (wj_classes j) \<le> 64"

interpretation judgement_codec: codec write_wire_judgement decode_judgement judgement_wf
  by unfold_locales
    (simp add: write_wire_judgement_def decode_judgement_def judgement_wf_def codec_simps u8_codec.read_list_write)

interpretation difference_codec: codec write_wire_difference decode_difference "\<lambda>_. True"
  by unfold_locales (simp add: write_wire_difference_def decode_difference_def codec_simps)

section \<open>Sources\<close>

definition source_wf :: "Limits \<Rightarrow> SourceDescriptor \<Rightarrow> bool" where
  "source_wf limits v \<longleftrightarrow> SourceDescriptor_validate v = ok \<and> text_within limits (source_name v)"

lemma source_eta:
  "\<lparr>expected_state = expected_state c, observed_evidence = observed_evidence c,
    topology_capability = topology_capability c\<rparr> = c"
  "\<lparr>source_id = source_id v, source_name = source_name v, source_kind = source_kind v,
    source_surface = source_surface v, source_authority = source_authority v,
    source_capabilities = source_capabilities v, max_observation_age = max_observation_age v,
    clock_skew_tolerance = clock_skew_tolerance v\<rparr> = v"
  by simp_all

interpretation source_codec: codec encode_source "decode_source_descriptor limits" "source_wf limits" for limits
  by unfold_locales
    (simp add: encode_source_def decode_source_descriptor_def codec_simps source_wf_def text_within_def Let_def source_eta)

section \<open>Evidence\<close>

definition evidence_wf :: "hasher \<Rightarrow> Limits \<Rightarrow> ObservedPathEvidence \<Rightarrow> bool" where
  "evidence_wf H limits v \<longleftrightarrow>
     evidence_validate H limits v = ok \<and> ev_id v = compute_evidence_id H v \<and>
     length (digest_id_bytes (ev_id v)) = 16 \<and> length (digest_bytes (payload_digest v)) = 32"

lemma compute_evidence_id_ignores [simp]: "compute_evidence_id H (v\<lparr>ev_id := i\<rparr>) = compute_evidence_id H v"
  by (simp add: compute_evidence_id_def)

lemma validate_unsealed:
  assumes "evidence_validate H limits v = ok"
  shows "evidence_validate H limits (v\<lparr>ev_id := no_digest_id\<rparr>) = ok"
  using assms unfolding evidence_validate_def
  by (simp add: first_error_Inr no_digest_id_invalid del: first_error.simps)

lemma accept_sealed:
  assumes "evidence_wf H limits v"
  shows "accept_evidence H limits (ev_id v) (v\<lparr>ev_id := no_digest_id\<rparr>) = Inr v"
  using assms validate_unsealed[of H limits v] by (simp add: accept_evidence_def evidence_wf_def)

lemma accept_evidence_sound:
  assumes "accept_evidence H limits stored v = Inr w" and "ev_id v = no_digest_id"
  shows "evidence_validate H limits w = ok \<and> ev_id w = compute_evidence_id H w \<and> ev_id w = stored"
proof -
  have v: "evidence_validate H limits v = ok" "compute_evidence_id H v = stored" "w = v\<lparr>ev_id := stored\<rparr>"
    using assms(1) by (auto simp: accept_evidence_def try_bind_eq_Inr split: if_splits)
  then have "evidence_validate H limits w = ok"
    unfolding evidence_validate_def by (simp add: first_error_Inr del: first_error.simps)
  with v show ?thesis by simp
qed

interpretation evidence_codec: codec encode_evidence "decode_evidence H limits" "evidence_wf H limits" for H limits
proof unfold_locales
  fix v r
  assume wf: "evidence_wf H limits v"
  let ?hops = "read_list (max_hops_per_path limits) decode_observed_hop (write_list write_observed_hop (ev_hops v) @ r)"
  have "length (ev_hops v) \<le> unat (max_hops_per_path limits)" and short: "length (ev_note v) \<le> 4096"
    using wf evidence_validateD[of H limits v] by (simp_all add: evidence_wf_def)
  then have hops: "?hops = Inr (ev_hops v, r)" by (simp add: observed_hop_codec.read_list_write)
  have unsealed: "\<lparr>ev_id = no_digest_id, ev_source = ev_source v, ev_incarnation = ev_incarnation v,
      ev_sequence = ev_sequence v, ev_surface = ev_surface v, ev_authority = ev_authority v, ev_path = ev_path v,
      ev_group = ev_group v, ev_origin = ev_origin v, ev_destination = ev_destination v, ev_epoch = ev_epoch v,
      claimed_incarnation = claimed_incarnation v, ev_route_generation = ev_route_generation v,
      ev_topology_generation = ev_topology_generation v, ev_revision = ev_revision v, observed_at = observed_at v,
      received_at = received_at v, ev_hops = ev_hops v, source_truncated = source_truncated v,
      declared_completeness = declared_completeness v, payload_digest = payload_digest v, ev_note = ev_note v\<rparr>
    = v\<lparr>ev_id := no_digest_id\<rparr>"
    by simp
  have "length (digest_id_bytes (ev_id v)) = 16" "length (digest_bytes (payload_digest v)) = 32"
    using wf unfolding evidence_wf_def by blast+
  then show "decode_evidence H limits (encode_evidence v @ r) = Inr (v, r)"
    using short hops accept_sealed[OF wf]
    by (simp add: encode_evidence_def decode_evidence_def codec_simps unsealed)
qed

section \<open>Topologies\<close>

lemma topology_finalize_again:
  assumes "TopologyGeneration_finalize H limits g = Inr v"
  shows "TopologyGeneration_finalize H limits (v\<lparr>topo_digest := d\<rparr>) = Inr v"
  using assms
  by (auto simp: TopologyGeneration_finalize_def try_bind_eq_Inr Let_def sort_by_key_sorted first_error_Inr
      TopologyGeneration_canonical_digest_def TopologyGeneration_bytes_def simp del: first_error.simps)

definition topology_wf :: "hasher \<Rightarrow> Limits \<Rightarrow> TopologyGeneration \<Rightarrow> bool" where
  "topology_wf H limits v \<longleftrightarrow>
     TopologyGeneration_finalize H limits v = Inr v \<and>
     list_all (\<lambda>d. text_within limits (device_name d)) (devices v) \<and>
     list_all (\<lambda>p. text_within limits (port_name p)) (ports v) \<and>
     length (ports v) \<le> unat kMaxSequenceElements"

interpretation topology_codec: codec encode_topology "decode_topology_generation H limits" "topology_wf H limits" for H limits
proof unfold_locales
  fix v r
  assume wf: "topology_wf H limits v"
  have final: "TopologyGeneration_finalize H limits (v\<lparr>topo_digest := zero_digest\<rparr>) = Inr v"
    using wf topology_finalize_again unfolding topology_wf_def by blast
  have bounds: "length (devices v) \<le> unat (max_devices_per_topology limits)"
    "length (links v) \<le> unat (max_links_per_topology limits)"
    using final by (auto simp: TopologyGeneration_finalize_def try_bind_eq_Inr first_error_Inr not_less
        simp del: first_error.simps)
  have undigested: "\<lparr>topo_id = topo_id v, topo_epoch = topo_epoch v, topo_incarnation = topo_incarnation v,
      topo_revision = topo_revision v, topo_sequence = topo_sequence v, topo_source = topo_source v,
      topo_created = topo_created v, topo_received = topo_received v, devices = devices v, ports = ports v,
      links = links v, topo_digest = zero_digest\<rparr> = v\<lparr>topo_digest := zero_digest\<rparr>"
    by simp
  show "decode_topology_generation H limits (encode_topology v @ r) = Inr (v, r)"
    using wf bounds
    by (simp add: encode_topology_def decode_topology_generation_def codec_simps topology_wf_def
        device_codec.read_list_write port_codec.read_list_write link_codec.read_list_write undigested final)
qed

section \<open>Route generations\<close>

lemma normal_members_idem [simp]: "normal_members (normal_members ms) = normal_members ms"
  by (simp add: normal_members_def sorted_unique_set)

lemma length_normal_members: "length (normal_members ms) \<le> length ms"
  by (metis normal_members_def length_std_sort remdups_adj_length)

lemma repeats_map: "i < length xs \<Longrightarrow> (\<And>x. key (f x) = key x) \<Longrightarrow> repeats key (map f xs) i = repeats key xs i"
  by (auto simp: repeats_def)

lemma path_checks_digest:
  "i < length ps \<Longrightarrow>
     path_checks limits gen (map (\<lambda>p. p\<lparr>path_digest := d p\<rparr>) ps) i = path_checks limits gen ps i"
  by (simp add: path_checks_def Let_def repeats_map)

lemma member_checks_digest:
  "member_checks (map (\<lambda>p. p\<lparr>path_digest := d p\<rparr>) ps) g m = member_checks ps g m"
  by (simp add: member_checks_def find_by_key_map split: option.splits)

lemma ExpectedPath_digest_ignores [simp]:
  "ExpectedPath_canonical_digest H (p\<lparr>path_digest := d\<rparr>) = ExpectedPath_canonical_digest H p"
  by (simp add: ExpectedPath_canonical_digest_def ExpectedPath_bytes_def)

lemma group_checks_again:
  assumes "indexed_checks (group_checks limits ps gs) (length gs) = ok"
  shows "indexed_checks (group_checks limits (map (\<lambda>p. p\<lparr>path_digest := d p\<rparr>) ps)
           (map (\<lambda>g. g\<lparr>members := normal_members (members g)\<rparr>) gs)) (length gs) = ok"
proof -
  have "\<exists>v. s = Inr v" if "i < length gs" and
    "s \<in> set (group_checks limits (map (\<lambda>p. p\<lparr>path_digest := d p\<rparr>) ps)
           (map (\<lambda>g. g\<lparr>members := normal_members (members g)\<rparr>) gs) i)" for i s
  proof -
    have old: "\<forall>s\<in>set (group_checks limits ps gs i). \<exists>v. s = Inr v"
      using assms that(1) by (simp add: indexed_checks_Inr)
    then have "length (members (gs ! i)) \<le> unat (max_members_per_group limits)"
      by (auto simp: group_checks_def Let_def)
    then have "length (normal_members (members (gs ! i))) \<le> unat (max_members_per_group limits)"
      using length_normal_members le_trans by blast
    with old that show ?thesis
      by (auto simp: group_checks_def Let_def repeats_map member_checks_digest)
  qed
  then show ?thesis by (simp add: indexed_checks_Inr)
qed

lemma route_finalize_again:
  assumes "RouteGeneration_finalize H limits g = Inr v"
  shows "RouteGeneration_finalize H limits
    (v\<lparr>paths := map (\<lambda>p. p\<lparr>path_digest := d p\<rparr>) (paths v), route_digest := d'\<rparr>) = Inr v"
proof -
  let ?ps = "sort_by_key path_id (paths g)" and ?gs = "sort_by_key group_id (groups g)"
  let ?zero = "\<lambda>p. p\<lparr>path_digest := d (p\<lparr>path_digest := ExpectedPath_canonical_digest H p\<rparr>)\<rparr>"
  note shape = route_finalize_shape[OF assms]
  have paths: "map (\<lambda>p. p\<lparr>path_digest := d p\<rparr>) (paths v) = map ?zero ?ps" by (simp add: shape(1))
  have sorted: "sort_by_key path_id (map ?zero ?ps) = map ?zero ?ps"
    "sort_by_key group_id (map (\<lambda>g. g\<lparr>members := normal_members (members g)\<rparr>) ?gs) =
       map (\<lambda>g. g\<lparr>members := normal_members (members g)\<rparr>) ?gs"
    by (simp_all add: sort_by_key_sorted comp_def)
  have "indexed_checks (path_checks limits (route_id g) (map ?zero ?ps)) (length (paths g)) = ok"
    using shape(5) by (simp add: indexed_checks_Inr path_checks_digest)
  moreover have "indexed_checks (group_checks limits (map ?zero ?ps) (groups v)) (length (groups g)) = ok"
    using group_checks_again[of limits ?ps ?gs] shape(6) by (simp add: shape(2))
  ultimately show ?thesis using assms
    unfolding paths
    by (auto simp: RouteGeneration_finalize_def try_bind_eq_Inr Let_def sorted first_error_Inr shape(1,2,4)
        RouteGeneration_canonical_digest_def RouteGeneration_bytes_def comp_def simp del: first_error.simps)
qed

definition routes_wf :: "hasher \<Rightarrow> Limits \<Rightarrow> RouteGeneration \<Rightarrow> bool" where
  "routes_wf H limits v \<longleftrightarrow>
     RouteGeneration_finalize H limits v = Inr v \<and> list_all (\<lambda>g. text_within limits (group_label g)) (groups v)"

lemma final_route_bounds:
  assumes "RouteGeneration_finalize H limits v = Inr v"
  shows "length (groups v) \<le> unat (max_groups_per_generation limits)"
    and "length (paths v) \<le> unat (max_paths_per_generation limits)"
    and "list_all (\<lambda>g. length (members g) \<le> unat (max_members_per_group limits)) (groups v)"
    and "list_all (\<lambda>p. length (path_hops p) \<le> unat (max_hops_per_path limits)) (paths v)"
proof -
  note shape = route_finalize_shape[OF assms]
  show "length (groups v) \<le> unat (max_groups_per_generation limits)"
    and "length (paths v) \<le> unat (max_paths_per_generation limits)"
    using assms by (auto simp: RouteGeneration_finalize_def try_bind_eq_Inr first_error_Inr not_less
        simp del: first_error.simps)
  have "list_all (\<lambda>g. length (members g) \<le> unat (max_members_per_group limits)) (sort_by_key group_id (groups v))"
    using shape(6) by (auto simp: indexed_checks_Inr group_checks_def Let_def list_all_length)
  then show "list_all (\<lambda>g. length (members g) \<le> unat (max_members_per_group limits)) (groups v)"
    by (simp add: list_all_iff)
  have "list_all (\<lambda>p. length (path_hops p) \<le> unat (max_hops_per_path limits)) (sort_by_key path_id (paths v))"
    using shape(5) by (auto simp: indexed_checks_Inr path_checks_def Let_def list_all_length)
  then show "list_all (\<lambda>p. length (path_hops p) \<le> unat (max_hops_per_path limits)) (paths v)"
    by (simp add: list_all_iff)
qed

lemma encode_path_digest: "encode_path (p\<lparr>path_digest := d\<rparr>) = encode_path p"
  by (simp add: encode_path_def)

interpretation routes_codec: codec encode_routes "decode_route_generation H limits" "routes_wf H limits" for H limits
proof unfold_locales
  fix v r
  assume wf: "routes_wf H limits v"
  let ?blank = "map (\<lambda>p. p\<lparr>path_digest := zero_digest\<rparr>) (paths v)"
  note bounds = final_route_bounds[of H limits v]
  have fixed: "RouteGeneration_finalize H limits v = Inr v" using wf by (simp add: routes_wf_def)
  have final: "RouteGeneration_finalize H limits (v\<lparr>paths := ?blank, route_digest := zero_digest\<rparr>) = Inr v"
    by (rule route_finalize_again[OF fixed])
  have undigested: "\<lparr>route_id = route_id v, route_epoch = route_epoch v, route_incarnation = route_incarnation v,
      route_revision = route_revision v, route_sequence = route_sequence v, route_source = route_source v,
      route_topology = route_topology v, route_created = route_created v, route_received = route_received v,
      groups = groups v, paths = ?blank, route_digest = zero_digest\<rparr>
    = v\<lparr>paths := ?blank, route_digest := zero_digest\<rparr>"
    by simp
  have "write_list encode_path (paths v) = write_list encode_path ?blank"
    by (simp add: write_list_def comp_def encode_path_digest)
  moreover have "read_list (max_paths_per_generation limits) (decode_path limits) (write_list encode_path ?blank @ r) =
      Inr (?blank, r)"
    using bounds[OF fixed] by (intro path_codec.read_list_write) (auto simp: list_all_iff)
  moreover have "read_list (max_groups_per_generation limits) (decode_group limits) (write_list encode_group (groups v) @ s) =
      Inr (groups v, s)" for s
    using bounds[OF fixed] wf by (intro group_codec.read_list_write) (auto simp: list_all_iff routes_wf_def)
  ultimately show "decode_route_generation H limits (encode_routes v @ r) = Inr (v, r)"
    by (simp add: encode_routes_def decode_route_generation_def codec_simps undigested final)
qed

section \<open>Comparisons\<close>

definition wire_judgement :: "EvidenceJudgement \<Rightarrow> WireJudgement" where
  "wire_judgement j =
     \<lparr>wj_id = judged_id j, wj_accepted = judged_accepted j, wj_rejection = DivergenceClass_code (judged_rejection j),
      wj_freshness = Freshness_code (judged_freshness j), wj_surface = ProofSurface_code (judged_surface j),
      wj_authority = AuthorityClass_code (judged_authority j),
      wj_completeness = EvidenceCompleteness_code (judged_completeness j),
      wj_classes = map DivergenceClass_code (judged_classes j)\<rparr>"

definition wire_difference :: "HopDifference \<Rightarrow> WireDifference" where
  "wire_difference d =
     \<lparr>wd_index = diff_index d, wd_detail = DivergenceClass_code (diff_detail d),
      wd_has_expected = (diff_expected d \<noteq> None), wd_has_observed = (diff_observed d \<noteq> None)\<rparr>"

definition wire_comparison :: "ComparisonResult \<Rightarrow> WireComparison" where
  "wire_comparison r =
     \<lparr>wc_id = cmp_id r, wc_generation = cmp_generation r, wc_topology = cmp_topology r, wc_group = cmp_group r,
      wc_path = cmp_path r, wc_matched_path = matched_path r, wc_outcome = outcome r,
      wc_primary = DivergenceClass_code (primary r), wc_classes = map DivergenceClass_code (classes r),
      wc_freshness = Freshness_code (cmp_freshness r),
      wc_completeness = EvidenceCompleteness_code (completeness r),
      wc_consistency = ObservationConsistency_code (consistency r), wc_surface = ProofSurface_code (cmp_surface r),
      wc_multipath = cmp_multipath r, wc_ambiguous = multipath_ambiguous r,
      wc_considered = of_nat (evidence_considered r), wc_rejected = of_nat (evidence_rejected r),
      wc_judgements = map wire_judgement (judgements r), wc_differences = map wire_difference (differences r),
      wc_evaluated_at = evaluated_at r\<rparr>"

lemma wire_writers:
  "write_wire_judgement (wire_judgement j) = write_judgement j"
  "write_wire_difference (wire_difference d) = write_difference d"
  by (simp_all add: write_wire_judgement_def wire_judgement_def write_judgement_def write_wire_difference_def
      wire_difference_def write_difference_def write_list_def write_class_def[abs_def] comp_def)

lemma wire_comparison_bytes: "WireComparison_bytes (wire_comparison r) = ComparisonResult_bytes r"
  by (simp add: WireComparison_bytes_def wire_comparison_def ComparisonResult_bytes_def write_list_def
      write_class_def[abs_def] comp_def wire_writers write_time_def)

text \<open>What a stored comparison forgets: the hops of the differences and the counts of the submission.\<close>

definition forget_difference :: "HopDifference \<Rightarrow> HopDifference" where
  "forget_difference d =
     d\<lparr>diff_expected := map_option (\<lambda>_. default_expected_hop) (diff_expected d),
       diff_observed := map_option (\<lambda>_. default_observed_hop) (diff_observed d)\<rparr>"

definition stored_form :: "ComparisonResult \<Rightarrow> ComparisonResult" where
  "stored_form r =
     r\<lparr>evidence_offered := 0, duplicate_evidence := 0,
       evidence_considered := unat (of_nat (evidence_considered r) :: u32),
       evidence_rejected := unat (of_nat (evidence_rejected r) :: u32),
       differences := map forget_difference (differences r)\<rparr>"

lemma those_map_Some: "(\<And>x. x \<in> set xs \<Longrightarrow> f x = Some (g x)) \<Longrightarrow> those (map f xs) = Some (map g xs)"
  by (induction xs) simp_all

lemma named_wire:
  "named_judgement (wire_judgement j) = Some j"
  "named_difference (wire_difference d) = Some (forget_difference d)"
  "those (map (named DivergenceClass_values) (map DivergenceClass_code cs)) = Some cs"
  using those_map_Some[of cs "\<lambda>c. named DivergenceClass_values (DivergenceClass_code c)" "\<lambda>c. c"]
    those_map_Some[of "judged_classes j" "\<lambda>c. named DivergenceClass_values (DivergenceClass_code c)" "\<lambda>c. c"]
  by (simp_all add: named_judgement_def wire_judgement_def named_difference_def wire_difference_def
      forget_difference_def codec_simps comp_def map_option_case split: option.splits)

lemma named_wire_comparison: "named_comparison (wire_comparison r) = Some (stored_form r)"
  using those_map_Some[of "judgements r" "\<lambda>j. named_judgement (wire_judgement j)" "\<lambda>j. j"]
    those_map_Some[of "differences r" "\<lambda>d. named_difference (wire_difference d)" forget_difference]
    named_wire(3)[of "classes r"]
  by (simp add: named_comparison_def wire_comparison_def stored_form_def codec_simps named_wire comp_def)

definition comparison_wf :: "hasher \<Rightarrow> Limits \<Rightarrow> ComparisonResult \<Rightarrow> bool" where
  "comparison_wf H limits r \<longleftrightarrow>
     cmp_id r = from_digest (H (ComparisonResult_bytes r)) \<and> length (digest_id_bytes (cmp_id r)) = 16 \<and>
     length (classes r) \<le> 64 \<and> length (judgements r) \<le> unat (max_evidence_per_comparison limits) \<and>
     list_all (\<lambda>j. judgement_wf (wire_judgement j)) (judgements r) \<and>
     length (differences r) \<le> unat (max_hops_per_path limits)"

lemma decode_encode_comparison:
  assumes wf: "comparison_wf H limits v"
  shows "decode_comparison H limits (encode_comparison v @ r) = Inr (wire_comparison v, r)"
proof -
  let ?w = "wire_comparison v"
  have lists: "read_list 64 read_u8 (write_list write_u8 (wc_classes ?w) @ s) = Inr (wc_classes ?w, s)"
    "read_list (max_evidence_per_comparison limits) decode_judgement
       (write_list write_wire_judgement (wc_judgements ?w) @ s) = Inr (wc_judgements ?w, s)"
    "read_list (max_hops_per_path limits) decode_difference
       (write_list write_wire_difference (wc_differences ?w) @ s) = Inr (wc_differences ?w, s)" for s
    using wf by (simp_all add: comparison_wf_def wire_comparison_def u8_codec.read_list_write
        judgement_codec.read_list_write difference_codec.read_list_write list_all_iff)
  have accept: "accept_comparison H (wc_id ?w) (?w\<lparr>wc_id := no_digest_id\<rparr>) = Inr ?w"
    using wf wire_comparison_bytes[of v]
    by (simp add: accept_comparison_def comparison_wf_def WireComparison_bytes_def wire_comparison_def)
  have unsealed: "\<lparr>wc_id = no_digest_id, wc_generation = wc_generation ?w, wc_topology = wc_topology ?w,
      wc_group = wc_group ?w, wc_path = wc_path ?w, wc_matched_path = wc_matched_path ?w, wc_outcome = wc_outcome ?w,
      wc_primary = wc_primary ?w, wc_classes = wc_classes ?w, wc_freshness = wc_freshness ?w,
      wc_completeness = wc_completeness ?w, wc_consistency = wc_consistency ?w, wc_surface = wc_surface ?w,
      wc_multipath = wc_multipath ?w, wc_ambiguous = wc_ambiguous ?w, wc_considered = wc_considered ?w,
      wc_rejected = wc_rejected ?w, wc_judgements = wc_judgements ?w, wc_differences = wc_differences ?w,
      wc_evaluated_at = wc_evaluated_at ?w\<rparr> = ?w\<lparr>wc_id := no_digest_id\<rparr>"
    by simp
  have "encode_comparison v = write_text ''pathobs.record.comparison'' @ write_digest_id (wc_id ?w) @ WireComparison_bytes ?w"
    by (simp add: encode_comparison_def wire_comparison_bytes) (simp add: wire_comparison_def)
  moreover have "wc_id ?w = cmp_id v" by (simp add: wire_comparison_def)
  then have "length (digest_id_bytes (wc_id ?w)) = 16" using wf unfolding comparison_wf_def by metis
  ultimately show ?thesis
    using accept \<open>length (digest_id_bytes (wc_id ?w)) = 16\<close>
    by (simp add: WireComparison_bytes_def decode_comparison_def codec_simps lists unsealed)
qed

section \<open>Findings\<close>

definition finding_wf :: "hasher \<Rightarrow> Limits \<Rightarrow> Finding \<Rightarrow> bool" where
  "finding_wf H limits f \<longleftrightarrow>
     finding_id f = from_digest (identity_digest H f) \<and> length (digest_id_bytes (finding_id f)) = 16 \<and>
     length (finding_evidence f) \<le> unat (max_finding_evidence limits) \<and>
     list_all (\<lambda>i. length (digest_id_bytes i) = 16) (finding_evidence f) \<and>
     length (hop_indices f) \<le> unat (max_hops_per_path limits) \<and>
     length (digest_id_bytes (last_comparison f)) = 16 \<and> text_within limits (finding_detail f)"

lemma wire_finding: "wire_finding_bytes (DivergenceClass_code (cls f)) f = Finding_bytes f"
  by (simp add: wire_finding_bytes_def Finding_bytes_def write_class_def)

lemma decode_encode_finding:
  assumes wf: "finding_wf H limits f"
  shows "decode_finding H limits (encode_finding f @ r) =
    Inr ((DivergenceClass_code (cls f), f\<lparr>cls := Class_None\<rparr>), r)"
proof -
  have accept: "accept_finding H (finding_id f) (DivergenceClass_code (cls f)) (f\<lparr>finding_id := no_digest_id, cls := Class_None\<rparr>) =
      Inr (DivergenceClass_code (cls f), f\<lparr>cls := Class_None\<rparr>)"
    using wf wire_finding[of f]
    by (simp add: accept_finding_def finding_wf_def identity_digest_def wire_finding_bytes_def)
  have unsealed: "\<lparr>finding_id = no_digest_id, cls = Class_None, finding_group = finding_group f,
      finding_path = finding_path f, finding_generation = finding_generation f, finding_topology = finding_topology f,
      finding_evidence = finding_evidence f, hop_indices = hop_indices f, status = status f,
      occurrences = occurrences f, first_seen = first_seen f, last_seen = last_seen f,
      last_comparison = last_comparison f, finding_detail = finding_detail f\<rparr>
    = f\<lparr>finding_id := no_digest_id, cls := Class_None\<rparr>"
    by simp
  have lists: "read_list (max_finding_evidence limits) read_digest_id (write_list write_digest_id (finding_evidence f) @ s) =
      Inr (finding_evidence f, s)"
    "read_list (max_hops_per_path limits) read_u32 (write_list write_u32 (hop_indices f) @ s) = Inr (hop_indices f, s)" for s
    using wf by (simp_all add: finding_wf_def digest_id_codec.read_list_write u32_codec.read_list_write)
  have "length (digest_id_bytes (finding_id f)) = 16" "length (digest_id_bytes (last_comparison f)) = 16"
    "length (finding_detail f) \<le> unat (max_string_bytes limits)"
    using wf unfolding finding_wf_def text_within_def by blast+
  then show ?thesis
    using accept by (simp add: encode_finding_def decode_finding_def write_class_def codec_simps lists unsealed)
qed

section \<open>What the decoders accept\<close>

lemma read_then_Inr: "read_then rd f r = Inr y \<longleftrightarrow> (\<exists>x r'. rd r = Inr (x, r') \<and> f x r' = Inr y)"
  by (auto simp: read_then_def try_bind_eq_Inr)

lemma read_tag_Inr: "read_tag t msg rest r = Inr y \<longleftrightarrow> (\<exists>r'. read_text 64 r = Inr (t, r') \<and> rest r' = Inr y)"
  by (auto simp: read_tag_def read_then_Inr read_fail_def)

lemma read_lift_Inr: "read_lift res r = Inr y \<longleftrightarrow> (\<exists>x. res = Inr x \<and> y = (x, r))"
  by (auto simp: read_lift_def try_bind_eq_Inr)

lemmas decoder_elims = read_then_Inr read_tag_Inr read_lift_Inr

lemma decode_evidence_accepts:
  assumes "decode_evidence H limits bs = Inr (v, r)"
  shows "evidence_validate H limits v = ok \<and> ev_id v = compute_evidence_id H v"
proof -
  obtain stored w where "accept_evidence H limits stored w = Inr v" "ev_id w = no_digest_id"
    using assms by (auto simp: decode_evidence_def decoder_elims)
  then show ?thesis using accept_evidence_sound by blast
qed

lemma decode_topology_accepts:
  assumes "decode_topology_generation H limits bs = Inr (v, r)"
  shows "topology_inv v \<and> topo_digest v = TopologyGeneration_canonical_digest H v"
proof -
  obtain g where "TopologyGeneration_finalize H limits g = Inr v"
    using assms by (auto simp: decode_topology_generation_def decoder_elims)
  then show ?thesis using finalize_inv finalize_shape by blast
qed

lemma decode_routes_accepts:
  assumes "decode_route_generation H limits bs = Inr (v, r)"
  shows "route_inv v \<and> route_digest v = RouteGeneration_canonical_digest H v"
proof -
  obtain g where "RouteGeneration_finalize H limits g = Inr v"
    using assms by (auto simp: decode_route_generation_def decoder_elims)
  then show ?thesis by (intro conjI route_finalize_inv route_finalize_shape)
qed

lemma decode_source_accepts:
  "decode_source_descriptor limits bs = Inr (v, r) \<Longrightarrow> SourceDescriptor_validate v = ok"
  by (auto simp: decode_source_descriptor_def decoder_elims Let_def read_return_def)

lemma decode_comparison_accepts:
  assumes "decode_comparison H limits bs = Inr (v, r)"
  shows "wc_id v = from_digest (H (WireComparison_bytes v))"
proof -
  obtain stored w where "accept_comparison H stored w = Inr v"
    using assms by (auto simp: decode_comparison_def decoder_elims)
  then show ?thesis by (auto simp: accept_comparison_def WireComparison_bytes_def split: if_splits)
qed

lemma decode_finding_accepts:
  assumes "decode_finding H limits bs = Inr ((c, f), r)" and "named_finding (c, f) = Some g"
  shows "finding_id g = from_digest (identity_digest H g)"
proof -
  obtain stored c' w where "accept_finding H stored c' w = Inr (c, f)"
    using assms(1) by (auto simp: decode_finding_def decoder_elims)
  then have f: "finding_id f = from_digest (H (wire_finding_bytes c f))"
    by (auto simp: accept_finding_def wire_finding_bytes_def split: if_splits)
  obtain k where "named DivergenceClass_values c = Some k" and g: "g = f\<lparr>cls := k\<rparr>"
    using assms(2) by (auto simp: named_finding_def)
  then have "DivergenceClass_code (cls g) = c" by (simp add: divergence_class.code_named)
  then have "Finding_bytes g = wire_finding_bytes c f"
    unfolding wire_finding[symmetric] by (simp add: g wire_finding_bytes_def)
  with f g show ?thesis by (simp add: identity_digest_def)
qed

section \<open>Properties\<close>


text \<open>
  C12: no payload whatsoever makes a decoder return a record that breaks its invariant: a decoded
  source is valid, a decoded topology or route generation is finalised with its own digest, a
  decoded evidence record is valid and carries the identity its content produces, and so do a
  decoded comparison and a decoded finding of a named class.
\<close>

theorem decoders_accept_only_sound_records:
  "(decode_exact (decode_source_descriptor limits) bs = Inr d \<longrightarrow> SourceDescriptor_validate d = ok) \<and>
   (decode_exact (decode_topology_generation H limits) bs = Inr t \<longrightarrow>
      topology_inv t \<and> topo_digest t = TopologyGeneration_canonical_digest H t) \<and>
   (decode_exact (decode_route_generation H limits) bs = Inr g \<longrightarrow>
      route_inv g \<and> route_digest g = RouteGeneration_canonical_digest H g) \<and>
   (decode_exact (decode_evidence H limits) bs = Inr e \<longrightarrow>
      evidence_validate H limits e = ok \<and> ev_id e = compute_evidence_id H e) \<and>
   (decode_exact (decode_comparison H limits) bs = Inr c \<longrightarrow> wc_id c = from_digest (H (WireComparison_bytes c))) \<and>
   (decode_exact (decode_finding H limits) bs = Inr w \<longrightarrow> named_finding w = Some f \<longrightarrow>
      finding_id f = from_digest (identity_digest H f))"
proof (intro conjI impI)
  assume "decode_exact (decode_finding H limits) bs = Inr w" "named_finding w = Some f"
  then show "finding_id f = from_digest (identity_digest H f)"
    using decode_finding_accepts by (cases w) (auto simp: decode_exact_Inr)
qed (auto simp: decode_exact_Inr dest: decode_source_accepts decode_topology_accepts decode_routes_accepts
      decode_evidence_accepts decode_comparison_accepts)

text \<open>One concrete record of each kind, under a hash that is constant.\<close>

definition three_hash :: hasher where
  "three_hash = (\<lambda>_. Digest (replicate 32 3))"

definition final_topology :: TopologyGeneration where
  "final_topology = example_topology\<lparr>devices := [example_device 1, example_device 2],
     ports := [example_port 11 1, example_port 21 2], topo_digest := Digest (replicate 32 3)\<rparr>"

definition final_routes :: RouteGeneration where
  "final_routes = example_routes\<lparr>
     groups := [\<lparr>group_id = StrongId 1, group_origin = StrongId 1, group_destination = StrongId 2,
                 group_label = ''g'', members = [StrongId 1]\<rparr>],
     paths := [(example_path 1 [example_expected_hop 0 1 11 12])\<lparr>path_digest := Digest (replicate 32 3)\<rparr>],
     route_digest := Digest (replicate 32 3)\<rparr>"

definition final_evidence :: ObservedPathEvidence where
  "final_evidence = example_evidence\<lparr>ev_id := DigestId (replicate 16 3), payload_digest := Digest (replicate 32 0)\<rparr>"

definition final_comparison :: ComparisonResult where
  "final_comparison = (example_divergence 7)\<lparr>cmp_id := DigestId (replicate 16 3)\<rparr>"

definition final_finding :: Finding where
  "final_finding = candidate_finding three_hash default_limits final_comparison"

lemma final_records_wf:
  "source_wf default_limits example_source"
  "topology_wf three_hash default_limits final_topology"
  "routes_wf three_hash default_limits final_routes"
  "evidence_wf three_hash default_limits final_evidence"
  "comparison_wf three_hash default_limits final_comparison"
  "finding_wf three_hash default_limits final_finding"
proof -
  show "source_wf default_limits example_source"
    unfolding source_wf_def text_within_def
    by (intro conjI, rule example_source_valid) (simp_all add: example_source_def default_limits_def)
  show "topology_wf three_hash default_limits final_topology"
    by (simp add: topology_wf_def TopologyGeneration_finalize_def final_topology_def example_topology_def
        example_device_def example_port_def example_link_def default_limits_def guard_err_def std_sort_Cons
        indexed_checks_def Let_def device_checks_def port_checks_def link_checks_def repeats_def
        device_present_def port_belongs_def find_by_key_Cons upt_rec text_within_def kMaxSequenceElements_def
        TopologyGeneration_canonical_digest_def three_hash_def)
  show "routes_wf three_hash default_limits final_routes"
    by (simp add: routes_wf_def RouteGeneration_finalize_def final_routes_def example_routes_def example_path_def
        example_expected_hop_def default_limits_def guard_err_def std_sort_Cons indexed_checks_def Let_def
        path_checks_def group_checks_def member_checks_def normal_members_def repeats_def expected_hop_checks_def
        find_by_key_Cons upt_rec text_within_def three_hash_def RouteGeneration_canonical_digest_def
        ExpectedPath_canonical_digest_def)
  show "evidence_wf three_hash default_limits final_evidence"
    by (simp add: evidence_wf_def evidence_validate_def final_evidence_def example_evidence_def guard_err_def
        compute_evidence_id_def from_digest_def default_limits_def is_set_def from_unix_nanos_def smin_def
        indexed_checks_def hop_checks_def example_hop_def Let_def absent_def no_id_def upt_rec three_hash_def)
  show "comparison_wf three_hash default_limits final_comparison"
    by (simp add: comparison_wf_def final_comparison_def example_divergence_def new_result_def three_hash_def
        from_digest_def)
  show "finding_wf three_hash default_limits final_finding"
    by (simp add: finding_wf_def final_finding_def final_comparison_def candidate_finding_def Finding_seal_def
        example_divergence_def new_result_def three_hash_def from_digest_def identity_digest_def
        default_limits_def text_within_def example_context_def example_request_def to_code_def describe_def kDescriptors_def)
qed


theorem decoders_accept_only_sound_records_witness:
  "\<exists>e. decode_exact (decode_evidence three_hash default_limits) (encode_evidence final_evidence) = Inr e \<and>
       ev_id e = compute_evidence_id three_hash e"
proof -
  have "decode_exact (decode_evidence three_hash default_limits) (encode_evidence final_evidence) = Inr final_evidence"
    using final_records_wf(4) by (simp add: decode_exact_Inr evidence_codec.read_write_end)
  then show ?thesis using decoders_accept_only_sound_records by blast
qed

end
