(* ===== verification/Persistence.thy ===== *)
theory Persistence
  imports Canonical Digests Limits TimeModel
begin

text \<open>
  The persistent store (\<open>include/pathobs/persistence.hpp\<close>, \<open>src/persistence.cpp\<close>): a file of two
  alternating 64-byte header slots followed by framed records, each protected by two CRC-32C
  checksums. The file is its sequence of bytes; a store object holds the file behind its handle, or
  nothing when it is closed. Calls into the C library that move bytes (\<open>fseek\<close>, \<open>fread\<close>, \<open>fwrite\<close>,
  \<open>fflush\<close>, \<open>ftruncate\<close>, \<open>rename\<close>) succeed in the model, so the \<open>IoFailure\<close> branches after them are
  not reached; what a crash leaves behind is modelled by the theorems, as a file whose last write
  is cut at an arbitrary byte.
\<close>

section \<open>Layout\<close>

definition kStoreHeaderSlotBytes :: nat where
  "kStoreHeaderSlotBytes = 64"

definition kStoreHeaderBytes :: nat where
  "kStoreHeaderBytes = kStoreHeaderSlotBytes * 2"

definition kStoreRecordHeaderBytes :: nat where
  "kStoreRecordHeaderBytes = 32"

definition kMagic :: "byte list" where
  "kMagic = [0x50, 0x41, 0x54, 0x48, 0x4f, 0x42, 0x53, 0x01]"

definition kEndianMarker :: u32 where
  "kEndianMarker = 0x01020304"

definition kFlagCleanShutdown :: u32 where
  "kFlagCleanShutdown = 1"

definition PATHOBS_STORE_FORMAT_VERSION :: u32 where
  "PATHOBS_STORE_FORMAT_VERSION = 1"

datatype RecordType =
    Rec_Source | Rec_TopologyGeneration | Rec_RouteGeneration | Rec_Evidence | Rec_Comparison | Rec_Finding | Rec_Marker

fun RecordType_code :: "RecordType \<Rightarrow> u16" where
  "RecordType_code Rec_Source = 1"
| "RecordType_code Rec_TopologyGeneration = 2"
| "RecordType_code Rec_RouteGeneration = 3"
| "RecordType_code Rec_Evidence = 4"
| "RecordType_code Rec_Comparison = 5"
| "RecordType_code Rec_Finding = 6"
| "RecordType_code Rec_Marker = 7"

fun RecordType_to_string :: "RecordType \<Rightarrow> string" where
  "RecordType_to_string Rec_Source = ''source''"
| "RecordType_to_string Rec_TopologyGeneration = ''topology_generation''"
| "RecordType_to_string Rec_RouteGeneration = ''route_generation''"
| "RecordType_to_string Rec_Evidence = ''evidence''"
| "RecordType_to_string Rec_Comparison = ''comparison''"
| "RecordType_to_string Rec_Finding = ''finding''"
| "RecordType_to_string Rec_Marker = ''marker''"

definition parse_record_type :: "u16 \<Rightarrow> RecordType Result" where
  "parse_record_type raw =
     (if raw = 1 then Inr Rec_Source
      else if raw = 2 then Inr Rec_TopologyGeneration
      else if raw = 3 then Inr Rec_RouteGeneration
      else if raw = 4 then Inr Rec_Evidence
      else if raw = 5 then Inr Rec_Comparison
      else if raw = 6 then Inr Rec_Finding
      else if raw = 7 then Inr Rec_Marker
      else Inl (Error InvalidFormat ''unknown record type''))"

record StoredRecord =
  rec_type :: RecordType
  rec_sequence :: u64
  rec_payload :: "byte list"

text \<open>The free text \<open>truncate_detail\<close> keeps its two static values.\<close>

record RecoveryReport =
  store_created :: bool
  used_secondary_header_slot :: bool
  unclean_previous_shutdown :: bool
  corrupt_tail_truncated :: bool
  truncate_offset :: nat
  truncate_detail :: string
  valid_records :: nat
  report_bytes :: nat
  restart_count :: u32
  header_generation :: u64
  store_incarnation :: StoreIncarnationId
  created_at :: TimePoint
  opened_at :: TimePoint

definition new_report :: RecoveryReport where
  "new_report = \<lparr>store_created = False, used_secondary_header_slot = False, unclean_previous_shutdown = False,
     corrupt_tail_truncated = False, truncate_offset = 0, truncate_detail = [], valid_records = 0,
     report_bytes = 0, restart_count = 0, header_generation = 0, store_incarnation = StrongId 0,
     created_at = unset, opened_at = unset\<rparr>"

record StoreOptions =
  store_limits :: Limits
  read_only :: bool

record HeaderSlot =
  format_version :: u32
  slot_flags :: u32
  created_unix_nanos :: i64
  opened_unix_nanos :: i64
  slot_restarts :: u32
  slot_generation :: u64
  slot_valid :: bool

record PersistentStore =
  st_options :: StoreOptions
  st_handle :: "byte list option"
  st_recovery :: RecoveryReport
  st_record_count :: nat
  st_size_bytes :: nat
  st_next_sequence :: u64
  st_active_slot :: nat

section \<open>Bytes of the file\<close>

text \<open>\<open>put_u32\<close> and \<open>put_u64\<close> are the little endian writers; \<open>get_u32\<close> and \<open>get_u64\<close> read at an offset.\<close>

definition put_u32 :: "u32 \<Rightarrow> byte list" where
  "put_u32 value = le_bytes 4 value"

definition put_u64 :: "u64 \<Rightarrow> byte list" where
  "put_u64 value = le_bytes 8 value"

definition put_i64 :: "i64 \<Rightarrow> byte list" where
  "put_i64 value = put_u64 value"

definition get_u16 :: "byte list \<Rightarrow> nat \<Rightarrow> u16" where
  "get_u16 bs at = le_value (take 2 (drop at bs))"

definition get_u32 :: "byte list \<Rightarrow> nat \<Rightarrow> u32" where
  "get_u32 bs at = le_value (take 4 (drop at bs))"

definition get_u64 :: "byte list \<Rightarrow> nat \<Rightarrow> u64" where
  "get_u64 bs at = le_value (take 8 (drop at bs))"

definition get_i64 :: "byte list \<Rightarrow> nat \<Rightarrow> i64" where
  "get_i64 bs at = get_u64 bs at"

text \<open>Writing at an offset of a binary file overwrites in place and fills a gap with zeros.\<close>

definition write_at :: "nat \<Rightarrow> byte list \<Rightarrow> byte list \<Rightarrow> byte list" where
  "write_at at bs file =
     take at file @ replicate (at - length file) 0 @ bs @ drop (at + length bs) file"

definition slot_prefix :: "u64 \<Rightarrow> u32 \<Rightarrow> bool \<Rightarrow> TimePoint \<Rightarrow> TimePoint \<Rightarrow> byte list" where
  "slot_prefix generation restarts clean created opened =
     kMagic @ put_u32 PATHOBS_STORE_FORMAT_VERSION @ put_u32 (of_nat kStoreHeaderSlotBytes) @
     put_u32 kEndianMarker @ put_u32 (if clean then kFlagCleanShutdown else 0) @
     put_i64 (unix_nanos created) @ put_i64 (unix_nanos opened) @ put_u32 restarts @ put_u32 0 @
     put_u64 generation"

definition slot_bytes :: "u64 \<Rightarrow> u32 \<Rightarrow> bool \<Rightarrow> TimePoint \<Rightarrow> TimePoint \<Rightarrow> byte list" where
  "slot_bytes generation restarts clean created opened =
     (let p = slot_prefix generation restarts clean created opened
      in p @ put_u32 (crc32c p) @ put_u32 0)"

definition write_slot ::
  "nat \<Rightarrow> u64 \<Rightarrow> u32 \<Rightarrow> bool \<Rightarrow> TimePoint \<Rightarrow> TimePoint \<Rightarrow> byte list \<Rightarrow> byte list" where
  "write_slot slot_index generation restarts clean created opened file =
     write_at (slot_index * kStoreHeaderSlotBytes) (slot_bytes generation restarts clean created opened) file"

definition invalid_slot :: HeaderSlot where
  "invalid_slot = \<lparr>format_version = 0, slot_flags = 0, created_unix_nanos = 0, opened_unix_nanos = 0,
     slot_restarts = 0, slot_generation = 0, slot_valid = False\<rparr>"

definition read_header_slot :: "byte list \<Rightarrow> nat \<Rightarrow> HeaderSlot" where
  "read_header_slot file slot_index =
     (let slot = take kStoreHeaderSlotBytes (drop (slot_index * kStoreHeaderSlotBytes) file)
      in if length slot \<noteq> kStoreHeaderSlotBytes then invalid_slot
         else if take 8 slot \<noteq> kMagic then invalid_slot
         else if get_u32 slot 12 \<noteq> of_nat kStoreHeaderSlotBytes then invalid_slot
         else if get_u32 slot 16 \<noteq> kEndianMarker then invalid_slot
         else if get_u32 slot 56 \<noteq> crc32c (take 56 slot) then invalid_slot
         else \<lparr>format_version = get_u32 slot 8, slot_flags = get_u32 slot 20,
                created_unix_nanos = get_i64 slot 24, opened_unix_nanos = get_i64 slot 32,
                slot_restarts = get_u32 slot 40, slot_generation = get_u64 slot 48, slot_valid = True\<rparr>)"

section \<open>Record frames\<close>

definition record_header_prefix :: "nat \<Rightarrow> RecordType \<Rightarrow> u64 \<Rightarrow> u32 \<Rightarrow> byte list" where
  "record_header_prefix payload_bytes type sequence payload_checksum =
     put_u32 (of_nat payload_bytes) @ le_bytes 2 (RecordType_code type) @ [0, 0] @ put_u64 sequence @
     put_u32 payload_checksum"

definition write_record_header :: "nat \<Rightarrow> RecordType \<Rightarrow> u64 \<Rightarrow> u32 \<Rightarrow> byte list" where
  "write_record_header payload_bytes type sequence payload_checksum =
     (let p = record_header_prefix payload_bytes type sequence payload_checksum
      in p @ put_u32 (crc32c p) @ put_u64 0)"

definition frame :: "StoredRecord \<Rightarrow> byte list" where
  "frame r =
     write_record_header (length (rec_payload r)) (rec_type r) (rec_sequence r) (crc32c (rec_payload r)) @
     rec_payload r"

text \<open>The integrity test of the scan on a header and the bytes after it.\<close>

definition record_valid :: "Limits \<Rightarrow> byte list \<Rightarrow> byte list \<Rightarrow> bool" where
  "record_valid limits header body =
     (let payload_bytes = unat (get_u32 header 0)
      in get_u32 header 20 = crc32c (take 20 header) \<and>
         payload_bytes \<le> unat (max_store_record_bytes limits) \<and>
         has_value (parse_record_type (get_u16 header 4)) \<and>
         payload_bytes \<le> length body \<and>
         crc32c (take payload_bytes body) = get_u32 header 16)"

definition truncated :: "nat \<Rightarrow> string \<Rightarrow> RecoveryReport \<Rightarrow> RecoveryReport" where
  "truncated offset detail report =
     report\<lparr>corrupt_tail_truncated := True, truncate_offset := offset, truncate_detail := detail\<rparr>"

function scan_loop ::
  "Limits \<Rightarrow> bool \<Rightarrow> RecoveryReport \<Rightarrow> nat \<Rightarrow> nat \<Rightarrow> byte list \<Rightarrow> (nat \<times> RecoveryReport) Result" where
  "scan_loop limits truncate_corrupt_tail report valid offset rest =
     (if rest = [] then Inr (valid, report)
      else if length rest < kStoreRecordHeaderBytes
      then (if \<not> truncate_corrupt_tail
            then Inl (Error TruncatedInput ''store ends inside a record header'')
            else Inr (valid, truncated offset ''store ends inside a record header'' report))
      else let header = take kStoreRecordHeaderBytes rest; body = drop kStoreRecordHeaderBytes rest;
               payload_bytes = unat (get_u32 header 0)
           in if \<not> record_valid limits header body
              then (if \<not> truncate_corrupt_tail
                    then Inl (Error CorruptStore ''store contains an invalid record'')
                    else Inr (valid, truncated offset ''record failed its integrity check'' report))
              else if valid + 1 > unat (max_store_records limits)
              then Inl (Error CapacityExceeded ''store holds more records than the configured bound'')
              else scan_loop limits truncate_corrupt_tail report (valid + 1)
                     (offset + kStoreRecordHeaderBytes + payload_bytes) (drop payload_bytes body))"
  by pat_completeness auto
termination
  by (relation "measure (\<lambda>(_, _, _, _, _, rest). length rest)") (auto simp: kStoreRecordHeaderBytes_def)

declare scan_loop.simps [simp del]

text \<open>The scan and the truncation of the file behind the handle.\<close>

definition scan ::
  "Limits \<Rightarrow> bool \<Rightarrow> RecoveryReport \<Rightarrow> byte list \<Rightarrow> (nat \<times> RecoveryReport) Result \<times> byte list" where
  "scan limits truncate_corrupt_tail report file =
     (case scan_loop limits truncate_corrupt_tail report 0 kStoreHeaderBytes (drop kStoreHeaderBytes file) of
        Inl e \<Rightarrow> (Inl e, file)
      | Inr (valid, report') \<Rightarrow>
          (Inr (valid, report'),
           if corrupt_tail_truncated report' \<and> truncate_corrupt_tail
           then take (truncate_offset report') file else file))"

section \<open>Opening\<close>

text \<open>The slot an existing file is opened from: its index and whether only the second is valid.\<close>

definition choose_slot :: "HeaderSlot \<Rightarrow> HeaderSlot \<Rightarrow> (HeaderSlot \<times> nat \<times> bool) option" where
  "choose_slot primary secondary =
     (if slot_valid primary \<and> slot_valid secondary
      then (if slot_generation secondary \<ge> slot_generation primary
            then Some (secondary, 1, False) else Some (primary, 0, False))
      else if slot_valid primary then Some (primary, 0, False)
      else if slot_valid secondary then Some (secondary, 1, True)
      else None)"

definition is_clean :: "HeaderSlot \<Rightarrow> bool" where
  "is_clean s \<longleftrightarrow> and (slot_flags s) kFlagCleanShutdown \<noteq> 0"

text \<open>
  The header part of \<open>open\<close>: the active slot, the report so far and the file. A file that is too
  short for the headers is written afresh.
\<close>

definition open_header ::
  "StoreOptions \<Rightarrow> TimePoint \<Rightarrow> byte list \<Rightarrow> (nat \<times> RecoveryReport \<times> byte list) Result" where
  "open_header options now file =
     (let report = new_report\<lparr>opened_at := now\<rparr>
      in if length file < kStoreHeaderBytes
         then if read_only options
              then Inl (Error CorruptStore ''store is too short to contain a header'')
              else Inr (0,
                report\<lparr>store_created := True, created_at := now, header_generation := 1, restart_count := 0\<rparr>,
                write_slot 0 1 0 False now now (write_at 0 (replicate kStoreHeaderBytes 0) file))
         else case choose_slot (read_header_slot file 0) (read_header_slot file 1) of
             None \<Rightarrow> Inl (Error CorruptStore
               ''neither header slot is valid; refusing to guess at the store contents'')
           | Some (chosen, chosen_slot, only_secondary) \<Rightarrow>
               if format_version chosen \<noteq> PATHOBS_STORE_FORMAT_VERSION
               then Inl (Error UnsupportedVersion ''store format version is not supported'')
               else let since = TimePoint (created_unix_nanos chosen);
                        report = report\<lparr>used_secondary_header_slot := only_secondary, created_at := since,
                          restart_count := slot_restarts chosen, header_generation := slot_generation chosen,
                          unclean_previous_shutdown := \<not> is_clean chosen\<rparr>
                    in if read_only options then Inr (chosen_slot, report, file)
                       else let active = (if chosen_slot = 0 then 1 else 0)
                            in Inr (active,
                                 report\<lparr>header_generation := slot_generation chosen + 1,
                                        restart_count := slot_restarts chosen + 1\<rparr>,
                                 write_slot active (slot_generation chosen + 1) (slot_restarts chosen + 1)
                                   False since now file))"

definition with_incarnation :: "RecoveryReport \<Rightarrow> RecoveryReport" where
  "with_incarnation report =
     report\<lparr>store_incarnation := StrongId (if header_generation report = 0 then 1 else header_generation report)\<rparr>"

text \<open>
  The contents of the path on disk, if there is a file, become the result and the contents
  afterwards: the header of an existing file is rewritten before its records are scanned.
\<close>

definition store_open ::
  "StoreOptions \<Rightarrow> TimePoint \<Rightarrow> byte list option \<Rightarrow> PersistentStore Result \<times> byte list option" where
  "store_open options now disk =
     (case validate_limits (store_limits options) of
        Inl e \<Rightarrow> (Inl e, disk)
      | Inr _ \<Rightarrow>
         if \<not> is_set now then (Inl (Error InvalidArgument ''opening a store requires an evaluation time''), disk)
         else if disk = None \<and> read_only options then (Inl (Error IoFailure ''fopen failed''), disk)
         else let file = (case disk of None \<Rightarrow> [] | Some f \<Rightarrow> f)
              in case open_header options now file of
                   Inl e \<Rightarrow> (Inl e, Some file)
                 | Inr (active, report, file) \<Rightarrow>
                     (case scan (store_limits options) (\<not> read_only options) (with_incarnation report) file of
                        (Inl e, file) \<Rightarrow> (Inl e, Some file)
                      | (Inr (valid, report), file) \<Rightarrow>
                          (Inr \<lparr>st_options = options, st_handle = Some file,
                                st_recovery = report\<lparr>valid_records := valid, report_bytes := length file\<rparr>,
                                st_record_count = valid, st_size_bytes = length file,
                                st_next_sequence = of_nat valid + 1, st_active_slot = active\<rparr>,
                           Some file)))"

section \<open>Operations of an open store\<close>

definition append_checks :: "PersistentStore \<Rightarrow> byte list \<Rightarrow> Status" where
  "append_checks s payload =
     (let limits = store_limits (st_options s); record_bytes = kStoreRecordHeaderBytes + length payload
      in first_error
       [guard_err (st_handle s = None) InvalidState ''append on a closed store'',
        guard_err (read_only (st_options s)) ReadOnlyStore ''append on a read only store'',
        guard_err (length payload > unat (max_store_record_bytes limits)) CapacityExceeded
          ''record exceeds the configured record bound'',
        guard_err (st_record_count s + 1 > unat (max_store_records limits)) CapacityExceeded
          ''store has reached its configured record bound'',
        guard_err (st_size_bytes s > unat (max_store_bytes limits) \<or>
            record_bytes > unat (max_store_bytes limits) - st_size_bytes s) CapacityExceeded
          ''store has reached its configured byte bound''])"

definition store_append :: "RecordType \<Rightarrow> byte list \<Rightarrow> PersistentStore \<Rightarrow> Status \<times> PersistentStore" where
  "store_append type payload s =
     (case append_checks s payload of
        Inl e \<Rightarrow> (Inl e, s)
      | Inr _ \<Rightarrow>
          (ok, s\<lparr>st_handle := map_option (\<lambda>file.
                   file @ frame \<lparr>rec_type = type, rec_sequence = st_next_sequence s, rec_payload = payload\<rparr>)
                   (st_handle s),
                 st_record_count := st_record_count s + 1,
                 st_size_bytes := st_size_bytes s + (kStoreRecordHeaderBytes + length payload),
                 st_next_sequence := st_next_sequence s + 1\<rparr>))"

function read_loop :: "Limits \<Rightarrow> StoredRecord list \<Rightarrow> byte list \<Rightarrow> StoredRecord list Result" where
  "read_loop limits records rest =
     (if rest = [] then Inr records
      else if length rest < kStoreRecordHeaderBytes
      then Inl (Error TruncatedInput ''store ends inside a record header'')
      else let header = take kStoreRecordHeaderBytes rest; body = drop kStoreRecordHeaderBytes rest;
               payload_bytes = unat (get_u32 header 0)
           in if get_u32 header 20 \<noteq> crc32c (take 20 header)
              then Inl (Error CorruptStore ''record header failed its integrity check'')
              else if payload_bytes > unat (max_store_record_bytes limits)
              then Inl (Error CapacityExceeded ''record exceeds the configured record bound'')
              else try_bind (parse_record_type (get_u16 header 4)) (\<lambda>type.
                if payload_bytes > length body
                then Inl (Error TruncatedInput ''store ends inside a record payload'')
                else if crc32c (take payload_bytes body) \<noteq> get_u32 header 16
                then Inl (Error CorruptStore ''record payload failed its integrity check'')
                else let records = records @ [\<lparr>rec_type = type, rec_sequence = get_u64 header 8,
                                               rec_payload = take payload_bytes body\<rparr>]
                     in if length records > unat (max_store_records limits)
                        then Inl (Error CapacityExceeded ''store holds more records than the bound'')
                        else read_loop limits records (drop payload_bytes body)))"
  by pat_completeness auto
termination
  by (relation "measure (\<lambda>(_, _, rest). length rest)") (auto simp: kStoreRecordHeaderBytes_def)

declare read_loop.simps [simp del]

definition read_all :: "PersistentStore \<Rightarrow> StoredRecord list Result" where
  "read_all s =
     (case st_handle s of
        None \<Rightarrow> Inl (Error InvalidState ''read_all on a closed store'')
      | Some file \<Rightarrow> read_loop (store_limits (st_options s)) [] (drop kStoreHeaderBytes file))"

text \<open>The records a compaction keeps, numbered from one.\<close>

definition renumber :: "StoredRecord list \<Rightarrow> StoredRecord list" where
  "renumber rs = map (\<lambda>(i, r). r\<lparr>rec_sequence := of_nat i + 1\<rparr>) (enumerate 0 rs)"

definition compacted_file :: "RecoveryReport \<Rightarrow> StoredRecord list \<Rightarrow> byte list" where
  "compacted_file report rs =
     write_slot 0 (header_generation report + 1) (restart_count report) False (created_at report) (opened_at report)
       (replicate kStoreHeaderBytes 0 @ concat (map frame (renumber rs)))"

text \<open>When the reopening fails the object stays closed.\<close>

definition compact :: "nat \<Rightarrow> PersistentStore \<Rightarrow> nat Result \<times> PersistentStore" where
  "compact keep_newest s =
     (if read_only (st_options s) then (Inl (Error ReadOnlyStore ''compaction of a read only store''), s)
      else case read_all s of
          Inl e \<Rightarrow> (Inl e, s)
        | Inr records \<Rightarrow>
            let keep = (if keep_newest = 0 then 0 else min keep_newest (length records));
                first = length records - keep;
                file = compacted_file (st_recovery s) (drop first records)
            in case fst (store_open (st_options s) (opened_at (st_recovery s)) (Some file)) of
                 Inl e \<Rightarrow> (Inl e, s\<lparr>st_handle := None\<rparr>)
               | Inr reopened \<Rightarrow> (Inr keep, reopened))"

definition mark_clean :: "TimePoint \<Rightarrow> PersistentStore \<Rightarrow> Status \<times> PersistentStore" where
  "mark_clean now s =
     (if read_only (st_options s) then (ok, s)
      else case st_handle s of
          None \<Rightarrow> (Inl (Error InvalidState ''mark_clean on a closed store''), s)
        | Some file \<Rightarrow>
            let active = (if st_active_slot s = 0 then 1 else 0);
                report = st_recovery s; generation = header_generation report + 1
            in (ok, s\<lparr>st_active_slot := active,
                       st_handle := Some (write_slot active generation (restart_count report) True
                                            (created_at report) now file),
                       st_recovery := report\<lparr>header_generation := generation,
                                             store_incarnation := StrongId generation\<rparr>\<rparr>))"

definition store_close :: "PersistentStore \<Rightarrow> PersistentStore" where
  "store_close s = s\<lparr>st_handle := None\<rparr>"

definition store_is_open :: "PersistentStore \<Rightarrow> bool" where
  "store_is_open s \<longleftrightarrow> st_handle s \<noteq> None"

end
