(* ===== verification/Metrics.thy ===== *)
theory Metrics
  imports Divergence
begin

text \<open>
  The operational counters (\<open>include/pathobs/metrics.hpp\<close>, \<open>src/metrics.cpp\<close>). Every counter is an
  atomic 64-bit integer that is only added to, so a counter is a word and an addition wraps; the
  relaxed atomic additions of different threads commute, and an interleaving of them is a sequence
  of the functions below. The fields carry the prefix \<open>m_\<close>. The snapshot has the same fields as the counters.
\<close>

record Metrics =
  m_evidence_offered :: u64
  m_evidence_accepted :: u64
  m_evidence_rejected :: u64
  m_evidence_unregistered_source :: u64
  m_evidence_replayed :: u64
  m_evidence_gap_events :: u64
  m_comparisons :: u64
  m_matches :: u64
  m_divergences :: u64
  m_indeterminate :: u64
  m_unsupported :: u64
  m_no_expected_state :: u64
  m_findings_recorded :: u64
  m_findings_resolved :: u64
  m_findings_evicted :: u64
  m_queue_submitted :: u64
  m_queue_rejected :: u64
  m_tasks_completed :: u64
  m_tasks_cancelled :: u64
  m_store_appends :: u64
  m_store_records_recovered :: u64
  m_store_corrupt_tail_truncations :: u64
  m_transport_frames_in :: u64
  m_transport_frames_out :: u64
  m_transport_bytes_in :: u64
  m_transport_bytes_out :: u64
  m_transport_protocol_violations :: u64

type_synonym MetricsSnapshot = Metrics

definition new_metrics :: Metrics where
  "new_metrics = \<lparr>
     m_evidence_offered = 0,
     m_evidence_accepted = 0,
     m_evidence_rejected = 0,
     m_evidence_unregistered_source = 0,
     m_evidence_replayed = 0,
     m_evidence_gap_events = 0,
     m_comparisons = 0,
     m_matches = 0,
     m_divergences = 0,
     m_indeterminate = 0,
     m_unsupported = 0,
     m_no_expected_state = 0,
     m_findings_recorded = 0,
     m_findings_resolved = 0,
     m_findings_evicted = 0,
     m_queue_submitted = 0,
     m_queue_rejected = 0,
     m_tasks_completed = 0,
     m_tasks_cancelled = 0,
     m_store_appends = 0,
     m_store_records_recovered = 0,
     m_store_corrupt_tail_truncations = 0,
     m_transport_frames_in = 0,
     m_transport_frames_out = 0,
     m_transport_bytes_in = 0,
     m_transport_bytes_out = 0,
     m_transport_protocol_violations = 0\<rparr>"

definition add_evidence_offered :: "u64 \<Rightarrow> Metrics \<Rightarrow> Metrics" where
  "add_evidence_offered v m = m\<lparr>m_evidence_offered := m_evidence_offered m + v\<rparr>"

definition add_evidence_accepted :: "u64 \<Rightarrow> Metrics \<Rightarrow> Metrics" where
  "add_evidence_accepted v m = m\<lparr>m_evidence_accepted := m_evidence_accepted m + v\<rparr>"

definition add_evidence_rejected :: "u64 \<Rightarrow> Metrics \<Rightarrow> Metrics" where
  "add_evidence_rejected v m = m\<lparr>m_evidence_rejected := m_evidence_rejected m + v\<rparr>"

definition add_evidence_unregistered_source :: "u64 \<Rightarrow> Metrics \<Rightarrow> Metrics" where
  "add_evidence_unregistered_source v m = m\<lparr>m_evidence_unregistered_source := m_evidence_unregistered_source m + v\<rparr>"

definition add_evidence_replayed :: "u64 \<Rightarrow> Metrics \<Rightarrow> Metrics" where
  "add_evidence_replayed v m = m\<lparr>m_evidence_replayed := m_evidence_replayed m + v\<rparr>"

definition add_evidence_gap_events :: "u64 \<Rightarrow> Metrics \<Rightarrow> Metrics" where
  "add_evidence_gap_events v m = m\<lparr>m_evidence_gap_events := m_evidence_gap_events m + v\<rparr>"

fun add_comparison :: "MatchOutcome \<Rightarrow> Metrics \<Rightarrow> Metrics" where
  "add_comparison Match m = m\<lparr>m_comparisons := m_comparisons m + 1, m_matches := m_matches m + 1\<rparr>"
| "add_comparison Divergent m = m\<lparr>m_comparisons := m_comparisons m + 1, m_divergences := m_divergences m + 1\<rparr>"
| "add_comparison Indeterminate m = m\<lparr>m_comparisons := m_comparisons m + 1, m_indeterminate := m_indeterminate m + 1\<rparr>"
| "add_comparison Outcome_Unsupported m = m\<lparr>m_comparisons := m_comparisons m + 1, m_unsupported := m_unsupported m + 1\<rparr>"
| "add_comparison NoExpectedState m = m\<lparr>m_comparisons := m_comparisons m + 1, m_no_expected_state := m_no_expected_state m + 1\<rparr>"

definition add_finding_recorded :: "Metrics \<Rightarrow> Metrics" where
  "add_finding_recorded m = m\<lparr>m_findings_recorded := m_findings_recorded m + 1\<rparr>"

definition add_finding_resolved :: "u64 \<Rightarrow> Metrics \<Rightarrow> Metrics" where
  "add_finding_resolved v m = m\<lparr>m_findings_resolved := m_findings_resolved m + v\<rparr>"

definition add_finding_evicted :: "u64 \<Rightarrow> Metrics \<Rightarrow> Metrics" where
  "add_finding_evicted v m = m\<lparr>m_findings_evicted := m_findings_evicted m + v\<rparr>"

definition add_queue_submitted :: "Metrics \<Rightarrow> Metrics" where
  "add_queue_submitted m = m\<lparr>m_queue_submitted := m_queue_submitted m + 1\<rparr>"

definition add_queue_rejected :: "Metrics \<Rightarrow> Metrics" where
  "add_queue_rejected m = m\<lparr>m_queue_rejected := m_queue_rejected m + 1\<rparr>"

definition add_task_completed :: "Metrics \<Rightarrow> Metrics" where
  "add_task_completed m = m\<lparr>m_tasks_completed := m_tasks_completed m + 1\<rparr>"

definition add_task_cancelled :: "Metrics \<Rightarrow> Metrics" where
  "add_task_cancelled m = m\<lparr>m_tasks_cancelled := m_tasks_cancelled m + 1\<rparr>"

definition add_store_append :: "Metrics \<Rightarrow> Metrics" where
  "add_store_append m = m\<lparr>m_store_appends := m_store_appends m + 1\<rparr>"

definition add_store_records_recovered :: "u64 \<Rightarrow> Metrics \<Rightarrow> Metrics" where
  "add_store_records_recovered v m = m\<lparr>m_store_records_recovered := m_store_records_recovered m + v\<rparr>"

definition add_store_corrupt_tail_truncation :: "Metrics \<Rightarrow> Metrics" where
  "add_store_corrupt_tail_truncation m = m\<lparr>m_store_corrupt_tail_truncations := m_store_corrupt_tail_truncations m + 1\<rparr>"

definition add_transport_frame_in :: "u64 \<Rightarrow> Metrics \<Rightarrow> Metrics" where
  "add_transport_frame_in bytes m =
     m\<lparr>m_transport_frames_in := m_transport_frames_in m + 1, m_transport_bytes_in := m_transport_bytes_in m + bytes\<rparr>"

definition add_transport_frame_out :: "u64 \<Rightarrow> Metrics \<Rightarrow> Metrics" where
  "add_transport_frame_out bytes m =
     m\<lparr>m_transport_frames_out := m_transport_frames_out m + 1, m_transport_bytes_out := m_transport_bytes_out m + bytes\<rparr>"

definition add_transport_protocol_violation :: "Metrics \<Rightarrow> Metrics" where
  "add_transport_protocol_violation m = m\<lparr>m_transport_protocol_violations := m_transport_protocol_violations m + 1\<rparr>"

definition snapshot :: "Metrics \<Rightarrow> MetricsSnapshot" where
  "snapshot m = \<lparr>
     m_evidence_offered = m_evidence_offered m,
     m_evidence_accepted = m_evidence_accepted m,
     m_evidence_rejected = m_evidence_rejected m,
     m_evidence_unregistered_source = m_evidence_unregistered_source m,
     m_evidence_replayed = m_evidence_replayed m,
     m_evidence_gap_events = m_evidence_gap_events m,
     m_comparisons = m_comparisons m,
     m_matches = m_matches m,
     m_divergences = m_divergences m,
     m_indeterminate = m_indeterminate m,
     m_unsupported = m_unsupported m,
     m_no_expected_state = m_no_expected_state m,
     m_findings_recorded = m_findings_recorded m,
     m_findings_resolved = m_findings_resolved m,
     m_findings_evicted = m_findings_evicted m,
     m_queue_submitted = m_queue_submitted m,
     m_queue_rejected = m_queue_rejected m,
     m_tasks_completed = m_tasks_completed m,
     m_tasks_cancelled = m_tasks_cancelled m,
     m_store_appends = m_store_appends m,
     m_store_records_recovered = m_store_records_recovered m,
     m_store_corrupt_tail_truncations = m_store_corrupt_tail_truncations m,
     m_transport_frames_in = m_transport_frames_in m,
     m_transport_frames_out = m_transport_frames_out m,
     m_transport_bytes_in = m_transport_bytes_in m,
     m_transport_bytes_out = m_transport_bytes_out m,
     m_transport_protocol_violations = m_transport_protocol_violations m\<rparr>"

definition reset_metrics :: "Metrics \<Rightarrow> Metrics" where
  "reset_metrics m = m\<lparr>
     m_evidence_offered := 0,
     m_evidence_accepted := 0,
     m_evidence_rejected := 0,
     m_evidence_unregistered_source := 0,
     m_evidence_replayed := 0,
     m_evidence_gap_events := 0,
     m_comparisons := 0,
     m_matches := 0,
     m_divergences := 0,
     m_indeterminate := 0,
     m_unsupported := 0,
     m_no_expected_state := 0,
     m_findings_recorded := 0,
     m_findings_resolved := 0,
     m_findings_evicted := 0,
     m_queue_submitted := 0,
     m_queue_rejected := 0,
     m_tasks_completed := 0,
     m_tasks_cancelled := 0,
     m_store_appends := 0,
     m_store_records_recovered := 0,
     m_store_corrupt_tail_truncations := 0,
     m_transport_frames_in := 0,
     m_transport_frames_out := 0,
     m_transport_bytes_in := 0,
     m_transport_bytes_out := 0,
     m_transport_protocol_violations := 0\<rparr>"

section \<open>Laws\<close>

lemma snapshot_exact: "snapshot m = m"
  by (simp add: snapshot_def)

lemma reset_is_new: "reset_metrics m = new_metrics"
  by (simp add: reset_metrics_def new_metrics_def)

text \<open>Every comparison is counted under exactly one outcome.\<close>

definition outcomes_total :: "Metrics \<Rightarrow> u64" where
  "outcomes_total m = m_matches m + m_divergences m + m_indeterminate m + m_unsupported m + m_no_expected_state m"

lemma add_comparison_counted: "m_comparisons m = outcomes_total m \<Longrightarrow>
  m_comparisons (add_comparison out m) = outcomes_total (add_comparison out m)"
  by (cases out) (simp_all add: outcomes_total_def)

text \<open>The relaxed additions commute, so the order in which threads apply them is immaterial.\<close>

lemma add_comparison_commute: "add_comparison a (add_comparison b m) = add_comparison b (add_comparison a m)"
  by (cases a; cases b) simp_all

lemmas metric_defs =
  add_evidence_offered_def add_evidence_accepted_def add_evidence_rejected_def add_evidence_unregistered_source_def
  add_evidence_replayed_def add_evidence_gap_events_def add_finding_recorded_def add_finding_resolved_def
  add_task_completed_def add_task_cancelled_def add_store_append_def add_store_records_recovered_def
  add_store_corrupt_tail_truncation_def

end
