(* ===== verification/Worker.thy ===== *)
theory Worker
  imports Prelude
begin

text \<open>
  The worker pool (\<open>include/pathobs/worker.hpp\<close>, \<open>src/worker.cpp\<close>): a bounded queue of tasks served
  by a fixed set of threads. Every block of the code that holds the mutex is one function on the
  state of the pool; a worker thread is the state it is in between two such blocks. The step
  relation interleaves the blocks of the callers and of the workers in every possible order.

  A cancellation source is an identity, and a token is cancelled when its source is listed in
  \<open>cancelled_sources\<close>. What a task does is left to the user of the pool; the pool records in
  \<open>executed\<close> for which entries it called the task.
\<close>

section \<open>State\<close>

record 'a Entry =
  entry_task :: 'a
  entry_source :: nat

text \<open>A worker waits, holds an entry it is about to run, holds one it has run, or has returned.\<close>

datatype 'a worker = Waiting | Holding "'a Entry" | Finishing "'a Entry" | Returned

record 'a WorkerPool =
  thread_count :: nat
  max_queue :: nat
  pool_queue :: "'a Entry list"
  outstanding :: "nat list"
  pool_threads :: "'a worker list"
  running :: bool
  completed :: nat
  dropped :: nat
  active_tasks :: nat
  accepting :: bool
  next_source :: nat
  cancelled_sources :: "nat list"
  executed :: "'a Entry list"

definition new_pool :: "nat \<Rightarrow> nat \<Rightarrow> 'a WorkerPool" where
  "new_pool threads max_queue_depth = \<lparr>thread_count = threads, max_queue = max_queue_depth, pool_queue = [],
     outstanding = [], pool_threads = [], running = False, completed = 0, dropped = 0, active_tasks = 0,
     accepting = False, next_source = 0, cancelled_sources = [], executed = []\<rparr>"

section \<open>The callers\<close>

definition pool_start :: "'a WorkerPool \<Rightarrow> Status \<times> 'a WorkerPool" where
  "pool_start p =
     (if running p then (Inl (Error InvalidState ''worker pool is already running''), p)
      else if thread_count p = 0 then (Inl (Error InvalidArgument ''worker pool needs at least one thread''), p)
      else (ok, p\<lparr>accepting := True, running := True, pool_threads := replicate (thread_count p) Waiting\<rparr>))"

text \<open>The source of an entry lives as long as the entry: in the queue or in the hands of a worker.\<close>

fun held_of :: "'a worker \<Rightarrow> 'a Entry list" where
  "held_of (Holding e) = [e]"
| "held_of (Finishing e) = [e]"
| "held_of _ = []"

definition held_entries :: "'a worker list \<Rightarrow> 'a Entry list" where
  "held_entries ws = concat (map held_of ws)"

definition expired :: "'a WorkerPool \<Rightarrow> nat \<Rightarrow> bool" where
  "expired p src \<longleftrightarrow> src \<notin> entry_source ` (set (pool_queue p) \<union> set (held_entries (pool_threads p)))"

definition compact_outstanding_locked :: "'a WorkerPool \<Rightarrow> 'a WorkerPool" where
  "compact_outstanding_locked p =
     (if length (outstanding p) \<le> max_queue p * 2 + 64 then p
      else p\<lparr>outstanding := filter (\<lambda>s. \<not> expired p s) (outstanding p)\<rparr>)"

text \<open>An empty \<open>std::function\<close> is \<open>None\<close>.\<close>

definition pool_submit :: "'a option \<Rightarrow> 'a WorkerPool \<Rightarrow> Status \<times> 'a WorkerPool" where
  "pool_submit task p =
     (case task of
        None \<Rightarrow> (Inl (Error InvalidArgument ''worker pool received an empty task''), p)
      | Some t \<Rightarrow>
          if \<not> running p \<or> \<not> accepting p
          then (Inl (Error ShuttingDown ''worker pool is not accepting work''), p)
          else if length (pool_queue p) \<ge> max_queue p
          then (Inl (Error CapacityExceeded ''worker pool queue is full''), p\<lparr>dropped := dropped p + 1\<rparr>)
          else (ok, compact_outstanding_locked
                 (p\<lparr>pool_queue := pool_queue p @ [\<lparr>entry_task = t, entry_source = next_source p\<rparr>],
                    outstanding := outstanding p @ [next_source p],
                    next_source := next_source p + 1\<rparr>)))"

definition cancel_pending :: "'a WorkerPool \<Rightarrow> nat \<times> 'a WorkerPool" where
  "cancel_pending p =
     (length (pool_queue p),
      p\<lparr>cancelled_sources := cancelled_sources p @ map entry_source (pool_queue p), pool_queue := []\<rparr>)"

text \<open>
  \<open>shutdown\<close> up to the point where it waits for its threads, and after it has joined them.
\<close>

definition shutdown_begin :: "bool \<Rightarrow> 'a WorkerPool \<Rightarrow> 'a WorkerPool" where
  "shutdown_begin cancel_running p =
     (if \<not> running p \<and> pool_threads p = [] then p
      else p\<lparr>cancelled_sources := cancelled_sources p @
               (if cancel_running
                then filter (\<lambda>s. \<not> expired p s) (outstanding p) @ map entry_source (pool_queue p) else []),
             accepting := False, running := False\<rparr>)"

definition all_returned :: "'a WorkerPool \<Rightarrow> bool" where
  "all_returned p \<longleftrightarrow> list_all (\<lambda>w. w = Returned) (pool_threads p)"

definition shutdown_end :: "'a WorkerPool \<Rightarrow> 'a WorkerPool" where
  "shutdown_end p = p\<lparr>pool_threads := [], pool_queue := [], outstanding := []\<rparr>"

definition pending :: "'a WorkerPool \<Rightarrow> nat" where
  "pending p = length (pool_queue p)"

definition active :: "'a WorkerPool \<Rightarrow> nat" where
  "active p = active_tasks p"

section \<open>The workers\<close>

text \<open>The blocks of \<open>worker_loop\<close> on the thread with the given index.\<close>

definition worker_take :: "nat \<Rightarrow> 'a WorkerPool \<Rightarrow> 'a WorkerPool" where
  "worker_take i p =
     p\<lparr>pool_threads := (pool_threads p)[i := Holding (hd (pool_queue p))], pool_queue := tl (pool_queue p),
       active_tasks := active_tasks p + 1\<rparr>"

definition worker_run :: "nat \<Rightarrow> 'a Entry \<Rightarrow> 'a WorkerPool \<Rightarrow> 'a WorkerPool" where
  "worker_run i e p =
     p\<lparr>pool_threads := (pool_threads p)[i := Finishing e], completed := completed p + 1,
       executed := (if entry_source e \<in> set (cancelled_sources p) then executed p else executed p @ [e])\<rparr>"

definition worker_release :: "nat \<Rightarrow> 'a WorkerPool \<Rightarrow> 'a WorkerPool" where
  "worker_release i p =
     p\<lparr>pool_threads := (pool_threads p)[i := Waiting], active_tasks := active_tasks p - 1\<rparr>"

definition worker_return :: "nat \<Rightarrow> 'a WorkerPool \<Rightarrow> 'a WorkerPool" where
  "worker_return i p = p\<lparr>pool_threads := (pool_threads p)[i := Returned]\<rparr>"

inductive worker_step :: "'a WorkerPool \<Rightarrow> 'a WorkerPool \<Rightarrow> bool" where
  take: "i < length (pool_threads p) \<Longrightarrow> pool_threads p ! i = Waiting \<Longrightarrow> pool_queue p \<noteq> [] \<Longrightarrow>
    worker_step p (worker_take i p)"
| run: "i < length (pool_threads p) \<Longrightarrow> pool_threads p ! i = Holding e \<Longrightarrow> worker_step p (worker_run i e p)"
| release: "i < length (pool_threads p) \<Longrightarrow> pool_threads p ! i = Finishing e \<Longrightarrow>
    worker_step p (worker_release i p)"
| finish: "i < length (pool_threads p) \<Longrightarrow> pool_threads p ! i = Waiting \<Longrightarrow> pool_queue p = [] \<Longrightarrow>
    \<not> running p \<Longrightarrow> worker_step p (worker_return i p)"

inductive pool_step :: "'a WorkerPool \<Rightarrow> 'a WorkerPool \<Rightarrow> bool" where
  start: "pool_threads p = [] \<Longrightarrow> pool_step p (snd (pool_start p))"
| submit: "pool_step p (snd (pool_submit t p))"
| cancel: "pool_step p (snd (cancel_pending p))"
| stop: "pool_step p (shutdown_begin c p)"
| join: "\<not> running p \<Longrightarrow> all_returned p \<Longrightarrow> pool_step p (shutdown_end p)"
| worker: "worker_step p p' \<Longrightarrow> pool_step p p'"

inductive_cases worker_stepE: "worker_step p p'"
inductive_cases pool_stepE: "pool_step p p'"

definition reachable_pool :: "nat \<Rightarrow> nat \<Rightarrow> 'a WorkerPool \<Rightarrow> bool" where
  "reachable_pool threads depth p \<longleftrightarrow> pool_step\<^sup>*\<^sup>* (new_pool threads depth) p"

section \<open>Entries in the pool\<close>

text \<open>The entries whose task has not been called yet.\<close>

fun unstarted_of :: "'a worker \<Rightarrow> 'a Entry list" where
  "unstarted_of (Holding e) = [e]"
| "unstarted_of _ = []"

definition unstarted :: "'a worker list \<Rightarrow> 'a Entry list" where
  "unstarted ws = concat (map unstarted_of ws)"

definition live_entries :: "'a WorkerPool \<Rightarrow> 'a Entry list" where
  "live_entries p = pool_queue p @ held_entries (pool_threads p)"

definition todo_entries :: "'a WorkerPool \<Rightarrow> 'a Entry list" where
  "todo_entries p = pool_queue p @ unstarted (pool_threads p)"

lemma concat_update:
  "i < length ws \<Longrightarrow> mset (concat (map f (ws[i := w]))) + mset (f (ws ! i)) = mset (concat (map f ws)) + mset (f w)"
proof (induction ws arbitrary: i)
  case (Cons v ws)
  then show ?case by (cases i) (auto simp: union_assoc union_commute union_lcomm)
qed simp

lemmas held_update = concat_update[where f=held_of, folded held_entries_def]
lemmas unstarted_update = concat_update[where f=unstarted_of, folded unstarted_def]

lemma unstarted_held: "set (unstarted ws) \<subseteq> set (held_entries ws)"
proof -
  have "set (unstarted_of w) \<subseteq> set (held_of w)" for w :: "'a worker" by (cases w) auto
  then show ?thesis by (auto simp: unstarted_def held_entries_def)
qed

lemma todo_live: "set (todo_entries p) \<subseteq> set (live_entries p)"
  using unstarted_held by (auto simp: todo_entries_def live_entries_def)

lemma held_replicate [simp]: "held_entries (replicate n Waiting) = []" "unstarted (replicate n Waiting) = []"
  by (induction n) (simp_all add: held_entries_def unstarted_def)

lemma length_held: "length (held_entries ws) \<le> length ws"
proof -
  have "length (held_of w) \<le> 1" for w :: "'a worker" by (cases w) auto
  then show ?thesis by (induction ws) (auto simp: held_entries_def intro: add_le_mono[of _ 1, simplified])
qed

text \<open>What one step of a worker does to the entries.\<close>

lemma take_entries:
  assumes "i < length (pool_threads p)" "pool_threads p ! i = Waiting" "pool_queue p \<noteq> []"
  shows "mset (live_entries (worker_take i p)) = mset (live_entries p)"
    and "mset (todo_entries (worker_take i p)) = mset (todo_entries p)"
    and "length (held_entries (pool_threads (worker_take i p))) = Suc (length (held_entries (pool_threads p)))"
proof -
  obtain e q where q: "pool_queue p = e # q" using assms(3) by (cases "pool_queue p") auto
  have h: "mset (held_entries ((pool_threads p)[i := Holding e])) = add_mset e (mset (held_entries (pool_threads p)))"
    using held_update[OF assms(1), of "Holding e"] assms(2) by simp
  have u: "mset (unstarted ((pool_threads p)[i := Holding e])) = add_mset e (mset (unstarted (pool_threads p)))"
    using unstarted_update[OF assms(1), of "Holding e"] assms(2) by simp
  show "mset (live_entries (worker_take i p)) = mset (live_entries p)"
    using h q by (simp add: live_entries_def worker_take_def)
  show "mset (todo_entries (worker_take i p)) = mset (todo_entries p)"
    using u q by (simp add: todo_entries_def worker_take_def)
  show "length (held_entries (pool_threads (worker_take i p))) = Suc (length (held_entries (pool_threads p)))"
    using arg_cong[OF h, of size] q by (simp add: worker_take_def)
qed

lemma run_entries:
  assumes "i < length (pool_threads p)" "pool_threads p ! i = Holding e"
  shows "mset (live_entries (worker_run i e p)) = mset (live_entries p)"
    and "add_mset e (mset (todo_entries (worker_run i e p))) = mset (todo_entries p)"
    and "length (held_entries (pool_threads (worker_run i e p))) = length (held_entries (pool_threads p))"
proof -
  note h = held_update[OF assms(1), of "Finishing e"] and u = unstarted_update[OF assms(1), of "Finishing e"]
  show "mset (live_entries (worker_run i e p)) = mset (live_entries p)"
    using h assms(2) by (simp add: live_entries_def worker_run_def)
  show "add_mset e (mset (todo_entries (worker_run i e p))) = mset (todo_entries p)"
    using u assms(2) by (simp add: todo_entries_def worker_run_def)
  show "length (held_entries (pool_threads (worker_run i e p))) = length (held_entries (pool_threads p))"
    using arg_cong[OF h, of size] assms(2) by (simp add: worker_run_def)
qed

lemma release_entries:
  assumes "i < length (pool_threads p)" "pool_threads p ! i = Finishing e"
  shows "add_mset e (mset (live_entries (worker_release i p))) = mset (live_entries p)"
    and "mset (todo_entries (worker_release i p)) = mset (todo_entries p)"
    and "Suc (length (held_entries (pool_threads (worker_release i p)))) = length (held_entries (pool_threads p))"
proof -
  note h = held_update[OF assms(1), of Waiting] and u = unstarted_update[OF assms(1), of Waiting]
  show "add_mset e (mset (live_entries (worker_release i p))) = mset (live_entries p)"
    using h assms(2) by (simp add: live_entries_def worker_release_def)
  show "mset (todo_entries (worker_release i p)) = mset (todo_entries p)"
    using u assms(2) by (simp add: todo_entries_def worker_release_def)
  show "Suc (length (held_entries (pool_threads (worker_release i p)))) = length (held_entries (pool_threads p))"
    using arg_cong[OF h, of size] assms(2) by (simp add: worker_release_def)
qed

lemma return_entries:
  assumes "i < length (pool_threads p)" "pool_threads p ! i = Waiting"
  shows "mset (live_entries (worker_return i p)) = mset (live_entries p)"
    and "mset (todo_entries (worker_return i p)) = mset (todo_entries p)"
    and "length (held_entries (pool_threads (worker_return i p))) = length (held_entries (pool_threads p))"
proof -
  note h = held_update[OF assms(1), of Returned] and u = unstarted_update[OF assms(1), of Returned]
  show "mset (live_entries (worker_return i p)) = mset (live_entries p)"
    using h assms(2) by (simp add: live_entries_def worker_return_def)
  show "mset (todo_entries (worker_return i p)) = mset (todo_entries p)"
    using u assms(2) by (simp add: todo_entries_def worker_return_def)
  show "length (held_entries (pool_threads (worker_return i p))) = length (held_entries (pool_threads p))"
    using arg_cong[OF h, of size] assms(2) by (simp add: worker_return_def)
qed

section \<open>Invariant\<close>

text \<open>The queue, the threads and the flags.\<close>

definition pool_shape :: "'a WorkerPool \<Rightarrow> bool" where
  "pool_shape p \<longleftrightarrow> length (pool_queue p) \<le> max_queue p \<and>
     (pool_threads p = [] \<or> length (pool_threads p) = thread_count p) \<and>
     accepting p = running p \<and> active_tasks p = length (held_entries (pool_threads p)) \<and>
     (pool_threads p = [] \<or> Returned \<in> set (pool_threads p) \<longrightarrow> \<not> running p \<and> pool_queue p = [])"

text \<open>The identities of the entries: distinct, known, and each executed at most once.\<close>

definition pool_sources :: "'a WorkerPool \<Rightarrow> bool" where
  "pool_sources p \<longleftrightarrow>
     distinct (map entry_source (live_entries p)) \<and> entry_source ` set (live_entries p) \<subseteq> set (outstanding p) \<and>
     distinct (outstanding p) \<and> (\<forall>s\<in>set (outstanding p). s < next_source p) \<and>
     (\<forall>s\<in>set (cancelled_sources p). s < next_source p) \<and>
     length (outstanding p) \<le> max (max_queue p * 2 + 64) (max_queue p + thread_count p)"

definition pool_executed :: "'a WorkerPool \<Rightarrow> bool" where
  "pool_executed p \<longleftrightarrow> distinct (map entry_source (executed p)) \<and>
     (\<forall>s\<in>entry_source ` set (executed p). s < next_source p) \<and>
     entry_source ` set (executed p) \<inter> entry_source ` set (todo_entries p) = {}"

definition pool_inv :: "'a WorkerPool \<Rightarrow> bool" where
  "pool_inv p \<longleftrightarrow> pool_shape p \<and> pool_sources p \<and> pool_executed p"

lemma distinct_sources_mset:
  "mset xs = mset ys \<Longrightarrow> distinct (map entry_source xs) = distinct (map entry_source ys)"
  by (metis mset_eq_imp_distinct_iff mset_map)

lemma mset_eq_set: "mset xs = mset ys \<Longrightarrow> set xs = set ys"
  by (metis set_mset_mset)

text \<open>Entries that leave the pool keep the rest of it distinct.\<close>

lemma sources_add_mset:
  assumes "add_mset e (mset ys) = mset xs" and "distinct (map entry_source xs)"
  shows "distinct (map entry_source ys)" and "entry_source e \<notin> entry_source ` set ys"
    and "set xs = insert e (set ys)"
proof -
  have m: "mset (e # ys) = mset xs" using assms(1) by simp
  from distinct_sources_mset[OF m] assms(2) show "distinct (map entry_source ys)" "entry_source e \<notin> entry_source ` set ys"
    by simp_all
  from mset_eq_set[OF m] show "set xs = insert e (set ys)" by simp
qed

lemma todo_distinct: "distinct (map entry_source (live_entries p)) \<Longrightarrow> distinct (map entry_source (todo_entries p))"
proof -
  have "distinct (map entry_source (unstarted ws)) \<and> set (unstarted ws) \<subseteq> set (held_entries ws)"
    if "distinct (map entry_source (held_entries ws))" for ws :: "'a worker list"
    using that
  proof (induction ws)
    case (Cons w ws)
    then show ?case using unstarted_held[of ws]
      by (cases w) (auto simp: unstarted_def held_entries_def)
  qed (simp add: unstarted_def)
  then show "distinct (map entry_source (live_entries p)) \<Longrightarrow> distinct (map entry_source (todo_entries p))"
    unfolding live_entries_def todo_entries_def by auto
qed

subsection \<open>The workers keep it\<close>

lemma worker_frame:
  assumes "worker_step p p'"
  shows "max_queue p' = max_queue p" "thread_count p' = thread_count p" "outstanding p' = outstanding p"
    "next_source p' = next_source p" "cancelled_sources p' = cancelled_sources p" "running p' = running p"
    "accepting p' = accepting p" "length (pool_threads p') = length (pool_threads p)"
    "length (pool_queue p') \<le> length (pool_queue p)"
  using assms
  by (cases rule: worker_step.cases;
      simp add: worker_take_def worker_run_def worker_release_def worker_return_def)+

lemma worker_shape:
  assumes "worker_step p p'" and "pool_shape p"
  shows "pool_shape p'"
proof -
  note fr = worker_frame[OF assms(1)]
  have len: "length (pool_queue p') \<le> max_queue p'" using fr assms(2) by (simp add: pool_shape_def)
  have nonempty: "pool_threads p' \<noteq> []" using assms(1) fr(8) by (cases rule: worker_step.cases) auto
  have counts: "active_tasks p' = length (held_entries (pool_threads p'))"
    using assms
    by (cases rule: worker_step.cases)
      (simp_all add: pool_shape_def take_entries run_entries return_entries,
       simp_all add: worker_take_def worker_run_def worker_return_def worker_release_def,
       use release_entries(3) in \<open>fastforce simp: worker_release_def\<close>)
  have ret: "\<not> running p' \<and> pool_queue p' = []" if "Returned \<in> set (pool_threads p')"
    using assms(1)
  proof (cases rule: worker_step.cases)
    case (take i)
    then have "Returned \<in> set (pool_threads p)"
      using that set_update_subset_insert[of "pool_threads p" i] by (auto simp: worker_take_def)
    then show ?thesis using assms(2) take by (simp add: pool_shape_def)
  next
    case (run i e)
    then have "Returned \<in> set (pool_threads p)"
      using that set_update_subset_insert[of "pool_threads p" i] by (auto simp: worker_run_def)
    then show ?thesis using assms(2) run by (simp add: pool_shape_def worker_run_def)
  next
    case (release i e)
    then have "Returned \<in> set (pool_threads p)"
      using that set_update_subset_insert[of "pool_threads p" i] by (auto simp: worker_release_def)
    then show ?thesis using assms(2) release by (simp add: pool_shape_def worker_release_def)
  next
    case (finish i)
    then show ?thesis by (simp add: worker_return_def)
  qed
  show ?thesis using len nonempty counts ret fr assms(2) by (auto simp: pool_shape_def)
qed

lemma worker_sources:
  assumes "worker_step p p'" and "pool_sources p"
  shows "pool_sources p'"
proof -
  have d: "distinct (map entry_source (live_entries p))" using assms(2) by (simp add: pool_sources_def)
  have "distinct (map entry_source (live_entries p')) \<and> set (live_entries p') \<subseteq> set (live_entries p)"
    using assms(1)
  proof (cases rule: worker_step.cases)
    case (take i)
    from take_entries(1)[OF take(2-)] show ?thesis
      using d distinct_sources_mset mset_eq_set take(1) by blast
  next
    case (run i e)
    from run_entries(1)[OF run(2-)] show ?thesis
      using d distinct_sources_mset mset_eq_set run(1) by blast
  next
    case (release i e)
    from sources_add_mset[OF release_entries(1)[OF release(2-)] d] show ?thesis using release(1) by auto
  next
    case (finish i)
    from return_entries(1)[OF finish(2,3)] show ?thesis
      using d distinct_sources_mset mset_eq_set finish(1) by blast
  qed
  then show ?thesis using assms(2) worker_frame[OF assms(1)] unfolding pool_sources_def by auto
qed

lemma worker_executed:
  assumes "worker_step p p'" and "pool_sources p" and "pool_executed p"
  shows "pool_executed p'"
  using assms(1)
proof (cases rule: worker_step.cases)
  case (run i e)
  have "distinct (map entry_source (todo_entries p))"
    by (rule todo_distinct) (use assms(2) in \<open>simp add: pool_sources_def\<close>)
  note t = sources_add_mset[OF run_entries(2)[OF run(2,3)] this, folded run(1)]
  have "e \<in> set (live_entries p)" using todo_live t(3) by blast
  then have "entry_source e < next_source p" using assms(2) by (auto simp: pool_sources_def)
  moreover have "entry_source e \<notin> entry_source ` set (executed p)"
    using assms(3) t(3) by (auto simp: pool_executed_def)
  ultimately show ?thesis
    using assms(3) t run(1) by (auto simp: pool_executed_def worker_run_def)
next
  case (take i)
  from mset_eq_set[OF take_entries(2)[OF take(2-)]] show ?thesis
    using assms(3) take(1) by (simp add: pool_executed_def worker_take_def)
next
  case (release i e)
  from mset_eq_set[OF release_entries(2)[OF release(2-)]] show ?thesis
    using assms(3) release(1) by (simp add: pool_executed_def worker_release_def)
next
  case (finish i)
  from mset_eq_set[OF return_entries(2)[OF finish(2,3)]] show ?thesis
    using assms(3) finish(1) by (simp add: pool_executed_def worker_return_def)
qed

lemma worker_step_inv: "worker_step p p' \<Longrightarrow> pool_inv p \<Longrightarrow> pool_inv p'"
  using worker_shape worker_sources worker_executed unfolding pool_inv_def by blast

subsection \<open>The callers keep it\<close>

lemma new_pool_inv: "pool_inv (new_pool n d)"
  by (simp add: pool_inv_def pool_shape_def pool_sources_def pool_executed_def new_pool_def live_entries_def
      todo_entries_def held_entries_def unstarted_def)

lemma start_inv: "pool_threads p = [] \<Longrightarrow> pool_inv p \<Longrightarrow> pool_inv (snd (pool_start p))"
  by (auto simp: pool_start_def pool_inv_def pool_shape_def pool_sources_def pool_executed_def live_entries_def
      todo_entries_def held_entries_def unstarted_def)

lemma compact_keeps_live:
  "entry_source ` set (live_entries p) \<subseteq> set (outstanding p) \<Longrightarrow>
   entry_source ` set (live_entries p) \<subseteq> set (outstanding (compact_outstanding_locked p))"
  by (auto simp: compact_outstanding_locked_def live_entries_def expired_def)

lemma compact_bound:
  assumes "distinct (outstanding p)" and "length (live_entries p) \<le> max_queue p + thread_count p"
  shows "length (outstanding (compact_outstanding_locked p)) \<le> max (max_queue p * 2 + 64) (max_queue p + thread_count p)"
proof -
  let ?kept = "filter (\<lambda>s. \<not> expired p s) (outstanding p)"
  have "set ?kept \<subseteq> entry_source ` set (live_entries p)" by (auto simp: expired_def live_entries_def)
  then have "card (set ?kept) \<le> card (entry_source ` set (live_entries p))" by (intro card_mono) auto
  also have "\<dots> \<le> length (live_entries p)" using card_image_le[of "set (live_entries p)"] card_length le_trans by blast
  finally have "length ?kept \<le> length (live_entries p)" using assms(1) by (simp add: distinct_card[symmetric])
  then show ?thesis using assms(2) by (auto simp: compact_outstanding_locked_def)
qed

lemma compact_frame [simp]:
  "pool_queue (compact_outstanding_locked p) = pool_queue p" "pool_threads (compact_outstanding_locked p) = pool_threads p"
  "max_queue (compact_outstanding_locked p) = max_queue p" "thread_count (compact_outstanding_locked p) = thread_count p"
  "next_source (compact_outstanding_locked p) = next_source p" "executed (compact_outstanding_locked p) = executed p"
  "cancelled_sources (compact_outstanding_locked p) = cancelled_sources p"
  "running (compact_outstanding_locked p) = running p" "accepting (compact_outstanding_locked p) = accepting p"
  "active_tasks (compact_outstanding_locked p) = active_tasks p"
  "set (outstanding (compact_outstanding_locked p)) \<subseteq> set (outstanding p)"
  "distinct (outstanding p) \<Longrightarrow> distinct (outstanding (compact_outstanding_locked p))"
  by (auto simp: compact_outstanding_locked_def)

lemma submit_inv:
  assumes "pool_inv p"
  shows "pool_inv (snd (pool_submit t p))"
proof (cases "fst (pool_submit t p) = ok")
  case False
  then show ?thesis
    using assms
    by (auto simp: pool_submit_def pool_inv_def pool_shape_def pool_sources_def pool_executed_def live_entries_def
        todo_entries_def split: option.splits if_splits)
next
  case True
  then obtain a where t: "t = Some a" and run: "running p" and room: "length (pool_queue p) < max_queue p"
    by (auto simp: pool_submit_def split: option.splits if_splits)
  let ?e = "\<lparr>entry_task = a, entry_source = next_source p\<rparr>"
  define q where "q = p\<lparr>pool_queue := pool_queue p @ [?e], outstanding := outstanding p @ [next_source p],
    next_source := next_source p + 1\<rparr>"
  have s: "snd (pool_submit t p) = compact_outstanding_locked q"
    using t run room assms by (simp add: pool_submit_def q_def pool_inv_def pool_shape_def)
  have fresh: "next_source p \<notin> set (outstanding p)" "next_source p \<notin> entry_source ` set (live_entries p)"
      "next_source p \<notin> entry_source ` set (executed p)"
    using assms by (auto simp: pool_inv_def pool_sources_def pool_executed_def)
  have live: "mset (live_entries q) = add_mset ?e (mset (live_entries p))"
    and todo: "set (todo_entries q) = insert ?e (set (todo_entries p))"
    by (simp_all add: q_def live_entries_def todo_entries_def)
  have "mset (live_entries q) = mset (?e # live_entries p)" using live by simp
  note lm = distinct_sources_mset[OF this] mset_eq_set[OF this]
  have th: "length (pool_threads p) \<le> thread_count p" using assms by (auto simp: pool_inv_def pool_shape_def)
  have "length (live_entries q) \<le> max_queue q + thread_count q"
    using length_held[of "pool_threads p"] th room by (simp add: q_def live_entries_def)
  moreover have dq: "distinct (outstanding q)" using fresh(1) assms by (simp add: q_def pool_inv_def pool_sources_def)
  ultimately have bound: "length (outstanding (compact_outstanding_locked q)) \<le>
      max (max_queue q * 2 + 64) (max_queue q + thread_count q)"
    using compact_bound by blast
  have sub: "entry_source ` set (live_entries q) \<subseteq> set (outstanding q)"
    using lm(2) assms by (auto simp: q_def pool_inv_def pool_sources_def)
  have le: "live_entries (compact_outstanding_locked q) = live_entries q"
      "todo_entries (compact_outstanding_locked q) = todo_entries q"
    by (simp_all add: live_entries_def todo_entries_def)
  have "pool_shape (compact_outstanding_locked q)"
    using assms run room by (auto simp: pool_inv_def pool_shape_def q_def)
  moreover have "pool_sources (compact_outstanding_locked q)"
  proof -
    have old: "\<forall>s\<in>set (outstanding p). s < next_source p" "\<forall>s\<in>set (cancelled_sources p). s < next_source p"
        "distinct (map entry_source (live_entries p))"
      using assms by (auto simp: pool_inv_def pool_sources_def)
    have "\<forall>s\<in>set (outstanding q). s < next_source q" "\<forall>s\<in>set (cancelled_sources q). s < next_source q"
      using old by (auto simp: q_def less_Suc_eq)
    moreover have "distinct (map entry_source (live_entries q))" using lm(1) fresh(2) old(3) by simp
    ultimately show ?thesis
      using bound dq compact_keeps_live[OF sub] by (auto simp: pool_sources_def le dest: subsetD[OF compact_frame(11)])
  qed
  moreover have "pool_executed (compact_outstanding_locked q)"
  proof -
    have "executed q = executed p" "next_source q = Suc (next_source p)" by (simp_all add: q_def)
    then show ?thesis
      using assms fresh(3) todo by (auto simp: pool_inv_def pool_executed_def le less_Suc_eq)
  qed
  ultimately show ?thesis by (simp add: s pool_inv_def)
qed

lemma cancel_inv: "pool_inv p \<Longrightarrow> pool_inv (snd (cancel_pending p))"
  by (auto simp: cancel_pending_def pool_inv_def pool_shape_def pool_sources_def pool_executed_def live_entries_def
      todo_entries_def)

lemma stop_inv: "pool_inv p \<Longrightarrow> pool_inv (shutdown_begin c p)"
  by (auto simp: shutdown_begin_def pool_inv_def pool_shape_def pool_sources_def pool_executed_def live_entries_def
      todo_entries_def)

lemma all_returned_held: "list_all (\<lambda>w. w = Returned) ws \<Longrightarrow> held_entries ws = []"
  by (induction ws) (simp_all add: held_entries_def)

lemma join_inv: "all_returned p \<Longrightarrow> \<not> running p \<Longrightarrow> pool_inv p \<Longrightarrow> pool_inv (shutdown_end p)"
  using all_returned_held[of "pool_threads p"]
  by (auto simp: all_returned_def shutdown_end_def pool_inv_def pool_shape_def pool_sources_def pool_executed_def
      live_entries_def todo_entries_def held_entries_def[of "[]"] unstarted_def[of "[]"])

lemma pool_step_inv: "pool_step p p' \<Longrightarrow> pool_inv p \<Longrightarrow> pool_inv p'"
  by (induction rule: pool_step.induct)
    (auto intro: start_inv submit_inv cancel_inv stop_inv join_inv worker_step_inv)

lemma reachable_pool_inv: "reachable_pool n d p \<Longrightarrow> pool_inv p"
  unfolding reachable_pool_def
  by (induction rule: rtranclp_induct) (auto intro: new_pool_inv pool_step_inv)

section \<open>Progress\<close>

text \<open>The steps the workers have left: three for a queued entry, one at a time for a thread.\<close>

fun worker_rank :: "'a worker \<Rightarrow> nat" where
  "worker_rank (Holding _) = 3"
| "worker_rank (Finishing _) = 2"
| "worker_rank Waiting = 1"
| "worker_rank Returned = 0"

definition pool_measure :: "'a WorkerPool \<Rightarrow> nat" where
  "pool_measure p = 3 * length (pool_queue p) + sum_list (map worker_rank (pool_threads p))"

lemma rank_update:
  "i < length ws \<Longrightarrow> sum_list (map worker_rank (ws[i := w])) + worker_rank (ws ! i) =
     sum_list (map worker_rank ws) + worker_rank w"
proof (induction ws arbitrary: i)
  case (Cons v ws)
  then show ?case by (cases i) (auto simp: add.assoc add.left_commute)
qed simp

lemma worker_step_measure: "worker_step p p' \<Longrightarrow> Suc (pool_measure p') = pool_measure p"
proof (induction rule: worker_step.induct)
  case (take i p)
  then obtain e q where "pool_queue p = e # q" by (cases "pool_queue p") auto
  then show ?case
    using rank_update[OF take(1), of "Holding e"] take by (simp add: pool_measure_def worker_take_def)
next
  case (run i p e)
  then show ?case
    using rank_update[OF run(1), of "Finishing e"] by (simp add: pool_measure_def worker_run_def)
next
  case (release i p e)
  then show ?case
    using rank_update[OF release(1), of Waiting] by (simp add: pool_measure_def worker_release_def)
next
  case (finish i p)
  then show ?case
    using rank_update[OF finish(1), of Returned] by (simp add: pool_measure_def worker_return_def)
qed

text \<open>While the pool is stopping, some worker can always step until all have returned.\<close>

lemma measure_zero:
  assumes "pool_shape p"
  shows "pool_measure p = 0 \<longleftrightarrow> all_returned p \<and> pool_queue p = []"
proof -
  have "worker_rank w = 0 \<longleftrightarrow> w = Returned" for w :: "'a worker" by (cases w) auto
  then show ?thesis by (auto simp: pool_measure_def all_returned_def list_all_iff sum_list_eq_0_iff)
qed

lemma worker_enabled:
  assumes "pool_shape p" and "\<not> running p" and "pool_measure p > 0"
  shows "\<exists>p'. worker_step p p'"
proof -
  have "\<not> (all_returned p \<and> pool_queue p = [])" using measure_zero[OF assms(1)] assms(3) by simp
  moreover have "all_returned p \<longrightarrow> pool_queue p = []"
    using assms(1) by (cases "pool_threads p") (auto simp: pool_shape_def all_returned_def)
  ultimately obtain w where "w \<in> set (pool_threads p)" "w \<noteq> Returned"
    by (auto simp: all_returned_def list_all_iff)
  then obtain i where i: "i < length (pool_threads p)" "pool_threads p ! i = w" by (metis in_set_conv_nth)
  show ?thesis
  proof (cases w)
    case Waiting
    then show ?thesis using i assms(2) worker_step.take worker_step.finish by (cases "pool_queue p = []") blast+
  next
    case (Holding e)
    then show ?thesis using i worker_step.run by blast
  next
    case (Finishing e)
    then show ?thesis using i worker_step.release by blast
  qed (use \<open>w \<noteq> Returned\<close> in simp)
qed

text \<open>Worker steps of any number.\<close>

lemma worker_steps_measure: "(worker_step ^^ n) p p' \<Longrightarrow> pool_measure p' + n = pool_measure p"
proof (induction n arbitrary: p')
  case (Suc n)
  then obtain q where "(worker_step ^^ n) p q" "worker_step q p'" by auto
  then show ?case using Suc.IH worker_step_measure by fastforce
qed simp

lemma worker_steps_frame:
  "(worker_step ^^ n) p p' \<Longrightarrow> pool_inv p \<Longrightarrow> pool_inv p' \<and> running p' = running p \<and>
     cancelled_sources p' = cancelled_sources p"
proof (induction n arbitrary: p')
  case (Suc n)
  then obtain q where "(worker_step ^^ n) p q" "worker_step q p'" by auto
  then show ?case using Suc worker_step_inv worker_frame(5,6) by metis
qed simp

lemma worker_step_completed:
  "worker_step p p' \<Longrightarrow> completed p' + length (todo_entries p') = completed p + length (todo_entries p)"
proof (induction rule: worker_step.induct)
  case (take i p)
  then show ?case using arg_cong[OF take_entries(2), of i p size] by (simp add: worker_take_def)
next
  case (run i p e)
  then show ?case using arg_cong[OF run_entries(2), of i p e size] by (simp add: worker_run_def)
next
  case (release i p e)
  then show ?case using arg_cong[OF release_entries(2), of i p e size] by (simp add: worker_release_def)
next
  case (finish i p)
  then show ?case using arg_cong[OF return_entries(2), of i p size] by (simp add: worker_return_def)
qed

lemma worker_steps_completed:
  "(worker_step ^^ n) p p' \<Longrightarrow> completed p' + length (todo_entries p') = completed p + length (todo_entries p)"
proof (induction n arbitrary: p')
  case (Suc n)
  then obtain q where "(worker_step ^^ n) p q" "worker_step q p'" by auto
  then show ?case using Suc.IH worker_step_completed by fastforce
qed simp

text \<open>A pool with one thread and one waiting task.\<close>

definition example_pool :: "nat WorkerPool" where
  "example_pool = snd (pool_submit (Some 7) (snd (pool_start (new_pool 1 1))))"

lemma example_pool_reachable: "reachable_pool 1 1 example_pool"
proof -
  have "pool_step (new_pool 1 1) (snd (pool_start (new_pool 1 1 :: nat WorkerPool)))"
    by (rule pool_step.start) (simp add: new_pool_def)
  moreover have "pool_step (snd (pool_start (new_pool 1 1))) example_pool"
    unfolding example_pool_def by (rule pool_step.submit)
  ultimately show ?thesis unfolding reachable_pool_def by (meson r_into_rtranclp rtranclp_trans)
qed

lemma example_pool_facts:
  "running example_pool" "pool_queue example_pool = [\<lparr>entry_task = 7, entry_source = 0\<rparr>]" "executed example_pool = []"
  "pool_measure (shutdown_begin c example_pool) = 4"
  by (simp_all add: example_pool_def pool_submit_def pool_start_def new_pool_def compact_outstanding_locked_def
      pool_measure_def shutdown_begin_def)

section \<open>Properties\<close>

text \<open>
  C23: in every reachable state of the pool, under every interleaving of callers and workers, the
  queue is within its bound, no more tasks are active than there are threads, the list of
  outstanding tokens is bounded, and no task is executed twice.
\<close>

theorem pool_bounded:
  assumes "reachable_pool threads depth p"
  shows "pending p \<le> depth \<and> active p \<le> threads \<and>
    length (outstanding p) \<le> max (depth * 2 + 64) (depth + threads) \<and>
    distinct (map entry_source (executed p))"
proof -
  have "max_queue p = depth \<and> thread_count p = threads"
    using assms unfolding reachable_pool_def
    by (induction rule: rtranclp_induct)
      (auto simp: new_pool_def pool_start_def pool_submit_def cancel_pending_def shutdown_begin_def shutdown_end_def
        worker_frame elim!: pool_stepE split: option.splits if_splits)
  moreover have "length (held_entries (pool_threads p)) \<le> length (pool_threads p)" by (rule length_held)
  ultimately show ?thesis
    using reachable_pool_inv[OF assms]
    by (auto simp: pool_inv_def pool_shape_def pool_sources_def pool_executed_def pending_def active_def)
qed

theorem pool_bounded_witness: "pending example_pool \<le> 1 \<and> active example_pool \<le> 1"
  using pool_bounded[OF example_pool_reachable] by simp

text \<open>
  C24: \<open>shutdown\<close> returns. Once it has stopped the pool, the workers can take at most a fixed number
  of further steps, some worker can take the next one until that number is reached, and then every
  thread has returned, the queue is empty and every task that was waiting has been completed.
\<close>

theorem shutdown_completes:
  assumes "reachable_pool threads depth p" and "(worker_step ^^ n) (shutdown_begin c p) q"
  shows "n \<le> pool_measure (shutdown_begin c p) \<and>
    (if n < pool_measure (shutdown_begin c p) then \<exists>r. worker_step q r
     else all_returned q \<and> pool_queue q = [] \<and>
       completed q = completed p + length (todo_entries p))"
proof -
  let ?s = "shutdown_begin c p"
  have inv: "pool_inv ?s" using assms(1) by (intro stop_inv) (rule reachable_pool_inv)
  have stopped: "\<not> running ?s" by (auto simp: shutdown_begin_def)
  note m = worker_steps_measure[OF assms(2)] and fr = worker_steps_frame[OF assms(2) inv]
  have shape: "pool_shape q" using fr by (simp add: pool_inv_def)
  have same: "completed ?s = completed p" "todo_entries ?s = todo_entries p"
    by (simp_all add: shutdown_begin_def todo_entries_def)
  show ?thesis
  proof (cases "n < pool_measure ?s")
    case True
    then show ?thesis using m worker_enabled[OF shape] fr stopped by auto
  next
    case False
    then have "pool_measure q = 0" "n = pool_measure ?s" using m by auto
    then have q: "all_returned q" "pool_queue q = []" using measure_zero[OF shape] by simp_all
    have "set (unstarted (pool_threads q)) \<subseteq> set (held_entries (pool_threads q))" by (rule unstarted_held)
    then have "todo_entries q = []"
      using q all_returned_held[of "pool_threads q"] by (auto simp: todo_entries_def all_returned_def)
    then show ?thesis using worker_steps_completed[OF assms(2)] same q m False by simp
  qed
qed

theorem shutdown_completes_witness: "\<exists>r. worker_step (shutdown_begin False example_pool) r"
  using shutdown_completes[OF example_pool_reachable, of 0 False "shutdown_begin False example_pool"]
  by (simp add: example_pool_facts)

text \<open>
  \<open>shutdown(true)\<close> cancels everything that has not started: none of the steps the workers take
  after it calls a task.
\<close>

theorem shutdown_cancels:
  assumes "reachable_pool threads depth p" and "running p" and "(worker_step ^^ n) (shutdown_begin True p) q"
  shows "executed q = executed p"
  using assms(3)
proof (induction n arbitrary: q)
  case 0
  then show ?case by (auto simp: shutdown_begin_def)
next
  case (Suc n)
  let ?s = "shutdown_begin True p"
  obtain r where r: "(worker_step ^^ n) ?s r" "worker_step r q" using Suc.prems by auto
  have pinv: "pool_inv p" using assms(1) by (rule reachable_pool_inv)
  have inv: "pool_inv ?s" using pinv by (rule stop_inv)
  have "entry_source ` set (live_entries p) \<subseteq> set (cancelled_sources ?s)"
    using pinv assms(2) by (auto simp: pool_inv_def pool_sources_def shutdown_begin_def live_entries_def expired_def)
  moreover have "set (live_entries r) \<subseteq> set (live_entries p)"
    using r(1)
  proof (induction n arbitrary: r)
    case 0
    then have "r = ?s" by simp
    then show ?case by (simp add: shutdown_begin_def live_entries_def)
  next
    case (Suc n)
    then obtain t where t: "(worker_step ^^ n) ?s t" "worker_step t r" by auto
    have "mset (live_entries r) \<subseteq># mset (live_entries t)" using t(2)
      by (cases rule: worker_step.cases)
        (simp_all add: take_entries run_entries return_entries,
         metis release_entries(1) mset_subset_eq_add_right add_mset_add_single subset_mset.eq_refl mset_subset_eq_add_left)
    then have "set (live_entries r) \<subseteq> set (live_entries t)" by (metis set_mset_mono set_mset_mset)
    then show ?case using Suc.IH[OF t(1)] by blast
  qed
  ultimately have all: "entry_source ` set (live_entries r) \<subseteq> set (cancelled_sources r)"
    using worker_steps_frame[OF r(1) inv] by auto
  have "executed q = executed r"
    using r(2)
  proof (cases rule: worker_step.cases)
    case (run i e)
    have "e \<in> set (live_entries r)"
      using run(2,3) nth_mem[OF run(2)] by (force simp: live_entries_def held_entries_def)
    then show ?thesis using all run(1) by (auto simp: worker_run_def)
  qed (simp_all add: worker_take_def worker_release_def worker_return_def)
  then show ?case using Suc.IH[OF r(1)] by simp
qed

theorem shutdown_cancels_witness:
  "worker_step (shutdown_begin True example_pool) (worker_take 0 (shutdown_begin True example_pool)) \<and>
   executed (worker_take 0 (shutdown_begin True example_pool)) = []"
proof -
  have step: "worker_step (shutdown_begin True example_pool) (worker_take 0 (shutdown_begin True example_pool))"
    by (rule worker_step.take)
      (simp_all add: example_pool_def pool_submit_def pool_start_def new_pool_def compact_outstanding_locked_def
        shutdown_begin_def)
  then have "(worker_step ^^ 1) (shutdown_begin True example_pool) (worker_take 0 (shutdown_begin True example_pool))"
    by (auto intro: relcomppI)
  from shutdown_cancels[OF example_pool_reachable example_pool_facts(1) this] step show ?thesis
    by (simp add: example_pool_facts)
qed

end
