(* ===== verification/Runtime.thy ===== *)
theory Runtime
  imports Codec History Persistence Metrics Worker
begin

text \<open>
  The observatory runtime (\<open>include/pathobs/runtime.hpp\<close>, \<open>src/runtime.cpp\<close>): the state that ties
  the components together and every operation on it. An operation holds the mutex of the runtime
  from its first to its last step, so it is one function from the state to its result and the state
  after it.

  The clock the runtime is given is the sequence of the instants it answers with; every call of
  \<open>now()\<close> takes the next one. The file behind \<open>store_path\<close> is \<open>rt_disk\<close> until the store has been
  opened, and then the file behind the handle of the store. Free text (\<open>detail\<close>) is not modelled.

  A stored comparison or finding whose class bytes name no enumerator is outside the model, because
  the code casts them without a check and the enumerations have no such value; restoring one is an
  error here.
\<close>

section \<open>State\<close>

datatype RuntimeState = Runtime_Created | Runtime_Running | Runtime_Stopping | Runtime_Stopped | Runtime_Failed

fun RuntimeState_to_string :: "RuntimeState \<Rightarrow> string" where
  "RuntimeState_to_string Runtime_Created = ''created''"
| "RuntimeState_to_string Runtime_Running = ''running''"
| "RuntimeState_to_string Runtime_Stopping = ''stopping''"
| "RuntimeState_to_string Runtime_Stopped = ''stopped''"
| "RuntimeState_to_string Runtime_Failed = ''failed''"

record RuntimeConfig =
  cfg_limits :: Limits
  cfg_comparison :: ComparisonPolicy
  store_path :: string
  persist :: bool
  load_evidence_on_start :: bool
  cfg_worker_threads :: u32
  mark_store_clean_on_stop :: bool

datatype SubjectKey = SubjectKey (key_generation: RouteGenerationId) (key_group: "PathGroupIdTag MaybeId")

text \<open>By generation, then keys without a group first, then by group.\<close>

definition SubjectKey_less :: "SubjectKey \<Rightarrow> SubjectKey \<Rightarrow> bool" where
  "SubjectKey_less a b \<longleftrightarrow>
     (if key_generation a \<noteq> key_generation b then key_generation a < key_generation b
      else if present (key_group a) \<noteq> present (key_group b) then \<not> present (key_group a)
      else maybe_value (key_group a) < maybe_value (key_group b))"

instantiation SubjectKey :: linorder
begin

definition less_SubjectKey :: "SubjectKey \<Rightarrow> SubjectKey \<Rightarrow> bool" where
  "less_SubjectKey = SubjectKey_less"

definition less_eq_SubjectKey :: "SubjectKey \<Rightarrow> SubjectKey \<Rightarrow> bool" where
  "less_eq_SubjectKey a b \<longleftrightarrow> a < b \<or> a = b"

instance
proof
  fix x y z :: SubjectKey
  have lt: "a < b \<longleftrightarrow> key_generation a < key_generation b \<or>
      key_generation a = key_generation b \<and> maybe_value (key_group a) < maybe_value (key_group b)" for a b :: SubjectKey
    unfolding less_SubjectKey_def SubjectKey_less_def present_def valid_id_def less_StrongId_def
    by (auto simp: word_neq_0_conv[symmetric] word_gt_0)
  have eq: "a = b \<longleftrightarrow> key_generation a = key_generation b \<and> maybe_value (key_group a) = maybe_value (key_group b)"
    for a b :: SubjectKey
    by (cases a; cases b) (auto simp: MaybeId.expand)
  show "x < y \<longleftrightarrow> x \<le> y \<and> \<not> y \<le> x" by (auto simp: less_eq_SubjectKey_def lt eq)
  show "x \<le> x" by (simp add: less_eq_SubjectKey_def)
  show "x \<le> y \<Longrightarrow> y \<le> z \<Longrightarrow> x \<le> z" by (auto simp: less_eq_SubjectKey_def lt)
  show "x \<le> y \<Longrightarrow> y \<le> x \<Longrightarrow> x = y" by (auto simp: less_eq_SubjectKey_def lt)
  show "x \<le> y \<or> y \<le> x" by (auto simp: less_eq_SubjectKey_def lt eq)
qed

end

record IngestResult =
  ing_accepted :: bool
  ing_reason :: DivergenceClass
  ing_id :: EvidenceId
  ing_sequence_gap :: bool
  ing_replay :: bool
  ing_persisted :: bool

definition new_ingest :: IngestResult where
  "new_ingest = \<lparr>ing_accepted = False, ing_reason = Class_None, ing_id = no_digest_id,
     ing_sequence_gap = False, ing_replay = False, ing_persisted = False\<rparr>"

record Runtime =
  rt_config :: RuntimeConfig
  rt_clock :: "nat \<Rightarrow> TimePoint"
  rt_ticks :: nat
  rt_sources :: SourceRegistry
  rt_ledger :: SourceSequenceLedger
  rt_topology :: "TopologyGeneration option"
  rt_topology_index :: "TopologyIndex option"
  rt_routes :: "RouteGeneration option"
  rt_evidence :: "(SubjectKey, ObservedPathEvidence list) omap"
  rt_source_has_gap :: "(SourceId, bool) omap"
  rt_history :: HistoryStore
  rt_findings :: FindingRegistry
  rt_metrics :: Metrics
  rt_store :: "PersistentStore option"
  rt_disk :: "byte list option"
  rt_pool :: "ObservedPathEvidence list WorkerPool option"
  rt_state :: RuntimeState
  rt_epoch :: EpochId
  rt_incarnation :: IncarnationId
  rt_route_revision :: RevisionId
  rt_topology_revision :: RevisionId

abbreviation rt_limits :: "Runtime \<Rightarrow> Limits" where
  "rt_limits rt \<equiv> cfg_limits (rt_config rt)"

definition kMaxPendingBatches :: nat where
  "kMaxPendingBatches = 256"

text \<open>\<open>None\<close> is a null clock.\<close>

definition runtime_create :: "RuntimeConfig \<Rightarrow> (nat \<Rightarrow> TimePoint) option \<Rightarrow> byte list option \<Rightarrow> Runtime Result" where
  "runtime_create config clock disk =
     try_bind (validate_limits (cfg_limits config)) (\<lambda>_.
     try_bind (ComparisonPolicy_validate (cfg_comparison config)) (\<lambda>_.
       case clock of
         None \<Rightarrow> Inl (Error InvalidArgument ''the runtime requires a clock'')
       | Some c \<Rightarrow>
           if persist config \<and> store_path config = []
           then Inl (Error InvalidArgument ''persistence was requested without a store path'')
           else Inr \<lparr>rt_config = config, rt_clock = c, rt_ticks = 0, rt_sources = [], rt_ledger = [],
                 rt_topology = None, rt_topology_index = None, rt_routes = None, rt_evidence = [],
                 rt_source_has_gap = [], rt_history = new_history (cfg_limits config),
                 rt_findings = new_findings (cfg_limits config), rt_metrics = new_metrics, rt_store = None,
                 rt_disk = disk, rt_pool = None, rt_state = Runtime_Created, rt_epoch = no_id,
                 rt_incarnation = no_id, rt_route_revision = no_id, rt_topology_revision = no_id\<rparr>))"

definition clock_now :: "Runtime \<Rightarrow> TimePoint \<times> Runtime" where
  "clock_now rt = (rt_clock rt (rt_ticks rt), rt\<lparr>rt_ticks := rt_ticks rt + 1\<rparr>)"

definition count_metric :: "(Metrics \<Rightarrow> Metrics) \<Rightarrow> Runtime \<Rightarrow> Runtime" where
  "count_metric f rt = rt\<lparr>rt_metrics := f (rt_metrics rt)\<rparr>"

section \<open>Persistence\<close>

text \<open>
  The step every writer of a record performs: nothing without a store, the error of the append, or
  one more counted append.
\<close>

definition persist_record :: "RecordType \<Rightarrow> byte list \<Rightarrow> Runtime \<Rightarrow> Status \<times> Runtime" where
  "persist_record type payload rt =
     (case rt_store rt of
        None \<Rightarrow> (ok, rt)
      | Some s \<Rightarrow>
          (case store_append type payload s of
             (Inl e, s') \<Rightarrow> (Inl e, rt\<lparr>rt_store := Some s'\<rparr>)
           | (Inr _, s') \<Rightarrow> (ok, count_metric add_store_append (rt\<lparr>rt_store := Some s'\<rparr>))))"

definition persist_evidence :: "ObservedPathEvidence \<Rightarrow> Runtime \<Rightarrow> Status \<times> Runtime" where
  "persist_evidence e = persist_record Rec_Evidence (encode_evidence e)"

definition persist_comparison :: "ComparisonResult \<Rightarrow> Runtime \<Rightarrow> Status \<times> Runtime" where
  "persist_comparison r = persist_record Rec_Comparison (encode_comparison r)"

fun persist_findings :: "Finding list \<Rightarrow> Runtime \<Rightarrow> Status \<times> Runtime" where
  "persist_findings [] rt = (ok, rt)"
| "persist_findings (f # fs) rt =
     (case persist_record Rec_Finding (encode_finding f) rt of
        (Inl e, rt) \<Rightarrow> (Inl e, rt)
      | (Inr _, rt) \<Rightarrow> persist_findings fs rt)"

definition open_store :: "Runtime \<Rightarrow> Status \<times> Runtime" where
  "open_store rt =
     (case clock_now rt of (t, rt) \<Rightarrow>
        let disk = (case rt_store rt of None \<Rightarrow> rt_disk rt | Some s \<Rightarrow> st_handle s)
        in case store_open \<lparr>store_limits = rt_limits rt, read_only = False\<rparr> t disk of
             (Inl e, disk) \<Rightarrow>
               (Inl e, rt\<lparr>rt_disk := disk, rt_store := map_option (\<lambda>s. s\<lparr>st_handle := disk\<rparr>) (rt_store rt)\<rparr>)
           | (Inr s, disk) \<Rightarrow>
               (ok, count_metric (if corrupt_tail_truncated (st_recovery s) then add_store_corrupt_tail_truncation else id)
                     (count_metric (add_store_records_recovered (of_nat (valid_records (st_recovery s))))
                       (rt\<lparr>rt_store := Some s, rt_disk := disk\<rparr>))))"

section \<open>Subjects and buckets\<close>

definition runtime_resolve_subject :: "RouteGeneration option \<Rightarrow> ObservedPathEvidence \<Rightarrow> SubjectKey Result" where
  "runtime_resolve_subject routes e =
     try_bind (if present (ev_route_generation e) then Inr (maybe_value (ev_route_generation e))
               else case routes of
                 Some r \<Rightarrow> Inr (route_id r)
               | None \<Rightarrow> Inl (Error UnknownGeneration
                   ''evidence names no route generation and no generation is current''))
       (\<lambda>generation. Inr (SubjectKey generation
          (if present (ev_group e) then ev_group e
           else case routes of
             None \<Rightarrow> absent
           | Some r \<Rightarrow>
               if route_id r \<noteq> generation then absent
               else case (if present (ev_path e) then find_path r (maybe_value (ev_path e)) else None) of
                 Some p \<Rightarrow> MaybeId (path_group p)
               | None \<Rightarrow>
                   if present (ev_origin e) \<and> present (ev_destination e)
                   then case find_group_by_endpoints r (maybe_value (ev_origin e)) (maybe_value (ev_destination e)) of
                          (Some g, ambiguous) \<Rightarrow> if ambiguous then absent else MaybeId (group_id g)
                        | (None, _) \<Rightarrow> absent
                   else absent)))"

text \<open>\<open>evidence_[key]\<close> creates an empty bucket when there is none.\<close>

definition bucket_of :: "SubjectKey \<Rightarrow> Runtime \<Rightarrow> ObservedPathEvidence list" where
  "bucket_of key rt = (case map_find (rt_evidence rt) key of None \<Rightarrow> [] | Some b \<Rightarrow> b)"

definition set_bucket :: "SubjectKey \<Rightarrow> ObservedPathEvidence list \<Rightarrow> Runtime \<Rightarrow> Runtime" where
  "set_bucket key b rt = rt\<lparr>rt_evidence := map_put key b (rt_evidence rt)\<rparr>"

section \<open>Restoring\<close>

definition decode_failure :: "Error \<Rightarrow> Error" where
  "decode_failure e = Error (error_code e) ''stored record could not be decoded''"

definition outside_model :: Error where
  "outside_model = Error NotSupported ''stored record names no enumerator''"

definition restore_evidence :: "hasher \<Rightarrow> byte list \<Rightarrow> Runtime \<Rightarrow> Status \<times> Runtime" where
  "restore_evidence H payload rt =
     (case decode_exact (decode_evidence H (rt_limits rt)) payload of
        Inl e \<Rightarrow> (Inl (decode_failure e), rt)
      | Inr e \<Rightarrow>
          (case runtime_resolve_subject (rt_routes rt) e of
             Inl _ \<Rightarrow> (ok, rt)
           | Inr key \<Rightarrow>
               let b = bucket_of key rt
               in (ok, set_bucket key
                     (if length b \<ge> unat (max_evidence_per_comparison (rt_limits rt)) \<or>
                         list_ex (\<lambda>x. ev_id x = ev_id e) b
                      then b else b @ [e]) rt)))"

definition restore_comparison :: "hasher \<Rightarrow> byte list \<Rightarrow> Runtime \<Rightarrow> Status \<times> Runtime" where
  "restore_comparison H payload rt =
     (case decode_exact (decode_comparison H (rt_limits rt)) payload of
        Inl e \<Rightarrow> (Inl (decode_failure e), rt)
      | Inr w \<Rightarrow>
          (case named_comparison w of
             None \<Rightarrow> (Inl outside_model, rt)
           | Some r \<Rightarrow> (case history_append r (rt_history rt) of (st, h) \<Rightarrow> (st, rt\<lparr>rt_history := h\<rparr>))))"

definition restore_stored_finding :: "hasher \<Rightarrow> byte list \<Rightarrow> Runtime \<Rightarrow> Status \<times> Runtime" where
  "restore_stored_finding H payload rt =
     (case decode_exact (decode_finding H (rt_limits rt)) payload of
        Inl e \<Rightarrow> (Inl (decode_failure e), rt)
      | Inr w \<Rightarrow>
          (case named_finding w of
             None \<Rightarrow> (Inl outside_model, rt)
           | Some f \<Rightarrow> (case restore_finding H f (rt_findings rt) of (st, reg) \<Rightarrow> (st, rt\<lparr>rt_findings := reg\<rparr>))))"

definition restore_source :: "hasher \<Rightarrow> byte list \<Rightarrow> Runtime \<Rightarrow> Status \<times> Runtime" where
  "restore_source H payload rt =
     (case decode_exact (decode_source_descriptor (rt_limits rt)) payload of
        Inl e \<Rightarrow> (Inl (decode_failure e), rt)
      | Inr d \<Rightarrow> (case register_source H d (rt_sources rt) of (st, ss) \<Rightarrow> (st, rt\<lparr>rt_sources := ss\<rparr>)))"

definition restore_record :: "hasher \<Rightarrow> StoredRecord \<Rightarrow> Runtime \<Rightarrow> Status \<times> Runtime" where
  "restore_record H r =
     (case rec_type r of
        Rec_Evidence \<Rightarrow> restore_evidence H (rec_payload r)
      | Rec_Comparison \<Rightarrow> restore_comparison H (rec_payload r)
      | Rec_Finding \<Rightarrow> restore_stored_finding H (rec_payload r)
      | Rec_Source \<Rightarrow> restore_source H (rec_payload r)
      | _ \<Rightarrow> Pair ok)"

fun restore_records :: "hasher \<Rightarrow> StoredRecord list \<Rightarrow> Runtime \<Rightarrow> Status \<times> Runtime" where
  "restore_records H [] rt = (ok, rt)"
| "restore_records H (r # rs) rt =
     (case restore_record H r rt of
        (Inl e, rt) \<Rightarrow> (Inl e, rt)
      | (Inr _, rt) \<Rightarrow> restore_records H rs rt)"

definition restore_from_store :: "hasher \<Rightarrow> Runtime \<Rightarrow> Status \<times> Runtime" where
  "restore_from_store H rt =
     (case rt_store rt of
        None \<Rightarrow> (Inl (Error InvalidState ''no store is open''), rt)
      | Some s \<Rightarrow>
          (case read_all s of
             Inl e \<Rightarrow> (Inl e, rt)
           | Inr stored \<Rightarrow> restore_records H stored rt))"

section \<open>Life cycle\<close>

definition forget_expected :: "Runtime \<Rightarrow> Runtime" where
  "forget_expected rt = rt\<lparr>rt_epoch := no_id, rt_incarnation := no_id, rt_route_revision := no_id,
     rt_topology_revision := no_id, rt_topology := None, rt_topology_index := None, rt_routes := None\<rparr>"

definition worker_thread_total :: "RuntimeConfig \<Rightarrow> u32" where
  "worker_thread_total c =
     (if cfg_worker_threads c = 0 then worker_threads (cfg_limits c) else cfg_worker_threads c)"

text \<open>The part of \<open>start\<close> after the pool has been started.\<close>

definition start_store :: "hasher \<Rightarrow> Runtime \<Rightarrow> Status \<times> Runtime" where
  "start_store H rt =
     (if \<not> persist (rt_config rt) then (ok, rt)
      else case open_store rt of
          (Inl e, rt) \<Rightarrow> (Inl e, rt)
        | (Inr _, rt) \<Rightarrow> if load_evidence_on_start (rt_config rt) then restore_from_store H rt else (ok, rt))"

definition runtime_start :: "hasher \<Rightarrow> Runtime \<Rightarrow> Status \<times> Runtime" where
  "runtime_start H rt =
     (if rt_state rt = Runtime_Running then (Inl (Error InvalidState ''runtime is already running''), rt)
      else if rt_state rt = Runtime_Stopping then (Inl (Error InvalidState ''runtime is stopping''), rt)
      else let threads = worker_thread_total (rt_config rt)
           in if threads = 0 \<or> threads > max_worker_threads (rt_limits rt)
              then (Inl (Error OutOfRange ''worker thread count is outside the configured bounds''), rt)
              else case pool_start (new_pool (unat threads) (unat (max_queue_depth (rt_limits rt)))) of
                (Inl e, pool) \<Rightarrow> (Inl e, rt\<lparr>rt_pool := Some pool, rt_state := Runtime_Failed\<rparr>)
              | (Inr _, pool) \<Rightarrow>
                  (case start_store H (rt\<lparr>rt_pool := Some pool\<rparr>) of
                     (Inl e, rt) \<Rightarrow> (Inl e, rt\<lparr>rt_state := Runtime_Failed\<rparr>)
                   | (Inr _, rt) \<Rightarrow> (ok, (forget_expected rt)\<lparr>rt_state := Runtime_Running\<rparr>)))"

text \<open>
  \<open>stop\<close> up to the point where it waits for the workers, and after they have returned. A runtime
  that is already stopped is left alone.
\<close>

definition stop_begin :: "Runtime \<Rightarrow> Runtime" where
  "stop_begin rt =
     (if rt_state rt = Runtime_Stopped then rt
      else rt\<lparr>rt_state := Runtime_Stopping, rt_pool := map_option (shutdown_begin False) (rt_pool rt)\<rparr>)"

definition stop_end :: "Runtime \<Rightarrow> Status \<times> Runtime" where
  "stop_end rt =
     (let rt = rt\<lparr>rt_pool := map_option shutdown_end (rt_pool rt)\<rparr>
      in case rt_store rt of
           None \<Rightarrow> (ok, rt\<lparr>rt_state := Runtime_Stopped\<rparr>)
         | Some s \<Rightarrow>
             if \<not> mark_store_clean_on_stop (rt_config rt) then (ok, rt\<lparr>rt_state := Runtime_Stopped\<rparr>)
             else case clock_now rt of (t, rt) \<Rightarrow>
               (case mark_clean t s of
                  (Inl e, s) \<Rightarrow> (Inl e, rt\<lparr>rt_store := Some s, rt_state := Runtime_Failed\<rparr>)
                | (Inr _, s) \<Rightarrow> (ok, rt\<lparr>rt_store := Some s, rt_state := Runtime_Stopped\<rparr>)))"

section \<open>The authority side\<close>

definition runtime_register_source :: "hasher \<Rightarrow> SourceDescriptor \<Rightarrow> Runtime \<Rightarrow> Status \<times> Runtime" where
  "runtime_register_source H d rt =
     (case persist_record Rec_Source (encode_source d) rt of
        (Inl e, rt) \<Rightarrow> (Inl e, rt)
      | (Inr _, rt) \<Rightarrow>
          (case register_source H d (rt_sources rt) of (st, ss) \<Rightarrow> (st, rt\<lparr>rt_sources := ss\<rparr>)))"

definition runtime_source :: "SourceId \<Rightarrow> Runtime \<Rightarrow> SourceDescriptor Result" where
  "runtime_source i rt = registry_find (rt_sources rt) i"

definition runtime_sources :: "Runtime \<Rightarrow> SourceDescriptor list" where
  "runtime_sources rt = registry_all (rt_sources rt)"

text \<open>The guards of a publication after its generation has been finalized, in source order.\<close>

definition topology_guards :: "TopologyGeneration \<Rightarrow> Runtime \<Rightarrow> Status" where
  "topology_guards g rt = first_error
     [guard_err (\<not> registry_contains (rt_sources rt) (topo_source g)) UnknownIdentity
        ''topology generation names a source that is not registered'',
      guard_err (valid_id (rt_epoch rt) \<and> topo_epoch g < rt_epoch rt) FencedEvidence
        ''topology generation belongs to a superseded epoch'',
      guard_err (case rt_topology rt of
          None \<Rightarrow> False
        | Some t \<Rightarrow> topo_epoch t = topo_epoch g \<and> topo_incarnation t = topo_incarnation g \<and>
                    topo_revision g < topo_revision t) FencedEvidence
        ''topology generation is an older revision'']"

definition republished_topology :: "TopologyGeneration \<Rightarrow> Runtime \<Rightarrow> bool" where
  "republished_topology g rt =
     (case rt_topology rt of
        None \<Rightarrow> False
      | Some t \<Rightarrow> topo_id t = topo_id g \<and> topo_revision t = topo_revision g)"

definition publish_topology :: "hasher \<Rightarrow> TopologyGeneration \<Rightarrow> Runtime \<Rightarrow> Status \<times> Runtime" where
  "publish_topology H generation rt =
     (case TopologyGeneration_finalize H (rt_limits rt) generation of
        Inl e \<Rightarrow> (Inl e, rt)
      | Inr g \<Rightarrow>
          (case topology_guards g rt of
             Inl e \<Rightarrow> (Inl e, rt)
           | Inr _ \<Rightarrow>
               if republished_topology g rt then (ok, rt)
               else case TopologyIndex_build g (rt_limits rt) of
                   Inl e \<Rightarrow> (Inl e, rt)
                 | Inr index \<Rightarrow>
                     persist_record Rec_TopologyGeneration (encode_topology g)
                       (rt\<lparr>rt_epoch := topo_epoch g, rt_incarnation := topo_incarnation g,
                           rt_topology_revision := topo_revision g, rt_topology_index := Some index,
                           rt_topology := Some g\<rparr>)))"

definition route_guards :: "RouteGeneration \<Rightarrow> Runtime \<Rightarrow> Status" where
  "route_guards g rt = first_error
     [guard_err (\<not> registry_contains (rt_sources rt) (route_source g)) UnknownIdentity
        ''route generation names a source that is not registered'',
      guard_err (rt_topology rt = None) InvalidState
        ''route generation references a topology generation which has not been published'',
      guard_err (case rt_topology rt of None \<Rightarrow> False | Some t \<Rightarrow> route_topology g \<noteq> topo_id t) UnknownGeneration
        ''route generation references a topology generation that is not current'',
      guard_err (valid_id (rt_epoch rt) \<and> route_epoch g < rt_epoch rt) FencedEvidence
        ''route generation belongs to a superseded epoch'',
      guard_err (case rt_routes rt of
          None \<Rightarrow> False
        | Some r \<Rightarrow> route_epoch r = route_epoch g \<and> route_incarnation r = route_incarnation g \<and>
                    route_revision g < route_revision r) FencedEvidence
        ''route generation is an older revision'']"

definition republished_routes :: "RouteGeneration \<Rightarrow> Runtime \<Rightarrow> bool" where
  "republished_routes g rt =
     (case rt_routes rt of
        None \<Rightarrow> False
      | Some r \<Rightarrow> route_id r = route_id g \<and> route_revision r = route_revision g)"

definition publish_routes :: "hasher \<Rightarrow> RouteGeneration \<Rightarrow> Runtime \<Rightarrow> Status \<times> Runtime" where
  "publish_routes H generation rt =
     (case RouteGeneration_finalize H (rt_limits rt) generation of
        Inl e \<Rightarrow> (Inl e, rt)
      | Inr g \<Rightarrow>
          (case route_guards g rt of
             Inl e \<Rightarrow> (Inl e, rt)
           | Inr _ \<Rightarrow>
               if republished_routes g rt then (ok, rt)
               else persist_record Rec_RouteGeneration (encode_routes g)
                      (rt\<lparr>rt_epoch := route_epoch g, rt_incarnation := route_incarnation g,
                          rt_route_revision := route_revision g, rt_routes := Some g\<rparr>)))"

definition has_topology :: "Runtime \<Rightarrow> bool" where
  "has_topology rt \<longleftrightarrow> rt_topology rt \<noteq> None"

definition has_routes :: "Runtime \<Rightarrow> bool" where
  "has_routes rt \<longleftrightarrow> rt_routes rt \<noteq> None"

definition authority_state :: "Runtime \<Rightarrow> AuthorityState" where
  "authority_state rt = \<lparr>auth_epoch = rt_epoch rt, auth_incarnation = rt_incarnation rt,
     auth_route_source = (case rt_routes rt of None \<Rightarrow> no_id | Some r \<Rightarrow> route_source r),
     auth_route_revision = rt_route_revision rt,
     auth_topology_source = (case rt_topology rt of None \<Rightarrow> no_id | Some t \<Rightarrow> topo_source t),
     auth_topology_revision = rt_topology_revision rt\<rparr>"

definition runtime_topology :: "Runtime \<Rightarrow> TopologyGeneration Result" where
  "runtime_topology rt =
     (case rt_topology rt of
        None \<Rightarrow> Inl (Error UnknownGeneration ''no topology generation is current'') | Some t \<Rightarrow> Inr t)"

definition runtime_routes :: "Runtime \<Rightarrow> RouteGeneration Result" where
  "runtime_routes rt =
     (case rt_routes rt of
        None \<Rightarrow> Inl (Error UnknownGeneration ''no route generation is current'') | Some r \<Rightarrow> Inr r)"

section \<open>The observation side\<close>

definition count_rejected :: "Runtime \<Rightarrow> Runtime" where
  "count_rejected rt = count_metric (add_evidence_rejected 1) (count_metric (add_evidence_offered 1) rt)"

definition rejected_as :: "DivergenceClass \<Rightarrow> IngestResult \<Rightarrow> Runtime \<Rightarrow> IngestResult \<times> Runtime" where
  "rejected_as reason res rt = (res\<lparr>ing_reason := reason\<rparr>, count_rejected rt)"

text \<open>The verdict of the ledger on the gap flag of the source.\<close>

definition note_sequence :: "Verdict \<Rightarrow> ObservedPathEvidence \<Rightarrow> Runtime \<Rightarrow> Runtime" where
  "note_sequence v e rt =
     (if v = Gap
      then count_metric (add_evidence_gap_events 1)
             (rt\<lparr>rt_source_has_gap := map_put (ev_source e) True (rt_source_has_gap rt)\<rparr>)
      else if v = NewIncarnation
      then rt\<lparr>rt_source_has_gap := map_put (ev_source e) False (rt_source_has_gap rt)\<rparr>
      else rt)"

text \<open>The part of the ingestion that files a sealed record.\<close>

definition file_evidence :: "ObservedPathEvidence \<Rightarrow> IngestResult \<Rightarrow> Runtime \<Rightarrow> IngestResult \<times> Runtime" where
  "file_evidence e res rt =
     (case runtime_resolve_subject (rt_routes rt) e of
        Inl _ \<Rightarrow> rejected_as EvidenceUnknown res rt
      | Inr key \<Rightarrow>
          let b = bucket_of key rt; rt = set_bucket key b rt
          in if length b \<ge> unat (max_evidence_per_comparison (rt_limits rt))
             then rejected_as EvidenceIncomplete res rt
             else if list_ex (\<lambda>x. ev_id x = ev_id e) b
             then (res\<lparr>ing_accepted := True\<rparr>, count_metric (add_evidence_offered 1) rt)
             else case persist_evidence e rt of
                 (Inl _, rt) \<Rightarrow> (res\<lparr>ing_reason := EvidenceUnknown\<rparr>, rt)
               | (Inr _, rt) \<Rightarrow>
                   (res\<lparr>ing_persisted := True, ing_accepted := True\<rparr>,
                    count_metric (add_evidence_accepted 1)
                      (count_metric (add_evidence_offered 1) (set_bucket key (b @ [e]) rt))))"

definition ingest_evidence :: "hasher \<Rightarrow> ObservedPathEvidence \<Rightarrow> Runtime \<Rightarrow> IngestResult \<times> Runtime" where
  "ingest_evidence H e rt =
     (case evidence_validate H (rt_limits rt) e of
        Inl _ \<Rightarrow> rejected_as EvidenceUnknown new_ingest rt
      | Inr _ \<Rightarrow>
          (case registry_find (rt_sources rt) (ev_source e) of
             Inl _ \<Rightarrow> rejected_as AuthorityInsufficient new_ingest
                         (count_metric (add_evidence_unregistered_source 1) rt)
           | Inr d \<Rightarrow>
               if AuthorityClass_code (ev_authority e) > AuthorityClass_code (source_authority d)
               then rejected_as AuthorityInsufficient new_ingest rt
               else if source_surface d \<noteq> ev_surface e then rejected_as EvidenceUnknown new_ingest rt
               else case observe (ev_source e) (ev_incarnation e) (ev_sequence e) (rt_ledger rt) of
                 (seq, ledger) \<Rightarrow>
                   let rt = rt\<lparr>rt_ledger := ledger\<rparr>
                   in if verdict seq = Replay
                      then rejected_as SourceSequenceReplay (new_ingest\<lparr>ing_replay := True\<rparr>)
                             (count_metric (add_evidence_replayed 1) rt)
                      else let e = seal H e
                           in file_evidence e
                                (new_ingest\<lparr>ing_sequence_gap := (verdict seq = Gap), ing_id := ev_id e\<rparr>)
                                (note_sequence (verdict seq) e rt)))"

fun ingest_all :: "hasher \<Rightarrow> ObservedPathEvidence list \<Rightarrow> Runtime \<Rightarrow> nat \<times> Runtime" where
  "ingest_all H [] rt = (0, rt)"
| "ingest_all H (e # es) rt =
     (case ingest_evidence H e rt of
        (res, rt) \<Rightarrow> case ingest_all H es rt of
          (n, rt) \<Rightarrow> (if ing_accepted res then n + 1 else n, rt))"

definition ingest_batch :: "hasher \<Rightarrow> ObservedPathEvidence list \<Rightarrow> Runtime \<Rightarrow> nat Result \<times> Runtime" where
  "ingest_batch H batch rt =
     (if length batch > unat (max_evidence_per_ingest_batch (rt_limits rt))
      then (Inl (Error CapacityExceeded ''batch exceeds the configured ingest bound''), rt)
      else case ingest_all H batch rt of (n, rt) \<Rightarrow> (Inr n, rt))"

definition pending_batches :: "Runtime \<Rightarrow> nat" where
  "pending_batches rt = (case rt_pool rt of None \<Rightarrow> 0 | Some p \<Rightarrow> pending p)"

definition submit_batch :: "ObservedPathEvidence list \<Rightarrow> Runtime \<Rightarrow> Status \<times> Runtime" where
  "submit_batch batch rt =
     (if rt_state rt \<noteq> Runtime_Running then (Inl (Error InvalidState ''runtime is not running''), rt)
      else case rt_pool rt of
          None \<Rightarrow> (Inl (Error InvalidState ''runtime has no worker pool''), rt)
        | Some p \<Rightarrow>
            if pending p \<ge> kMaxPendingBatches
            then (Inl (Error CapacityExceeded ''too many batches are already queued''), rt)
            else case pool_submit (Some batch) p of (st, p) \<Rightarrow> (st, rt\<lparr>rt_pool := Some p\<rparr>))"

section \<open>Comparison\<close>

definition make_context :: "TimePoint \<Rightarrow> Runtime \<Rightarrow> ComparisonContext" where
  "make_context t rt = \<lparr>ctx_routes = rt_routes rt, ctx_topology = rt_topology rt,
     ctx_topology_index = rt_topology_index rt, ctx_sources = Some (rt_sources rt),
     ctx_authority = \<lparr>auth_epoch = rt_epoch rt, auth_incarnation = rt_incarnation rt, auth_route_source = no_id,
       auth_route_revision = rt_route_revision rt, auth_topology_source = no_id,
       auth_topology_revision = rt_topology_revision rt\<rparr>,
     ctx_now = t\<rparr>"

definition bucket_request :: "SubjectKey \<Rightarrow> Runtime \<Rightarrow> ComparisonRequest" where
  "bucket_request key rt = \<lparr>req_generation = key_generation key, req_group = key_group key, req_path = absent,
     req_evidence = bucket_of key rt,
     source_sequence_gap = list_ex (\<lambda>e. map_find (rt_source_has_gap rt) (ev_source e) = Some True) (bucket_of key rt)\<rparr>"

text \<open>The recording of a result: history, findings, and the store.\<close>

definition record_result :: "hasher \<Rightarrow> ComparisonResult \<Rightarrow> Runtime \<Rightarrow> ComparisonResult Result \<times> Runtime" where
  "record_result H result rt =
     (case history_append result (rt_history rt) of
        (Inl e, h) \<Rightarrow> (Inl e, rt\<lparr>rt_history := h\<rparr>)
      | (Inr _, h) \<Rightarrow>
          (case clock_now (rt\<lparr>rt_history := h\<rparr>) of (t, rt) \<Rightarrow>
             case record_finding H result t (rt_findings rt) of
               (Inl e, reg) \<Rightarrow> (Inl e, rt\<lparr>rt_findings := reg\<rparr>)
             | (Inr i, reg) \<Rightarrow>
                 let rt = rt\<lparr>rt_findings := reg\<rparr>;
                     rt = (if valid_digest_id i then count_metric add_finding_recorded rt
                           else case clock_now rt of (t, rt) \<Rightarrow>
                             case resolve_from_match result t (rt_findings rt) of
                               (n, reg) \<Rightarrow> count_metric (add_finding_resolved (of_nat n)) (rt\<lparr>rt_findings := reg\<rparr>))
                 in if rt_store rt = None then (Inr result, rt)
                    else case persist_comparison result rt of
                        (Inl e, rt) \<Rightarrow> (Inl e, rt)
                      | (Inr _, rt) \<Rightarrow>
                          (case persist_findings
                                  (filter (\<lambda>f. last_comparison f = cmp_id result) (all_findings (rt_findings rt))) rt of
                             (Inl e, rt) \<Rightarrow> (Inl e, rt)
                           | (Inr _, rt) \<Rightarrow> (Inr result, rt))))"

definition compare_bucket :: "hasher \<Rightarrow> SubjectKey \<Rightarrow> bool \<Rightarrow> Runtime \<Rightarrow> ComparisonResult Result \<times> Runtime" where
  "compare_bucket H key keep rt =
     (case clock_now rt of (t, rt) \<Rightarrow>
        case compare H (rt_limits rt) (cfg_comparison (rt_config rt)) (bucket_request key rt) (make_context t rt) of
          Inl e \<Rightarrow> (Inl e, rt)
        | Inr result \<Rightarrow>
            let rt = count_metric (add_comparison (outcome result)) rt
            in if \<not> keep then (Inr result, rt) else record_result H result rt)"

text \<open>The first bucket of a group in the order of the map.\<close>

definition bucket_of_group :: "PathGroupId \<Rightarrow> Runtime \<Rightarrow> SubjectKey option" where
  "bucket_of_group g rt =
     List.find (\<lambda>key. present (key_group key) \<and> maybe_value (key_group key) = g) (map fst (rt_evidence rt))"

definition compare_group :: "hasher \<Rightarrow> PathGroupId \<Rightarrow> Runtime \<Rightarrow> ComparisonResult Result \<times> Runtime" where
  "compare_group H g rt =
     (case bucket_of_group g rt of
        None \<Rightarrow> (Inl (Error UnknownIdentity ''no evidence is held for this path group''), rt)
      | Some key \<Rightarrow> compare_bucket H key True rt)"

definition compare_path :: "hasher \<Rightarrow> PathId \<Rightarrow> Runtime \<Rightarrow> ComparisonResult Result \<times> Runtime" where
  "compare_path H p rt =
     (case rt_routes rt of
        None \<Rightarrow> (Inl (Error UnknownGeneration ''no route generation is current''), rt)
      | Some routes \<Rightarrow>
          (case find_path routes p of
             None \<Rightarrow> (Inl (Error UnknownIdentity ''no expected path with this identity''), rt)
           | Some expected \<Rightarrow>
               (case bucket_of_group (path_group expected) rt of
                  None \<Rightarrow> (Inl (Error UnknownIdentity ''no evidence is held for this path''), rt)
                | Some key \<Rightarrow> compare_bucket H key True rt)))"

fun compare_keys :: "hasher \<Rightarrow> SubjectKey list \<Rightarrow> Runtime \<Rightarrow> ComparisonResult list Result \<times> Runtime" where
  "compare_keys H [] rt = (Inr [], rt)"
| "compare_keys H (key # keys) rt =
     (case compare_bucket H key True rt of
        (Inl e, rt) \<Rightarrow> (Inl e, rt)
      | (Inr r, rt) \<Rightarrow>
          (case compare_keys H keys rt of
             (Inl e, rt) \<Rightarrow> (Inl e, rt)
           | (Inr rs, rt) \<Rightarrow> (Inr (r # rs), rt)))"

definition compare_all :: "hasher \<Rightarrow> Runtime \<Rightarrow> ComparisonResult list Result \<times> Runtime" where
  "compare_all H rt = compare_keys H (map fst (rt_evidence rt)) rt"

text \<open>The task of a submitted batch; the token is read before and after the ingestion.\<close>

definition batch_task :: "hasher \<Rightarrow> ObservedPathEvidence list \<Rightarrow> bool \<Rightarrow> bool \<Rightarrow> Runtime \<Rightarrow> Runtime" where
  "batch_task H batch cancelled_before cancelled_after rt =
     (if cancelled_before then count_metric add_task_cancelled rt
      else let rt = snd (ingest_batch H batch rt)
           in if cancelled_after then count_metric add_task_cancelled rt
              else count_metric add_task_completed (snd (compare_all H rt)))"

section \<open>Queries and maintenance\<close>

definition runtime_history :: "HistoryQuery \<Rightarrow> Runtime \<Rightarrow> HistoryQueryResult \<times> Runtime" where
  "runtime_history q rt =
     (if is_set (query_now q) then (query q (rt_history rt), rt)
      else case clock_now rt of (t, rt) \<Rightarrow> (query (q\<lparr>query_now := t, apply_window := True\<rparr>) (rt_history rt), rt))"

definition runtime_findings :: "Runtime \<Rightarrow> Finding list" where
  "runtime_findings rt = all_findings (rt_findings rt)"

definition runtime_finding :: "FindingId \<Rightarrow> Runtime \<Rightarrow> Finding Result" where
  "runtime_finding i rt = find_finding (rt_findings rt) i"

definition acknowledge_finding :: "FindingId \<Rightarrow> Runtime \<Rightarrow> Status \<times> Runtime" where
  "acknowledge_finding i rt =
     (case clock_now rt of (t, rt) \<Rightarrow>
        case acknowledge i t (rt_findings rt) of (st, reg) \<Rightarrow> (st, rt\<lparr>rt_findings := reg\<rparr>))"

definition prune_history :: "Runtime \<Rightarrow> nat Result \<times> Runtime" where
  "prune_history rt =
     (case clock_now rt of (t, rt) \<Rightarrow>
        case prune t (rt_history rt) of (n, h) \<Rightarrow> (n, rt\<lparr>rt_history := h\<rparr>))"

definition flush :: "Runtime \<Rightarrow> Status \<times> Runtime" where
  "flush rt =
     (if rt_store rt = None then (ok, rt) else persist_findings (all_findings (rt_findings rt)) rt)"

definition persistent :: "Runtime \<Rightarrow> bool" where
  "persistent rt \<longleftrightarrow> rt_store rt \<noteq> None"

definition runtime_recovery :: "Runtime \<Rightarrow> RecoveryReport" where
  "runtime_recovery rt = (case rt_store rt of None \<Rightarrow> new_report | Some s \<Rightarrow> st_recovery s)"

record RuntimeStats =
  stat_state :: RuntimeState
  stat_metrics :: MetricsSnapshot
  evidence_buckets :: nat
  evidence_records :: nat
  stat_findings :: nat
  findings_open :: nat
  stat_history :: nat
  queue_pending :: nat
  stat_epoch :: EpochId
  stat_incarnation :: IncarnationId
  stat_route_generation :: RouteGenerationId
  stat_topology_generation :: TopologyGenerationId
  stat_route_revision :: RevisionId
  stat_recovery :: RecoveryReport
  has_route_generation :: bool
  has_topology_generation :: bool

definition stats :: "Runtime \<Rightarrow> RuntimeStats" where
  "stats rt = \<lparr>stat_state = rt_state rt, stat_metrics = snapshot (rt_metrics rt),
     evidence_buckets = length (rt_evidence rt),
     evidence_records = sum_list (map (length \<circ> snd) (rt_evidence rt)),
     stat_findings = findings_size (rt_findings rt), findings_open = open_count (rt_findings rt),
     stat_history = history_size (rt_history rt), queue_pending = pending_batches rt,
     stat_epoch = rt_epoch rt, stat_incarnation = rt_incarnation rt,
     stat_route_generation = (case rt_routes rt of None \<Rightarrow> no_id | Some r \<Rightarrow> route_id r),
     stat_topology_generation =
       (case rt_routes rt of
          Some r \<Rightarrow> route_topology r
        | None \<Rightarrow> (case rt_topology rt of None \<Rightarrow> no_id | Some t \<Rightarrow> topo_id t)),
     stat_route_revision = rt_route_revision rt, stat_recovery = runtime_recovery rt,
     has_route_generation = has_routes rt, has_topology_generation = has_topology rt\<rparr>"

end
