(* ===== verification/PersistenceFrames.thy ===== *)
theory PersistenceFrames
  imports Persistence
begin

text \<open>
  The bytes of a store file. A file is read as the longest run of valid records after its headers
  (\<open>stored_records\<close>); the scanning and the reading loop are characterised by it for arbitrary bytes,
  and a frame or a header slot that was written is read back.
\<close>

section \<open>Reading back words and frames\<close>

lemma length_put [simp]:
  "length (put_u32 a) = 4" "length (put_u64 b) = 8" "length (put_i64 c) = 8"
  by (simp_all add: put_u32_def put_u64_def put_i64_def)

lemma get_put_u32: "length xs = at \<Longrightarrow> get_u32 (xs @ put_u32 v @ ys) at = v"
  by (simp add: get_u32_def put_u32_def le_value_le_bytes)

lemma get_put_u64: "length xs = at \<Longrightarrow> get_u64 (xs @ put_u64 v @ ys) at = v"
  by (simp add: get_u64_def put_u64_def le_value_le_bytes)

lemma get_put_i64: "length xs = at \<Longrightarrow> get_i64 (xs @ put_i64 v @ ys) at = v"
  by (simp add: get_i64_def put_i64_def get_put_u64)

lemma get_put_u16: "length xs = at \<Longrightarrow> get_u16 (xs @ le_bytes 2 v @ ys) at = v"
  by (simp add: get_u16_def le_value_le_bytes)

text \<open>A read does not see past its own bytes.\<close>

lemma get_take [simp]:
  "at + 4 \<le> n \<Longrightarrow> get_u32 (take n bs) at = get_u32 bs at"
  "at + 8 \<le> n \<Longrightarrow> get_u64 (take n bs) at = get_u64 bs at"
  "at + 2 \<le> n \<Longrightarrow> get_u16 (take n bs) at = get_u16 bs at"
  by (simp_all add: get_u32_def get_u64_def get_u16_def drop_take)

lemma length_record_header_prefix [simp]: "length (record_header_prefix n t s c) = 20"
  by (simp add: record_header_prefix_def)

lemma length_write_record_header [simp]: "length (write_record_header n t s c) = kStoreRecordHeaderBytes"
  by (simp add: write_record_header_def Let_def kStoreRecordHeaderBytes_def)

lemma length_frame [simp]: "length (frame r) = kStoreRecordHeaderBytes + length (rec_payload r)"
  by (simp add: frame_def)

lemma parse_record_type_code [simp]: "parse_record_type (RecordType_code t) = Inr t"
  by (cases t) (simp_all add: parse_record_type_def)

lemma record_header_fields:
  fixes n t s c
  defines "h \<equiv> write_record_header n t s c"
  shows "get_u32 h 0 = of_nat n" and "get_u16 h 4 = RecordType_code t" and "get_u64 h 8 = s"
    and "get_u32 h 16 = c" and "get_u32 h 20 = crc32c (take 20 h)"
proof -
  let ?p = "record_header_prefix n t s c"
  have h: "h = ?p @ put_u32 (crc32c ?p) @ put_u64 0" by (simp add: h_def write_record_header_def Let_def)
  show "get_u32 h 0 = of_nat n"
    using get_put_u32[of "[]" 0] by (simp add: h record_header_prefix_def)
  show "get_u16 h 4 = RecordType_code t"
    using get_put_u16[of "put_u32 (of_nat n)" 4] by (simp add: h record_header_prefix_def)
  show "get_u64 h 8 = s"
    using get_put_u64[of "put_u32 (of_nat n) @ le_bytes 2 (RecordType_code t) @ [0, 0]" 8]
    by (simp add: h record_header_prefix_def)
  show "get_u32 h 16 = c"
    using get_put_u32[of "put_u32 (of_nat n) @ le_bytes 2 (RecordType_code t) @ [0, 0] @ put_u64 s" 16]
    by (simp add: h record_header_prefix_def)
  show "get_u32 h 20 = crc32c (take 20 h)"
    using get_put_u32[of ?p 20] by (simp add: h)
qed

section \<open>The records of a file\<close>

text \<open>The record at the front of a run of bytes.\<close>

definition front_record :: "byte list \<Rightarrow> StoredRecord" where
  "front_record rest =
     (let header = take kStoreRecordHeaderBytes rest; body = drop kStoreRecordHeaderBytes rest
      in \<lparr>rec_type = value_or (parse_record_type (get_u16 header 4)) Rec_Marker,
          rec_sequence = get_u64 header 8,
          rec_payload = take (unat (get_u32 header 0)) body\<rparr>)"

definition front_valid :: "Limits \<Rightarrow> byte list \<Rightarrow> bool" where
  "front_valid limits rest \<longleftrightarrow> kStoreRecordHeaderBytes \<le> length rest \<and>
     record_valid limits (take kStoreRecordHeaderBytes rest) (drop kStoreRecordHeaderBytes rest)"

definition front_size :: "byte list \<Rightarrow> nat" where
  "front_size rest = kStoreRecordHeaderBytes + unat (get_u32 (take kStoreRecordHeaderBytes rest) 0)"

text \<open>The longest run of valid records, and the bytes after it.\<close>

function stored_records :: "Limits \<Rightarrow> byte list \<Rightarrow> StoredRecord list \<times> byte list" where
  "stored_records limits rest =
     (if front_valid limits rest
      then let (rs, tail) = stored_records limits (drop (front_size rest) rest) in (front_record rest # rs, tail)
      else ([], rest))"
  by pat_completeness auto
termination
  by (relation "measure (\<lambda>(_, rest). length rest)")
    (auto simp: front_valid_def front_size_def kStoreRecordHeaderBytes_def)

declare stored_records.simps [simp del]

lemma stored_records_invalid: "\<not> front_valid limits rest \<Longrightarrow> stored_records limits rest = ([], rest)"
  by (simp add: stored_records.simps)

lemma stored_records_Nil [simp]: "stored_records limits [] = ([], [])"
  by (rule stored_records_invalid) (simp add: front_valid_def kStoreRecordHeaderBytes_def)

lemma stored_records_valid:
  "front_valid limits rest \<Longrightarrow>
   stored_records limits rest =
     (front_record rest # fst (stored_records limits (drop (front_size rest) rest)),
      snd (stored_records limits (drop (front_size rest) rest)))"
  by (subst stored_records.simps) (simp add: case_prod_beta Let_def)

lemma front_size_le: "front_valid limits rest \<Longrightarrow> front_size rest \<le> length rest"
  by (auto simp: front_valid_def front_size_def record_valid_def Let_def)

lemma front_size_pos: "0 < front_size rest"
  by (simp add: front_size_def kStoreRecordHeaderBytes_def)

lemma stored_records_length: "length (snd (stored_records limits rest)) \<le> length rest"
proof (induction limits rest rule: stored_records.induct)
  case (1 limits rest)
  show ?case
  proof (cases "front_valid limits rest")
    case True
    from 1[OF True] show ?thesis by (simp add: stored_records_valid[OF True])
  qed (simp add: stored_records_invalid)
qed

text \<open>The bytes of the valid records and the tail make up the input.\<close>

lemma stored_records_suffix:
  "drop (length rest - length (snd (stored_records limits rest))) rest = snd (stored_records limits rest)"
proof (induction limits rest rule: stored_records.induct)
  case (1 limits rest)
  show ?case
  proof (cases "front_valid limits rest")
    case True
    let ?d = "drop (front_size rest) rest"
    have le: "length (snd (stored_records limits ?d)) \<le> length ?d" by (rule stored_records_length)
    have "length rest - length (snd (stored_records limits ?d)) =
        (length ?d - length (snd (stored_records limits ?d))) + front_size rest"
      using le front_size_le[OF True] by simp
    then show ?thesis using 1[OF True] by (simp add: stored_records_valid[OF True])
  qed (simp add: stored_records_invalid)
qed

text \<open>A valid record at the front stays one when bytes are added behind.\<close>

lemma record_valid_append: "record_valid limits h b \<Longrightarrow> record_valid limits h (b @ c)"
  by (simp add: record_valid_def Let_def)

lemma front_append:
  assumes "front_valid limits xs"
  shows "front_valid limits (xs @ ys)" and "front_record (xs @ ys) = front_record xs"
    and "front_size (xs @ ys) = front_size xs"
proof -
  have l: "kStoreRecordHeaderBytes \<le> length xs" using assms by (simp add: front_valid_def)
  then have h: "take kStoreRecordHeaderBytes (xs @ ys) = take kStoreRecordHeaderBytes xs"
    and b: "drop kStoreRecordHeaderBytes (xs @ ys) = drop kStoreRecordHeaderBytes xs @ ys" by simp_all
  have n: "unat (get_u32 (take kStoreRecordHeaderBytes xs) 0) \<le> length (drop kStoreRecordHeaderBytes xs)"
    using assms by (simp add: front_valid_def record_valid_def Let_def)
  show "front_valid limits (xs @ ys)"
    using assms l record_valid_append unfolding front_valid_def h b by auto
  show "front_record (xs @ ys) = front_record xs" 
    using n unfolding front_record_def h b Let_def by simp
  show "front_size (xs @ ys) = front_size xs" by (simp only: front_size_def h)
qed

lemma stored_records_append:
  "snd (stored_records limits xs) = [] \<Longrightarrow>
   stored_records limits (xs @ ys) =
     (fst (stored_records limits xs) @ fst (stored_records limits ys), snd (stored_records limits ys))"
proof (induction limits xs rule: stored_records.induct)
  case (1 limits xs)
  show ?case
  proof (cases "front_valid limits xs")
    case True
    have "drop (front_size xs) (xs @ ys) = drop (front_size xs) xs @ ys"
      using front_size_le[OF True] by simp
    then show ?thesis
      using 1 True by (simp add: stored_records_valid front_append)
  qed (use 1 in \<open>simp add: stored_records_invalid\<close>)
qed

text \<open>One frame is one record.\<close>

lemma front_frame:
  assumes "length (rec_payload r) \<le> unat (max_store_record_bytes limits)"
  shows "front_valid limits (frame r)" and "front_record (frame r) = r" and "front_size (frame r) = length (frame r)"
proof -
  let ?h = "write_record_header (length (rec_payload r)) (rec_type r) (rec_sequence r) (crc32c (rec_payload r))"
  have t: "take kStoreRecordHeaderBytes (frame r) = ?h" "drop kStoreRecordHeaderBytes (frame r) = rec_payload r"
    by (simp_all add: frame_def)
  have n: "unat (of_nat (length (rec_payload r)) :: u32) = length (rec_payload r)"
    using assms by (rule fits_u32(1))
  show "front_valid limits (frame r)"
    using assms n by (simp add: front_valid_def t record_valid_def record_header_fields Let_def)
  show "front_record (frame r) = r"
    using n by (simp add: front_record_def t record_header_fields Let_def value_or_def)
  show "front_size (frame r) = length (frame r)"
    using n by (simp add: front_size_def t record_header_fields)
qed

lemma stored_records_frame:
  "length (rec_payload r) \<le> unat (max_store_record_bytes limits) \<Longrightarrow> stored_records limits (frame r) = ([r], [])"
  by (simp add: stored_records_valid front_frame)

lemma stored_records_frames:
  "\<forall>r\<in>set rs. length (rec_payload r) \<le> unat (max_store_record_bytes limits) \<Longrightarrow>
   stored_records limits (concat (map frame rs)) = (rs, [])"
  by (induction rs) (simp_all add: stored_records_append stored_records_frame)

text \<open>A frame that was cut short is not a record.\<close>

lemma front_torn_frame:
  assumes "length (rec_payload r) \<le> unat (max_store_record_bytes limits)" and "k < length (frame r)"
  shows "\<not> front_valid limits (take k (frame r))"
proof
  assume v: "front_valid limits (take k (frame r))"
  have "front_size (take k (frame r)) = front_size (frame r)"
    using front_append(3)[OF v, of "drop k (frame r)"] by simp
  then have "length (frame r) \<le> length (take k (frame r))"
    using front_size_le[OF v] front_frame(3)[OF assms(1)] by simp
  then show False using assms(2) by simp
qed

section \<open>The loops\<close>

lemma scan_loop_good:
  assumes "front_valid limits rest"
  shows "scan_loop limits fix_tail report v offset rest =
    (if v + 1 > unat (max_store_records limits)
     then Inl (Error CapacityExceeded ''store holds more records than the configured bound'')
     else scan_loop limits fix_tail report (v + 1) (offset + front_size rest) (drop (front_size rest) rest))"
proof -
  have "rest \<noteq> []" "\<not> length rest < kStoreRecordHeaderBytes"
      "record_valid limits (take kStoreRecordHeaderBytes rest) (drop kStoreRecordHeaderBytes rest)"
    using assms by (auto simp: front_valid_def kStoreRecordHeaderBytes_def)
  then show ?thesis
    by (subst scan_loop.simps) (simp add: Let_def front_size_def ac_simps)
qed

lemma scan_loop_bad:
  assumes "\<not> front_valid limits rest" and "rest \<noteq> []"
  shows "scan_loop limits fix_tail report v offset rest =
    (if length rest < kStoreRecordHeaderBytes
     then if fix_tail then Inr (v, truncated offset ''store ends inside a record header'' report)
          else Inl (Error TruncatedInput ''store ends inside a record header'')
     else if fix_tail then Inr (v, truncated offset ''record failed its integrity check'' report)
     else Inl (Error CorruptStore ''store contains an invalid record''))"
  using assms by (subst scan_loop.simps) (simp add: Let_def front_valid_def)

text \<open>What the scan reports, by the records and the tail of the file.\<close>

definition scan_outcome ::
  "Limits \<Rightarrow> bool \<Rightarrow> RecoveryReport \<Rightarrow> nat \<Rightarrow> nat \<Rightarrow> byte list \<Rightarrow> (nat \<times> RecoveryReport) Result" where
  "scan_outcome limits fix_tail report n at tail =
     (if n > unat (max_store_records limits)
      then Inl (Error CapacityExceeded ''store holds more records than the configured bound'')
      else if tail = [] then Inr (n, report)
      else if length tail < kStoreRecordHeaderBytes
      then if fix_tail then Inr (n, truncated at ''store ends inside a record header'' report)
           else Inl (Error TruncatedInput ''store ends inside a record header'')
      else if fix_tail then Inr (n, truncated at ''record failed its integrity check'' report)
      else Inl (Error CorruptStore ''store contains an invalid record''))"

lemma scan_loop_spec:
  "v \<le> unat (max_store_records limits) \<Longrightarrow>
   scan_loop limits fix_tail report v offset rest =
     scan_outcome limits fix_tail report (v + length (fst (stored_records limits rest)))
       (offset + (length rest - length (snd (stored_records limits rest)))) (snd (stored_records limits rest))"
proof (induction "length rest" arbitrary: v offset rest rule: less_induct)
  case less
  show ?case
  proof (cases "front_valid limits rest")
    case good: True
    let ?d = "drop (front_size rest) rest"
    have "length ?d < length rest" using front_size_le[OF good] front_size_pos[of rest] by simp
    note IH = less(1)[OF this, of "v + 1" "offset + front_size rest"]
    have "offset + front_size rest + (length ?d - length (snd (stored_records limits ?d))) =
        offset + (length rest - length (snd (stored_records limits ?d)))"
      using stored_records_length[of limits ?d] front_size_le[OF good] by simp
    note IH = IH[unfolded this]
    show ?thesis
    proof (cases "v + 1 > unat (max_store_records limits)")
      case True
      then show ?thesis
        by (simp add: scan_loop_good[OF good] stored_records_valid[OF good] scan_outcome_def)
    next
      case False
      then show ?thesis
        using IH by (simp add: scan_loop_good[OF good] stored_records_valid[OF good])
    qed
  next
    case False
    then show ?thesis
      using less(2) by (cases "rest = []")
        (auto simp: stored_records_invalid scan_loop_bad scan_outcome_def scan_loop.simps[of _ _ _ _ _ "[]"])
  qed
qed

lemma read_loop_good:
  assumes "front_valid limits rest"
  shows "read_loop limits acc rest =
    (if length acc + 1 > unat (max_store_records limits)
     then Inl (Error CapacityExceeded ''store holds more records than the bound'')
     else read_loop limits (acc @ [front_record rest]) (drop (front_size rest) rest))"
proof -
  have "rest \<noteq> []" "\<not> length rest < kStoreRecordHeaderBytes"
      "record_valid limits (take kStoreRecordHeaderBytes rest) (drop kStoreRecordHeaderBytes rest)"
    using assms by (auto simp: front_valid_def kStoreRecordHeaderBytes_def)
  moreover obtain t where "parse_record_type (get_u16 (take kStoreRecordHeaderBytes rest) 4) = Inr t"
    using calculation(3) by (auto simp: record_valid_def Let_def has_value_iff)
  ultimately show ?thesis
    by (subst read_loop.simps)
      (simp add: Let_def front_size_def front_record_def record_valid_def value_or_def add.commute)
qed

lemma read_loop_spec:
  "snd (stored_records limits rest) = [] \<Longrightarrow>
   length acc + length (fst (stored_records limits rest)) \<le> unat (max_store_records limits) \<Longrightarrow>
   read_loop limits acc rest = Inr (acc @ fst (stored_records limits rest))"
proof (induction "length rest" arbitrary: acc rest rule: less_induct)
  case less
  show ?case
  proof (cases "front_valid limits rest")
    case good: True
    have "length (drop (front_size rest) rest) < length rest"
      using front_size_le[OF good] front_size_pos[of rest] by simp
    from less(1)[OF this, of "acc @ [front_record rest]"] less(2,3) show ?thesis
      by (simp add: read_loop_good[OF good] stored_records_valid[OF good])
  next
    case False
    then have "rest = []" using less(2) by (simp add: stored_records_invalid)
    then show ?thesis by (simp add: read_loop.simps)
  qed
qed

section \<open>Header slots\<close>

lemma length_slot_prefix [simp]: "length (slot_prefix g r c a b) = 56"
  by (simp add: slot_prefix_def kMagic_def)

lemma length_slot_bytes [simp]: "length (slot_bytes g r c a b) = kStoreHeaderSlotBytes"
  by (simp add: slot_bytes_def Let_def kStoreHeaderSlotBytes_def)

definition written_slot :: "u64 \<Rightarrow> u32 \<Rightarrow> bool \<Rightarrow> TimePoint \<Rightarrow> TimePoint \<Rightarrow> HeaderSlot" where
  "written_slot g r c a b = \<lparr>format_version = PATHOBS_STORE_FORMAT_VERSION,
     slot_flags = (if c then kFlagCleanShutdown else 0), created_unix_nanos = unix_nanos a,
     opened_unix_nanos = unix_nanos b, slot_restarts = r, slot_generation = g, slot_valid = True\<rparr>"

lemma slot_fields:
  fixes g r c a b
  defines "s \<equiv> slot_bytes g r c a b"
  shows "take 8 s = kMagic" and "get_u32 s 8 = PATHOBS_STORE_FORMAT_VERSION"
    and "get_u32 s 12 = of_nat kStoreHeaderSlotBytes" and "get_u32 s 16 = kEndianMarker"
    and "get_u32 s 20 = (if c then kFlagCleanShutdown else 0)" and "get_i64 s 24 = unix_nanos a"
    and "get_i64 s 32 = unix_nanos b" and "get_u32 s 40 = r" and "get_u64 s 48 = g"
    and "get_u32 s 56 = crc32c (take 56 s)"
proof -
  let ?p = "slot_prefix g r c a b"
  have s: "s = ?p @ put_u32 (crc32c ?p) @ put_u32 0" by (simp add: s_def slot_bytes_def Let_def)
  have m: "length kMagic = 8" by (simp add: kMagic_def)
  note e = s slot_prefix_def
  show "take 8 s = kMagic" using m by (simp add: e)
  show "get_u32 s 8 = PATHOBS_STORE_FORMAT_VERSION"
    using get_put_u32[of kMagic 8] m by (simp add: e)
  show "get_u32 s 12 = of_nat kStoreHeaderSlotBytes"
    using get_put_u32[of "kMagic @ put_u32 _" 12] m by (simp add: e)
  show "get_u32 s 16 = kEndianMarker"
    using get_put_u32[of "kMagic @ put_u32 _ @ put_u32 _" 16] m by (simp add: e)
  show "get_u32 s 20 = (if c then kFlagCleanShutdown else 0)"
    using get_put_u32[of "kMagic @ put_u32 _ @ put_u32 _ @ put_u32 _" 20] m by (simp add: e)
  show "get_i64 s 24 = unix_nanos a"
    using get_put_i64[of "kMagic @ put_u32 _ @ put_u32 _ @ put_u32 _ @ put_u32 _" 24] m by (simp add: e)
  show "get_i64 s 32 = unix_nanos b"
    using get_put_i64[of "kMagic @ put_u32 _ @ put_u32 _ @ put_u32 _ @ put_u32 _ @ put_i64 _" 32] m
    by (simp add: e)
  show "get_u32 s 40 = r"
    using get_put_u32[of "kMagic @ put_u32 _ @ put_u32 _ @ put_u32 _ @ put_u32 _ @ put_i64 _ @ put_i64 _" 40] m
    by (simp add: e)
  show "get_u64 s 48 = g"
    using get_put_u64[of
        "kMagic @ put_u32 _ @ put_u32 _ @ put_u32 _ @ put_u32 _ @ put_i64 _ @ put_i64 _ @ put_u32 _ @ put_u32 _" 48] m
    by (simp add: e)
  show "get_u32 s 56 = crc32c (take 56 s)" using get_put_u32[of ?p 56] by (simp add: s)
qed

text \<open>Overwriting one slot, with whatever bytes, leaves the other slot and the records alone.\<close>

lemma read_header_slot_cong:
  "take kStoreHeaderSlotBytes (drop (i * kStoreHeaderSlotBytes) f) =
     take kStoreHeaderSlotBytes (drop (i * kStoreHeaderSlotBytes) g) \<Longrightarrow> read_header_slot f i = read_header_slot g i"
  by (simp only: read_header_slot_def)

lemma overwrite_slot:
  assumes "at < 2" and "kStoreHeaderBytes \<le> length file" and "length bs = kStoreHeaderSlotBytes"
  shows "take kStoreHeaderSlotBytes (drop (at * kStoreHeaderSlotBytes)
      (write_at (at * kStoreHeaderSlotBytes) bs file)) = bs"
    and "i < 2 \<Longrightarrow> i \<noteq> at \<Longrightarrow>
      read_header_slot (write_at (at * kStoreHeaderSlotBytes) bs file) i = read_header_slot file i"
    and "length (write_at (at * kStoreHeaderSlotBytes) bs file) = length file"
    and "drop kStoreHeaderBytes (write_at (at * kStoreHeaderSlotBytes) bs file) = drop kStoreHeaderBytes file"
proof -
  have at: "at = 0 \<or> at = 1" using assms(1) by auto
  have w: "write_at (at * kStoreHeaderSlotBytes) bs file = take (at * 64) file @ bs @ drop (at * 64 + 64) file"
    using assms at by (auto simp: write_at_def kStoreHeaderSlotBytes_def kStoreHeaderBytes_def)
  note b = assms(2,3)[unfolded kStoreHeaderBytes_def kStoreHeaderSlotBytes_def]
  show "take kStoreHeaderSlotBytes (drop (at * kStoreHeaderSlotBytes)
      (write_at (at * kStoreHeaderSlotBytes) bs file)) = bs"
    unfolding w unfolding kStoreHeaderSlotBytes_def using b at by auto
  show "read_header_slot (write_at (at * kStoreHeaderSlotBytes) bs file) i = read_header_slot file i"
    if "i < 2" "i \<noteq> at"
  proof (rule read_header_slot_cong)
    have "i = 0 \<and> at = 1 \<or> i = 1 \<and> at = 0" using that at by auto
    then show "take kStoreHeaderSlotBytes (drop (i * kStoreHeaderSlotBytes)
        (write_at (at * kStoreHeaderSlotBytes) bs file)) =
      take kStoreHeaderSlotBytes (drop (i * kStoreHeaderSlotBytes) file)"
      unfolding w unfolding kStoreHeaderSlotBytes_def using b by auto
  qed
  show "length (write_at (at * kStoreHeaderSlotBytes) bs file) = length file"
    unfolding w using b at by auto
  show "drop kStoreHeaderBytes (write_at (at * kStoreHeaderSlotBytes) bs file) = drop kStoreHeaderBytes file"
    unfolding w unfolding kStoreHeaderBytes_def kStoreHeaderSlotBytes_def using b at by auto
qed

lemma read_written_slot:
  assumes "at < 2" and "kStoreHeaderBytes \<le> length file"
  shows "read_header_slot (write_slot at g r c a b file) at = written_slot g r c a b"
    and "i < 2 \<Longrightarrow> i \<noteq> at \<Longrightarrow> read_header_slot (write_slot at g r c a b file) i = read_header_slot file i"
    and "length (write_slot at g r c a b file) = length file"
    and "drop kStoreHeaderBytes (write_slot at g r c a b file) = drop kStoreHeaderBytes file"
proof -
  note o = overwrite_slot[OF assms length_slot_bytes[of g r c a b]]
  show "read_header_slot (write_slot at g r c a b file) at = written_slot g r c a b"
    unfolding write_slot_def read_header_slot_def o(1) Let_def by (simp add: slot_fields written_slot_def)
  show "i < 2 \<Longrightarrow> i \<noteq> at \<Longrightarrow> read_header_slot (write_slot at g r c a b file) i = read_header_slot file i"
    unfolding write_slot_def by (rule o(2))
  show "length (write_slot at g r c a b file) = length file" unfolding write_slot_def by (rule o(3))
  show "drop kStoreHeaderBytes (write_slot at g r c a b file) = drop kStoreHeaderBytes file"
    unfolding write_slot_def by (rule o(4))
qed

section \<open>What the checksum detects\<close>

lemma xor_zero: "a XOR b = 0 \<Longrightarrow> a = b" for a b :: "'w::len word"
  by (metis xor.assoc xor.left_neutral xor.right_neutral xor_self_eq)

text \<open>One bit step loses nothing, so neither does the state of the checksum.\<close>

lemma crc_bit_zero: "crc_bit c = 0 \<Longrightarrow> c = 0"
proof -
  assume z: "crc_bit c = 0"
  have "\<not> bit c 0"
  proof
    assume b: "bit c 0"
    then have "c AND 1 \<noteq> 0" by (simp add: and_one_eq mod_2_eq_odd bit_0)
    then have "drop_bit 1 c XOR 0x82f63b78 = 0" using z by (simp add: crc_bit_def)
    then have "drop_bit 1 c = 0x82f63b78" by (rule xor_zero)
    then have "bit (drop_bit 1 c) 31 = bit (0x82f63b78 :: u32) 31" by (rule arg_cong)
    then show False using bit_imp_le_length[of c 32] by (simp add: bit_simps)
  qed
  then have "c AND 1 = 0" by (simp add: and_one_eq mod_2_eq_odd bit_0)
  then have "drop_bit 1 c = 0" using z by (simp add: crc_bit_def)
  show "c = 0"
  proof (rule bit_word_eqI)
    fix k
    show "bit c k \<longleftrightarrow> bit (0 :: u32) k"
    proof (cases k)
      case (Suc j)
      have "bit (drop_bit 1 c) j = bit (0 :: u32) j" using \<open>drop_bit 1 c = 0\<close> by (rule arg_cong)
      then show ?thesis using Suc by (simp add: bit_simps)
    qed (use \<open>\<not> bit c 0\<close> in simp)
  qed
qed

lemma crc_bits_zero: "(crc_bit ^^ n) c = 0 \<Longrightarrow> c = 0"
  by (induction n) (auto dest: crc_bit_zero)

text \<open>The difference of two states depends on the differences of the bytes only.\<close>

lemma crc_state_xor:
  "length xs = length ys \<Longrightarrow>
   fold crc32c_byte xs c XOR fold crc32c_byte ys d =
     fold crc32c_byte (map2 (\<lambda>x y. x XOR y) xs ys) (c XOR d)"
proof (induction xs ys arbitrary: c d rule: list_induct2)
  case (Cons x xs y ys)
  have "crc32c_byte x c XOR crc32c_byte y d = crc32c_byte (x XOR y) (c XOR d)"
    by (simp add: crc32c_byte_eq crc_bits_linear[symmetric] unsigned_xor_eq ac_simps)
  then show ?case by (simp add: Cons.IH)
qed simp

lemma crc_state_same: "fold crc32c_byte bs c = fold crc32c_byte bs d \<Longrightarrow> c = d"
proof (induction bs arbitrary: c d)
  case (Cons b bs)
  from Cons.IH[of "crc32c_byte b c" "crc32c_byte b d"] Cons.prems
  have "crc32c_byte b c XOR crc32c_byte b d = 0" by simp
  then have "(crc_bit ^^ 8) (c XOR d) = 0"
    by (simp add: crc32c_byte_eq crc_bits_linear[symmetric] ac_simps)
  then have "c XOR d = 0" by (rule crc_bits_zero)
  then show ?case by (rule xor_zero)
qed simp

text \<open>Up to four bytes fill the state without loss.\<close>

lemma crc_state_short:
  "length es \<le> 4 \<Longrightarrow> fold crc32c_byte es 0 = (crc_bit ^^ (8 * length es)) (le_value es :: u32)"
proof (induction es rule: rev_induct)
  case (snoc e es)
  have len: "8 * Suc (length es) \<le> 32" using snoc.prems by simp
  have lv: "(le_value (es @ [e]) :: u32) = le_value es XOR push_bit (8 * length es) (ucast e)"
  proof (rule bit_word_eqI)
    fix k assume k: "k < LENGTH(32)"
    have "bit (le_value (es @ [e]) :: u32) k \<longleftrightarrow> k < 8 * Suc (length es) \<and> bit ((es @ [e]) ! (k div 8)) (k mod 8)"
      using bit_le_value_upto[of "Suc (length es)" "es @ [e]" k, where 'w=32] len by (simp add: le_value_def)
    moreover have "bit (le_value es :: u32) k \<longleftrightarrow> k < 8 * length es \<and> bit (es ! (k div 8)) (k mod 8)"
      using bit_le_value_upto[of "length es" es k, where 'w=32] len by (simp add: le_value_def)
    moreover have "bit (push_bit (8 * length es) (ucast e) :: u32) k \<longleftrightarrow>
        8 * length es \<le> k \<and> k < 8 * Suc (length es) \<and> bit e (k - 8 * length es)"
      using k bit_imp_le_length[of e "k - 8 * length es"] by (auto simp: bit_simps)
    moreover have "k div 8 = length es \<and> k mod 8 = k - 8 * length es" if "8 * length es \<le> k" "k < 8 * Suc (length es)"
      using that by (metis add.commute div_nat_eqI minus_mod_eq_mult_div mult.commute mult_Suc mult_Suc_right
          modulo_nat_def)
    ultimately show "bit (le_value (es @ [e]) :: u32) k \<longleftrightarrow> bit (le_value es XOR push_bit (8 * length es) (ucast e) :: u32) k"
      by (auto simp: bit_xor_iff nth_append)
  qed
  have "(crc_bit ^^ (8 * length es)) (push_bit (8 * length es) (ucast e) :: u32) =
      drop_bit (8 * length es) (push_bit (8 * length es) (ucast e))"
    by (rule crc_bits_high) (simp add: bit_simps)
  also have "\<dots> = ucast e"
    using len by (intro bit_word_eqI) (auto simp: bit_simps dest: bit_imp_le_length)
  finally have "(crc_bit ^^ (8 * length es)) (le_value (es @ [e])) = fold crc32c_byte es 0 XOR ucast e"
    using snoc by (simp add: lv crc_bits_linear)
  then have "crc32c_byte e (fold crc32c_byte es 0) = (crc_bit ^^ (8 + 8 * length es)) (le_value (es @ [e]))"
    by (simp only: crc32c_byte_eq[of e] funpow_add comp_def)
  then show ?case by simp
qed (simp add: le_value_def)

lemma le_value_zero:
  assumes "length es \<le> 4" and "(le_value es :: u32) = 0"
  shows "\<forall>e\<in>set es. e = 0"
proof
  fix e assume "e \<in> set es"
  then obtain i where i: "i < length es" "e = es ! i" by (metis in_set_conv_nth)
  show "e = 0"
  proof (rule bit_word_eqI)
    fix k assume "k < LENGTH(8)"
    then have "bit (le_value es :: u32) (8 * i + k) \<longleftrightarrow> bit e k"
      using bit_le_value_upto[of "length es" es "8 * i + k", where 'w=32] assms(1) i by (simp add: le_value_def)
    then show "bit e k \<longleftrightarrow> bit (0 :: byte) k" using assms(2) by simp
  qed
qed

text \<open>A change that is confined to four adjacent bytes changes the checksum.\<close>

lemma crc32c_burst:
  assumes "length xs = length ys" and "length xs \<le> 4" and "xs \<noteq> ys"
  shows "crc32c (pre @ xs @ post) \<noteq> crc32c (pre @ ys @ post)"
proof
  let ?c = "fold crc32c_byte pre 0xffffffff"
  assume "crc32c (pre @ xs @ post) = crc32c (pre @ ys @ post)"
  then have "(fold crc32c_byte post (fold crc32c_byte xs ?c) XOR 0xffffffff) XOR 0xffffffff =
      (fold crc32c_byte post (fold crc32c_byte ys ?c) XOR 0xffffffff) XOR 0xffffffff"
    by (simp add: crc32c_def)
  then have "fold crc32c_byte post (fold crc32c_byte xs ?c) = fold crc32c_byte post (fold crc32c_byte ys ?c)"
    by (simp only: xor.assoc xor_self_eq xor.right_neutral)
  then have "fold crc32c_byte xs ?c = fold crc32c_byte ys ?c" by (rule crc_state_same)
  then have "fold crc32c_byte (map2 (\<lambda>x y. x XOR y) xs ys) 0 = 0"
    using crc_state_xor[OF assms(1), of ?c ?c] by simp
  then have "(le_value (map2 (\<lambda>x y. x XOR y) xs ys) :: u32) = 0"
    using crc_state_short[of "map2 (\<lambda>x y. x XOR y) xs ys"] assms(1,2) crc_bits_zero by simp
  then have "\<forall>e\<in>set (map2 (\<lambda>x y. x XOR y) xs ys). e = 0"
    by (intro le_value_zero) (use assms(1,2) in simp_all)
  with assms(1) have "xs = ys" by (induction xs ys rule: list_induct2) (auto dest: xor_zero)
  then show False using assms(3) by simp
qed

text \<open>So a frame with such a change in its checked header bytes or in its payload is not a record.\<close>

lemma burst_not_valid:
  assumes fr: "frame r = pre @ xs @ post" and "length ys = length xs" "length xs \<le> 4" "ys \<noteq> xs"
    and "length pre + length xs \<le> 20 \<or> kStoreRecordHeaderBytes \<le> length pre"
    and fits: "length (rec_payload r) \<le> unat (max_store_record_bytes limits)"
  shows "\<not> front_valid limits (pre @ ys @ post @ rest)"
proof
  let ?b = "pre @ ys @ post @ rest" and ?p = "rec_payload r"
  let ?h = "write_record_header (length ?p) (rec_type r) (rec_sequence r) (crc32c ?p)"
  assume "front_valid limits ?b"
  then have v: "record_valid limits (take kStoreRecordHeaderBytes ?b) (drop kStoreRecordHeaderBytes ?b)"
    by (simp add: front_valid_def)
  have fh: "frame r = ?h @ ?p" by (simp add: frame_def)
  have h: "length ?h = 32" by (simp add: kStoreRecordHeaderBytes_def)
  from assms(5) show False
  proof
    assume in_header: "length pre + length xs \<le> 20"
    have "32 + length ?p = length (pre @ xs @ post)" by (simp add: fr[symmetric] kStoreRecordHeaderBytes_def)
    then have total: "20 \<le> length pre + length xs + length post" by simp
    define mid where "mid = take (20 - length pre - length xs) post"
    have t: "take 20 ?b = pre @ ys @ mid" "take 20 (frame r) = pre @ xs @ mid"
      using in_header assms(2) total by (simp_all add: mid_def fr)
    have "drop 20 ?b = drop 20 (frame r @ rest)"
      using in_header assms(2) by (simp add: fr)
    then have "get_u32 ?b 20 = get_u32 (?h @ (?p @ rest)) 20" by (simp add: get_u32_def fh)
    also have "\<dots> = get_u32 ?h 20"
      using get_take(1)[of 20 32 "?h @ (?p @ rest)"] h by simp
    also have "\<dots> = crc32c (take 20 (frame r))"
      using h by (simp add: record_header_fields(5) fh)
    finally have "crc32c (pre @ xs @ mid) = get_u32 ?b 20" by (simp add: t)
    moreover have "get_u32 ?b 20 = crc32c (pre @ ys @ mid)"
      using v by (simp add: record_valid_def Let_def kStoreRecordHeaderBytes_def t(1)[symmetric] min_def del: take_append)
    ultimately show False using crc32c_burst[of ys xs pre mid] assms(2-4) by simp
  next
    assume in_payload: "kStoreRecordHeaderBytes \<le> length pre"
    define pp where "pp = drop kStoreRecordHeaderBytes pre"
    have pre: "pre = ?h @ pp"
      using in_payload arg_cong[OF fr, of "take kStoreRecordHeaderBytes"] append_take_drop_id[of kStoreRecordHeaderBytes pre]
      by (simp add: fh pp_def)
    then have p: "?p = pp @ xs @ post" using fr fh by simp
    have b: "take kStoreRecordHeaderBytes ?b = ?h" "drop kStoreRecordHeaderBytes ?b = pp @ ys @ post @ rest"
      by (simp_all add: pre)
    have n: "unat (of_nat (length ?p) :: u32) = length ?p" using fits by (rule fits_u32(1))
    have "take (length ?p) (pp @ ys @ post @ rest) = pp @ ys @ post" using p assms(2) by simp
    then have "crc32c (pp @ ys @ post) = crc32c ?p"
      using v unfolding b record_valid_def Let_def record_header_fields n by simp
    then show False using crc32c_burst[of ys xs pp post] assms(2-4) p by simp
  qed
qed

end
