(* ===== verification/PersistenceRecovery.thy ===== *)
theory PersistenceRecovery
  imports PersistenceFrames
begin

text \<open>
  What the persistent store promises: opening is characterised for arbitrary bytes, the operations
  refine a log of records (the locale \<open>record_log\<close>), and a write that a crash cuts short loses at
  most the record or the header slot that was being written.
\<close>

section \<open>Opening\<close>

text \<open>The slot an existing file opens from, when it opens at all.\<close>

definition live_slot :: "byte list \<Rightarrow> (HeaderSlot \<times> nat \<times> bool) option" where
  "live_slot file = choose_slot (read_header_slot file 0) (read_header_slot file 1)"

lemma choose_slot_index: "choose_slot p q = Some (h, at, only) \<Longrightarrow> at < 2 \<and> slot_valid h \<and> (h = (if at = 0 then p else q))"
  by (auto simp: choose_slot_def split: if_splits)

text \<open>A written slot with a newer generation than the live one becomes the live one.\<close>

lemma live_slot_written:
  assumes "live_slot file = Some (h, at, only)" and "kStoreHeaderBytes \<le> length file"
    and "slot_generation h < g"
  shows "\<exists>only. live_slot (write_slot (if at = 0 then 1 else 0) g r c a b file) =
    Some (written_slot g r c a b, if at = 0 then 1 else 0, only)"
proof -
  have at: "at < 2" "slot_valid h" "h = read_header_slot file at"
    using choose_slot_index[OF assms(1)[unfolded live_slot_def]] by (auto split: if_splits simp: numeral_2_eq_2 less_Suc_eq)
  then consider "at = 0" | "at = 1" by linarith
  then show ?thesis
    using at(2,3) assms(2,3)
    by cases (auto simp: live_slot_def choose_slot_def read_written_slot written_slot_def)
qed

text \<open>What opening an existing file for writing makes of its live slot.\<close>

definition reopened_report :: "TimePoint \<Rightarrow> HeaderSlot \<Rightarrow> bool \<Rightarrow> RecoveryReport" where
  "reopened_report now h only = new_report\<lparr>used_secondary_header_slot := only,
     unclean_previous_shutdown := \<not> is_clean h, restart_count := slot_restarts h + 1,
     header_generation := slot_generation h + 1, created_at := TimePoint (created_unix_nanos h), opened_at := now\<rparr>"

definition reopened_file :: "TimePoint \<Rightarrow> HeaderSlot \<Rightarrow> nat \<Rightarrow> byte list \<Rightarrow> byte list" where
  "reopened_file now h at file =
     write_slot (if at = 0 then 1 else 0) (slot_generation h + 1) (slot_restarts h + 1) False
       (TimePoint (created_unix_nanos h)) now file"

lemma open_header_existing:
  assumes "kStoreHeaderBytes \<le> length file" and "live_slot file = Some (h, at, only)"
    and "format_version h = PATHOBS_STORE_FORMAT_VERSION" and "\<not> read_only options"
  shows "open_header options now file =
    Inr (if at = 0 then 1 else 0, reopened_report now h only, reopened_file now h at file)"
  using assms unfolding open_header_def live_slot_def
  by (simp add: reopened_report_def reopened_file_def new_report_def Let_def)

lemma reopened_file_simps:
  assumes "kStoreHeaderBytes \<le> length file"
  shows "length (reopened_file now h at file) = length file"
    and "drop kStoreHeaderBytes (reopened_file now h at file) = drop kStoreHeaderBytes file"
  using assms by (simp_all add: reopened_file_def read_written_slot)

lemma scan_spec:
  assumes "stored_records limits (drop kStoreHeaderBytes file) = (rs, tail)"
    and "kStoreHeaderBytes \<le> length file" and "\<not> corrupt_tail_truncated report"
  shows "scan limits True report file =
    (if length rs > unat (max_store_records limits)
     then (Inl (Error CapacityExceeded ''store holds more records than the configured bound''), file)
     else (Inr (length rs, if tail = [] then report
              else truncated (length file - length tail)
                (if length tail < kStoreRecordHeaderBytes then ''store ends inside a record header''
                 else ''record failed its integrity check'') report),
           take (length file - length tail) file))"
proof -
  have "length tail \<le> length (drop kStoreHeaderBytes file)"
    using stored_records_length[of limits "drop kStoreHeaderBytes file"] by (simp add: assms(1))
  then have at: "kStoreHeaderBytes + (length (drop kStoreHeaderBytes file) - length tail) = length file - length tail"
    using assms(2) by simp
  have "scan_loop limits True report 0 kStoreHeaderBytes (drop kStoreHeaderBytes file) =
      scan_outcome limits True report (length rs) (length file - length tail) tail"
    using scan_loop_spec[of 0 limits True report kStoreHeaderBytes "drop kStoreHeaderBytes file"]
    unfolding assms(1) fst_conv snd_conv at by simp
  then show ?thesis
    using assms(3) unfolding scan_def by (auto simp: scan_outcome_def truncated_def)
qed

lemma store_open_existing:
  assumes "stored_records (store_limits options) (drop kStoreHeaderBytes file) = (rs, tail)"
    and "validate_limits (store_limits options) = ok" and "is_set now" and "\<not> read_only options"
    and "kStoreHeaderBytes \<le> length file" and "live_slot file = Some (h, at, only)"
    and "format_version h = PATHOBS_STORE_FORMAT_VERSION"
    and "length rs \<le> unat (max_store_records (store_limits options))"
  shows "\<exists>s. store_open options now (Some file) = (Inr s, st_handle s) \<and> st_options s = options \<and>
    st_handle s = Some (take (length file - length tail) (reopened_file now h at file)) \<and>
    st_record_count s = length rs \<and> st_size_bytes s = length file - length tail \<and>
    st_next_sequence s = of_nat (length rs) + 1 \<and> st_active_slot s = (if at = 0 then 1 else 0) \<and>
    valid_records (st_recovery s) = length rs \<and>
    corrupt_tail_truncated (st_recovery s) = (tail \<noteq> []) \<and>
    unclean_previous_shutdown (st_recovery s) = (\<not> is_clean h) \<and>
    restart_count (st_recovery s) = slot_restarts h + 1 \<and>
    header_generation (st_recovery s) = slot_generation h + 1 \<and>
    created_at (st_recovery s) = TimePoint (created_unix_nanos h) \<and> opened_at (st_recovery s) = now"
proof -
  let ?f = "reopened_file now h at file" and ?r = "with_incarnation (reopened_report now h only)"
  note f = reopened_file_simps[OF assms(5), of now h at]
  have "\<not> corrupt_tail_truncated ?r"
    by (simp add: with_incarnation_def reopened_report_def new_report_def)
  then have "scan (store_limits options) True ?r ?f =
      (Inr (length rs, if tail = [] then ?r
              else truncated (length file - length tail)
                (if length tail < kStoreRecordHeaderBytes then ''store ends inside a record header''
                 else ''record failed its integrity check'') ?r),
           take (length file - length tail) ?f)"
    using scan_spec[of "store_limits options" ?f rs tail ?r] assms(1,5,8) by (simp add: f)
  then show ?thesis
    using assms(2-5) open_header_existing[OF assms(5,6,7,4), of now]
    by (simp add: store_open_def f with_incarnation_def reopened_report_def new_report_def truncated_def)
qed

section \<open>The log a store holds\<close>

definition contents :: "PersistentStore \<Rightarrow> StoredRecord list" where
  "contents s =
     (case st_handle s of
        None \<Rightarrow> []
      | Some file \<Rightarrow> fst (stored_records (store_limits (st_options s)) (drop kStoreHeaderBytes file)))"

text \<open>
  The state of a store opened for writing: the file is intact, the counters agree with it and the
  live header slot is the one the store wrote last.
\<close>

definition store_inv :: "PersistentStore \<Rightarrow> bool" where
  "store_inv s \<longleftrightarrow>
     (\<exists>file h only.
        st_handle s = Some file \<and> kStoreHeaderBytes \<le> length file \<and> \<not> read_only (st_options s) \<and>
        validate_limits (store_limits (st_options s)) = ok \<and> is_set (opened_at (st_recovery s)) \<and>
        stored_records (store_limits (st_options s)) (drop kStoreHeaderBytes file) = (contents s, []) \<and>
        st_record_count s = length (contents s) \<and>
        length (contents s) \<le> unat (max_store_records (store_limits (st_options s))) \<and>
        st_size_bytes s = length file \<and> st_next_sequence s = of_nat (length (contents s)) + 1 \<and>
        live_slot file = Some (h, st_active_slot s, only) \<and> format_version h = PATHOBS_STORE_FORMAT_VERSION \<and>
        slot_generation h = header_generation (st_recovery s) \<and> slot_restarts h = restart_count (st_recovery s) \<and>
        created_unix_nanos h = unix_nanos (created_at (st_recovery s)))"

lemma stored_payload_bound:
  "r \<in> set (fst (stored_records limits rest)) \<Longrightarrow> length (rec_payload r) \<le> unat (max_store_record_bytes limits)"
proof (induction limits rest rule: stored_records.induct)
  case (1 limits rest)
  then show ?case
  proof (cases "front_valid limits rest")
    case True
    then have "length (rec_payload (front_record rest)) \<le> unat (max_store_record_bytes limits)"
      by (auto simp: front_valid_def record_valid_def front_record_def Let_def)
    then show ?thesis using 1 True by (auto simp: stored_records_valid)
  qed (simp add: stored_records_invalid)
qed

lemma front_take:
  assumes "front_valid limits xs"
  shows "front_valid limits (take (front_size xs) xs)" and "front_record (take (front_size xs) xs) = front_record xs"
    and "front_size (take (front_size xs) xs) = front_size xs"
proof -
  have h: "take kStoreRecordHeaderBytes (take (front_size xs) xs) = take kStoreRecordHeaderBytes xs"
    by (simp add: front_size_def min_def)
  have b: "drop kStoreRecordHeaderBytes (take (front_size xs) xs) =
      take (unat (get_u32 (take kStoreRecordHeaderBytes xs) 0)) (drop kStoreRecordHeaderBytes xs)"
    by (simp add: front_size_def drop_take)
  have l: "kStoreRecordHeaderBytes \<le> length (take (front_size xs) xs)"
    using assms by (simp add: front_valid_def front_size_def)
  show "front_valid limits (take (front_size xs) xs)"
    using assms l unfolding front_valid_def h b by (simp add: record_valid_def Let_def)
  show "front_record (take (front_size xs) xs) = front_record xs"
    unfolding front_record_def h b Let_def by simp
  show "front_size (take (front_size xs) xs) = front_size xs" unfolding front_size_def[of "take _ _"] h
    by (simp add: front_size_def)
qed

lemma stored_records_cut:
  assumes "stored_records limits body = (rs, tail)"
  shows "stored_records limits (take (length body - length tail) body) = (rs, [])"
  using assms
proof (induction limits body arbitrary: rs rule: stored_records.induct)
  case (1 limits body)
  show ?case
  proof (cases "front_valid limits body")
    case True
    let ?d = "drop (front_size body) body"
    obtain rs' where d: "stored_records limits ?d = (rs', tail)" and rs: "rs = front_record body # rs'"
      using 1(2) stored_records_valid[OF True] by (metis fst_conv prod.collapse snd_conv Pair_inject)
    have tl: "length tail \<le> length ?d" using stored_records_length[of limits ?d] by (simp add: d)
    have IH: "stored_records limits (take (length ?d - length tail) ?d) = (rs', [])"
      by (rule 1(1)[OF True d])
    let ?p = "take (front_size body) body" and ?q = "take (length ?d - length tail) ?d"
    have "length body - length tail = front_size body + (length ?d - length tail)"
      using tl front_size_le[OF True] by simp
    then have "take (length body - length tail) body = ?p @ ?q" by (simp only: take_add)
    moreover have "stored_records limits ?p = ([front_record body], [])"
      using front_take[OF True] front_size_le[OF True] by (simp add: stored_records_valid)
    ultimately show ?thesis using IH rs by (simp add: stored_records_append)
  qed (use 1 in \<open>simp add: stored_records_invalid\<close>)
qed

lemma less_next: "g \<noteq> - 1 \<Longrightarrow> g < g + 1" for g :: u64
  by (simp add: word_less_nat_alt) (metis add.commute add_eq_0_iff lessI unatSuc)

lemma generation_room:
  fixes g :: u64
  assumes "g < 0xfffffffffffffffe"
  shows "g \<noteq> - 1" and "g + 1 \<noteq> - 1"
proof -
  show "g \<noteq> - 1" using assms by auto
  show "g + 1 \<noteq> - 1"
  proof
    assume "g + 1 = - 1"
    then have "g = - 1 - 1" by (simp only: eq_diff_eq)
    then show False using assms by simp
  qed
qed

text \<open>Opening a file for writing establishes the invariant, whatever the bytes were.\<close>

lemma live_slot_reopened:
  assumes "live_slot file = Some (h, at, only)" and "kStoreHeaderBytes \<le> length file"
    and "slot_generation h \<noteq> - 1"
  shows "\<exists>only'. live_slot (reopened_file now h at file) =
    Some (written_slot (slot_generation h + 1) (slot_restarts h + 1) False (TimePoint (created_unix_nanos h)) now,
      if at = 0 then 1 else 0, only')"
proof -
  have "slot_generation h < slot_generation h + 1"
    by (rule less_next) (rule assms(3))
  then show ?thesis unfolding reopened_file_def by (rule live_slot_written[OF assms(1,2)])
qed

lemma live_slot_take:
  "kStoreHeaderBytes \<le> n \<Longrightarrow> live_slot (take n file) = live_slot file"
proof -
  assume n: "kStoreHeaderBytes \<le> n"
  have "read_header_slot (take n file) i = read_header_slot file i" if "i < 2" for i
  proof (rule read_header_slot_cong)
    have "i * kStoreHeaderSlotBytes + kStoreHeaderSlotBytes \<le> n"
      using that n by (cases i) (auto simp: kStoreHeaderBytes_def kStoreHeaderSlotBytes_def)
    then show "take kStoreHeaderSlotBytes (drop (i * kStoreHeaderSlotBytes) (take n file)) =
        take kStoreHeaderSlotBytes (drop (i * kStoreHeaderSlotBytes) file)"
      by (simp add: drop_take min_def)
  qed
  then show ?thesis by (simp add: live_slot_def)
qed

lemma live_slot_append:
  "kStoreHeaderBytes \<le> length file \<Longrightarrow> live_slot (file @ xs) = live_slot file"
  using live_slot_take[of "length file" "file @ xs"] by simp

lemma store_open_recovers:
  assumes "stored_records (store_limits options) (drop kStoreHeaderBytes file) = (rs, tail)"
    and "validate_limits (store_limits options) = ok" and "is_set now" and "\<not> read_only options"
    and "kStoreHeaderBytes \<le> length file" and "live_slot file = Some (h, at, only)"
    and "format_version h = PATHOBS_STORE_FORMAT_VERSION" and "slot_generation h \<noteq> - 1"
    and "length rs \<le> unat (max_store_records (store_limits options))"
  shows "\<exists>s. store_open options now (Some file) = (Inr s, st_handle s) \<and> store_inv s \<and>
    contents s = rs \<and> st_options s = options \<and> corrupt_tail_truncated (st_recovery s) = (tail \<noteq> []) \<and>
    unclean_previous_shutdown (st_recovery s) = (\<not> is_clean h) \<and>
    header_generation (st_recovery s) = slot_generation h + 1"
proof -
  let ?f = "reopened_file now h at file" and ?n = "length file - length tail"
  let ?body = "drop kStoreHeaderBytes file"
  from store_open_existing[OF assms(1-7,9)] obtain s where
    o: "store_open options now (Some file) = (Inr s, st_handle s)" and
    s: "st_options s = options" "st_handle s = Some (take ?n ?f)" "st_record_count s = length rs"
       "st_size_bytes s = ?n" "st_next_sequence s = of_nat (length rs) + 1"
       "st_active_slot s = (if at = 0 then 1 else 0)" and
    r: "corrupt_tail_truncated (st_recovery s) = (tail \<noteq> [])"
       "unclean_previous_shutdown (st_recovery s) = (\<not> is_clean h)"
       "restart_count (st_recovery s) = slot_restarts h + 1"
       "header_generation (st_recovery s) = slot_generation h + 1"
       "created_at (st_recovery s) = TimePoint (created_unix_nanos h)" "opened_at (st_recovery s) = now"
    by blast
  note f = reopened_file_simps[OF assms(5), of now h at]
  have tl: "length tail \<le> length ?body" using stored_records_length[of "store_limits options" ?body] by (simp add: assms(1))
  then have n: "kStoreHeaderBytes \<le> ?n" using assms(5) by simp
  have "drop kStoreHeaderBytes (take ?n ?f) = take (length ?body - length tail) ?body"
    using f(2) by (simp add: drop_take add.commute)
  then have recs: "stored_records (store_limits options) (drop kStoreHeaderBytes (take ?n ?f)) = (rs, [])"
    using stored_records_cut[OF assms(1)] by simp
  then have c: "contents s = rs" by (simp add: contents_def s)
  obtain only' where l: "live_slot (take ?n ?f) =
      Some (written_slot (slot_generation h + 1) (slot_restarts h + 1) False (TimePoint (created_unix_nanos h)) now,
        if at = 0 then 1 else 0, only')"
    using live_slot_reopened[OF assms(6,5,8), of now] live_slot_take[OF n, of ?f] by auto
  have "store_inv s"
    unfolding store_inv_def
    by (intro exI[of _ "take ?n ?f"] exI[of _ "written_slot (slot_generation h + 1) (slot_restarts h + 1) False
        (TimePoint (created_unix_nanos h)) now"] exI[of _ only'])
      (use n f l recs assms(2-4,9) in \<open>simp add: s r c written_slot_def\<close>)
  then show ?thesis using o c s(1) r by blast
qed

section \<open>The operations on the log\<close>

text \<open>What a client of a log of records relies on.\<close>

locale record_log =
  fixes inv :: "'s \<Rightarrow> bool" and log_of :: "'s \<Rightarrow> StoredRecord list"
    and append_to :: "RecordType \<Rightarrow> byte list \<Rightarrow> 's \<Rightarrow> Status \<times> 's"
    and read_back :: "'s \<Rightarrow> StoredRecord list Result"
  assumes append_inv: "inv s \<Longrightarrow> inv (snd (append_to t p s))"
    and append_ok: "inv s \<Longrightarrow> fst (append_to t p s) = ok \<Longrightarrow>
      \<exists>n. log_of (snd (append_to t p s)) = log_of s @ [\<lparr>rec_type = t, rec_sequence = n, rec_payload = p\<rparr>]"
    and append_error: "fst (append_to t p s) \<noteq> ok \<Longrightarrow> snd (append_to t p s) = s"
    and read_back_log: "inv s \<Longrightarrow> read_back s = Inr (log_of s)"
begin

text \<open>The store after a run of appends, some of which may have been refused.\<close>

fun append_all :: "(RecordType \<times> byte list) list \<Rightarrow> 's \<Rightarrow> 's" where
  "append_all [] s = s"
| "append_all ((t, p) # rs) s = append_all rs (snd (append_to t p s))"

lemma append_extends: "inv s \<Longrightarrow> \<exists>ys. log_of (snd (append_to t p s)) = log_of s @ ys"
  using append_ok append_error by (metis append_Nil2)

lemma append_all_inv: "inv s \<Longrightarrow> inv (append_all rs s)"
  by (induction rs s rule: append_all.induct) (simp_all add: append_inv)

lemma append_all_extends: "inv s \<Longrightarrow> \<exists>ys. log_of (append_all rs s) = log_of s @ ys"
proof (induction rs s rule: append_all.induct)
  case (2 t p rs s)
  then show ?case using append_extends[OF "2.prems", of t p] append_inv[OF "2.prems", of t p] by fastforce
qed simp

text \<open>A record that was accepted is read back, whatever is appended later.\<close>

lemma accepted_record_read_back:
  assumes "inv s" and "fst (append_to t p s) = ok"
  shows "\<exists>n log. read_back (append_all rs (snd (append_to t p s))) = Inr log \<and>
    \<lparr>rec_type = t, rec_sequence = n, rec_payload = p\<rparr> \<in> set log"
proof -
  obtain n where n: "log_of (snd (append_to t p s)) = log_of s @ [\<lparr>rec_type = t, rec_sequence = n, rec_payload = p\<rparr>]"
    using append_ok[OF assms] by blast
  obtain ys where "log_of (append_all rs (snd (append_to t p s))) = log_of (snd (append_to t p s)) @ ys"
    using append_all_extends[OF append_inv[OF assms(1)]] by blast
  then show ?thesis using n read_back_log[OF append_all_inv[OF append_inv[OF assms(1)]]] by auto
qed

end

lemma append_checks_ok:
  "append_checks s p = ok \<Longrightarrow> st_handle s \<noteq> None \<and>
     length p \<le> unat (max_store_record_bytes (store_limits (st_options s))) \<and>
     st_record_count s + 1 \<le> unat (max_store_records (store_limits (st_options s))) \<and>
     st_size_bytes s + (kStoreRecordHeaderBytes + length p) \<le> unat (max_store_bytes (store_limits (st_options s)))"
  by (auto simp: append_checks_def first_error_Inr Let_def simp del: first_error.simps)

lemma store_append_cases:
  obtains (refused) e where "store_append t p s = (Inl e, s)" "append_checks s p = Inl e"
  | (accepted) "append_checks s p = ok" "fst (store_append t p s) = ok"
  by (cases "append_checks s p") (auto simp: store_append_def)

lemma store_append_done:
  assumes "store_inv s" and "append_checks s p = ok"
  shows "store_inv (snd (store_append t p s))"
    and "contents (snd (store_append t p s)) =
      contents s @ [\<lparr>rec_type = t, rec_sequence = st_next_sequence s, rec_payload = p\<rparr>]"
    and "st_handle (snd (store_append t p s)) =
      Some (the (st_handle s) @ frame \<lparr>rec_type = t, rec_sequence = st_next_sequence s, rec_payload = p\<rparr>)"
proof -
  let ?r = "\<lparr>rec_type = t, rec_sequence = st_next_sequence s, rec_payload = p\<rparr>"
  let ?l = "store_limits (st_options s)" and ?s = "snd (store_append t p s)"
  obtain f0 h only where f: "st_handle s = Some f0" "kStoreHeaderBytes \<le> length f0"
    and i: "\<not> read_only (st_options s)" "validate_limits ?l = ok" "is_set (opened_at (st_recovery s))"
    and recs: "stored_records ?l (drop kStoreHeaderBytes f0) = (contents s, [])"
    and n: "st_record_count s = length (contents s)" "st_size_bytes s = length f0"
      "st_next_sequence s = of_nat (length (contents s)) + 1"
    and l: "live_slot f0 = Some (h, st_active_slot s, only)" "format_version h = PATHOBS_STORE_FORMAT_VERSION"
      "slot_generation h = header_generation (st_recovery s)" "slot_restarts h = restart_count (st_recovery s)"
      "created_unix_nanos h = unix_nanos (created_at (st_recovery s))"
    using assms(1) unfolding store_inv_def by blast
  note ok = append_checks_ok[OF assms(2)]
  have "stored_records ?l (drop kStoreHeaderBytes (f0 @ frame ?r)) = (contents s @ [?r], [])"
    using f(2) recs ok by (simp add: stored_records_append stored_records_frame)
  moreover have s: "?s = s\<lparr>st_handle := Some (f0 @ frame ?r), st_record_count := st_record_count s + 1,
      st_size_bytes := st_size_bytes s + (kStoreRecordHeaderBytes + length p),
      st_next_sequence := st_next_sequence s + 1\<rparr>"
    using assms(2) f by (simp add: store_append_def)
  ultimately show c: "contents ?s = contents s @ [?r]" by (simp add: contents_def)
  show "st_handle ?s = Some (the (st_handle s) @ frame ?r)" using s f by simp
  have "stored_records ?l (drop kStoreHeaderBytes (f0 @ frame ?r)) = (contents ?s, [])"
    using c \<open>stored_records ?l (drop kStoreHeaderBytes (f0 @ frame ?r)) = (contents s @ [?r], [])\<close> by simp
  then show "store_inv ?s"
    unfolding store_inv_def
    by (intro exI[of _ "f0 @ frame ?r"] exI[of _ h] exI[of _ only])
      (use f i n l ok c in \<open>simp add: s live_slot_append\<close>)
qed

interpretation store_log: record_log store_inv contents store_append read_all
proof
  fix s t p
  show "store_inv s \<Longrightarrow> store_inv (snd (store_append t p s))"
    using store_append_done(1) by (cases rule: store_append_cases[where t=t and p=p and s=s]) auto
  show "store_inv s \<Longrightarrow> fst (store_append t p s) = ok \<Longrightarrow>
      \<exists>n. contents (snd (store_append t p s)) = contents s @ [\<lparr>rec_type = t, rec_sequence = n, rec_payload = p\<rparr>]"
    using store_append_done(2) by (cases rule: store_append_cases[where t=t and p=p and s=s]) auto
  show "fst (store_append t p s) \<noteq> ok \<Longrightarrow> snd (store_append t p s) = s"
    by (cases rule: store_append_cases[where t=t and p=p and s=s]) auto
  show "store_inv s \<Longrightarrow> read_all s = Inr (contents s)"
    unfolding store_inv_def by (auto simp: read_all_def read_loop_spec)
qed

text \<open>The parts of the invariant.\<close>

lemma store_invE:
  assumes "store_inv s"
  obtains f h only where "st_handle s = Some f" "kStoreHeaderBytes \<le> length f" "\<not> read_only (st_options s)"
    "validate_limits (store_limits (st_options s)) = ok" "is_set (opened_at (st_recovery s))"
    "stored_records (store_limits (st_options s)) (drop kStoreHeaderBytes f) = (contents s, [])"
    "st_record_count s = length (contents s)"
    "length (contents s) \<le> unat (max_store_records (store_limits (st_options s)))"
    "st_size_bytes s = length f" "st_next_sequence s = of_nat (length (contents s)) + 1"
    "live_slot f = Some (h, st_active_slot s, only)" "format_version h = PATHOBS_STORE_FORMAT_VERSION"
    "slot_generation h = header_generation (st_recovery s)" "slot_restarts h = restart_count (st_recovery s)"
    "created_unix_nanos h = unix_nanos (created_at (st_recovery s))"
  using assms unfolding store_inv_def by blast

lemma mark_clean_spec:
  assumes "store_inv s" and "header_generation (st_recovery s) \<noteq> - 1"
  obtains s' f only where "mark_clean now s = (ok, s')" "store_inv s'" "contents s' = contents s"
    "st_options s' = st_options s" "st_handle s' = Some f"
    "live_slot f = Some (written_slot (header_generation (st_recovery s) + 1) (restart_count (st_recovery s)) True
       (created_at (st_recovery s)) now, st_active_slot s', only)"
    "header_generation (st_recovery s') = header_generation (st_recovery s) + 1"
  using assms(1)
proof (rule store_invE)
  fix f h only
  assume f: "st_handle s = Some f" "kStoreHeaderBytes \<le> length f" and ro: "\<not> read_only (st_options s)"
    and i: "validate_limits (store_limits (st_options s)) = ok" "is_set (opened_at (st_recovery s))"
      "stored_records (store_limits (st_options s)) (drop kStoreHeaderBytes f) = (contents s, [])"
      "st_record_count s = length (contents s)"
      "length (contents s) \<le> unat (max_store_records (store_limits (st_options s)))"
      "st_size_bytes s = length f" "st_next_sequence s = of_nat (length (contents s)) + 1"
    and l: "live_slot f = Some (h, st_active_slot s, only)"
    and g: "slot_generation h = header_generation (st_recovery s)"
  let ?g = "header_generation (st_recovery s) + 1" and ?at = "if st_active_slot s = 0 then 1 else 0 :: nat"
  let ?f = "write_slot ?at ?g (restart_count (st_recovery s)) True (created_at (st_recovery s)) now f"
  let ?h = "written_slot ?g (restart_count (st_recovery s)) True (created_at (st_recovery s)) now"
  define s' where "s' = snd (mark_clean now s)"
  have s': "mark_clean now s = (ok, s')" "st_handle s' = Some ?f" "st_options s' = st_options s"
      "st_active_slot s' = ?at" "st_record_count s' = st_record_count s" "st_size_bytes s' = st_size_bytes s"
      "st_next_sequence s' = st_next_sequence s" "header_generation (st_recovery s') = ?g"
      "restart_count (st_recovery s') = restart_count (st_recovery s)"
      "created_at (st_recovery s') = created_at (st_recovery s)"
      "opened_at (st_recovery s') = opened_at (st_recovery s)"
    using f ro by (simp_all add: s'_def mark_clean_def Let_def)
  have w: "length ?f = length f" "drop kStoreHeaderBytes ?f = drop kStoreHeaderBytes f"
    using f(2) by (simp_all add: read_written_slot)
  then have c: "contents s' = contents s" using i(3) by (simp add: contents_def s')
  obtain only' where l': "live_slot ?f = Some (?h, ?at, only')"
    using live_slot_written[OF l f(2), of ?g "restart_count (st_recovery s)" True "created_at (st_recovery s)" now]
      less_next[OF assms(2)] g by auto
  have "store_inv s'"
    unfolding store_inv_def
    by (intro exI[of _ ?f] exI[of _ ?h] exI[of _ only']) (use f ro i w l' in \<open>simp add: s' c written_slot_def\<close>)
  then show thesis using that[OF s'(1) _ c s'(3,2)] l' s'(4,8) by simp
qed

text \<open>Reopening the file of a store, possibly with a cut record behind it.\<close>

lemma reopen_spec:
  assumes "store_inv s" and "header_generation (st_recovery s) \<noteq> - 1" and "is_set now"
    and "st_handle s = Some f" and "\<not> front_valid (store_limits (st_options s)) torn"
  shows "\<exists>s'. store_open (st_options s) now (Some (f @ torn)) = (Inr s', st_handle s') \<and>
    store_inv s' \<and> contents s' = contents s \<and> corrupt_tail_truncated (st_recovery s') = (torn \<noteq> []) \<and>
    unclean_previous_shutdown (st_recovery s') = (\<not> is_clean (fst (the (live_slot f))))"
  using assms(1)
proof (rule store_invE)
  fix f' h only
  assume i: "st_handle s = Some f'" "kStoreHeaderBytes \<le> length f'" "\<not> read_only (st_options s)"
      "validate_limits (store_limits (st_options s)) = ok"
      "stored_records (store_limits (st_options s)) (drop kStoreHeaderBytes f') = (contents s, [])"
      "length (contents s) \<le> unat (max_store_records (store_limits (st_options s)))"
      "live_slot f' = Some (h, st_active_slot s, only)" "format_version h = PATHOBS_STORE_FORMAT_VERSION"
      "slot_generation h = header_generation (st_recovery s)"
  have f: "f' = f" using i(1) assms(4) by simp
  note i = i[unfolded f]
  have recs: "stored_records (store_limits (st_options s)) (drop kStoreHeaderBytes (f @ torn)) = (contents s, torn)"
    using i(2,5) assms(5) by (simp add: stored_records_append stored_records_invalid)
  have l: "live_slot (f @ torn) = Some (h, st_active_slot s, only)" using i(2,7) by (simp add: live_slot_append)
  have "kStoreHeaderBytes \<le> length (f @ torn)" "slot_generation h \<noteq> - 1"
    using i(2,9) assms(2) by simp_all
  from store_open_recovers[OF recs i(4) assms(3) i(3) this(1) l i(8) this(2) i(6)] show ?thesis
    unfolding i(7) by auto
qed

lemma no_front_Nil: "\<not> front_valid limits []"
  by (simp add: front_valid_def kStoreRecordHeaderBytes_def)

lemma length_renumber [simp]: "length (renumber rs) = length rs"
  by (simp add: renumber_def)

lemma renumber_payloads: "r \<in> set (renumber rs) \<Longrightarrow> \<exists>r'\<in>set rs. rec_payload r = rec_payload r'"
  by (force simp: renumber_def set_zip enumerate_eq_zip)

lemma zero_slot: "read_header_slot (replicate kStoreHeaderBytes 0 @ xs) 1 = invalid_slot"
  by (simp add: read_header_slot_def kStoreHeaderSlotBytes_def kStoreHeaderBytes_def kMagic_def Let_def numeral_eq_Suc)

lemma compact_spec:
  assumes "store_inv s" and "header_generation (st_recovery s) + 1 \<noteq> - 1"
  shows "\<exists>s'. compact k s = (Inr (min k (length (contents s))), s') \<and> store_inv s' \<and>
    contents s' = renumber (drop (length (contents s) - min k (length (contents s))) (contents s))"
  using assms(1)
proof (rule store_invE)
  fix f h only
  assume i: "st_handle s = Some f" "\<not> read_only (st_options s)"
      "validate_limits (store_limits (st_options s)) = ok" "is_set (opened_at (st_recovery s))"
      "stored_records (store_limits (st_options s)) (drop kStoreHeaderBytes f) = (contents s, [])"
      "length (contents s) \<le> unat (max_store_records (store_limits (st_options s)))"
  let ?n = "min k (length (contents s))" and ?rep = "st_recovery s" and ?l = "store_limits (st_options s)"
  let ?kept = "drop (length (contents s) - ?n) (contents s)"
  let ?zero = "replicate kStoreHeaderBytes 0 @ concat (map frame (renumber ?kept))"
  let ?f = "compacted_file ?rep ?kept"
  let ?h = "written_slot (header_generation ?rep + 1) (restart_count ?rep) False (created_at ?rep) (opened_at ?rep)"
  have z: "kStoreHeaderBytes \<le> length ?zero" and two: "0 < (2 :: nat)" by simp_all
  have "\<forall>r\<in>set (renumber ?kept). length (rec_payload r) \<le> unat (max_store_record_bytes ?l)"
  proof
    fix r assume "r \<in> set (renumber ?kept)"
    then obtain r' where r': "r' \<in> set (contents s)" "rec_payload r = rec_payload r'"
      using renumber_payloads in_set_dropD by metis
    then show "length (rec_payload r) \<le> unat (max_store_record_bytes ?l)"
      using stored_payload_bound[of r' ?l "drop kStoreHeaderBytes f"] i(5) by simp
  qed
  then have recs: "stored_records ?l (drop kStoreHeaderBytes ?f) = (renumber ?kept, [])"
    unfolding compacted_file_def read_written_slot(4)[OF two z] by (simp add: stored_records_frames)
  note zero_slot[of "concat (map frame (renumber ?kept))"]
  then have l: "live_slot ?f = Some (?h, 0, False)"
    using z by (simp add: live_slot_def compacted_file_def read_written_slot choose_slot_def written_slot_def invalid_slot_def)
  have len: "kStoreHeaderBytes \<le> length ?f"
    unfolding compacted_file_def read_written_slot(3)[OF two z] by (rule z)
  have "format_version ?h = PATHOBS_STORE_FORMAT_VERSION" "slot_generation ?h \<noteq> - 1"
      "length (renumber ?kept) \<le> unat (max_store_records ?l)"
    using assms(2) i(6) by (simp_all add: written_slot_def)
  from store_open_recovers[OF recs i(3,4,2) len l this]
  obtain s' where o: "store_open (st_options s) (opened_at ?rep) (Some ?f) = (Inr s', st_handle s')"
      "store_inv s'" "contents s' = renumber ?kept"
    by blast
  have "read_all s = Inr (contents s)" using assms(1) by (rule store_log.read_back_log)
  then show ?thesis using i(2) o by (auto simp: compact_def Let_def)
qed

text \<open>A missing file, and one too short for the headers, become an empty store.\<close>

lemma store_open_creates:
  assumes "validate_limits (store_limits options) = ok" and "is_set now" and "\<not> read_only options"
    and "disk = None \<or> (\<exists>short. disk = Some short \<and> length short < kStoreHeaderBytes)"
  shows "\<exists>s. store_open options now disk = (Inr s, st_handle s) \<and> store_inv s \<and> contents s = [] \<and>
    st_options s = options \<and> header_generation (st_recovery s) = 1 \<and> store_created (st_recovery s) \<and>
    st_size_bytes s = kStoreHeaderBytes"
proof -
  define old where "old = (case disk of None \<Rightarrow> [] | Some f \<Rightarrow> f)"
  have old: "length old < kStoreHeaderBytes" using assms(4) by (auto simp: old_def kStoreHeaderBytes_def kStoreHeaderSlotBytes_def)
  let ?zero = "replicate kStoreHeaderBytes 0 :: byte list" and ?h = "written_slot 1 0 False now now"
  let ?f = "write_slot 0 1 0 False now now ?zero"
  let ?r = "with_incarnation (new_report\<lparr>opened_at := now, store_created := True, created_at := now,
    header_generation := 1, restart_count := 0\<rparr>)"
  have z: "kStoreHeaderBytes \<le> length ?zero" and two: "0 < (2 :: nat)" by simp_all
  note w = read_written_slot[OF two z, where g=1 and r=0 and c=False and a=now and b=now]
  have "write_at 0 ?zero old = ?zero" using old by (simp add: write_at_def)
  then have hd: "open_header options now old = Inr (0, new_report\<lparr>opened_at := now, store_created := True, created_at := now,
    header_generation := 1, restart_count := 0\<rparr>, ?f)"
    using old assms(3) by (simp add: open_header_def Let_def)
  have l: "live_slot ?f = Some (?h, 0, False)"
    using w zero_slot[of "[]"] by (simp add: live_slot_def choose_slot_def written_slot_def invalid_slot_def)
  have recs: "stored_records (store_limits options) (drop kStoreHeaderBytes ?f) = ([], [])" using w(4) by simp
  have "scan (store_limits options) True ?r ?f = (Inr (0, ?r), ?f)"
    using scan_spec[OF recs] w(3) by (simp add: with_incarnation_def new_report_def)
  then have o: "store_open options now disk =
      (Inr \<lparr>st_options = options, st_handle = Some ?f, st_recovery = ?r\<lparr>valid_records := 0, report_bytes := length ?f\<rparr>,
        st_record_count = 0, st_size_bytes = length ?f, st_next_sequence = 1, st_active_slot = 0\<rparr>, Some ?f)" (is "_ = (Inr ?s, _)")
    using assms(1-3) hd by (simp add: store_open_def old_def)
  have c: "contents ?s = []" using recs by (simp add: contents_def)
  have "store_inv ?s"
    unfolding store_inv_def
    by (intro exI[of _ ?f] exI[of _ ?h] exI[of _ False])
      (use assms(1-3) l recs w(3) c in \<open>simp add: written_slot_def with_incarnation_def new_report_def\<close>)
  then show ?thesis using o c w(3) by (intro exI[of _ ?s]) (simp add: with_incarnation_def new_report_def)
qed

section \<open>An example\<close>

definition example_store_options :: StoreOptions where
  "example_store_options = \<lparr>store_limits = default_limits, read_only = False\<rparr>"

definition example_store :: PersistentStore where
  "example_store = projr (fst (store_open example_store_options (TimePoint 5) None))"

lemma default_limits_valid: "validate_limits default_limits = ok"
  by (simp add: validate_limits_def ceiling_checks_def first_error_Inr hard_ceiling_def default_limits_def
      del: first_error.simps)

lemma five_is_set: "is_set (TimePoint 5)"
  by (simp add: is_set_def smin_def)

lemma example_store_facts:
  "store_inv example_store" "contents example_store = []" "st_options example_store = example_store_options"
  "header_generation (st_recovery example_store) = 1" "st_size_bytes example_store = kStoreHeaderBytes"
  using store_open_creates[of example_store_options "TimePoint 5" None] default_limits_valid five_is_set
  by (auto simp: example_store_def example_store_options_def)

lemma example_append: "append_checks example_store [7, 8] = ok"
proof -
  have "st_record_count example_store = 0" "st_handle example_store \<noteq> None"
    using example_store_facts(1,2) by (auto elim: store_invE)
  then show ?thesis
    using example_store_facts(3,5)
    by (simp add: append_checks_def first_error_Inr guard_err_def example_store_options_def default_limits_def
        kStoreHeaderBytes_def kStoreHeaderSlotBytes_def kStoreRecordHeaderBytes_def)
qed

section \<open>Properties\<close>

text \<open>
  C20: opening an existing file for writing, whatever its bytes. Without a valid header slot, or
  with a foreign format version, the file is refused and left alone; with more records than the
  bound it is refused; otherwise the store holds exactly the longest run of valid records, what
  followed them is cut off and reported, and an unclean shutdown is reported by the live slot.
\<close>

theorem store_open_exact:
  assumes "validate_limits (store_limits options) = ok" and "is_set now" and "\<not> read_only options"
    and "kStoreHeaderBytes \<le> length bytes"
    and "stored_records (store_limits options) (drop kStoreHeaderBytes bytes) = (rs, tail)"
  shows "case live_slot bytes of
      None \<Rightarrow> store_open options now (Some bytes) = (Inl (Error CorruptStore
        ''neither header slot is valid; refusing to guess at the store contents''), Some bytes)
    | Some (h, at, only) \<Rightarrow>
        if format_version h \<noteq> PATHOBS_STORE_FORMAT_VERSION
        then store_open options now (Some bytes) =
          (Inl (Error UnsupportedVersion ''store format version is not supported''), Some bytes)
        else if length rs > unat (max_store_records (store_limits options))
        then fst (store_open options now (Some bytes)) =
          Inl (Error CapacityExceeded ''store holds more records than the configured bound'')
        else \<exists>s. store_open options now (Some bytes) = (Inr s, st_handle s) \<and> read_all s = Inr rs \<and>
          st_record_count s = length rs \<and> corrupt_tail_truncated (st_recovery s) = (tail \<noteq> []) \<and>
          unclean_previous_shutdown (st_recovery s) = (\<not> is_clean h)"
proof (cases "live_slot bytes")
  case None
  then show ?thesis using assms by (simp add: store_open_def open_header_def live_slot_def)
next
  case (Some c)
  obtain h at only where c: "c = (h, at, only)" by (cases c)
  show ?thesis
  proof (cases "format_version h = PATHOBS_STORE_FORMAT_VERSION")
    case False
    then show ?thesis using assms Some c by (simp add: store_open_def open_header_def live_slot_def)
  next
    case v: True
    note l = Some[unfolded c] and f = reopened_file_simps[OF assms(4), of now h at]
    show ?thesis
    proof (cases "length rs > unat (max_store_records (store_limits options))")
      case True
      have "\<not> corrupt_tail_truncated (with_incarnation (reopened_report now h only))"
        by (simp add: with_incarnation_def reopened_report_def new_report_def)
      then have "fst (scan (store_limits options) True (with_incarnation (reopened_report now h only))
          (reopened_file now h at bytes)) =
          Inl (Error CapacityExceeded ''store holds more records than the configured bound'')"
        using scan_spec[of "store_limits options" "reopened_file now h at bytes" rs tail] assms(4,5) True
        by (simp add: f)
      then show ?thesis
        using True v c Some assms(1-3) open_header_existing[OF assms(4) l v assms(3), of now]
        by (cases "scan (store_limits options) True (with_incarnation (reopened_report now h only))
            (reopened_file now h at bytes)") (simp add: store_open_def)
    next
      case False
      from store_open_existing[OF assms(5,1,2,3,4) l v] False obtain s where
        o: "store_open options now (Some bytes) = (Inr s, st_handle s)" "st_options s = options"
          "st_handle s = Some (take (length bytes - length tail) (reopened_file now h at bytes))"
          "st_record_count s = length rs" "corrupt_tail_truncated (st_recovery s) = (tail \<noteq> [])"
          "unclean_previous_shutdown (st_recovery s) = (\<not> is_clean h)"
        by auto
      have "stored_records (store_limits options)
          (drop kStoreHeaderBytes (take (length bytes - length tail) (reopened_file now h at bytes))) = (rs, [])"
        using stored_records_cut[OF assms(5)] f(2) by (simp add: drop_take add.commute)
      then have "read_all s = Inr rs" using False by (simp add: read_all_def o read_loop_spec)
      then show ?thesis using False v c Some o by auto
    qed
  qed
qed

theorem store_open_exact_witness:
  "\<exists>s. store_open example_store_options (TimePoint 5) (st_handle example_store) = (Inr s, st_handle s) \<and>
     read_all s = Inr []"
proof -
  obtain f h only where f: "st_handle example_store = Some f" "kStoreHeaderBytes \<le> length f"
    "live_slot f = Some (h, st_active_slot example_store, only)" "format_version h = PATHOBS_STORE_FORMAT_VERSION"
    "stored_records default_limits (drop kStoreHeaderBytes f) = ([], [])"
    by (rule store_invE[OF example_store_facts(1)]) (simp add: example_store_facts example_store_options_def)
  then show ?thesis
    using store_open_exact[of example_store_options "TimePoint 5" f "[]" "[]"] default_limits_valid five_is_set
    by (auto simp: example_store_options_def)
qed

text \<open>
  C19: an open store implements a log. Reading returns the log, an accepted append adds one record
  at its end and a refused one changes nothing, marking a clean shutdown keeps the log, a compaction
  keeps its newest records and numbers them from one, and reopening the file gives the same log
  without reporting a truncation. Each operation keeps the invariant of the store.
\<close>

theorem store_refines_log:
  assumes "store_inv s" and "header_generation (st_recovery s) < 0xfffffffffffffffe" and "is_set now"
  defines "n \<equiv> length (contents s)"
  shows "read_all s = Inr (contents s) \<and>
    (case store_append t p s of
       (Inl e, s') \<Rightarrow> s' = s
     | (Inr _, s') \<Rightarrow> store_inv s' \<and>
         contents s' = contents s @ [\<lparr>rec_type = t, rec_sequence = of_nat n + 1, rec_payload = p\<rparr>]) \<and>
    (\<exists>s'. mark_clean now s = (ok, s') \<and> store_inv s' \<and> contents s' = contents s) \<and>
    (\<exists>s'. compact k s = (Inr (min k n), s') \<and> store_inv s' \<and>
       contents s' = renumber (drop (n - min k n) (contents s))) \<and>
    (\<exists>s'. store_open (st_options s) now (st_handle s) = (Inr s', st_handle s') \<and> store_inv s' \<and>
       contents s' = contents s \<and> \<not> corrupt_tail_truncated (st_recovery s'))"
proof (intro conjI)
  let ?g = "header_generation (st_recovery s)"
  have g: "?g \<noteq> - 1" "?g + 1 \<noteq> - 1" by (rule generation_room[OF assms(2)])+
  show "read_all s = Inr (contents s)" using assms(1) by (rule store_log.read_back_log)
  have "st_next_sequence s = of_nat n + 1" using assms(1) by (auto simp: n_def elim: store_invE)
  then show "case store_append t p s of
       (Inl e, s') \<Rightarrow> s' = s
     | (Inr _, s') \<Rightarrow> store_inv s' \<and>
         contents s' = contents s @ [\<lparr>rec_type = t, rec_sequence = of_nat n + 1, rec_payload = p\<rparr>]"
    using store_append_done[OF assms(1), of p t]
    by (cases rule: store_append_cases[where t=t and p=p and s=s]) (auto split: prod.splits sum.splits)
  show "\<exists>s'. mark_clean now s = (ok, s') \<and> store_inv s' \<and> contents s' = contents s"
    using mark_clean_spec[OF assms(1) g(1)] by metis
  show "\<exists>s'. compact k s = (Inr (min k n), s') \<and> store_inv s' \<and>
       contents s' = renumber (drop (n - min k n) (contents s))"
    unfolding n_def by (rule compact_spec[OF assms(1) g(2)])
  obtain f where f: "st_handle s = Some f" using assms(1) by (auto elim: store_invE)
  from reopen_spec[OF assms(1) g(1) assms(3) f no_front_Nil]
  show "\<exists>s'. store_open (st_options s) now (st_handle s) = (Inr s', st_handle s') \<and> store_inv s' \<and>
       contents s' = contents s \<and> \<not> corrupt_tail_truncated (st_recovery s')"
    unfolding f append_Nil2 by blast
qed

theorem store_refines_log_witness:
  "\<exists>s. compact 3 example_store = (Inr 0, s) \<and> contents s = renumber []"
  using store_refines_log[OF example_store_facts(1) _ five_is_set, where t=Rec_Marker and p="[]" and k=3]
  by (auto simp: example_store_facts)

text \<open>
  C21: a crash while a record is appended. Whatever prefix of the record reached the file, the store
  opens again; it holds the earlier records, and the new one exactly when all of it was written.
\<close>

theorem torn_append_recovered:
  assumes "store_inv s" and "header_generation (st_recovery s) \<noteq> - 1" and "is_set now"
    and "store_append t p s = (ok, s')"
    and "st_handle s = Some before" and "st_handle s' = Some (before @ written)" and "k \<le> length written"
  shows "\<exists>r. store_open (st_options s) now (Some (before @ take k written)) = (Inr r, st_handle r) \<and>
    read_all r = Inr (if k = length written then contents s' else contents s) \<and>
    corrupt_tail_truncated (st_recovery r) = (0 < k \<and> k < length written)"
proof -
  let ?r = "\<lparr>rec_type = t, rec_sequence = st_next_sequence s, rec_payload = p\<rparr>"
  have ok: "append_checks s p = ok"
    using assms(4) by (auto simp: store_append_def split: sum.splits)
  note d = store_append_done[OF assms(1) ok, of t, unfolded assms(4) snd_conv]
  have w: "written = frame ?r" using d(3) assms(5,6) by simp
  have b: "length (rec_payload ?r) \<le> unat (max_store_record_bytes (store_limits (st_options s)))"
    using append_checks_ok[OF ok] by simp
  show ?thesis
  proof (cases "k = length written")
    case True
    have o: "st_options s' = st_options s" "header_generation (st_recovery s') = header_generation (st_recovery s)"
      using assms(4) ok by (auto simp: store_append_def)
    obtain r where r: "store_open (st_options s') now (Some (before @ written)) = (Inr r, st_handle r)"
      "store_inv r" "contents r = contents s'" "\<not> corrupt_tail_truncated (st_recovery r)"
      using reopen_spec[OF d(1) _ assms(3) assms(6) no_front_Nil] assms(2) o(2) by auto
    then show ?thesis using True o(1) by (simp add: store_log.read_back_log)
  next
    case False
    then have "k < length (frame ?r)" using assms(7) w by simp
    then have nv: "\<not> front_valid (store_limits (st_options s)) (take k (frame ?r))" by (rule front_torn_frame[OF b])
    obtain r where r: "store_open (st_options s) now (Some (before @ take k (frame ?r))) = (Inr r, st_handle r)"
      "store_inv r" "contents r = contents s" "corrupt_tail_truncated (st_recovery r) \<longleftrightarrow> take k (frame ?r) \<noteq> []"
      using reopen_spec[OF assms(1-3,5) nv] by blast
    moreover have "take k (frame ?r) \<noteq> [] \<longleftrightarrow> 0 < k" by (auto simp: frame_def write_record_header_def record_header_prefix_def put_u32_def le_bytes_def Let_def)
    ultimately show ?thesis using False w \<open>k < length (frame ?r)\<close> by (auto simp: store_log.read_back_log)
  qed
qed

theorem torn_append_recovered_witness:
  "\<exists>r f. store_open example_store_options (TimePoint 5)
      (Some (f @ take 33 (frame \<lparr>rec_type = Rec_Marker, rec_sequence = 1, rec_payload = [7, 8]\<rparr>))) = (Inr r, st_handle r) \<and>
    st_handle example_store = Some f \<and> read_all r = Inr [] \<and> corrupt_tail_truncated (st_recovery r)"
proof -
  obtain f where f: "st_handle example_store = Some f" and n: "st_next_sequence example_store = 1"
    using example_store_facts(1,2) by (auto elim: store_invE)
  obtain s' where s': "store_append Rec_Marker [7, 8] example_store = (ok, s')"
    using example_append by (simp add: store_append_def)
  show ?thesis
    using torn_append_recovered[OF example_store_facts(1) _ five_is_set s' f, where k=33]
      store_append_done(3)[OF example_store_facts(1) example_append, of Rec_Marker] s' f n
    by (auto simp: example_store_facts kStoreRecordHeaderBytes_def)
qed

text \<open>
  A crash while a header slot is written. \<open>open\<close> and \<open>mark_clean\<close> only ever write the slot
  that is not live, so whatever bytes the crash leaves there, as long as they do not pass for a
  header the store opens again from the live slot with every record.
\<close>

theorem torn_header_recovered:
  assumes "store_inv s" and "header_generation (st_recovery s) \<noteq> - 1" and "is_set now"
    and "st_handle s = Some before" and "length garbage = kStoreHeaderSlotBytes"
    and "torn = write_at ((1 - st_active_slot s) * kStoreHeaderSlotBytes) garbage before"
    and "\<not> slot_valid (read_header_slot torn (1 - st_active_slot s))"
  shows "\<exists>r. store_open (st_options s) now (Some torn) = (Inr r, st_handle r) \<and>
    read_all r = Inr (contents s) \<and> \<not> corrupt_tail_truncated (st_recovery r)"
  using assms(1)
proof (rule store_invE)
  fix f h only
  assume i: "st_handle s = Some f" "kStoreHeaderBytes \<le> length f" "\<not> read_only (st_options s)"
      "validate_limits (store_limits (st_options s)) = ok"
      "stored_records (store_limits (st_options s)) (drop kStoreHeaderBytes f) = (contents s, [])"
      "length (contents s) \<le> unat (max_store_records (store_limits (st_options s)))"
      "live_slot f = Some (h, st_active_slot s, only)" "format_version h = PATHOBS_STORE_FORMAT_VERSION"
      "slot_generation h = header_generation (st_recovery s)"
  have f: "f = before" using i(1) assms(4) by simp
  note i = i[unfolded f]
  let ?at = "st_active_slot s"
  have at: "?at < 2" "slot_valid h" "h = read_header_slot before ?at"
    using choose_slot_index[OF i(7)[unfolded live_slot_def]] by (auto split: if_splits simp: numeral_2_eq_2 less_Suc_eq)
  have "1 - ?at < 2" "?at \<noteq> 1 - ?at" using at(1) by arith+
  note o = overwrite_slot[OF this(1) i(2) assms(5), folded assms(6)]
  have "read_header_slot torn ?at = h" using o(2)[OF at(1) \<open>?at \<noteq> 1 - ?at\<close>] at(3) by simp
  then have l: "\<exists>only. live_slot torn = Some (h, ?at, only)"
    using at(1,2) assms(7) by (cases ?at) (auto simp: live_slot_def choose_slot_def less_Suc_eq numeral_2_eq_2)
  then obtain only' where l: "live_slot torn = Some (h, ?at, only')" by blast
  have "kStoreHeaderBytes \<le> length torn" "slot_generation h \<noteq> - 1" using o(3) i(2,9) assms(2) by simp_all
  from store_open_recovers[OF _ i(4) assms(3) i(3) this(1) l i(8) this(2) i(6), of "[]"] o(4) i(5)
  show ?thesis using store_log.read_back_log by force
qed

theorem torn_header_recovered_witness:
  "\<exists>r torn. store_open example_store_options (TimePoint 5) (Some torn) = (Inr r, st_handle r) \<and> read_all r = Inr []"
proof -
  obtain f h only where f: "st_handle example_store = Some f" "kStoreHeaderBytes \<le> length f"
    "live_slot f = Some (h, st_active_slot example_store, only)"
    by (rule store_invE[OF example_store_facts(1)])
  let ?i = "1 - st_active_slot example_store" and ?g = "replicate kStoreHeaderSlotBytes 0 :: byte list"
  have "?i < 2" by arith
  from overwrite_slot(1)[OF this f(2), of ?g]
  have "\<not> slot_valid (read_header_slot (write_at (?i * kStoreHeaderSlotBytes) ?g f) ?i)"
    unfolding read_header_slot_def
    by (simp add: invalid_slot_def kStoreHeaderSlotBytes_def kMagic_def Let_def numeral_eq_Suc)
  with torn_header_recovered[OF example_store_facts(1) _ five_is_set f(1) _ refl, of ?g] show ?thesis
    by (auto simp: example_store_facts)
qed

text \<open>
  Reopening a file after \<open>mark_clean\<close> reports a clean shutdown. The mark is not withdrawn by
  later appends: a record written after it, and a crash after that, are still reported as a clean
  shutdown.
\<close>

theorem clean_mark_survives_append:
  assumes "store_inv s" and "header_generation (st_recovery s) < 0xfffffffffffffffe" and "is_set now"
    and "mark_clean stopped s = (st, marked)" and "store_append t p marked = (st', later)"
  shows "\<exists>r. store_open (st_options s) now (st_handle later) = (Inr r, st_handle r) \<and>
    read_all r = Inr (contents later) \<and> \<not> unclean_previous_shutdown (st_recovery r)"
proof -
  let ?g = "header_generation (st_recovery s)"
  have g: "?g \<noteq> - 1" "?g + 1 \<noteq> - 1" by (rule generation_room[OF assms(2)])+
  obtain m f only where m: "mark_clean stopped s = (ok, m)" "store_inv m" "contents m = contents s"
    "st_options m = st_options s" "st_handle m = Some f"
    "live_slot f = Some (written_slot (?g + 1) (restart_count (st_recovery s)) True
       (created_at (st_recovery s)) stopped, st_active_slot m, only)"
    "header_generation (st_recovery m) = ?g + 1"
    using assms(1) g(1) by (rule mark_clean_spec)
  then have mm: "m = marked" using assms(4) by simp
  have clean: "is_clean (fst (the (live_slot f)))" by (simp add: m(6) written_slot_def is_clean_def kFlagCleanShutdown_def)
  have later: "store_inv later" "st_options later = st_options s" "header_generation (st_recovery later) = ?g + 1"
      "\<exists>xs. st_handle later = Some (f @ xs)"
    using store_log.append_inv[OF m(2), of t p] assms(5) m mm
    by (auto simp: store_append_def split: sum.splits)
  obtain xs where xs: "st_handle later = Some (f @ xs)" using later(4) by blast
  have "kStoreHeaderBytes \<le> length f" using m(2,5) by (auto elim: store_invE)
  then have "live_slot (f @ xs) = live_slot f" by (rule live_slot_append)
  then have "is_clean (fst (the (live_slot (f @ xs))))" using clean by simp
  with reopen_spec[OF later(1) _ assms(3) xs no_front_Nil] g(2) later(2,3) show ?thesis
    using store_log.read_back_log by (force simp: xs)
qed

theorem clean_mark_survives_append_witness:
  "\<exists>marked r. mark_clean (TimePoint 6) example_store = (ok, marked) \<and>
     store_open example_store_options (TimePoint 5) (st_handle (snd (store_append Rec_Marker [7, 8] marked))) =
       (Inr r, st_handle r) \<and>
     \<not> unclean_previous_shutdown (st_recovery r)"
proof -
  obtain m where m: "mark_clean (TimePoint 6) example_store = (ok, m)"
    using mark_clean_spec[OF example_store_facts(1), of "TimePoint 6"] by (auto simp: example_store_facts)
  show ?thesis
    using clean_mark_survives_append[OF example_store_facts(1) _ five_is_set m prod.collapse[symmetric],
        of Rec_Marker "[7, 8]"] m
    by (auto simp: example_store_facts)
qed

text \<open>
  C22: corruption of a stored record. When up to four adjacent bytes of a record change, in its
  payload or in the header bytes its checksum covers, the next opening drops that record and
  everything after it, keeps every record before it and reports the truncation.
\<close>

theorem burst_corruption_detected:
  assumes "store_inv s" and "header_generation (st_recovery s) \<noteq> - 1" and "is_set now"
    and "store_append t p s = (ok, s')"
    and "st_handle s = Some before" and "st_handle s' = Some (before @ pre @ xs @ post)"
    and "length ys = length xs" and "length xs \<le> 4" and "ys \<noteq> xs"
    and "length pre + length xs \<le> 20 \<or> kStoreRecordHeaderBytes \<le> length pre"
  shows "\<exists>r. store_open (st_options s) now (Some (before @ pre @ ys @ post @ later)) = (Inr r, st_handle r) \<and>
    read_all r = Inr (contents s) \<and> corrupt_tail_truncated (st_recovery r)"
proof -
  let ?r = "\<lparr>rec_type = t, rec_sequence = st_next_sequence s, rec_payload = p\<rparr>"
  have ok: "append_checks s p = ok"
    using assms(4) by (auto simp: store_append_def split: sum.splits)
  have fr: "frame ?r = pre @ xs @ post"
    using store_append_done(3)[OF assms(1) ok, of t, unfolded assms(4) snd_conv] assms(5,6) by simp
  have "length (rec_payload ?r) \<le> unat (max_store_record_bytes (store_limits (st_options s)))"
    using append_checks_ok[OF ok] by simp
  from burst_not_valid[OF fr assms(7-10) this, of later]
  have nv: "\<not> front_valid (store_limits (st_options s)) (pre @ ys @ post @ later)" .
  have "pre @ ys @ post @ later \<noteq> []" using assms(7,9) by auto
  then show ?thesis
    using reopen_spec[OF assms(1-3,5) nv] store_log.read_back_log by force
qed

theorem burst_corruption_detected_witness:
  "\<exists>r f. st_handle example_store = Some f \<and>
    store_open example_store_options (TimePoint 5)
      (Some (f @ write_record_header (length [7 :: byte, 8]) Rec_Marker 1 (crc32c [7, 8]) @ [7, 9])) = (Inr r, st_handle r) \<and>
    read_all r = Inr [] \<and> corrupt_tail_truncated (st_recovery r)"
proof -
  obtain f where f: "st_handle example_store = Some f" and n: "st_next_sequence example_store = 1"
    using example_store_facts(1,2) by (auto elim: store_invE)
  obtain s' where s': "store_append Rec_Marker [7, 8] example_store = (ok, s')"
    using example_append by (simp add: store_append_def)
  let ?h = "write_record_header (length [7 :: byte, 8]) Rec_Marker 1 (crc32c [7, 8])"
  have "st_handle s' = Some (f @ (?h @ [7]) @ [8] @ [])"
    using store_append_done(3)[OF example_store_facts(1) example_append, of Rec_Marker] s' f n by (simp add: frame_def)
  from burst_corruption_detected[OF example_store_facts(1) _ five_is_set s' f this, of "[9]" "[]"] f show ?thesis
    by (simp add: example_store_facts)
qed

end
