(* ===== verification/RuntimeSound.thy ===== *)
theory RuntimeSound
  imports Runtime PersistenceRecovery CodecRoundTrip
begin

text \<open>
  What the runtime keeps and promises: the invariant of every reachable state under all sequences of
  operations, what an ingestion may do, the order of publications, and what survives a restart.
\<close>

section \<open>The parts an operation leaves alone\<close>

text \<open>The state without the counters, the clock, the ledger, the flags and the store.\<close>

definition core :: "Runtime \<Rightarrow> Runtime" where
  "core rt = rt\<lparr>rt_metrics := new_metrics, rt_ticks := 0, rt_store := None, rt_disk := None, rt_ledger := [],
     rt_source_has_gap := [], rt_state := Runtime_Created, rt_epoch := no_id, rt_incarnation := no_id,
     rt_route_revision := no_id, rt_topology_revision := no_id\<rparr>"

lemma core_fields:
  assumes "core rt = core rt'"
  shows "rt_config rt = rt_config rt'" "rt_sources rt = rt_sources rt'" "rt_evidence rt = rt_evidence rt'"
    "rt_history rt = rt_history rt'" "rt_findings rt = rt_findings rt'" "rt_topology rt = rt_topology rt'"
    "rt_topology_index rt = rt_topology_index rt'" "rt_routes rt = rt_routes rt'" "rt_pool rt = rt_pool rt'"
    "rt_clock rt = rt_clock rt'"
  using assms by (cases rt; cases rt'; simp add: core_def)+

lemma core_count [simp]: "core (count_metric f rt) = core rt"
  by (simp add: count_metric_def core_def)

lemma core_clock: "clock_now rt = (t, rt') \<Longrightarrow> core rt' = core rt"
  by (auto simp: clock_now_def core_def)

lemma core_persist: "persist_record ty p rt = (st, rt') \<Longrightarrow> core rt' = core rt"
  by (auto simp: persist_record_def core_def count_metric_def split: option.splits prod.splits sum.splits)

lemma core_persist_findings: "persist_findings fs rt = (st, rt') \<Longrightarrow> core rt' = core rt"
  by (induction fs rt arbitrary: st rt' rule: persist_findings.induct)
    (auto split: prod.splits sum.splits dest: core_persist)

lemma core_open_store: "open_store rt = (st, rt') \<Longrightarrow> core rt' = core rt"
  unfolding open_store_def
  by (auto simp: core_def count_metric_def clock_now_def Let_def split: prod.splits sum.splits option.splits)

lemma core_count_rejected [simp]: "core (count_rejected rt) = core rt"
  by (simp add: count_rejected_def)

lemma core_note_sequence [simp]: "core (note_sequence v e rt) = core rt"
  by (simp add: note_sequence_def core_def count_metric_def)

section \<open>The invariant\<close>

definition bucket_inv :: "hasher \<Rightarrow> Limits \<Rightarrow> ObservedPathEvidence list \<Rightarrow> bool" where
  "bucket_inv H limits b \<longleftrightarrow> length b \<le> unat (max_evidence_per_comparison limits) \<and> distinct (map ev_id b) \<and>
     (\<forall>e\<in>set b. evidence_validate H limits e = ok \<and> ev_id e = compute_evidence_id H e)"

definition evidence_inv :: "hasher \<Rightarrow> Limits \<Rightarrow> (SubjectKey, ObservedPathEvidence list) omap \<Rightarrow> bool" where
  "evidence_inv H limits m \<longleftrightarrow> map_inv m \<and> (\<forall>key b. map_find m key = Some b \<longrightarrow> bucket_inv H limits b)"

definition reports_inv :: "hasher \<Rightarrow> Limits \<Rightarrow> HistoryStore \<Rightarrow> FindingRegistry \<Rightarrow> bool" where
  "reports_inv H limits h reg \<longleftrightarrow> findings_inv H reg \<and> finding_limits reg = limits \<and>
     history_inv h \<and> history_limits h = limits"

definition expected_inv ::
  "Limits \<Rightarrow> TopologyGeneration option \<Rightarrow> TopologyIndex option \<Rightarrow> RouteGeneration option \<Rightarrow> bool" where
  "expected_inv limits topology index routes \<longleftrightarrow>
     (case topology of
        None \<Rightarrow> index = None
      | Some t \<Rightarrow> topology_inv t \<and> (\<exists>i. index = Some i \<and> TopologyIndex_build t limits = Inr i)) \<and>
     (\<forall>r. routes = Some r \<longrightarrow> route_inv r)"

definition workers_inv :: "'a WorkerPool option \<Rightarrow> bool" where
  "workers_inv pool \<longleftrightarrow> (\<forall>p. pool = Some p \<longrightarrow> pool_inv p)"

definition runtime_inv :: "hasher \<Rightarrow> Runtime \<Rightarrow> bool" where
  "runtime_inv H rt \<longleftrightarrow> evidence_inv H (rt_limits rt) (rt_evidence rt) \<and>
     reports_inv H (rt_limits rt) (rt_history rt) (rt_findings rt) \<and> registry_inv (rt_sources rt) \<and>
     expected_inv (rt_limits rt) (rt_topology rt) (rt_topology_index rt) (rt_routes rt) \<and> workers_inv (rt_pool rt)"

lemma runtime_inv_core:
  assumes "core rt = core rt'"
  shows "runtime_inv H rt = runtime_inv H rt'"
  by (simp only: runtime_inv_def core_fields[OF assms])

lemma runtime_inv_back: "core rt' = core rt \<Longrightarrow> runtime_inv H rt \<Longrightarrow> runtime_inv H rt'"
  using runtime_inv_core by blast

text \<open>A prefix of an operation that only touches the parts outside the core.\<close>

lemmas core_steps = core_clock core_persist core_persist_findings core_open_store

lemma count_inv [simp]: "runtime_inv H (count_metric f rt) = runtime_inv H rt"
  by (rule runtime_inv_core) simp

lemma ticks_inv [simp]: "runtime_inv H (rt\<lparr>rt_ticks := n\<rparr>) = runtime_inv H rt"
  by (rule runtime_inv_core) (simp add: core_def)

subsection \<open>Buckets\<close>

lemma bucket_of_inv: "runtime_inv H rt \<Longrightarrow> bucket_inv H (rt_limits rt) (bucket_of key rt)"
  by (auto simp: runtime_inv_def evidence_inv_def bucket_of_def bucket_inv_def[of _ _ "[]"] split: option.splits)

lemma set_bucket_inv:
  "runtime_inv H rt \<Longrightarrow> bucket_inv H (rt_limits rt) b \<Longrightarrow> runtime_inv H (set_bucket key b rt)"
  by (auto simp: runtime_inv_def evidence_inv_def set_bucket_def map_inv_put map_find_put split: if_splits)

lemma bucket_of_set [simp]:
  "bucket_of k (set_bucket key b rt) = (if k = key then b else bucket_of k rt)"
  by (simp add: bucket_of_def set_bucket_def map_find_put)

lemma core_set_bucket: "core (set_bucket key b rt) = set_bucket key b (core rt)"
  by (simp add: core_def set_bucket_def)

lemma map_put_again: "map_put k v (map_put k w m) = map_put k v m"
  by (induction m) auto

lemma set_bucket_again [simp]: "set_bucket key b (set_bucket key c rt) = set_bucket key b rt"
  by (simp add: set_bucket_def map_put_again)

lemma bucket_snoc:
  "bucket_inv H limits b \<Longrightarrow> length b < unat (max_evidence_per_comparison limits) \<Longrightarrow>
   \<not> list_ex (\<lambda>x. ev_id x = ev_id e) b \<Longrightarrow> evidence_validate H limits e = ok \<Longrightarrow>
   ev_id e = compute_evidence_id H e \<Longrightarrow> bucket_inv H limits (b @ [e])"
  by (auto simp: bucket_inv_def list_ex_iff)

lemma bucket_of_core: "core rt' = core rt \<Longrightarrow> bucket_of key rt' = bucket_of key rt"
  unfolding bucket_of_def by (drule core_fields(3)) (simp only:)

subsection \<open>Sealing\<close>

lemma seal_simps [simp]: "ev_id (seal H e) = compute_evidence_id H e"
  "compute_evidence_id H (seal H e) = compute_evidence_id H e" "ev_source (seal H e) = ev_source e"
  by (simp_all add: seal_def compute_evidence_id_def)

lemma seal_validates: "evidence_validate H limits e = ok \<Longrightarrow> evidence_validate H limits (seal H e) = ok"
  unfolding evidence_validate_def
  by (simp add: first_error_Inr seal_def compute_evidence_id_def del: first_error.simps)

subsection \<open>Ingestion\<close>

text \<open>What filing a sealed record does to the buckets.\<close>

lemma file_evidence_cases:
  assumes "file_evidence e res rt = (res', rt')"
  obtains (rejected) "\<not> ing_accepted res' \<or> ing_accepted res" "\<And>k. bucket_of k rt' = bucket_of k rt"
      "core rt' = core rt \<or> (\<exists>key. core rt' = core (set_bucket key (bucket_of key rt) rt))"
  | (duplicate) key where "ing_accepted res'" "runtime_resolve_subject (rt_routes rt) e = Inr key"
      "list_ex (\<lambda>x. ev_id x = ev_id e) (bucket_of key rt)" "\<And>k. bucket_of k rt' = bucket_of k rt"
      "core rt' = core (set_bucket key (bucket_of key rt) rt)" "rt_store rt' = rt_store rt"
  | (filed) key where "ing_accepted res'" "runtime_resolve_subject (rt_routes rt) e = Inr key"
      "length (bucket_of key rt) < unat (max_evidence_per_comparison (rt_limits rt))"
      "\<not> list_ex (\<lambda>x. ev_id x = ev_id e) (bucket_of key rt)"
      "core rt' = core (set_bucket key (bucket_of key rt @ [e]) rt)"
      "\<exists>rt1. persist_evidence e (set_bucket key (bucket_of key rt) rt) = (ok, rt1) \<and> rt_store rt' = rt_store rt1"
proof (cases "runtime_resolve_subject (rt_routes rt) e")
  case (Inl err)
  then have "res' = res\<lparr>ing_reason := EvidenceUnknown\<rparr>" "rt' = count_rejected rt"
    using assms by (auto simp: file_evidence_def rejected_as_def)
  then have "core rt' = core rt" "ing_accepted res' = ing_accepted res" by simp_all
  then show thesis using bucket_of_core by (intro rejected) blast+
next
  case key: (Inr key)
  let ?b = "bucket_of key rt" and ?rt = "set_bucket key (bucket_of key rt) rt"
  have conf: "rt_limits ?rt = rt_limits rt" by (simp add: set_bucket_def)
  have same: "bucket_of k rt' = bucket_of k rt" if "core rt' = core ?rt" for k
    using bucket_of_core[OF that, of k] by simp
  show thesis
  proof (cases "length ?b \<ge> unat (max_evidence_per_comparison (rt_limits rt))")
    case True
    then have "res' = res\<lparr>ing_reason := EvidenceIncomplete\<rparr>" "rt' = count_rejected ?rt"
      using assms key by (auto simp: file_evidence_def rejected_as_def conf Let_def)
    then show thesis using same by (intro rejected) auto
  next
    case room: False
    show thesis
    proof (cases "list_ex (\<lambda>x. ev_id x = ev_id e) ?b")
      case True
      then have r: "res' = res\<lparr>ing_accepted := True\<rparr>" "rt' = count_metric (add_evidence_offered 1) ?rt"
        using assms key room by (auto simp: file_evidence_def conf Let_def)
      then have c: "core rt' = core ?rt" "rt_store rt' = rt_store rt" "ing_accepted res'"
        by (simp_all add: count_metric_def set_bucket_def core_def)
      show thesis by (rule duplicate[OF c(3) key True same[OF c(1)] c(1,2)])
    next
      case new: False
      obtain st rt1 where pe: "persist_evidence e ?rt = (st, rt1)" by fastforce
      then have c1: "core rt1 = core ?rt" unfolding persist_evidence_def by (rule core_persist)
      show thesis
      proof (cases st)
        case (Inl err)
        then have "res' = res\<lparr>ing_reason := EvidenceUnknown\<rparr>" "rt' = rt1"
          using assms key room new pe by (auto simp: file_evidence_def conf Let_def)
        then show thesis using same c1 by (intro rejected) auto
      next
        case (Inr u)
        then have r: "res' = res\<lparr>ing_persisted := True, ing_accepted := True\<rparr>"
          "rt' = count_metric (add_evidence_accepted 1) (count_metric (add_evidence_offered 1) (set_bucket key (?b @ [e]) rt1))"
          using assms key room new pe by (auto simp: file_evidence_def conf Let_def)
        have c: "core rt' = core (set_bucket key (?b @ [e]) rt)"
          using c1 by (simp add: r core_set_bucket)
        have st: "rt_store rt' = rt_store rt1" by (simp add: r count_metric_def set_bucket_def)
        have acc: "ing_accepted res'" by (simp add: r)
        have small: "length ?b < unat (max_evidence_per_comparison (rt_limits rt))" using room by simp
        have saved: "\<exists>rt1. persist_evidence e ?rt = (ok, rt1) \<and> rt_store rt' = rt_store rt1"
          using pe Inr st by auto
        show thesis by (rule filed[OF acc key small new c saved])
      qed
    qed
  qed
qed

lemma file_evidence_inv:
  assumes "runtime_inv H rt" and "evidence_validate H (rt_limits rt) e = ok" and "ev_id e = compute_evidence_id H e"
  shows "runtime_inv H (snd (file_evidence e res rt))"
proof -
  obtain res' rt' where f: "file_evidence e res rt = (res', rt')" by fastforce
  note keep = set_bucket_inv[OF assms(1) bucket_of_inv[OF assms(1)]]
  from f have "runtime_inv H rt'"
  proof (cases rule: file_evidence_cases)
    case rejected
    then show ?thesis using runtime_inv_back assms(1) keep by blast
  next
    case (duplicate key)
    then show ?thesis using runtime_inv_back keep by blast
  next
    case (filed key)
    have "bucket_inv H (rt_limits rt) (bucket_of key rt @ [e])"
      by (rule bucket_snoc[OF bucket_of_inv[OF assms(1)]]) (use filed assms(2,3) in auto)
    then show ?thesis using runtime_inv_back[OF filed(5)] set_bucket_inv[OF assms(1)] by blast
  qed
  then show ?thesis by (simp add: f)
qed

lemma ingest_evidence_cases:
  assumes "ingest_evidence H e rt = (res, rt')"
  obtains (refused) "\<not> ing_accepted res" "core rt' = core rt" "rt_store rt' = rt_store rt" "ing_id res = no_digest_id"
  | (filed) d seq ledger where "evidence_validate H (rt_limits rt) e = ok"
      "registry_find (rt_sources rt) (ev_source e) = Inr d"
      "AuthorityClass_code (ev_authority e) \<le> AuthorityClass_code (source_authority d)"
      "source_surface d = ev_surface e"
      "observe (ev_source e) (ev_incarnation e) (ev_sequence e) (rt_ledger rt) = (seq, ledger)" "verdict seq \<noteq> Replay"
      "file_evidence (seal H e) (new_ingest\<lparr>ing_sequence_gap := (verdict seq = Gap), ing_id := compute_evidence_id H e\<rparr>)
         (note_sequence (verdict seq) (seal H e) (rt\<lparr>rt_ledger := ledger\<rparr>)) = (res, rt')"
proof -
  have core_ledger: "core (rt\<lparr>rt_ledger := l\<rparr>) = core rt" for l by (simp add: core_def)
  have ni: "\<not> ing_accepted new_ingest" "ing_id new_ingest = no_digest_id" by (simp_all add: new_ingest_def)
  obtain seq ledger where o: "observe (ev_source e) (ev_incarnation e) (ev_sequence e) (rt_ledger rt) = (seq, ledger)"
    by fastforce
  show thesis
    using assms that ni core_ledger o unfolding ingest_evidence_def
    by (auto simp: rejected_as_def count_rejected_def count_metric_def core_def Let_def not_less
        split: sum.splits if_splits)
qed

lemma ingest_evidence_inv:
  assumes "runtime_inv H rt"
  shows "runtime_inv H (snd (ingest_evidence H e rt))"
proof -
  obtain res rt' where i: "ingest_evidence H e rt = (res, rt')" by fastforce
  from i have "runtime_inv H rt'"
  proof (cases rule: ingest_evidence_cases)
    case refused
    then show ?thesis using runtime_inv_back assms by blast
  next
    case (filed d seq ledger)
    let ?rt = "note_sequence (verdict seq) (seal H e) (rt\<lparr>rt_ledger := ledger\<rparr>)"
    have c: "core ?rt = core rt" by (simp add: core_def[of "rt\<lparr>rt_ledger := ledger\<rparr>"] core_def[of rt])
    have "runtime_inv H ?rt" by (rule runtime_inv_back[OF c assms])
    moreover have "evidence_validate H (rt_limits ?rt) (seal H e) = ok"
      using filed(1) core_fields(1)[OF c] by (simp add: seal_validates)
    ultimately have "runtime_inv H (snd (file_evidence (seal H e) (new_ingest\<lparr>ing_sequence_gap := (verdict seq = Gap),
        ing_id := compute_evidence_id H e\<rparr>) ?rt))"
      by (intro file_evidence_inv) simp_all
    then show ?thesis by (simp add: filed(7))
  qed
  then show ?thesis by (simp add: i)
qed

lemma ingest_all_inv: "runtime_inv H rt \<Longrightarrow> runtime_inv H (snd (ingest_all H es rt))"
proof (induction es arbitrary: rt)
  case (Cons e es)
  obtain res rt1 where i: "ingest_evidence H e rt = (res, rt1)" by fastforce
  have "runtime_inv H rt1" using ingest_evidence_inv[OF Cons.prems, of e] by (simp add: i)
  from Cons.IH[OF this] show ?case by (cases "ingest_all H es rt1") (simp add: i)
qed simp

lemma ingest_batch_inv: "runtime_inv H rt \<Longrightarrow> runtime_inv H (snd (ingest_batch H es rt))"
  using ingest_all_inv[of H rt es] by (auto simp: ingest_batch_def split: prod.splits)

subsection \<open>Publications and sources\<close>

lemma register_inv:
  assumes "runtime_inv H rt"
  shows "runtime_inv H (snd (runtime_register_source H d rt))"
proof -
  obtain st rt1 where p: "persist_record Rec_Source (encode_source d) rt = (st, rt1)" by fastforce
  have i: "runtime_inv H rt1" by (rule runtime_inv_back[OF core_persist[OF p] assms])
  then have "registry_inv (snd (register_source H d (rt_sources rt1)))"
    using sources.register_inv by (simp add: runtime_inv_def)
  then show ?thesis using i p
    by (cases st) (auto simp: runtime_register_source_def runtime_inv_def split: prod.splits)
qed

lemma publish_topology_inv:
  assumes "runtime_inv H rt"
  shows "runtime_inv H (snd (publish_topology H g rt))"
proof -
  {
    fix g' i
    assume f: "TopologyGeneration_finalize H (rt_limits rt) g = Inr g'" and b: "TopologyIndex_build g' (rt_limits rt) = Inr i"
    let ?rt = "rt\<lparr>rt_epoch := topo_epoch g', rt_incarnation := topo_incarnation g',
      rt_topology_revision := topo_revision g', rt_topology_index := Some i, rt_topology := Some g'\<rparr>"
    have "runtime_inv H ?rt" using assms finalize_inv[OF f] b by (simp add: runtime_inv_def expected_inv_def)
    moreover obtain st rt1 where "persist_record Rec_TopologyGeneration (encode_topology g') ?rt = (st, rt1)" by fastforce
    ultimately have "runtime_inv H (snd (persist_record Rec_TopologyGeneration (encode_topology g') ?rt))"
      using runtime_inv_back core_persist by fastforce
  }
  then show ?thesis using assms by (auto simp: publish_topology_def split: sum.splits)
qed

lemma publish_routes_inv:
  assumes "runtime_inv H rt"
  shows "runtime_inv H (snd (publish_routes H g rt))"
proof -
  {
    fix g'
    assume f: "RouteGeneration_finalize H (rt_limits rt) g = Inr g'"
    let ?rt = "rt\<lparr>rt_epoch := route_epoch g', rt_incarnation := route_incarnation g',
      rt_route_revision := route_revision g', rt_routes := Some g'\<rparr>"
    have "runtime_inv H ?rt" using assms route_finalize_inv[OF f] by (simp add: runtime_inv_def expected_inv_def)
    moreover obtain st rt1 where "persist_record Rec_RouteGeneration (encode_routes g') ?rt = (st, rt1)" by fastforce
    ultimately have "runtime_inv H (snd (persist_record Rec_RouteGeneration (encode_routes g') ?rt))"
      using runtime_inv_back core_persist by fastforce
  }
  then show ?thesis using assms by (auto simp: publish_routes_def split: sum.splits)
qed

subsection \<open>Comparisons and reports\<close>

lemma record_finding_limits: "finding_limits (snd (record_finding H r t reg)) = finding_limits reg"
  by (auto simp: record_finding_def make_room_def Let_def split: option.splits sum.splits if_splits)

lemma history_append_limits: "history_limits (snd (history_append r h)) = history_limits h"
  using history_append_cases by (metis prod.collapse)

lemma resolve_limits: "finding_limits (snd (resolve_from_match r t reg)) = finding_limits reg"
  by (simp add: resolve_from_match_def)

lemma set_history_inv:
  "runtime_inv H rt \<Longrightarrow> runtime_inv H (rt\<lparr>rt_history := snd (history_append r (rt_history rt))\<rparr>)"
  by (simp add: runtime_inv_def reports_inv_def history_append_inv history_append_limits)

lemma set_findings_inv:
  "runtime_inv H rt \<Longrightarrow> findings_inv H reg \<Longrightarrow> finding_limits reg = finding_limits (rt_findings rt) \<Longrightarrow>
   runtime_inv H (rt\<lparr>rt_findings := reg\<rparr>)"
  by (simp add: runtime_inv_def reports_inv_def)

text \<open>The findings after the recording of a result, before anything is persisted.\<close>

definition settle_finding :: "ComparisonResult \<Rightarrow> FindingId \<Rightarrow> Runtime \<Rightarrow> Runtime" where
  "settle_finding result i rt =
     (if valid_digest_id i then count_metric add_finding_recorded rt
      else case clock_now rt of (t, rt) \<Rightarrow>
        case resolve_from_match result t (rt_findings rt) of
          (n, reg) \<Rightarrow> count_metric (add_finding_resolved (of_nat n)) (rt\<lparr>rt_findings := reg\<rparr>))"

lemma settle_finding_inv: "runtime_inv H rt \<Longrightarrow> runtime_inv H (settle_finding result i rt)"
proof -
  assume inv: "runtime_inv H rt"
  let ?rt = "rt\<lparr>rt_ticks := rt_ticks rt + 1\<rparr>"
  have r: "findings_inv H (snd (resolve_from_match result t (rt_findings rt)))" for t
    using inv by (intro resolve_from_match_inv) (simp add: runtime_inv_def reports_inv_def)
  have "runtime_inv H (?rt\<lparr>rt_findings := snd (resolve_from_match result t (rt_findings rt))\<rparr>)" for t
    by (rule set_findings_inv) (use inv r resolve_limits in simp_all)
  then show ?thesis using inv by (simp add: settle_finding_def clock_now_def split: prod.splits) (metis snd_conv)
qed

text \<open>The persistence of a recorded result leaves the core alone.\<close>

definition persist_result :: "ComparisonResult \<Rightarrow> Runtime \<Rightarrow> ComparisonResult Result \<times> Runtime" where
  "persist_result result rt =
     (if rt_store rt = None then (Inr result, rt)
      else case persist_comparison result rt of
          (Inl e, rt) \<Rightarrow> (Inl e, rt)
        | (Inr _, rt) \<Rightarrow>
            (case persist_findings
                    (filter (\<lambda>f. last_comparison f = cmp_id result) (all_findings (rt_findings rt))) rt of
               (Inl e, rt) \<Rightarrow> (Inl e, rt)
             | (Inr _, rt) \<Rightarrow> (Inr result, rt)))"

lemma core_persist_result: "core (snd (persist_result result rt)) = core rt"
  unfolding persist_result_def persist_comparison_def
  by (auto split: prod.splits sum.splits dest!: core_persist core_persist_findings)

lemma record_result_eq:
  "record_result H result rt =
     (let rt = rt\<lparr>rt_history := snd (history_append result (rt_history rt))\<rparr>
      in case clock_now rt of (t, rt) \<Rightarrow>
        case record_finding H result t (rt_findings rt) of
          (Inl e, reg) \<Rightarrow> (Inl e, rt\<lparr>rt_findings := reg\<rparr>)
        | (Inr i, reg) \<Rightarrow> persist_result result (settle_finding result i (rt\<lparr>rt_findings := reg\<rparr>)))"
proof -
  obtain h where "history_append result (rt_history rt) = (ok, h)"
    using history_append_cases by (metis prod.collapse)
  then show ?thesis
    by (simp add: record_result_def persist_result_def settle_finding_def Let_def split: prod.splits sum.splits)
qed

lemma record_result_inv:
  assumes "runtime_inv H rt"
  shows "runtime_inv H (snd (record_result H result rt))"
proof -
  let ?rt = "rt\<lparr>rt_history := snd (history_append result (rt_history rt))\<rparr>"
  obtain t rt1 where c: "clock_now ?rt = (t, rt1)" by fastforce
  have i1: "runtime_inv H rt1" by (rule runtime_inv_back[OF core_clock[OF c] set_history_inv[OF assms]])
  have "findings_inv H (snd (record_finding H result t (rt_findings rt1)))"
    by (rule record_finding_inv) (use i1 in \<open>simp add: runtime_inv_def reports_inv_def\<close>)
  then have i2: "runtime_inv H (rt1\<lparr>rt_findings := snd (record_finding H result t (rt_findings rt1))\<rparr>)"
    by (intro set_findings_inv) (simp_all add: i1 record_finding_limits)
  obtain res reg where r: "record_finding H result t (rt_findings rt1) = (res, reg)" by fastforce
  show ?thesis
    using i2 runtime_inv_back[OF core_persist_result settle_finding_inv] r c
    by (cases res) (simp_all add: record_result_eq Let_def)
qed

lemma compare_bucket_inv:
  assumes "runtime_inv H rt"
  shows "runtime_inv H (snd (compare_bucket H key keep rt))"
proof -
  obtain t rt1 where c: "clock_now rt = (t, rt1)" by fastforce
  have i: "runtime_inv H rt1" by (rule runtime_inv_back[OF core_clock[OF c] assms])
  show ?thesis using i record_result_inv by (simp add: compare_bucket_def c Let_def split: sum.splits)
qed

lemma compare_group_inv: "runtime_inv H rt \<Longrightarrow> runtime_inv H (snd (compare_group H g rt))"
  by (auto simp: compare_group_def compare_bucket_inv split: option.splits)

lemma compare_path_inv: "runtime_inv H rt \<Longrightarrow> runtime_inv H (snd (compare_path H p rt))"
  by (auto simp: compare_path_def compare_bucket_inv split: option.splits)

lemma compare_keys_inv: "runtime_inv H rt \<Longrightarrow> runtime_inv H (snd (compare_keys H keys rt))"
proof (induction keys arbitrary: rt)
  case (Cons key keys)
  obtain r rt1 where c: "compare_bucket H key True rt = (r, rt1)" by fastforce
  have "runtime_inv H rt1" using compare_bucket_inv[OF Cons.prems, of key True] by (simp add: c)
  from this Cons.IH[OF this] show ?case
    by (cases r; cases "compare_keys H keys rt1") (auto simp: c split: sum.splits)
qed simp

lemma compare_all_inv: "runtime_inv H rt \<Longrightarrow> runtime_inv H (snd (compare_all H rt))"
  unfolding compare_all_def by (rule compare_keys_inv)

lemma batch_task_inv: "runtime_inv H rt \<Longrightarrow> runtime_inv H (batch_task H batch a b rt)"
  by (auto simp: batch_task_def Let_def intro: compare_all_inv ingest_batch_inv)

lemma acknowledge_finding_inv:
  assumes "runtime_inv H rt"
  shows "runtime_inv H (snd (acknowledge_finding i rt))"
proof -
  obtain t rt1 where c: "clock_now rt = (t, rt1)" by fastforce
  have inv: "runtime_inv H rt1" by (rule runtime_inv_back[OF core_clock[OF c] assms])
  have "findings_inv H (snd (acknowledge i t (rt_findings rt1)))"
    by (rule acknowledge_inv) (use inv in \<open>simp add: runtime_inv_def reports_inv_def\<close>)
  moreover have "finding_limits (snd (acknowledge i t (rt_findings rt1))) = finding_limits (rt_findings rt1)"
    by (simp add: acknowledge_def split: option.splits)
  ultimately show ?thesis using set_findings_inv[OF inv] by (simp add: acknowledge_finding_def c split: prod.splits) (metis snd_conv)
qed

lemma prune_history_inv:
  assumes "runtime_inv H rt"
  shows "runtime_inv H (snd (prune_history rt))"
proof -
  obtain t rt1 where c: "clock_now rt = (t, rt1)" by fastforce
  have inv: "runtime_inv H rt1" by (rule runtime_inv_back[OF core_clock[OF c] assms])
  have "history_inv (snd (prune t (rt_history rt1)))"
    using prune_inv inv by (auto simp: runtime_inv_def reports_inv_def)
  moreover have "history_limits (snd (prune t (rt_history rt1))) = history_limits (rt_history rt1)"
    using history_limits_step[of "Prune_op t"] by simp
  ultimately have "runtime_inv H (rt1\<lparr>rt_history := snd (prune t (rt_history rt1))\<rparr>)"
    using inv by (simp add: runtime_inv_def reports_inv_def)
  then show ?thesis by (simp add: prune_history_def c split: prod.splits) (metis snd_conv)
qed

lemma flush_inv: "runtime_inv H rt \<Longrightarrow> runtime_inv H (snd (flush rt))"
proof -
  assume inv: "runtime_inv H rt"
  obtain st rt1 where p: "persist_findings (all_findings (rt_findings rt)) rt = (st, rt1)" by fastforce
  show ?thesis using inv runtime_inv_back[OF core_persist_findings[OF p] inv] by (simp add: flush_def p)
qed

end
