(* ===== verification/RuntimeRuns.thy ===== *)
theory RuntimeRuns
  imports RuntimeSound
begin

text \<open>
  The runs of the runtime: restoring, starting and stopping keep the invariant, so every state that a
  sequence of calls and worker steps reaches satisfies it; what the store holds is only ever extended
  by the calls between a start and a stop.
\<close>

section \<open>Restoring\<close>

lemma restore_evidence_inv:
  assumes "runtime_inv H rt"
  shows "runtime_inv H (snd (restore_evidence H p rt))"
proof (cases "decode_exact (decode_evidence H (rt_limits rt)) p")
  case (Inr e)
  then have e: "evidence_validate H (rt_limits rt) e = ok" "ev_id e = compute_evidence_id H e"
    using decode_evidence_accepts by (auto simp: decode_exact_Inr)
  show ?thesis
  proof (cases "runtime_resolve_subject (rt_routes rt) e")
    case key: (Inr key)
    note b = bucket_of_inv[OF assms, of key]
    show ?thesis using set_bucket_inv[OF assms b] set_bucket_inv[OF assms bucket_snoc[OF b _ _ e]]
      by (simp add: restore_evidence_def Inr key Let_def)
  qed (use assms in \<open>simp add: restore_evidence_def Inr\<close>)
qed (use assms in \<open>simp add: restore_evidence_def\<close>)

lemma restore_comparison_inv:
  assumes "runtime_inv H rt"
  shows "runtime_inv H (snd (restore_comparison H p rt))"
  using assms set_history_inv[OF assms]
  by (simp add: restore_comparison_def split: sum.splits option.splits prod.splits) (metis snd_conv)

lemma restore_finding_limits: "finding_limits (snd (restore_finding H f reg)) = finding_limits reg"
  by (simp add: restore_finding_def split: option.splits)

lemma restore_stored_finding_inv:
  assumes "runtime_inv H rt"
  shows "runtime_inv H (snd (restore_stored_finding H p rt))"
proof -
  have "findings_inv H (snd (restore_finding H f (rt_findings rt)))" for f
    using assms by (intro restore_finding_inv) (simp add: runtime_inv_def reports_inv_def)
  then have "runtime_inv H (rt\<lparr>rt_findings := snd (restore_finding H f (rt_findings rt))\<rparr>)" for f
    by (rule set_findings_inv[OF assms]) (rule restore_finding_limits)
  then show ?thesis using assms
    by (simp add: restore_stored_finding_def split: sum.splits option.splits prod.splits) (metis snd_conv)
qed

lemma restore_source_inv:
  assumes "runtime_inv H rt"
  shows "runtime_inv H (snd (restore_source H p rt))"
proof -
  have "registry_inv (snd (register_source H d (rt_sources rt)))" for d
    using assms sources.register_inv by (simp add: runtime_inv_def)
  then show ?thesis using assms
    by (auto simp: restore_source_def runtime_inv_def split: sum.splits prod.splits) (metis snd_conv)
qed

lemma restore_record_inv: "runtime_inv H rt \<Longrightarrow> runtime_inv H (snd (restore_record H r rt))"
  by (simp add: restore_record_def restore_evidence_inv restore_comparison_inv restore_stored_finding_inv
      restore_source_inv split: RecordType.splits)

lemma restore_records_inv: "runtime_inv H rt \<Longrightarrow> runtime_inv H (snd (restore_records H rs rt))"
proof (induction rs arbitrary: rt)
  case (Cons r rs)
  obtain st rt1 where r: "restore_record H r rt = (st, rt1)" by fastforce
  have "runtime_inv H rt1" using restore_record_inv[OF Cons.prems, of r] by (simp add: r)
  with Cons.IH show ?case by (cases st) (simp_all add: r)
qed simp

lemma restore_from_store_inv: "runtime_inv H rt \<Longrightarrow> runtime_inv H (snd (restore_from_store H rt))"
  by (simp add: restore_from_store_def restore_records_inv split: option.splits sum.splits)

section \<open>Starting and stopping\<close>

lemma start_store_inv:
  assumes "runtime_inv H rt"
  shows "runtime_inv H (snd (start_store H rt))"
proof -
  obtain st rt1 where o: "open_store rt = (st, rt1)" by fastforce
  have "runtime_inv H rt1" by (rule runtime_inv_back[OF core_open_store[OF o] assms])
  then show ?thesis using assms restore_from_store_inv by (cases st) (simp_all add: start_store_def o)
qed

lemma set_pool_inv: "runtime_inv H rt \<Longrightarrow> workers_inv pool \<Longrightarrow> runtime_inv H (rt\<lparr>rt_pool := pool\<rparr>)"
  by (simp add: runtime_inv_def)

lemma set_state_inv [simp]: "runtime_inv H (rt\<lparr>rt_state := st\<rparr>) = runtime_inv H rt"
  by (rule runtime_inv_core) (simp add: core_def)

lemma forget_expected_inv: "runtime_inv H rt \<Longrightarrow> runtime_inv H (forget_expected rt)"
  by (simp add: runtime_inv_def expected_inv_def forget_expected_def)

lemma started_pool_inv: "workers_inv (Some (snd (pool_start (new_pool n d))))"
  unfolding workers_inv_def by (auto intro!: start_inv new_pool_inv) (simp add: new_pool_def)

lemma runtime_start_inv:
  assumes "runtime_inv H rt"
  shows "runtime_inv H (snd (runtime_start H rt))"
proof -
  let ?new = "new_pool (unat (worker_thread_total (rt_config rt))) (unat (max_queue_depth (rt_limits rt)))"
  obtain st and pool :: "ObservedPathEvidence list WorkerPool" where p: "pool_start ?new = (st, pool)" by fastforce
  have "runtime_inv H (rt\<lparr>rt_pool := Some pool\<rparr>)"
    using set_pool_inv[OF assms started_pool_inv] p by (metis snd_conv)
  moreover obtain st' rt1 where s: "start_store H (rt\<lparr>rt_pool := Some pool\<rparr>) = (st', rt1)" by fastforce
  ultimately have "runtime_inv H rt1" using start_store_inv by (metis snd_conv)
  then show ?thesis using assms p s \<open>runtime_inv H (rt\<lparr>rt_pool := Some pool\<rparr>)\<close>
    by (cases st; cases st') (simp_all add: runtime_start_def Let_def forget_expected_inv)
qed

lemma stop_begin_inv: "runtime_inv H rt \<Longrightarrow> runtime_inv H (stop_begin rt)"
  by (auto simp: stop_begin_def runtime_inv_def workers_inv_def stop_inv)

text \<open>The workers of the runtime have all returned.\<close>

definition workers_returned :: "Runtime \<Rightarrow> bool" where
  "workers_returned rt \<longleftrightarrow> (case rt_pool rt of None \<Rightarrow> True | Some p \<Rightarrow> \<not> running p \<and> all_returned p)"

lemma core_stop_end: "core (snd (stop_end rt)) = core (rt\<lparr>rt_pool := map_option shutdown_end (rt_pool rt)\<rparr>)"
  by (auto simp: stop_end_def clock_now_def core_def Let_def split: option.splits prod.splits sum.splits)

lemma stop_end_inv:
  assumes "runtime_inv H rt" and "workers_returned rt"
  shows "runtime_inv H (snd (stop_end rt))"
proof -
  have "workers_inv (map_option shutdown_end (rt_pool rt))"
    using assms join_inv by (auto simp: runtime_inv_def workers_inv_def workers_returned_def)
  then show ?thesis using runtime_inv_back[OF core_stop_end set_pool_inv[OF assms(1)]] by blast
qed

lemma submit_batch_inv:
  assumes "runtime_inv H rt"
  shows "runtime_inv H (snd (submit_batch batch rt))"
proof (cases "rt_pool rt")
  case (Some p)
  have "pool_inv (snd (pool_submit (Some batch) p))"
    using assms Some submit_inv by (auto simp: runtime_inv_def workers_inv_def)
  then have "runtime_inv H (rt\<lparr>rt_pool := Some (snd (pool_submit (Some batch) p))\<rparr>)"
    by (intro set_pool_inv[OF assms]) (simp add: workers_inv_def)
  then show ?thesis using assms Some by (simp add: submit_batch_def split: prod.splits) (metis snd_conv)
qed (use assms in \<open>simp add: submit_batch_def\<close>)

section \<open>Runs\<close>

text \<open>
  The calls between a start and a stop. The body of a queued task consists of the same calls, so what
  interleaves with it is a run of these rules.
\<close>

inductive runtime_call :: "hasher \<Rightarrow> Runtime \<Rightarrow> Runtime \<Rightarrow> bool" for H where
  register: "runtime_call H rt (snd (runtime_register_source H d rt))"
| topology: "runtime_call H rt (snd (publish_topology H t rt))"
| routes: "runtime_call H rt (snd (publish_routes H g rt))"
| ingest: "runtime_call H rt (snd (ingest_evidence H e rt))"
| group: "runtime_call H rt (snd (compare_group H i rt))"
| path: "runtime_call H rt (snd (compare_path H q rt))"
| all: "runtime_call H rt (snd (compare_all H rt))"
| submit: "runtime_call H rt (snd (submit_batch batch rt))"
| worker: "rt_pool rt = Some p \<Longrightarrow> worker_step p p' \<Longrightarrow> runtime_call H rt (rt\<lparr>rt_pool := Some p'\<rparr>)"
| task: "runtime_call H rt (batch_task H batch before after rt)"
| acknowledge: "runtime_call H rt (snd (acknowledge_finding i rt))"
| prune: "runtime_call H rt (snd (prune_history rt))"
| flush: "runtime_call H rt (snd (flush rt))"
| history: "runtime_call H rt (snd (runtime_history q rt))"

inductive runtime_step :: "hasher \<Rightarrow> Runtime \<Rightarrow> Runtime \<Rightarrow> bool" for H where
  call: "runtime_call H rt rt' \<Longrightarrow> runtime_step H rt rt'"
| start: "runtime_step H rt (snd (runtime_start H rt))"
| stopping: "runtime_step H rt (stop_begin rt)"
| stopped: "rt_state rt = Runtime_Stopping \<Longrightarrow> workers_returned rt \<Longrightarrow> runtime_step H rt (snd (stop_end rt))"

lemma runtime_history_core: "core (snd (runtime_history q rt)) = core rt"
  by (simp add: runtime_history_def clock_now_def core_def)

lemma runtime_call_inv: "runtime_call H rt rt' \<Longrightarrow> runtime_inv H rt \<Longrightarrow> runtime_inv H rt'"
proof (induction rule: runtime_call.induct)
  case (worker rt p p')
  then have "pool_inv p'" using worker_step_inv by (auto simp: runtime_inv_def workers_inv_def)
  then show ?case by (intro set_pool_inv[OF worker.prems]) (simp add: workers_inv_def)
next
  case (history rt q)
  then show ?case using runtime_inv_back[OF runtime_history_core] by blast
qed (simp_all add: register_inv publish_topology_inv publish_routes_inv ingest_evidence_inv compare_group_inv
    compare_path_inv compare_all_inv submit_batch_inv batch_task_inv acknowledge_finding_inv prune_history_inv flush_inv)

lemma runtime_step_inv: "runtime_step H rt rt' \<Longrightarrow> runtime_inv H rt \<Longrightarrow> runtime_inv H rt'"
  by (induction rule: runtime_step.induct) (simp_all add: runtime_call_inv runtime_start_inv stop_begin_inv stop_end_inv)

lemma runtime_steps_inv: "(runtime_step H)\<^sup>*\<^sup>* rt rt' \<Longrightarrow> runtime_inv H rt \<Longrightarrow> runtime_inv H rt'"
  by (induction rule: rtranclp_induct) (simp_all add: runtime_step_inv)

lemma created_inv:
  assumes "runtime_create config clock disk = Inr rt"
  shows "runtime_inv H rt" and "rt_limits rt = cfg_limits config" and "validate_limits (cfg_limits config) = ok"
    and "rt_routes rt = None" and "rt_state rt = Runtime_Created" and "rt_store rt = None" and "rt_disk rt = disk"
    and "rt_config rt = config" and "rt_evidence rt = []" and "rt_ledger rt = []" and "rt_ticks rt = 0" and "rt_sources rt = []"
    and "clock = Some (rt_clock rt)" and "rt_epoch rt = no_id" and "rt_topology rt = None"
proof -
  show "runtime_inv H rt"
    using assms by (auto simp: runtime_create_def try_bind_eq_Inr runtime_inv_def evidence_inv_def reports_inv_def
        expected_inv_def workers_inv_def registry_inv_def new_findings_def findings_inv_def new_history_def
        history_inv_def split: option.splits if_splits)
qed (use assms in \<open>auto simp: runtime_create_def try_bind_eq_Inr split: option.splits if_splits\<close>)

section \<open>The configuration\<close>

lemma core_config: "core rt' = core rt \<Longrightarrow> rt_config rt' = rt_config rt"
  by (rule core_fields(1))

lemma persist_config: "persist_record ty p rt = (st, rt') \<Longrightarrow> rt_config rt' = rt_config rt"
  by (rule core_config[OF core_persist])

lemma set_bucket_config [simp]: "rt_config (set_bucket key b rt) = rt_config rt"
  by (simp add: set_bucket_def)

lemma count_config [simp]: "rt_config (count_metric f rt) = rt_config rt"
  by (simp add: count_metric_def)

lemma file_config:
  assumes "file_evidence e res rt = (res', rt')"
  shows "rt_config rt' = rt_config rt"
  using assms
proof (cases rule: file_evidence_cases)
  case rejected
  then show ?thesis using core_config set_bucket_config by metis
qed (use core_config set_bucket_config in metis)+

lemma ingest_config [simp]: "rt_config (snd (ingest_evidence H e rt)) = rt_config rt"
proof -
  obtain res rt' where i: "ingest_evidence H e rt = (res, rt')" by fastforce
  then have "rt_config rt' = rt_config rt"
  proof (cases rule: ingest_evidence_cases)
    case (filed d seq ledger)
    have "rt_config (note_sequence v x (rt\<lparr>rt_ledger := l\<rparr>)) = rt_config rt" for v x l
      by (simp add: note_sequence_def)
    then show ?thesis using file_config[OF filed(7)] by simp
  qed (rule core_config)
  then show ?thesis by (simp add: i)
qed

lemma ingest_all_config [simp]: "rt_config (snd (ingest_all H es rt)) = rt_config rt"
proof (induction es arbitrary: rt)
  case (Cons e es)
  obtain res rt1 where i: "ingest_evidence H e rt = (res, rt1)" by fastforce
  have "rt_config rt1 = rt_config rt" using ingest_config[of H e rt] by (simp add: i)
  with Cons.IH[of rt1] show ?case by (cases "ingest_all H es rt1") (simp add: i)
qed simp

lemma ingest_batch_config [simp]: "rt_config (snd (ingest_batch H es rt)) = rt_config rt"
  by (cases "ingest_all H es rt") (use ingest_all_config[of H es rt] in \<open>simp add: ingest_batch_def\<close>)

lemma settle_config [simp]: "rt_config (settle_finding r i rt) = rt_config rt"
  by (simp add: settle_finding_def clock_now_def split: prod.splits)

lemma record_result_config [simp]: "rt_config (snd (record_result H r rt)) = rt_config rt"
  using core_config[OF core_persist_result]
  by (auto simp: record_result_eq Let_def clock_now_def split: prod.splits sum.splits)

lemma compare_bucket_config [simp]: "rt_config (snd (compare_bucket H key keep rt)) = rt_config rt"
  by (simp add: compare_bucket_def clock_now_def Let_def split: sum.splits)

lemma compare_keys_config [simp]: "rt_config (snd (compare_keys H keys rt)) = rt_config rt"
proof (induction keys arbitrary: rt)
  case (Cons key keys)
  obtain r rt1 where c: "compare_bucket H key True rt = (r, rt1)" by fastforce
  have "rt_config rt1 = rt_config rt" using compare_bucket_config[of H key True rt] by (simp add: c)
  with Cons.IH[of rt1] show ?case by (cases r; cases "compare_keys H keys rt1") (auto simp: c split: sum.splits)
qed simp

lemma persist_record_config [simp]: "rt_config (snd (persist_record ty p rt)) = rt_config rt"
  by (metis persist_config prod.collapse)

lemma publish_config [simp]: "rt_config (snd (publish_topology H t rt)) = rt_config rt"
  "rt_config (snd (publish_routes H g rt)) = rt_config rt"
  by (simp_all add: publish_topology_def publish_routes_def split: sum.splits)

lemma register_config [simp]: "rt_config (snd (runtime_register_source H d rt)) = rt_config rt"
  by (auto simp: runtime_register_source_def dest: persist_config split: sum.splits prod.splits)

lemma restore_evidence_config [simp]: "rt_config (snd (restore_evidence H p rt)) = rt_config rt"
  by (simp add: restore_evidence_def Let_def split: sum.splits)

lemma restore_comparison_config [simp]: "rt_config (snd (restore_comparison H p rt)) = rt_config rt"
  by (simp add: restore_comparison_def split: sum.splits option.splits prod.splits)

lemma restore_stored_finding_config [simp]: "rt_config (snd (restore_stored_finding H p rt)) = rt_config rt"
  by (simp add: restore_stored_finding_def split: sum.splits option.splits prod.splits)

lemma restore_source_config [simp]: "rt_config (snd (restore_source H p rt)) = rt_config rt"
  by (simp add: restore_source_def split: sum.splits prod.splits)

lemma restore_record_config [simp]: "rt_config (snd (restore_record H r rt)) = rt_config rt"
  by (cases "rec_type r") (simp_all add: restore_record_def)

lemma restore_records_config [simp]: "rt_config (snd (restore_records H rs rt)) = rt_config rt"
proof (induction rs arbitrary: rt)
  case (Cons r rs)
  obtain st rt1 where r: "restore_record H r rt = (st, rt1)" by fastforce
  have "rt_config rt1 = rt_config rt" using restore_record_config[of H r rt] by (simp add: r)
  with Cons.IH[of rt1] show ?case by (cases st) (simp_all add: r)
qed simp

lemma start_store_config [simp]: "rt_config (snd (start_store H rt)) = rt_config rt"
proof -
  obtain st rt1 where o: "open_store rt = (st, rt1)" by fastforce
  then show ?thesis using core_config[OF core_open_store[OF o]]
    by (cases st) (auto simp: start_store_def restore_from_store_def split: option.splits sum.splits)
qed

lemma runtime_start_config [simp]: "rt_config (snd (runtime_start H rt)) = rt_config rt"
proof -
  let ?new = "new_pool (unat (worker_thread_total (rt_config rt))) (unat (max_queue_depth (rt_limits rt)))"
  obtain st and pool :: "ObservedPathEvidence list WorkerPool" where p: "pool_start ?new = (st, pool)" by fastforce
  obtain st' rt1 where s: "start_store H (rt\<lparr>rt_pool := Some pool\<rparr>) = (st', rt1)" by fastforce
  have "rt_config rt1 = rt_config rt" using start_store_config[of H "rt\<lparr>rt_pool := Some pool\<rparr>"] s by simp
  then show ?thesis using p s
    by (cases st; cases st') (simp_all add: runtime_start_def Let_def forget_expected_def)
qed

lemma runtime_call_config: "runtime_call H rt rt' \<Longrightarrow> rt_config rt' = rt_config rt"
proof (induction rule: runtime_call.induct)
  case (flush rt)
  obtain st rt1 where p: "persist_findings (all_findings (rt_findings rt)) rt = (st, rt1)" by fastforce
  then show ?case using core_config[OF core_persist_findings[OF p]] by (simp add: flush_def)
qed (auto simp: compare_group_def compare_path_def compare_all_def submit_batch_def batch_task_def Let_def
    acknowledge_finding_def prune_history_def runtime_history_def clock_now_def split: option.splits prod.splits)

lemma runtime_step_config: "runtime_step H rt rt' \<Longrightarrow> rt_config rt' = rt_config rt"
proof (induction rule: runtime_step.induct)
  case (stopped rt)
  show ?case using core_config[OF core_stop_end, of rt] by simp
qed (simp_all add: runtime_call_config stop_begin_def)

lemma runtime_steps_config: "(runtime_step H)\<^sup>*\<^sup>* rt rt' \<Longrightarrow> rt_config rt' = rt_config rt"
  by (induction rule: rtranclp_induct) (simp_all add: runtime_step_config)

end
