(* ===== verification/RuntimeContracts.thy ===== *)
theory RuntimeContracts
  imports RuntimeRuns
begin

text \<open>
  The contracts of the runtime: what an ingestion may do and that it happens at most once, the order
  of epochs, what a crash and a restart keep of the evidence, and a registration that the runtime
  refuses but has already written to its store.
\<close>

section \<open>What the store gains\<close>

definition store_extends :: "Runtime \<Rightarrow> Runtime \<Rightarrow> bool" where
  "store_extends rt rt' \<longleftrightarrow>
     (\<forall>s. rt_store rt = Some s \<longrightarrow> store_inv s \<longrightarrow>
        (\<exists>s' ys. rt_store rt' = Some s' \<and> store_inv s' \<and> contents s' = contents s @ ys \<and>
                 st_options s' = st_options s \<and> st_recovery s' = st_recovery s))"

lemma extends_same: "rt_store rt' = rt_store rt \<Longrightarrow> store_extends rt rt'"
  by (auto simp: store_extends_def)

lemma extends_refl [simp]: "store_extends rt rt"
  by (rule extends_same) simp

lemma extends_trans [trans]: "store_extends a b \<Longrightarrow> store_extends b c \<Longrightarrow> store_extends a c"
  unfolding store_extends_def by (metis append.assoc)

lemma extends_store_eq: "rt_store b = rt_store a \<Longrightarrow> store_extends b c = store_extends a c"
  by (simp add: store_extends_def)

lemma extends_to_eq: "rt_store c = rt_store b \<Longrightarrow> store_extends a c = store_extends a b"
  by (simp add: store_extends_def)

lemma append_frame: "st_options (snd (store_append t p s)) = st_options s"
  "st_recovery (snd (store_append t p s)) = st_recovery s"
  by (simp_all add: store_append_def split: sum.splits)

lemma extends_persist: "store_extends rt (snd (persist_record ty p rt))"
proof -
  have "\<exists>ys. contents (snd (store_append ty p s)) = contents s @ ys" if "store_inv s" for s
    using store_log.append_extends[OF that] .
  moreover have "rt_store (snd (persist_record ty p rt)) = map_option (\<lambda>s. snd (store_append ty p s)) (rt_store rt)"
    by (auto simp: persist_record_def count_metric_def split: option.splits prod.splits sum.splits)
  ultimately show ?thesis
    using store_log.append_inv append_frame by (auto simp: store_extends_def)
qed

lemma store_count [simp]: "rt_store (count_metric f rt) = rt_store rt"
  by (simp add: count_metric_def)

lemma store_set_bucket [simp]: "rt_store (set_bucket key b rt) = rt_store rt"
  by (simp add: set_bucket_def)

lemma extends_persist_findings: "store_extends rt (snd (persist_findings fs rt))"
proof (induction fs arbitrary: rt)
  case (Cons f fs)
  obtain st rt1 where p: "persist_record Rec_Finding (encode_finding f) rt = (st, rt1)" by fastforce
  then have "store_extends rt rt1" using extends_persist[of rt Rec_Finding "encode_finding f"] by simp
  then show ?case using Cons.IH[of rt1] extends_trans by (cases st) (auto simp: p)
qed simp

lemma file_evidence_store:
  assumes "file_evidence e res rt = (res', rt')"
  shows "rt_store rt' = rt_store rt \<or>
    (\<exists>key. rt_store rt' = rt_store (snd (persist_evidence e (set_bucket key (bucket_of key rt) rt))))"
  using assms unfolding file_evidence_def
  by (auto simp: rejected_as_def count_rejected_def Let_def split: sum.splits if_splits prod.splits) (metis snd_conv)+

lemma extends_file: "file_evidence e res rt = (res', rt') \<Longrightarrow> store_extends rt rt'"
proof (drule file_evidence_store, elim disjE exE)
  fix key
  let ?rt = "set_bucket key (bucket_of key rt) rt"
  assume "rt_store rt' = rt_store (snd (persist_evidence e ?rt))"
  moreover have "store_extends ?rt (snd (persist_evidence e ?rt))"
    unfolding persist_evidence_def by (rule extends_persist)
  ultimately show "store_extends rt rt'" by (simp add: store_extends_def)
qed (rule extends_same)

lemma extends_ingest: "store_extends rt (snd (ingest_evidence H e rt))"
proof -
  obtain res rt' where i: "ingest_evidence H e rt = (res, rt')" by fastforce
  then have "store_extends rt rt'"
  proof (cases rule: ingest_evidence_cases)
    case (filed d seq ledger)
    have "rt_store (note_sequence v x (rt\<lparr>rt_ledger := l\<rparr>)) = rt_store rt" for v x l
      by (simp add: note_sequence_def)
    then show ?thesis using extends_file[OF filed(7)] by (simp add: store_extends_def)
  qed (rule extends_same)
  then show ?thesis by (simp add: i)
qed

lemma extends_ingest_all: "store_extends rt (snd (ingest_all H es rt))"
proof (induction es arbitrary: rt)
  case (Cons e es)
  obtain res rt1 where i: "ingest_evidence H e rt = (res, rt1)" by fastforce
  have "store_extends rt rt1" using extends_ingest[of rt H e] by (simp add: i)
  then show ?case using extends_trans[OF _ Cons.IH[of rt1]] by (cases "ingest_all H es rt1") (simp add: i)
qed simp

lemma extends_persist_result: "store_extends rt (snd (persist_result r rt))"
proof -
  obtain st rt1 where p: "persist_comparison r rt = (st, rt1)" by fastforce
  then have c: "store_extends rt rt1"
    using extends_persist[of rt Rec_Comparison "encode_comparison r"] by (simp add: persist_comparison_def)
  let ?fs = "filter (\<lambda>f. last_comparison f = cmp_id r) (all_findings (rt_findings rt1))"
  obtain st' rt2 where f: "persist_findings ?fs rt1 = (st', rt2)" by fastforce
  have "store_extends rt rt2" using extends_trans[OF c extends_persist_findings[of rt1 ?fs]] f by simp
  then show ?thesis using c p f by (cases st; cases st') (simp_all add: persist_result_def)
qed

lemma settle_store [simp]: "rt_store (settle_finding r i rt) = rt_store rt"
  by (simp add: settle_finding_def clock_now_def split: prod.splits)

lemma extends_record_result: "store_extends rt (snd (record_result H r rt))"
  using extends_persist_result
  by (auto simp: record_result_eq Let_def clock_now_def store_extends_def split: prod.splits sum.splits)

lemma extends_compare_bucket: "store_extends rt (snd (compare_bucket H key keep rt))"
  using extends_record_result
  by (auto simp: compare_bucket_def clock_now_def Let_def store_extends_def split: sum.splits)

lemma extends_compare_keys: "store_extends rt (snd (compare_keys H keys rt))"
proof (induction keys arbitrary: rt)
  case (Cons key keys)
  obtain r rt1 where c: "compare_bucket H key True rt = (r, rt1)" by fastforce
  have "store_extends rt rt1" using extends_compare_bucket[of rt H key True] by (simp add: c)
  then show ?case using extends_trans[OF _ Cons.IH[of rt1]]
    by (cases r; cases "compare_keys H keys rt1") (auto simp: c split: sum.splits)
qed simp

lemma extends_publish: "store_extends rt (snd (publish_topology H t rt))" "store_extends rt (snd (publish_routes H g rt))"
  using extends_persist
  by (auto simp: publish_topology_def publish_routes_def store_extends_def split: sum.splits)

lemma extends_register: "store_extends rt (snd (runtime_register_source H d rt))"
proof -
  obtain st rt1 where p: "persist_record Rec_Source (encode_source d) rt = (st, rt1)" by fastforce
  then have "store_extends rt rt1" using extends_persist[of rt Rec_Source "encode_source d"] by simp
  then show ?thesis using p
    by (cases st) (auto simp: runtime_register_source_def store_extends_def split: prod.splits)
qed

lemma extends_batch_task: "store_extends rt (batch_task H batch before after rt)"
proof -
  let ?rt = "snd (ingest_batch H batch rt)"
  have i: "store_extends rt ?rt"
    by (cases "ingest_all H batch rt") (use extends_ingest_all[of rt H batch] in \<open>simp add: ingest_batch_def\<close>)
  have "store_extends rt (snd (compare_all H ?rt))"
    unfolding compare_all_def by (rule extends_trans[OF i extends_compare_keys])
  with i show ?thesis by (simp add: batch_task_def Let_def store_extends_def)
qed

lemma extends_call: "runtime_call H rt rt' \<Longrightarrow> store_extends rt rt'"
proof (induction rule: runtime_call.induct)
  case (flush rt)
  show ?case using extends_persist_findings by (simp add: flush_def)
qed (auto simp: compare_group_def compare_path_def compare_all_def submit_batch_def acknowledge_finding_def
    prune_history_def runtime_history_def clock_now_def extends_publish extends_register extends_ingest
    extends_compare_bucket extends_compare_keys extends_batch_task
    split: option.splits prod.splits intro: extends_same)

lemma extends_calls: "(runtime_call H)\<^sup>*\<^sup>* rt rt' \<Longrightarrow> store_extends rt rt'"
  by (induction rule: rtranclp_induct) (auto intro: extends_trans extends_call)

section \<open>Ingestion\<close>

lemma observe_again:
  assumes "observe s i q ledger = (out, ledger')" and "valid_id i"
  shows "verdict (fst (observe s i q ledger')) = Replay"
  using assms by (auto simp: observe_def entry_observe_def Let_def split: if_splits prod.splits)

lemma file_evidence_ledger:
  assumes "file_evidence e res rt = (res', rt')"
  shows "rt_ledger rt' = rt_ledger rt"
  using assms unfolding file_evidence_def persist_evidence_def persist_record_def
  by (auto simp: rejected_as_def count_rejected_def count_metric_def set_bucket_def Let_def
      split: sum.splits if_splits prod.splits option.splits)

lemma note_sequence_ledger [simp]: "rt_ledger (note_sequence v e rt) = rt_ledger rt"
  by (simp add: note_sequence_def count_metric_def)

lemma note_sequence_store [simp]: "rt_store (note_sequence v e rt) = rt_store rt"
  by (simp add: note_sequence_def)

lemma validated_ids:
  "evidence_validate H limits e = ok \<Longrightarrow> valid_id (ev_incarnation e)"
  unfolding evidence_validate_def by (simp add: first_error_Inr del: first_error.simps)

lemma core_noted [simp]: "core (note_sequence v e (rt\<lparr>rt_ledger := l\<rparr>)) = core rt"
  by (simp add: core_def[of "rt\<lparr>rt_ledger := l\<rparr>"] core_def[of rt])

lemma set_bucket_frame: "rt_routes (set_bucket k b r) = rt_routes r" "rt_topology (set_bucket k b r) = rt_topology r"
  "rt_sources (set_bucket k b r) = rt_sources r" "rt_history (set_bucket k b r) = rt_history r"
  "rt_findings (set_bucket k b r) = rt_findings r"
  by (simp_all add: set_bucket_def)

text \<open>The parts of the state that no ingestion touches.\<close>

definition undisturbed :: "Runtime \<Rightarrow> Runtime \<Rightarrow> bool" where
  "undisturbed rt rt' \<longleftrightarrow> rt_routes rt' = rt_routes rt \<and> rt_topology rt' = rt_topology rt \<and>
     rt_sources rt' = rt_sources rt \<and> rt_history rt' = rt_history rt \<and> rt_findings rt' = rt_findings rt"

lemma undisturbed_core: "core rt' = core rt \<Longrightarrow> undisturbed rt rt'"
  unfolding undisturbed_def by (intro conjI) (rule core_fields, assumption)+

lemma undisturbed_bucket: "core rt' = core (set_bucket key b rt) \<Longrightarrow> undisturbed rt rt'"
  by (drule undisturbed_core) (simp add: undisturbed_def set_bucket_frame)

lemma ingest_undisturbed:
  assumes "ingest_evidence H e rt = (res, rt')"
  shows "undisturbed rt rt'"
  using assms
proof (cases rule: ingest_evidence_cases)
  case (filed d seq ledger)
  let ?rt = "note_sequence (verdict seq) (seal H e) (rt\<lparr>rt_ledger := ledger\<rparr>)"
  have "undisturbed ?rt rt'" using filed(7)
    by (cases rule: file_evidence_cases) (auto intro: undisturbed_core undisturbed_bucket)
  then show ?thesis using undisturbed_core[OF core_noted[where rt=rt and l=ledger and v="verdict seq" and e="seal H e"]]
    by (simp add: undisturbed_def)
qed (rule undisturbed_core)

text \<open>
  The runtime that the examples below run on: default limits, no store, one registered source.
\<close>

definition example_config :: RuntimeConfig where
  "example_config = \<lparr>cfg_limits = default_limits, cfg_comparison = default_comparison_policy, store_path = ''s'',
     persist = True, load_evidence_on_start = True, cfg_worker_threads = 1, mark_store_clean_on_stop = True\<rparr>"

definition example_runtime :: "byte list option \<Rightarrow> Runtime" where
  "example_runtime disk = projr (runtime_create example_config (Some (\<lambda>_. TimePoint 5)) disk)"

lemma example_created: "runtime_create example_config (Some (\<lambda>_. TimePoint 5)) disk = Inr (example_runtime disk)"
proof -
  have "ComparisonPolicy_validate default_comparison_policy = ok"
    by (simp add: ComparisonPolicy_validate_def default_comparison_policy_def FreshnessPolicy_validate_def
        default_freshness_policy_def guard_err_def)
  then have "\<exists>rt. runtime_create example_config (Some (\<lambda>_. TimePoint 5)) disk = Inr rt"
    using default_limits_valid by (simp add: runtime_create_def example_config_def try_bind_eq_Inr)
  then show ?thesis by (auto simp: example_runtime_def)
qed

definition example_observer :: SourceDescriptor where
  "example_observer = example_source\<lparr>source_id := StrongId 7\<rparr>"

text \<open>The example runtime with its source registered and the example store open.\<close>

definition ready_runtime :: Runtime where
  "ready_runtime = (example_runtime None)\<lparr>rt_sources := [(StrongId 7, example_observer)], rt_store := Some example_store\<rparr>"

lemma ready_runtime_facts:
  "rt_config ready_runtime = example_config" "rt_routes ready_runtime = None" "rt_evidence ready_runtime = []"
  "rt_ledger ready_runtime = []" "rt_sources ready_runtime = [(StrongId 7, example_observer)]"
  "rt_store ready_runtime = Some example_store"
  using created_inv[OF example_created[of None]] by (auto simp: ready_runtime_def)

lemma final_evidence_sealed: "seal three_hash final_evidence = final_evidence"
  by (simp add: seal_def compute_evidence_id_def from_digest_def three_hash_def final_evidence_def)

definition example_ledger :: SourceSequenceLedger where
  "example_ledger = snd (observe (StrongId 7) (StrongId 1) (StrongId 1) [])"

lemma example_reaches_filing:
  assumes "rt_config rt = example_config" and "rt_sources rt = [(StrongId 7, example_observer)]" and "rt_ledger rt = []"
  shows "ingest_evidence three_hash final_evidence rt =
    file_evidence final_evidence (new_ingest\<lparr>ing_sequence_gap := False, ing_id := ev_id final_evidence\<rparr>)
      (rt\<lparr>rt_ledger := example_ledger\<rparr>)"
proof -
  have "evidence_validate three_hash default_limits final_evidence = ok"
    using final_records_wf(4) by (simp add: evidence_wf_def)
  moreover have "observe (StrongId 7) (StrongId 1) (StrongId 1) [] =
      (\<lparr>verdict = InOrder, outcome_missing = 0, outcome_highest = StrongId 1\<rparr>, example_ledger)"
    by (simp add: example_ledger_def observe_def entry_observe_def ledger_entry_def new_entry_def no_id_def valid_id_def
        map_find_def)
  moreover have "ev_source final_evidence = StrongId 7" "ev_incarnation final_evidence = StrongId 1"
    "ev_sequence final_evidence = StrongId 1" "ev_authority final_evidence = Advisory" "ev_surface final_evidence = Synthetic"
    by (simp_all add: final_evidence_def example_evidence_def)
  ultimately show ?thesis
    using assms by (simp add: ingest_evidence_def registry_find_def map_find_def final_evidence_sealed example_config_def
        example_observer_def example_source_def note_sequence_def)
qed

lemma file_first:
  assumes "runtime_resolve_subject (rt_routes rt) e = Inr key" and "bucket_of key rt = []"
    and "0 < unat (max_evidence_per_comparison (rt_limits rt))" and "persist_evidence e (set_bucket key [] rt) = (ok, rt1)"
  shows "file_evidence e res rt = (res\<lparr>ing_persisted := True, ing_accepted := True\<rparr>,
    count_metric (add_evidence_accepted 1) (count_metric (add_evidence_offered 1) (set_bucket key [e] rt1)))"
  using assms by (simp add: file_evidence_def Let_def)

definition example_key :: SubjectKey where
  "example_key = SubjectKey (StrongId 1) (MaybeId (StrongId 1))"

lemma example_subject: "runtime_resolve_subject None final_evidence = Inr example_key"
  by (simp add: runtime_resolve_subject_def final_evidence_def example_evidence_def example_key_def present_def valid_id_def)

text \<open>The ready runtime without its store accepts the example evidence.\<close>

definition plain_runtime :: Runtime where
  "plain_runtime = ready_runtime\<lparr>rt_store := None\<rparr>"

lemma plain_ingest:
  "\<exists>res rt'. ingest_evidence three_hash final_evidence plain_runtime = (res, rt') \<and> ing_accepted res \<and>
     ing_id res \<noteq> no_digest_id \<and> bucket_of example_key rt' = [final_evidence]"
proof -
  let ?rt = "plain_runtime\<lparr>rt_ledger := example_ledger\<rparr>"
  have r: "ingest_evidence three_hash final_evidence plain_runtime =
      file_evidence final_evidence (new_ingest\<lparr>ing_sequence_gap := False, ing_id := ev_id final_evidence\<rparr>) ?rt"
    by (rule example_reaches_filing) (simp_all add: plain_runtime_def ready_runtime_facts)
  have b: "bucket_of example_key ?rt = []" by (simp add: bucket_of_def plain_runtime_def ready_runtime_facts map_find_def)
  have "rt_limits ?rt = default_limits" "rt_routes ?rt = None" "rt_store ?rt = None"
    by (simp_all add: plain_runtime_def ready_runtime_facts example_config_def)
  then have "file_evidence final_evidence res ?rt = (res\<lparr>ing_persisted := True, ing_accepted := True\<rparr>,
      count_metric (add_evidence_accepted 1) (count_metric (add_evidence_offered 1)
        (set_bucket example_key [final_evidence] (set_bucket example_key [] ?rt))))" for res
    by (intro file_first)
      (simp_all add: example_subject b persist_evidence_def persist_record_def set_bucket_def default_limits_def)
  moreover have "ev_id final_evidence \<noteq> no_digest_id" by (simp add: final_evidence_def no_digest_id_def)
  moreover have "bucket_of k (count_metric f rt) = bucket_of k rt" for k f rt
    by (simp add: bucket_of_def count_metric_def)
  ultimately show ?thesis unfolding r by simp
qed



text \<open>
  C17: evidence that has reached the filing stage, which the identity in the answer shows, is refused as
  a replay when it is offered again, whether the first offer was accepted or not.
\<close>

theorem offered_evidence_is_spent:
  assumes "ingest_evidence H e rt = (res, rt')" and "ing_id res \<noteq> no_digest_id"
    and "ingest_evidence H e rt' = (again, rt'')"
  shows "ing_replay again \<and> \<not> ing_accepted again \<and> (\<forall>k. bucket_of k rt'' = bucket_of k rt')"
  using assms(1)
proof (cases rule: ingest_evidence_cases)
  case refused
  then show ?thesis using assms(2) by simp
next
  case (filed d seq ledger)
  let ?rt = "note_sequence (verdict seq) (seal H e) (rt\<lparr>rt_ledger := ledger\<rparr>)"
  have c: "rt_config rt' = rt_config rt" using ingest_config[of H e rt] assms(1) by simp
  have s: "rt_sources rt' = rt_sources rt" using ingest_undisturbed[OF assms(1)] by (simp add: undisturbed_def)
  have l: "rt_ledger rt' = ledger" using file_evidence_ledger[OF filed(7)] by simp
  have replay: "verdict (fst (observe (ev_source e) (ev_incarnation e) (ev_sequence e) ledger)) = Replay"
    by (rule observe_again[OF filed(5) validated_ids[OF filed(1)]])
  have again: "again = new_ingest\<lparr>ing_replay := True, ing_reason := SourceSequenceReplay\<rparr>" "core rt'' = core rt'"
    using assms(3) filed(1-4) c s l replay
    by (auto simp: ingest_evidence_def rejected_as_def count_rejected_def count_metric_def core_def Let_def not_le
        split: prod.splits if_splits)
  then show ?thesis using bucket_of_core[OF again(2)] by (simp add: new_ingest_def)
qed

theorem offered_evidence_is_spent_witness:
  "\<exists>rt'. bucket_of example_key rt' = [final_evidence] \<and>
     rt' = snd (ingest_evidence three_hash final_evidence plain_runtime) \<and>
     ing_replay (fst (ingest_evidence three_hash final_evidence rt'))"
proof -
  obtain res rt' where i: "ingest_evidence three_hash final_evidence plain_runtime = (res, rt')" "ing_id res \<noteq> no_digest_id"
      "bucket_of example_key rt' = [final_evidence]"
    using plain_ingest by blast
  obtain again rt'' where a: "ingest_evidence three_hash final_evidence rt' = (again, rt'')" by fastforce
  show ?thesis using offered_evidence_is_spent[OF i(1,2) a] i a by simp
qed

lemma pool_inv_bounds: "pool_inv p \<Longrightarrow> pending p \<le> max_queue p \<and> active p \<le> thread_count p"
  using length_held[of "pool_threads p"]
  by (auto simp: pool_inv_def pool_shape_def pending_def active_def)

section \<open>The state that every run reaches\<close>



section \<open>Epochs\<close>

text \<open>The expected state and its authority; only publications and starts change it.\<close>

definition published where
  "published rt = (rt_epoch rt, rt_incarnation rt, rt_topology_revision rt, rt_route_revision rt, rt_topology rt, rt_routes rt)"

lemma published_updates [simp]: "published (rt\<lparr>rt_sources := ss\<rparr>) = published rt"
  "published (rt\<lparr>rt_ledger := l\<rparr>) = published rt" "published (rt\<lparr>rt_evidence := ev\<rparr>) = published rt"
  "published (rt\<lparr>rt_history := h\<rparr>) = published rt" "published (rt\<lparr>rt_findings := reg\<rparr>) = published rt"
  "published (rt\<lparr>rt_store := st\<rparr>) = published rt" "published (rt\<lparr>rt_pool := p\<rparr>) = published rt"
  "published (rt\<lparr>rt_ticks := n\<rparr>) = published rt" "published (count_metric f rt) = published rt"
  "published (set_bucket key b rt) = published rt" "published (note_sequence v e rt) = published rt"
  by (simp_all add: published_def count_metric_def set_bucket_def note_sequence_def)

lemma persist_published [simp]: "published (snd (persist_record ty p rt)) = published rt"
  by (auto simp: persist_record_def split: option.splits prod.splits sum.splits)

lemma persist_published_eq: "persist_record ty p rt = (st, rt') \<Longrightarrow> published rt' = published rt"
  by (metis persist_published snd_conv)

lemma persist_findings_published [simp]: "published (snd (persist_findings fs rt)) = published rt"
  by (induction fs rt rule: persist_findings.induct)
    (auto split: prod.splits sum.splits dest: persist_published_eq)

lemma file_published [simp]: "published (snd (file_evidence e res rt)) = published rt"
  by (auto simp: file_evidence_def rejected_as_def count_rejected_def persist_evidence_def Let_def
      dest: persist_published_eq split: sum.splits prod.splits)

lemma ingest_published [simp]: "published (snd (ingest_evidence H e rt)) = published rt"
  by (auto simp: ingest_evidence_def rejected_as_def count_rejected_def Let_def split: sum.splits prod.splits)

lemma ingest_all_published [simp]: "published (snd (ingest_all H es rt)) = published rt"
proof (induction es arbitrary: rt)
  case (Cons e es)
  obtain res rt1 where i: "ingest_evidence H e rt = (res, rt1)" by fastforce
  have "published rt1 = published rt" using ingest_published[of H e rt] by (simp add: i)
  with Cons.IH[of rt1] show ?case by (cases "ingest_all H es rt1") (simp add: i)
qed simp

lemma persist_result_published [simp]: "published (snd (persist_result r rt)) = published rt"
proof -
  obtain st rt1 where p: "persist_comparison r rt = (st, rt1)" by fastforce
  have 1: "published rt1 = published rt"
    using p persist_published[of Rec_Comparison "encode_comparison r" rt] by (simp add: persist_comparison_def)
  let ?fs = "filter (\<lambda>f. last_comparison f = cmp_id r) (all_findings (rt_findings rt1))"
  obtain st' rt2 where f: "persist_findings ?fs rt1 = (st', rt2)" by fastforce
  have "published rt2 = published rt1" using persist_findings_published[of ?fs rt1] f by simp
  then show ?thesis using 1 p f by (cases st; cases st') (simp_all add: persist_result_def)
qed

lemma settle_published [simp]: "published (settle_finding r i rt) = published rt"
  by (simp add: settle_finding_def clock_now_def split: prod.splits)

lemma compare_bucket_published [simp]: "published (snd (compare_bucket H key keep rt)) = published rt"
  by (auto simp: compare_bucket_def record_result_eq clock_now_def Let_def split: sum.splits prod.splits)

lemma compare_keys_published [simp]: "published (snd (compare_keys H keys rt)) = published rt"
proof (induction keys arbitrary: rt)
  case (Cons key keys)
  obtain r rt1 where c: "compare_bucket H key True rt = (r, rt1)" by fastforce
  have "published rt1 = published rt" using compare_bucket_published[of H key True rt] by (simp add: c)
  with Cons.IH[of rt1] show ?case by (cases r; cases "compare_keys H keys rt1") (auto simp: c split: sum.splits)
qed simp

lemma batch_task_published [simp]: "published (batch_task H batch before after rt) = published rt"
proof -
  have "published (snd (ingest_batch H batch rt)) = published rt"
    by (cases "ingest_all H batch rt") (use ingest_all_published[of H batch rt] in \<open>simp add: ingest_batch_def\<close>)
  then show ?thesis by (simp add: batch_task_def Let_def compare_all_def)
qed

lemma register_published [simp]: "published (snd (runtime_register_source H d rt)) = published rt"
  by (auto simp: runtime_register_source_def dest: persist_published_eq split: sum.splits prod.splits)

text \<open>What a call does to the expected state.\<close>

lemma call_published:
  assumes "runtime_call H rt rt'"
  shows "published rt' = published rt \<or>
    (\<exists>g. topology_guards g rt = ok \<and> \<not> republished_topology g rt \<and>
       published rt' = (topo_epoch g, topo_incarnation g, topo_revision g, rt_route_revision rt, Some g, rt_routes rt)) \<or>
    (\<exists>g. route_guards g rt = ok \<and> \<not> republished_routes g rt \<and>
       published rt' = (route_epoch g, route_incarnation g, rt_topology_revision rt, route_revision g, rt_topology rt, Some g))"
  using assms
proof (induction rule: runtime_call.induct)
  case (topology rt t)
  show ?case
    by (auto simp: publish_topology_def split: sum.splits) (auto simp: published_def)
next
  case (routes rt g)
  show ?case
    by (auto simp: publish_routes_def split: sum.splits) (auto simp: published_def)
qed (auto simp: compare_group_def compare_path_def compare_all_def submit_batch_def flush_def acknowledge_finding_def
    prune_history_def runtime_history_def clock_now_def split: option.splits prod.splits)

lemma not_fenced: "(valid_id a \<longrightarrow> \<not> b < a) \<Longrightarrow> a \<le> (b :: 'a StrongId)"
  by (cases a; cases b) (auto simp: valid_id_def)

lemma call_epoch: "runtime_call H rt rt' \<Longrightarrow> rt_epoch rt \<le> rt_epoch rt'"
proof (drule call_published, elim disjE exE conjE)
  fix g
  assume "topology_guards g rt = ok" "published rt' = (topo_epoch g, topo_incarnation g, topo_revision g,
    rt_route_revision rt, Some g, rt_routes rt)"
  then have "valid_id (rt_epoch rt) \<longrightarrow> \<not> topo_epoch g < rt_epoch rt" "rt_epoch rt' = topo_epoch g"
    by (simp_all add: topology_guards_def first_error_Inr published_def del: first_error.simps)
  then show "rt_epoch rt \<le> rt_epoch rt'" by (simp add: not_fenced)
next
  fix g
  assume "route_guards g rt = ok" "published rt' = (route_epoch g, route_incarnation g, rt_topology_revision rt,
    route_revision g, rt_topology rt, Some g)"
  then have "valid_id (rt_epoch rt) \<longrightarrow> \<not> route_epoch g < rt_epoch rt" "rt_epoch rt' = route_epoch g"
    by (simp_all add: route_guards_def first_error_Inr published_def del: first_error.simps)
  then show "rt_epoch rt \<le> rt_epoch rt'" by (simp add: not_fenced)
qed (simp add: published_def)

lemma call_revision:
  assumes "runtime_call H rt rt'"
  shows "rt_topology rt = Some t \<Longrightarrow> rt_topology rt' = Some t' \<Longrightarrow> topo_epoch t' = topo_epoch t \<Longrightarrow>
      topo_incarnation t' = topo_incarnation t \<Longrightarrow> topo_revision t \<le> topo_revision t'"
    and "rt_routes rt = Some r \<Longrightarrow> rt_routes rt' = Some r' \<Longrightarrow> route_epoch r' = route_epoch r \<Longrightarrow>
      route_incarnation r' = route_incarnation r \<Longrightarrow> route_revision r \<le> route_revision r'"
  using call_published[OF assms]
  by (auto simp: published_def topology_guards_def route_guards_def first_error_Inr simp del: first_error.simps)

text \<open>
  C18: between two starts the epoch of the expected state never goes back, whatever is published in
  whatever order; a single call never replaces a topology or a route generation by an older revision
  of the same epoch and incarnation; and a successful start forgets everything that was published.
\<close>

theorem publications_in_order:
  assumes "(runtime_call H)\<^sup>*\<^sup>* rt rt'" and "runtime_call H rt' rt''"
  shows "rt_epoch rt \<le> rt_epoch rt'' \<and>
    (\<forall>t t'. rt_topology rt' = Some t \<and> rt_topology rt'' = Some t' \<and> topo_epoch t' = topo_epoch t \<and>
       topo_incarnation t' = topo_incarnation t \<longrightarrow> topo_revision t \<le> topo_revision t') \<and>
    (\<forall>r r'. rt_routes rt' = Some r \<and> rt_routes rt'' = Some r' \<and> route_epoch r' = route_epoch r \<and>
       route_incarnation r' = route_incarnation r \<longrightarrow> route_revision r \<le> route_revision r') \<and>
    (fst (runtime_start H rt'') = ok \<longrightarrow>
       rt_epoch (snd (runtime_start H rt'')) = no_id \<and> rt_topology (snd (runtime_start H rt'')) = None \<and>
       rt_routes (snd (runtime_start H rt'')) = None)"
proof -
  have "rt_epoch rt \<le> rt_epoch rt'"
    using assms(1) by (induction rule: rtranclp_induct) (auto dest: call_epoch)
  then have "rt_epoch rt \<le> rt_epoch rt''" using call_epoch[OF assms(2)] by simp
  moreover have "fst (runtime_start H rt'') = ok \<longrightarrow>
       rt_epoch (snd (runtime_start H rt'')) = no_id \<and> rt_topology (snd (runtime_start H rt'')) = None \<and>
       rt_routes (snd (runtime_start H rt'')) = None"
    by (auto simp: runtime_start_def Let_def forget_expected_def split: prod.splits sum.splits)
  ultimately show ?thesis using call_revision[OF assms(2)] by blast
qed

definition authority_runtime :: Runtime where
  "authority_runtime = plain_runtime\<lparr>rt_sources := [(topo_source final_topology, example_observer)]\<rparr>"

lemma authority_publishes:
  "\<exists>rt'. publish_topology three_hash final_topology authority_runtime = (ok, rt') \<and>
     rt_epoch rt' = topo_epoch final_topology \<and> rt_topology rt' = Some final_topology"
proof -
  have f: "TopologyGeneration_finalize three_hash default_limits final_topology = Inr final_topology"
    using final_records_wf(2) by (simp add: topology_wf_def)
  have l: "rt_limits authority_runtime = default_limits" "rt_store authority_runtime = None" "rt_epoch authority_runtime = no_id"
      "rt_topology authority_runtime = None"
    using created_inv[OF example_created[of None]]
    by (simp_all add: authority_runtime_def plain_runtime_def ready_runtime_def example_config_def)
  obtain i where i: "TopologyIndex_build final_topology default_limits = Inr i"
    by (simp add: TopologyIndex_build_def final_topology_def example_topology_def default_limits_def guard_err_def)
  have "topology_guards final_topology authority_runtime = ok"
    using l by (simp add: topology_guards_def registry_contains_def authority_runtime_def map_find_def guard_err_def
        no_id_def valid_id_def)
  then show ?thesis using f l i by (simp add: publish_topology_def republished_topology_def persist_record_def)
qed

theorem publications_in_order_witness:
  "\<exists>rt. rt_epoch rt = topo_epoch final_topology \<and> rt_epoch rt \<noteq> no_id \<and>
     topo_epoch final_topology \<le> rt_epoch (snd (publish_topology three_hash (final_topology\<lparr>topo_epoch := no_id\<rparr>) rt))"
proof -
  obtain rt where p: "publish_topology three_hash final_topology authority_runtime = (ok, rt)"
      "rt_epoch rt = topo_epoch final_topology"
    using authority_publishes by blast
  have "runtime_call three_hash rt (snd (publish_topology three_hash (final_topology\<lparr>topo_epoch := no_id\<rparr>) rt))"
    by (rule runtime_call.topology)
  moreover have "topo_epoch final_topology \<noteq> no_id" by (simp add: final_topology_def example_topology_def no_id_def)
  ultimately show ?thesis using publications_in_order[of three_hash rt rt] p(2) by (intro exI[of _ rt]) auto
qed

end
