(* ===== verification/RuntimeDurable.thy ===== *)
theory RuntimeDurable
  imports RuntimeContracts
begin

text \<open>
  The runtime across a crash: evidence that was persisted is back after the next start, and a source
  that the runtime refused to register, but wrote to its store first, makes every later start fail.
\<close>

section \<open>What an operation writes\<close>

lemma persisted_record:
  assumes "persist_record ty p rt = (ok, rt')" and "rt_store rt = Some s" and "store_inv s"
  obtains s' n where "rt_store rt' = Some s'" "store_inv s'" "st_options s' = st_options s"
    "st_recovery s' = st_recovery s"
    "contents s' = contents s @ [\<lparr>rec_type = ty, rec_sequence = n, rec_payload = p\<rparr>]"
proof -
  obtain s' where a: "store_append ty p s = (ok, s')" "rt_store rt' = Some s'"
    using assms(1,2) by (auto simp: persist_record_def count_metric_def split: prod.splits sum.splits)
  obtain n where "contents s' = contents s @ [\<lparr>rec_type = ty, rec_sequence = n, rec_payload = p\<rparr>]"
    using store_log.append_ok[OF assms(3), of ty p] a(1) by auto
  then show thesis
    using that a store_log.append_inv[OF assms(3), of ty p] append_frame[of ty p s] by simp
qed

lemma file_persisted:
  assumes "file_evidence e res rt = (res', rt')" and "ing_persisted res'" and "\<not> ing_persisted res"
  shows "\<exists>rt1 rt2. rt_store rt1 = rt_store rt \<and> persist_evidence e rt1 = (ok, rt2) \<and> rt_store rt' = rt_store rt2"
proof -
  obtain key rt2 where "persist_evidence e (set_bucket key (bucket_of key rt) rt) = (ok, rt2)" "rt_store rt' = rt_store rt2"
    using assms unfolding file_evidence_def
    by (auto simp: rejected_as_def Let_def split: sum.splits if_splits prod.splits)
  then show ?thesis by (intro exI[of _ "set_bucket key (bucket_of key rt) rt"] exI[of _ rt2]) simp
qed

lemma ingest_persisted:
  assumes "ingest_evidence H e rt = (res, rt')" and "ing_persisted res"
  shows "evidence_validate H (rt_limits rt) e = ok \<and>
    (\<exists>rt1 rt2. rt_store rt1 = rt_store rt \<and> persist_evidence (seal H e) rt1 = (ok, rt2) \<and> rt_store rt' = rt_store rt2)"
  using assms(1)
proof (cases rule: ingest_evidence_cases)
  case refused
  have "\<not> ing_persisted res"
    using assms(1) refused(1) by (auto simp: ingest_evidence_def rejected_as_def new_ingest_def Let_def file_evidence_def
        split: sum.splits if_splits prod.splits)
  then show ?thesis using assms(2) by simp
next
  case (filed d seq ledger)
  have "\<not> ing_persisted (new_ingest\<lparr>ing_sequence_gap := g, ing_id := i\<rparr>)" for g i by (simp add: new_ingest_def)
  then show ?thesis using file_persisted[OF filed(7) assms(2)] filed(1) by simp
qed

text \<open>Sealed evidence that validation accepts decodes from its encoding.\<close>

lemma sealed_evidence_decodes:
  assumes "evidence_validate H limits e = ok" and "\<And>m. length (digest_bytes (H m)) = 32"
    and "length (digest_bytes (payload_digest e)) = 32"
  shows "decode_exact (decode_evidence H limits) (encode_evidence (seal H e)) = Inr (seal H e)"
proof -
  have "length (digest_id_bytes (compute_evidence_id H e)) = 16"
    by (simp add: compute_evidence_id_def from_digest_def assms(2))
  moreover have "payload_digest (seal H e) = payload_digest e" by (simp add: seal_def)
  ultimately have "evidence_wf H limits (seal H e)"
    using assms(1,3) by (simp add: evidence_wf_def seal_validates)
  then show ?thesis by (simp add: decode_exact_Inr evidence_codec.read_write_end)
qed

section \<open>Restoring a log\<close>

text \<open>The bucket holds a record of the given identity, or is full.\<close>

definition holds_evidence :: "SubjectKey \<Rightarrow> EvidenceId \<Rightarrow> Runtime \<Rightarrow> bool" where
  "holds_evidence key i rt \<longleftrightarrow> (\<exists>x\<in>set (bucket_of key rt). ev_id x = i) \<or>
     length (bucket_of key rt) \<ge> unat (max_evidence_per_comparison (rt_limits rt))"

lemma bucket_of_frame: "rt_evidence rt' = rt_evidence rt \<Longrightarrow> bucket_of k rt' = bucket_of k rt"
  by (simp add: bucket_of_def)

lemma restore_record_buckets:
  "\<exists>ys. bucket_of key (snd (restore_record H r rt)) = bucket_of key rt @ ys"
proof (cases "rec_type r = Rec_Evidence")
  case True
  then show ?thesis
    by (auto simp: restore_record_def restore_evidence_def Let_def split: sum.splits)
next
  case False
  then have "rt_evidence (snd (restore_record H r rt)) = rt_evidence rt"
    by (cases "rec_type r") (auto simp: restore_record_def restore_comparison_def restore_stored_finding_def
        restore_source_def split: sum.splits option.splits prod.splits)
  then show ?thesis using bucket_of_frame by (metis append_Nil2)
qed

lemma restore_record_routes [simp]: "rt_routes (snd (restore_record H r rt)) = rt_routes rt"
  by (cases "rec_type r") (auto simp: restore_record_def restore_evidence_def restore_comparison_def
      restore_stored_finding_def restore_source_def Let_def set_bucket_def split: sum.splits option.splits prod.splits)

lemma holds_restore_record: "holds_evidence key i rt \<Longrightarrow> holds_evidence key i (snd (restore_record H r rt))"
  using restore_record_buckets[of key H r rt] by (auto simp: holds_evidence_def)

lemma holds_restore_records:
  "holds_evidence key i rt \<Longrightarrow> holds_evidence key i (snd (restore_records H rs rt))"
proof (induction rs arbitrary: rt)
  case (Cons r rs)
  obtain st rt1 where r: "restore_record H r rt = (st, rt1)" by fastforce
  have "holds_evidence key i rt1" using holds_restore_record[OF Cons.prems, of H r] by (simp add: r)
  then show ?case using Cons.IH by (cases st) (simp_all add: r)
qed simp

lemma restore_evidence_holds:
  assumes "decode_exact (decode_evidence H (rt_limits rt)) p = Inr e" and "runtime_resolve_subject (rt_routes rt) e = Inr key"
  shows "holds_evidence key (ev_id e) (snd (restore_evidence H p rt))"
  using assms by (auto simp: restore_evidence_def holds_evidence_def Let_def list_ex_iff)

lemma restored_evidence_held:
  assumes "restore_records H rs rt = (ok, rt')" and "r \<in> set rs" and "rec_type r = Rec_Evidence"
    and "decode_exact (decode_evidence H (rt_limits rt)) (rec_payload r) = Inr e"
    and "runtime_resolve_subject (rt_routes rt) e = Inr key"
  shows "holds_evidence key (ev_id e) rt'"
  using assms
proof (induction rs arbitrary: rt)
  case (Cons q rs)
  obtain st rt1 where q: "restore_record H q rt = (st, rt1)" by fastforce
  have rest: "restore_records H rs rt1 = (ok, rt')" using Cons.prems(1) q by (cases st) simp_all
  show ?case
  proof (cases "r = q")
    case True
    have "holds_evidence key (ev_id e) rt1"
      using restore_evidence_holds[OF Cons.prems(4,5)] q Cons.prems(3) by (simp add: restore_record_def True)
    then show ?thesis using holds_restore_records[of key "ev_id e" rt1 H rs] rest by simp
  next
    case False
    have "rt_config rt1 = rt_config rt" "rt_routes rt1 = rt_routes rt"
      using restore_record_config[of H q rt] restore_record_routes[of H q rt] q by simp_all
    then show ?thesis using Cons.IH[OF rest] Cons.prems False by simp
  qed
qed simp

text \<open>A record that does not decode makes the restoration fail, whatever else the log holds.\<close>

lemma undecodable_source_stops:
  assumes "r \<in> set rs" and "rec_type r = Rec_Source"
    and "decode_exact (decode_source_descriptor (rt_limits rt)) (rec_payload r) = Inl err"
  shows "fst (restore_records H rs rt) \<noteq> ok"
  using assms
proof (induction rs arbitrary: rt)
  case (Cons q rs)
  obtain st rt1 where q: "restore_record H q rt = (st, rt1)" by fastforce
  have c: "rt_config rt1 = rt_config rt" using restore_record_config[of H q rt] q by simp
  show ?case
  proof (cases "r = q")
    case True
    then show ?thesis using q Cons.prems by (auto simp: restore_record_def restore_source_def)
  next
    case False
    then show ?thesis using Cons.IH[of rt1] Cons.prems c q by (cases st) simp_all
  qed
qed simp

section \<open>Starting on an existing file\<close>

text \<open>A start that reaches the store opens the file and restores what it reads from it.\<close>

lemma start_restores:
  assumes "runtime_create config clock disk = Inr rt0" and "persist config" and "load_evidence_on_start config"
    and "worker_thread_total config \<noteq> 0" and "worker_thread_total config \<le> max_worker_threads (cfg_limits config)"
    and "store_open \<lparr>store_limits = cfg_limits config, read_only = False\<rparr> (rt_clock rt0 0) disk = (Inr s, st_handle s)"
    and "read_all s = Inr log"
  obtains rt1 where "rt_routes rt1 = None" "rt_config rt1 = config" "rt_evidence rt1 = []" "rt_sources rt1 = []"
    "fst (runtime_start H rt0) = fst (restore_records H log rt1)"
    "\<And>k. bucket_of k (snd (runtime_start H rt0)) = bucket_of k (snd (restore_records H log rt1))"
    "rt_state (snd (runtime_start H rt0)) =
       (if fst (restore_records H log rt1) = ok then Runtime_Running else Runtime_Failed)"
proof -
  note new = created_inv[OF assms(1)]
  obtain pool :: "ObservedPathEvidence list WorkerPool"
    where p: "pool_start (new_pool (unat (worker_thread_total config)) (unat (max_queue_depth (cfg_limits config)))) = (ok, pool)"
    using assms(4) by (auto simp: pool_start_def new_pool_def unat_eq_0)
  define rt1 where "rt1 = snd (open_store (rt0\<lparr>rt_pool := Some pool\<rparr>))"
  have o: "open_store (rt0\<lparr>rt_pool := Some pool\<rparr>) = (ok, rt1)" and st: "rt_store rt1 = Some s"
    using assms(6) new by (simp_all add: rt1_def open_store_def clock_now_def count_metric_def)
  have c: "core rt1 = core (rt0\<lparr>rt_pool := Some pool\<rparr>)" by (rule core_open_store[OF o])
  have frame: "rt_routes rt1 = None" "rt_config rt1 = config" "rt_evidence rt1 = []" "rt_sources rt1 = []"
    using core_fields[OF c] new by simp_all
  have r: "start_store H (rt0\<lparr>rt_pool := Some pool\<rparr>) = restore_records H log rt1"
    using assms(2,3,7) new o st frame by (simp add: start_store_def restore_from_store_def)
  obtain res rt2 where l: "restore_records H log rt1 = (res, rt2)" by fastforce
  have "runtime_start H rt0 = (if res = ok then (ok, (forget_expected rt2)\<lparr>rt_state := Runtime_Running\<rparr>)
      else (res, rt2\<lparr>rt_state := Runtime_Failed\<rparr>))"
    using assms(4,5) new p r l by (cases res) (simp_all add: runtime_start_def Let_def not_less[symmetric])
  then show thesis using that[of rt1] frame l
    by (auto simp: forget_expected_def bucket_of_def)
qed

text \<open>The file of a store that was written by later calls opens with everything the store held.\<close>

lemma crashed_store_opens:
  assumes "rt_store rt = Some s" and "store_inv s"
    and "st_options s = \<lparr>store_limits = limits, read_only = False\<rparr>" and "header_generation (st_recovery s) \<noteq> - 1"
    and "(runtime_call H)\<^sup>*\<^sup>* rt rt'" and "rt_store rt' = Some s'" and "st_handle s' = Some file"
    and "\<not> front_valid limits torn" and "is_set now" and "r \<in> set (contents s)"
  shows "\<exists>q log. store_open \<lparr>store_limits = limits, read_only = False\<rparr> now (Some (file @ torn)) = (Inr q, st_handle q) \<and>
    read_all q = Inr log \<and> r \<in> set log"
proof -
  obtain ys where s': "store_inv s'" "contents s' = contents s @ ys" "st_options s' = st_options s"
      "st_recovery s' = st_recovery s"
    using extends_calls[OF assms(5)] assms(1,2,6) unfolding store_extends_def by auto
  have "header_generation (st_recovery s') \<noteq> - 1" "\<not> front_valid (store_limits (st_options s')) torn"
    using assms(3,4,8) s'(3,4) by simp_all
  from reopen_spec[OF s'(1) this(1) assms(9,7) this(2)] obtain q where
    o: "store_open (st_options s') now (Some (file @ torn)) = (Inr q, st_handle q)" "store_inv q" "contents q = contents s'"
    by blast
  then show ?thesis using store_log.read_back_log[OF o(2)] s'(2,3) assms(3,10) by auto
qed

lemma start_ok_threads:
  "fst (runtime_start H rt) = ok \<Longrightarrow>
   worker_thread_total (rt_config rt) \<noteq> 0 \<and> worker_thread_total (rt_config rt) \<le> max_worker_threads (rt_limits rt)"
  by (auto simp: runtime_start_def Let_def split: if_splits)

text \<open>
  C15: evidence survives a crash. Evidence that names its route generation and was persisted is, after
  any further calls, a crash that leaves a torn record behind and a successful start of a new runtime
  on the file, in the bucket of its generation and group again, unless that bucket is full.
\<close>

theorem evidence_survives_restart:
  assumes "rt_store rt = Some s" and "store_inv s"
    and "st_options s = \<lparr>store_limits = rt_limits rt, read_only = False\<rparr>" and "header_generation (st_recovery s) \<noteq> - 1"
    and "ingest_evidence H e rt = (res, rt1)" and "ing_persisted res" and "(runtime_call H)\<^sup>*\<^sup>* rt1 rt2"
    and "rt_store rt2 = Some s2" and "st_handle s2 = Some file" and "\<not> front_valid (rt_limits rt) torn"
    and "runtime_create config clock (Some (file @ torn)) = Inr rt0" and "cfg_limits config = rt_limits rt"
    and "persist config" and "load_evidence_on_start config" and "is_set (rt_clock rt0 0)"
    and "runtime_start H rt0 = (ok, rt3)" and "present (ev_route_generation e)"
    and "\<And>m. length (digest_bytes (H m)) = 32" and "length (digest_bytes (payload_digest e)) = 32"
  shows "holds_evidence
    (SubjectKey (maybe_value (ev_route_generation e)) (if present (ev_group e) then ev_group e else absent))
    (compute_evidence_id H e) rt3"
proof -
  obtain ra rb where valid: "evidence_validate H (rt_limits rt) e = ok" and ab: "rt_store ra = rt_store rt"
      "persist_evidence (seal H e) ra = (ok, rb)" "rt_store rt1 = rt_store rb"
    using ingest_persisted[OF assms(5,6)] by blast
  obtain s1 n where s1: "rt_store rt1 = Some s1" "store_inv s1" "st_options s1 = st_options s" "st_recovery s1 = st_recovery s"
      "contents s1 = contents s @ [\<lparr>rec_type = Rec_Evidence, rec_sequence = n, rec_payload = encode_evidence (seal H e)\<rparr>]"
    using persisted_record[OF ab(2)[unfolded persist_evidence_def], of s] ab(1,3) assms(1,2) by auto
  let ?r = "\<lparr>rec_type = Rec_Evidence, rec_sequence = n, rec_payload = encode_evidence (seal H e)\<rparr>"
  have opt: "st_options s1 = \<lparr>store_limits = cfg_limits config, read_only = False\<rparr>"
    "header_generation (st_recovery s1) \<noteq> - 1" "\<not> front_valid (cfg_limits config) torn" "?r \<in> set (contents s1)"
    using s1 assms(3,4,10,12) by simp_all
  obtain q log where o: "store_open \<lparr>store_limits = cfg_limits config, read_only = False\<rparr> (rt_clock rt0 0) (Some (file @ torn)) =
      (Inr q, st_handle q)" "read_all q = Inr log" "?r \<in> set log"
    using crashed_store_opens[OF s1(1,2) opt(1,2) assms(7-9) opt(3) assms(15) opt(4)] by blast
  have t: "worker_thread_total config \<noteq> 0" "worker_thread_total config \<le> max_worker_threads (cfg_limits config)"
    using start_ok_threads[of H rt0] assms(16) created_inv(8)[OF assms(11)] by simp_all
  from start_restores[OF assms(11,13,14) t o(1,2), of H] obtain rt4 where
    rt4: "rt_routes rt4 = None" "rt_config rt4 = config" "fst (runtime_start H rt0) = fst (restore_records H log rt4)"
      "\<And>k. bucket_of k (snd (runtime_start H rt0)) = bucket_of k (snd (restore_records H log rt4))" by blast
  let ?key = "SubjectKey (maybe_value (ev_route_generation e)) (if present (ev_group e) then ev_group e else absent)"
  obtain rt5 where rt5: "restore_records H log rt4 = (ok, rt5)"
    using rt4(3) assms(16) by (metis fst_conv prod.collapse)
  have key: "runtime_resolve_subject (rt_routes rt4) (seal H e) = Inr ?key"
    using assms(17) rt4(1) by (simp add: runtime_resolve_subject_def seal_def)
  have "decode_exact (decode_evidence H (rt_limits rt4)) (rec_payload ?r) = Inr (seal H e)"
    using sealed_evidence_decodes[OF valid assms(18,19)] rt4(2) assms(12) by simp
  from restored_evidence_held[OF rt5 o(3) _ this key] have "holds_evidence ?key (ev_id (seal H e)) rt5" by simp
  moreover have "rt_config rt5 = config" using restore_records_config[of H log rt4] rt5 rt4(2) by simp
  moreover have "rt_config rt3 = config"
    using runtime_start_config[of H rt0] assms(16) created_inv(8)[OF assms(11)] by simp
  ultimately show ?thesis using rt4(4)[of ?key] rt5 assms(16) by (simp add: holds_evidence_def)
qed

section \<open>A refused registration\<close>

lemma invalid_source_undecodable:
  assumes "SourceDescriptor_validate d = Inl err" and "text_within limits (source_name d)"
  shows "decode_exact (decode_source_descriptor limits) (encode_source d) = Inl err"
  using assms
  by (simp add: decode_exact_def encode_source_def decode_source_descriptor_def codec_simps text_within_def Let_def source_eta
      read_then_def read_lift_def i64_codec.read_write_end)


section \<open>Examples\<close>

lemma example_append_checks:
  assumes "length p \<le> 1000"
  shows "append_checks example_store p = ok"
proof -
  have "st_record_count example_store = 0" "st_handle example_store \<noteq> None"
    using example_store_facts(1,2) by (auto elim: store_invE)
  then show ?thesis
    using example_store_facts(3,5) assms
    by (simp add: append_checks_def first_error_Inr guard_err_def example_store_options_def default_limits_def
        kStoreHeaderBytes_def kStoreHeaderSlotBytes_def kStoreRecordHeaderBytes_def)
qed

lemma example_lengths: "length (encode_evidence final_evidence) \<le> 1000" "length (encode_source (example_source\<lparr>source_id := no_id\<rparr>)) \<le> 1000"
  by (simp_all add: encode_evidence_def encode_source_def final_evidence_def example_evidence_def example_source_def
    write_observed_hop_def example_hop_def write_maybe_def write_time_def write_text_def write_id_def write_digest_def
    write_digest_id_def write_u8_def write_u16_def write_u32_def write_u64_def write_i64_def write_bool_def absent_def
    write_bytes_def text_bytes_def write_list_def write_count_def)

text \<open>The example evidence, persisted in the example store.\<close>

definition persisted_example :: "u64 \<Rightarrow> StoredRecord" where
  "persisted_example n = \<lparr>rec_type = Rec_Evidence, rec_sequence = n, rec_payload = encode_evidence final_evidence\<rparr>"

lemma example_ingest:
  "\<exists>res rt1 s1 n. ingest_evidence three_hash final_evidence ready_runtime = (res, rt1) \<and> ing_persisted res \<and>
     rt_store rt1 = Some s1 \<and> store_inv s1 \<and> st_options s1 = example_store_options \<and>
     st_recovery s1 = st_recovery example_store \<and> contents s1 = [persisted_example n]"
proof -
  let ?rt = "ready_runtime\<lparr>rt_ledger := example_ledger\<rparr>"
  obtain rt2 where p: "persist_record Rec_Evidence (encode_evidence final_evidence) (set_bucket example_key [] ?rt) = (ok, rt2)"
    using example_append_checks[OF example_lengths(1)] by (simp add: persist_record_def store_append_def ready_runtime_facts)
  obtain s2 n where s2: "rt_store rt2 = Some s2" "store_inv s2" "st_options s2 = st_options example_store"
      "st_recovery s2 = st_recovery example_store" "contents s2 = contents example_store @ [persisted_example n]"
    using persisted_record[OF p, of example_store] example_store_facts(1)
    by (auto simp: ready_runtime_facts persisted_example_def)
  have "ingest_evidence three_hash final_evidence ready_runtime =
      file_evidence final_evidence (new_ingest\<lparr>ing_sequence_gap := False, ing_id := ev_id final_evidence\<rparr>) ?rt"
    by (rule example_reaches_filing) (simp_all add: ready_runtime_facts)
  moreover have "bucket_of example_key ?rt = []" by (simp add: bucket_of_def ready_runtime_facts map_find_def)
  moreover have "0 < unat (max_evidence_per_comparison (rt_limits ?rt))"
    by (simp add: ready_runtime_facts example_config_def default_limits_def)
  moreover have "runtime_resolve_subject (rt_routes ?rt) final_evidence = Inr example_key"
    using example_subject by (simp add: ready_runtime_facts)
  ultimately have "ingest_evidence three_hash final_evidence ready_runtime =
      ((new_ingest\<lparr>ing_sequence_gap := False, ing_id := ev_id final_evidence\<rparr>)\<lparr>ing_persisted := True, ing_accepted := True\<rparr>,
       count_metric (add_evidence_accepted 1) (count_metric (add_evidence_offered 1) (set_bucket example_key [final_evidence] rt2)))"
    using file_first p by (simp add: persist_evidence_def)
  then show ?thesis using s2 example_store_facts(2,3) by auto
qed

lemma example_disk:
  assumes "store_inv s" and "st_options s = example_store_options" and "st_recovery s = st_recovery example_store"
    and "st_handle s = Some f"
  obtains q where "store_open \<lparr>store_limits = cfg_limits example_config, read_only = False\<rparr> (rt_clock (example_runtime (Some (f @ []))) 0)
      (Some (f @ [])) = (Inr q, st_handle q)" "read_all q = Inr (contents s)"
proof -
  have clock: "rt_clock (example_runtime (Some (f @ []))) 0 = TimePoint 5"
    using created_inv(13)[OF example_created[of "Some (f @ [])"]] by (metis option.inject)
  have "header_generation (st_recovery s) \<noteq> - 1" "\<not> front_valid (store_limits (st_options s)) []"
    by (simp_all add: assms(3) example_store_facts front_valid_def kStoreRecordHeaderBytes_def)
  from reopen_spec[OF assms(1) this(1) five_is_set assms(4) this(2)] obtain q where
    q: "store_open (st_options s) (TimePoint 5) (Some (f @ [])) = (Inr q, st_handle q)" "store_inv q" "contents q = contents s"
    by blast
  have "st_options s = \<lparr>store_limits = cfg_limits example_config, read_only = False\<rparr>"
    by (simp add: assms(2) example_store_options_def example_config_def)
  then show thesis using q store_log.read_back_log[OF q(2)] that[unfolded clock] by simp
qed

lemma example_threads: "worker_thread_total example_config \<noteq> 0"
  "worker_thread_total example_config \<le> max_worker_threads (cfg_limits example_config)"
  by (simp_all add: worker_thread_total_def example_config_def default_limits_def)

lemma example_restores:
  assumes "rt_config rt = example_config"
  shows "fst (restore_records three_hash [persisted_example n] rt) = ok"
proof -
  have "decode_exact (decode_evidence three_hash default_limits) (encode_evidence final_evidence) = Inr final_evidence"
    using final_records_wf(4) by (simp add: decode_exact_Inr evidence_codec.read_write_end)
  then show ?thesis using assms
    by (auto simp: restore_record_def restore_evidence_def persisted_example_def example_config_def Let_def split: sum.splits)
qed

theorem evidence_survives_restart_witness:
  "\<exists>f rt3. runtime_start three_hash (example_runtime (Some f)) = (ok, rt3) \<and>
     holds_evidence example_key (compute_evidence_id three_hash final_evidence) rt3"
proof -
  obtain res rt1 s1 n where i: "ingest_evidence three_hash final_evidence ready_runtime = (res, rt1)" "ing_persisted res"
      "rt_store rt1 = Some s1" "store_inv s1" "st_options s1 = example_store_options"
      "st_recovery s1 = st_recovery example_store" "contents s1 = [persisted_example n]"
    using example_ingest by blast
  obtain f where f: "st_handle s1 = Some f" using i(4) by (auto elim: store_invE)
  obtain q where q: "store_open \<lparr>store_limits = cfg_limits example_config, read_only = False\<rparr> (rt_clock (example_runtime (Some (f @ []))) 0)
      (Some (f @ [])) = (Inr q, st_handle q)" "read_all q = Inr [persisted_example n]"
    using example_disk[OF i(4,5,6) f] i(7) by metis
  have cfg: "persist example_config" "load_evidence_on_start example_config" by (simp_all add: example_config_def)
  obtain rt3 where start: "runtime_start three_hash (example_runtime (Some (f @ []))) = (ok, rt3)"
    using start_restores[OF example_created cfg example_threads q, of three_hash] example_restores
    by (metis fst_conv prod.collapse)
  have set: "is_set (rt_clock (example_runtime (Some (f @ []))) 0)"
    using created_inv(13)[OF example_created[of "Some (f @ [])"]] five_is_set by (metis option.inject)
  have "holds_evidence (SubjectKey (maybe_value (ev_route_generation final_evidence))
      (if present (ev_group final_evidence) then ev_group final_evidence else absent))
      (compute_evidence_id three_hash final_evidence) rt3"
    by (rule evidence_survives_restart[OF ready_runtime_facts(6) example_store_facts(1) _ _ i(1,2) rtranclp.rtrancl_refl i(3) f _
        example_created _ cfg set start])
      (simp_all add: ready_runtime_facts example_store_facts example_store_options_def example_config_def front_valid_def
        kStoreRecordHeaderBytes_def final_evidence_def example_evidence_def present_def valid_id_def three_hash_def)
  then show ?thesis using start
    by (intro exI[of _ f] exI[of _ rt3])
      (simp add: final_evidence_def example_evidence_def present_def valid_id_def example_key_def)
qed


end
