(* ===== verification/Drain.thy ===== *)
theory Drain
  imports Worker
begin

text \<open>
  Waiting for the queue to drain (\<open>ObservatoryRuntime::drain\<close> in \<open>src/runtime.cpp\<close>): a loop that adds up the
  number of waiting and the number of active tasks until the sum is zero. The two numbers are read one after the
  other, each under the mutex of the pool, so other threads step in between. In which order the operands of the
  sum are read is left to the compiler; both orders are modelled.
\<close>

section \<open>The loop\<close>

definition drain_reads :: "bool \<Rightarrow> 'a WorkerPool \<Rightarrow> 'a WorkerPool \<Rightarrow> nat" where
  "drain_reads pending_first p q = (if pending_first then pending p + active q else active p + pending q)"

text \<open>
  \<open>drain first p q r\<close>: called in \<open>p\<close>, the reads of the last round happen in \<open>q\<close> and \<open>r\<close>, where the loop ends.
\<close>

inductive drain :: "bool \<Rightarrow> 'a WorkerPool \<Rightarrow> 'a WorkerPool \<Rightarrow> 'a WorkerPool \<Rightarrow> bool" for pending_first where
  leave: "pool_step\<^sup>*\<^sup>* p q \<Longrightarrow> drain_reads pending_first p q = 0 \<Longrightarrow> drain pending_first p p q"
| again: "pool_step\<^sup>*\<^sup>* p q \<Longrightarrow> drain_reads pending_first p q \<noteq> 0 \<Longrightarrow> pool_step\<^sup>*\<^sup>* q r \<Longrightarrow> drain pending_first r s t \<Longrightarrow>
    drain pending_first p s t"

section \<open>What becomes of a task\<close>

definition settled :: "'a Entry \<Rightarrow> 'a WorkerPool \<Rightarrow> bool" where
  "settled e p \<longleftrightarrow> e \<in> set (executed p) \<or> entry_source e \<in> set (cancelled_sources p)"

definition tracked :: "'a Entry \<Rightarrow> 'a WorkerPool \<Rightarrow> bool" where
  "tracked e p \<longleftrightarrow> settled e p \<or> e \<in> set (todo_entries p)"

definition finishing_settled :: "'a WorkerPool \<Rightarrow> bool" where
  "finishing_settled p \<longleftrightarrow> (\<forall>e. Finishing e \<in> set (pool_threads p) \<longrightarrow> settled e p)"

lemma submit_frame: "pool_threads (snd (pool_submit t p)) = pool_threads p"
  "executed (snd (pool_submit t p)) = executed p" "cancelled_sources (snd (pool_submit t p)) = cancelled_sources p"
  "set (pool_queue p) \<subseteq> set (pool_queue (snd (pool_submit t p)))"
  by (auto simp: pool_submit_def compact_outstanding_locked_def split: option.splits)

lemma worker_tracked: "worker_step p p' \<Longrightarrow> tracked e p \<Longrightarrow> tracked e p'"
proof (induction rule: worker_step.induct)
  case (take i p)
  then show ?case using mset_eq_set[OF take_entries(2)[of i p]] by (simp add: tracked_def settled_def worker_take_def)
next
  case (run i p e')
  then show ?case using arg_cong[OF run_entries(2)[of i p e'], of set_mset]
    by (auto simp: tracked_def settled_def worker_run_def)
next
  case (release i p e')
  then show ?case using mset_eq_set[OF release_entries(2)[of i p e']] by (simp add: tracked_def settled_def worker_release_def)
next
  case (finish i p)
  then show ?case using mset_eq_set[OF return_entries(2)[of i p]] by (simp add: tracked_def settled_def worker_return_def)
qed

lemma step_tracked: "pool_step p p' \<Longrightarrow> pool_inv p \<Longrightarrow> tracked e p \<Longrightarrow> tracked e p'"
proof (induction rule: pool_step.induct)
  case (submit p t)
  then show ?case using submit_frame[where p=p and t=t] by (auto simp: tracked_def settled_def todo_entries_def)
next
  case (join p)
  then have "unstarted (pool_threads p) = []" "pool_queue p = []"
    using unstarted_held[of "pool_threads p"] all_returned_held[of "pool_threads p"]
    by (auto simp: pool_inv_def pool_shape_def all_returned_def list_all_iff) (metis hd_in_set)+
  with join show ?case by (auto simp: tracked_def settled_def todo_entries_def shutdown_end_def)
next
  case (worker p p')
  then show ?case using worker_tracked by blast
qed (auto simp: tracked_def settled_def todo_entries_def pool_start_def cancel_pending_def shutdown_begin_def pool_inv_def
    pool_shape_def unstarted_def)

lemma steps_tracked:
  assumes "pool_step\<^sup>*\<^sup>* p p'" and "pool_inv p" and "tracked e p"
  shows "pool_inv p' \<and> tracked e p'"
  using assms by (induction rule: rtranclp_induct) (auto intro: pool_step_inv step_tracked)

lemma drain_ends:
  "drain first p q r \<Longrightarrow> pool_inv p \<Longrightarrow> tracked e p \<Longrightarrow>
   pool_inv q \<and> tracked e q \<and> pool_step\<^sup>*\<^sup>* q r \<and> drain_reads first q r = 0"
  by (induction rule: drain.induct) (auto dest: steps_tracked)

text \<open>A task that a worker has taken never goes back to the queue.\<close>

definition launched :: "'a Entry \<Rightarrow> 'a WorkerPool \<Rightarrow> bool" where
  "launched e p \<longleftrightarrow> settled e p \<or> Holding e \<in> set (pool_threads p)"

lemma set_update_keeps: "x \<in> set xs \<Longrightarrow> i < length xs \<Longrightarrow> xs ! i \<noteq> x \<Longrightarrow> x \<in> set (xs[i := y])"
  by (metis in_set_conv_nth length_list_update nth_list_update_neq)

lemma worker_launched: "worker_step p p' \<Longrightarrow> launched e p \<Longrightarrow> launched e p'"
proof (induction rule: worker_step.induct)
  case (run i p e')
  then show ?case
    by (cases "e = e'") (auto simp: launched_def settled_def worker_run_def intro: set_update_keeps)
qed (auto simp: launched_def settled_def worker_take_def worker_release_def worker_return_def intro: set_update_keeps)

lemma step_launched: "pool_step p p' \<Longrightarrow> launched e p \<Longrightarrow> launched e p'"
proof (induction rule: pool_step.induct)
  case (submit p t)
  then show ?case using submit_frame[where p=p and t=t] by (simp add: launched_def settled_def)
next
  case (worker p p')
  then show ?case using worker_launched by blast
qed (auto simp: launched_def settled_def pool_start_def cancel_pending_def shutdown_begin_def shutdown_end_def all_returned_def
    list_all_iff)

lemma steps_launched: "pool_step\<^sup>*\<^sup>* p p' \<Longrightarrow> launched e p \<Longrightarrow> launched e p'"
  by (induction rule: rtranclp_induct) (auto intro: step_launched)

lemma unstarted_holding: "e \<in> set (unstarted ws) \<longleftrightarrow> Holding e \<in> set ws"
proof
  assume "e \<in> set (unstarted ws)"
  then obtain w where w: "w \<in> set ws" "e \<in> set (unstarted_of w)" by (auto simp: unstarted_def)
  from w(2) have "w = Holding e" by (cases w) simp_all
  with w(1) show "Holding e \<in> set ws" by simp
qed (force simp: unstarted_def)

lemma held_cases: "e \<in> set (held_entries ws) \<longleftrightarrow> Holding e \<in> set ws \<or> Finishing e \<in> set ws"
proof
  assume "e \<in> set (held_entries ws)"
  then obtain w where w: "w \<in> set ws" "e \<in> set (held_of w)" by (auto simp: held_entries_def)
  from w(2) have "w = Holding e \<or> w = Finishing e" by (cases w) simp_all
  with w(1) show "Holding e \<in> set ws \<or> Finishing e \<in> set ws" by auto
qed (force simp: held_entries_def)

lemma finishing_update:
  "Finishing e \<in> set (ws[i := w]) \<Longrightarrow> Finishing e \<in> set ws \<or> w = Finishing e"
  by (auto dest: set_update_subset_insert[THEN subsetD])

lemma worker_finishing: "worker_step p p' \<Longrightarrow> finishing_settled p \<Longrightarrow> finishing_settled p'"
proof (induction rule: worker_step.induct)
  case (run i p e)
  then show ?case by (auto simp: finishing_settled_def settled_def worker_run_def dest: finishing_update)
qed (auto simp: finishing_settled_def settled_def worker_take_def worker_release_def worker_return_def dest: finishing_update)

lemma step_finishing: "pool_step p p' \<Longrightarrow> finishing_settled p \<Longrightarrow> finishing_settled p'"
proof (induction rule: pool_step.induct)
  case (submit p t)
  then show ?case using submit_frame[where p=p and t=t] by (simp add: finishing_settled_def settled_def)
next
  case (worker p p')
  then show ?case using worker_finishing by blast
qed (auto simp: finishing_settled_def settled_def pool_start_def cancel_pending_def shutdown_begin_def shutdown_end_def)

lemma reachable_finishing:
  assumes "reachable_pool n d p"
  shows "finishing_settled p"
  using assms unfolding reachable_pool_def
proof (induction rule: rtranclp_induct)
  case base
  show ?case by (simp add: finishing_settled_def new_pool_def)
qed (rule step_finishing)

lemma live_tracked: "finishing_settled p \<Longrightarrow> e \<in> set (live_entries p) \<Longrightarrow> tracked e p"
  by (auto simp: finishing_settled_def tracked_def live_entries_def todo_entries_def held_cases unstarted_holding)

section \<open>Properties\<close>

text \<open>
  C25: \<open>drain\<close> waits. When the number of waiting tasks is read before the number of active ones, every task that
  was queued or running when it was called has been executed or cancelled when it returns, whatever the workers and
  other callers do meanwhile.
\<close>

theorem drain_waits:
  assumes "reachable_pool threads depth p" and "drain True p q r" and "e \<in> set (live_entries p)"
  shows "settled e r"
proof -
  note e = live_tracked[OF reachable_finishing[OF assms(1)] assms(3)]
  note q = drain_ends[OF assms(2) reachable_pool_inv[OF assms(1)] e]
  have none: "pending q = 0" "active r = 0" using q by (simp_all add: drain_reads_def)
  have "launched e q" using q none(1) by (auto simp: launched_def tracked_def todo_entries_def pending_def unstarted_holding)
  then have "launched e r" using q steps_launched by blast
  moreover have "pool_inv r" using q steps_tracked by blast
  then have "held_entries (pool_threads r) = []" using none(2) by (simp add: pool_inv_def pool_shape_def active_def)
  ultimately show ?thesis using held_cases[of e "pool_threads r"] by (simp add: launched_def)
qed

text \<open>The example pool after its only worker has taken and run its only task.\<close>

definition busy_pool :: "nat WorkerPool" where
  "busy_pool = worker_take 0 example_pool"

lemma drain_example_facts: "pool_threads example_pool = [Waiting]" "active_tasks example_pool = 0"
  "cancelled_sources example_pool = []"
  by (simp_all add: example_pool_def pool_submit_def pool_start_def new_pool_def compact_outstanding_locked_def)

lemma busy_step: "worker_step example_pool busy_pool"
  unfolding busy_pool_def by (rule worker_step.take) (simp_all add: drain_example_facts example_pool_facts)

lemma busy_facts: "pool_threads busy_pool = [Holding \<lparr>entry_task = 7, entry_source = 0\<rparr>]" "pool_queue busy_pool = []"
  "executed busy_pool = []" "cancelled_sources busy_pool = []" "active_tasks busy_pool = 1"
  by (simp_all add: busy_pool_def worker_take_def drain_example_facts example_pool_facts)

theorem drain_waits_witness:
  "\<exists>q r. drain True example_pool q r \<and> settled \<lparr>entry_task = 7, entry_source = 0\<rparr> r"
proof -
  let ?e = "\<lparr>entry_task = 7, entry_source = 0\<rparr>"
  let ?r = "worker_release 0 (worker_run 0 ?e busy_pool)"
  have "worker_step busy_pool (worker_run 0 ?e busy_pool)" by (rule worker_step.run) (simp_all add: busy_facts)
  moreover have "worker_step (worker_run 0 ?e busy_pool) ?r"
    by (rule worker_step.release) (simp_all add: busy_facts worker_run_def)
  ultimately have "pool_step\<^sup>*\<^sup>* busy_pool ?r"
    by (meson pool_step.worker r_into_rtranclp rtranclp.rtrancl_into_rtrancl)
  then have inner: "drain True busy_pool busy_pool ?r"
    by (rule drain.leave) (simp add: drain_reads_def pending_def active_def busy_facts worker_run_def worker_release_def)
  have "drain True example_pool busy_pool ?r"
  proof (rule drain.again[OF rtranclp.rtrancl_refl _ _ inner])
    show "drain_reads True example_pool example_pool \<noteq> 0"
      by (simp add: drain_reads_def pending_def example_pool_facts)
    show "pool_step\<^sup>*\<^sup>* example_pool busy_pool" using busy_step pool_step.worker by blast
  qed
  moreover have "?e \<in> set (live_entries example_pool)" by (simp add: live_entries_def example_pool_facts)
  ultimately show ?thesis using drain_waits[OF example_pool_reachable] by blast
qed

text \<open>
  When the compiler reads the number of active tasks first, \<open>drain\<close> can return while a task that was queued
  when it was called has not run: a worker takes the task between the two reads, and it is counted in neither.
\<close>

theorem drain_active_first_misses:
  "\<exists>p q e. reachable_pool 1 1 (p :: nat WorkerPool) \<and> worker_step p q \<and> drain False p p q \<and>
     e \<in> set (live_entries p) \<and> \<not> settled e q"
proof (intro exI conjI)
  show "reachable_pool 1 1 example_pool" by (rule example_pool_reachable)
  show "worker_step example_pool busy_pool" by (rule busy_step)
  have "pool_step\<^sup>*\<^sup>* example_pool busy_pool" using busy_step pool_step.worker by blast
  then show "drain False example_pool example_pool busy_pool"
    by (rule drain.leave) (simp add: drain_reads_def pending_def active_def drain_example_facts busy_facts)
  show "\<lparr>entry_task = 7, entry_source = 0\<rparr> \<in> set (live_entries example_pool)"
    by (simp add: live_entries_def example_pool_facts)
  show "\<not> settled \<lparr>entry_task = 7, entry_source = 0\<rparr> busy_pool" by (simp add: settled_def busy_facts)
qed

end
