(* ===== verification/Sockets.thy ===== *)
theory Sockets
  imports PersistenceFrames
begin

text \<open>
  Sockets (\<open>src/socket.cpp\<close>, the POSIX branches): opening, accepting, closing, and the loops that move
  exactly so many bytes. What the operating system answers is an argument of the model: a record of
  answers for the calls that set a connection up, and a function for \<open>recv()\<close> and \<open>send()\<close>, asked with
  the number of the call, the bytes requested and (for \<open>recv()\<close>) the bytes available. A socket carries
  the bytes its peer sends before closing and the bytes it has sent itself; the state of the process is
  the set of open descriptors with their modes and the reference count of \<open>system_init\<close>.
\<close>

section \<open>The process and the answers of the system\<close>

type_synonym handle = int
type_synonym os_recv = "nat \<Rightarrow> nat \<Rightarrow> nat \<Rightarrow> int"
type_synonym os_send = "nat \<Rightarrow> nat \<Rightarrow> int"

definition kInvalid :: handle where
  "kInvalid = -1"

record Net =
  net_open :: "handle set"
  net_nonblocking :: "handle set"
  net_no_delay :: "handle set"
  g_init_count :: u32

text \<open>
  One answer per system call: the descriptor of \<open>socket()\<close> or \<open>accept()\<close>, the results of the calls on
  it, whether a failed \<open>connect()\<close> is in progress, whether the blocking mode is restored, and the bytes
  the peer of the new connection is going to send.
\<close>

record NetAnswers =
  ans_handle :: handle
  ans_getfl :: int
  ans_setfl :: int
  ans_connect :: int
  ans_in_progress :: bool
  ans_select :: int
  ans_getsockopt :: int
  ans_so_error :: int
  ans_restored :: bool
  ans_bind :: int
  ans_listen :: int
  ans_stream :: "byte list"

record Socket =
  sock_handle :: handle
  sock_in :: "byte list"
  sock_out :: "byte list"
  sock_calls :: nat
  sock_shut :: bool

definition sock_valid :: "Socket \<Rightarrow> bool" where
  "sock_valid s \<longleftrightarrow> sock_handle s \<noteq> kInvalid"

definition socket_of :: "handle \<Rightarrow> byte list \<Rightarrow> Socket" where
  "socket_of h stream = \<lparr>sock_handle = h, sock_in = stream, sock_out = [], sock_calls = 0, sock_shut = False\<rparr>"

definition system_init :: "Net \<Rightarrow> Status \<times> Net" where
  "system_init net = (ok, net\<lparr>g_init_count := g_init_count net + 1\<rparr>)"

definition system_shutdown :: "Net \<Rightarrow> Net" where
  "system_shutdown net = (if g_init_count net = 0 then net else net\<lparr>g_init_count := g_init_count net - 1\<rparr>)"

text \<open>\<open>socket()\<close> and \<open>accept()\<close> hand out a blocking descriptor.\<close>

definition os_open :: "handle \<Rightarrow> Net \<Rightarrow> Net" where
  "os_open h net =
     (if h = kInvalid then net
      else net\<lparr>net_open := insert h (net_open net), net_nonblocking := net_nonblocking net - {h},
               net_no_delay := net_no_delay net - {h}\<rparr>)"

definition close_raw :: "handle \<Rightarrow> Net \<Rightarrow> Net" where
  "close_raw h net = (if h = kInvalid then net else net\<lparr>net_open := net_open net - {h}\<rparr>)"

section \<open>Connecting, listening, accepting\<close>

definition connect_pending :: "NetAnswers \<Rightarrow> Net \<Rightarrow> Status \<times> Net" where
  "connect_pending a net =
     (let h = ans_handle a in
      if \<not> ans_in_progress a
      then (Inl (Error TransportFailure ''connect() failed''), close_raw h net)
      else if ans_select a \<le> 0
      then (Inl (Error TransportFailure (if ans_select a = 0 then ''connect() timed out'' else ''select() failed'')),
            close_raw h net)
      else if ans_getsockopt a \<noteq> 0
      then (Inl (Error TransportFailure ''getsockopt() failed''), close_raw h net)
      else if ans_so_error a \<noteq> 0
      then (Inl (Error TransportFailure ''connect() failed after select''), close_raw h net)
      else (ok, net))"

definition connect_bounded :: "NetAnswers \<Rightarrow> Net \<Rightarrow> handle Result \<times> Net" where
  "connect_bounded a net =
     (let h = ans_handle a; net = os_open h net in
      if h = kInvalid then (Inl (Error TransportFailure ''socket() failed''), net)
      else if ans_getfl a < 0 \<or> ans_setfl a < 0
      then (Inl (Error TransportFailure ''fcntl() failed''), close_raw h net)
      else let net = net\<lparr>net_nonblocking := insert h (net_nonblocking net)\<rparr>
           in case (if ans_connect a \<noteq> 0 then connect_pending a net else (ok, net)) of
               (Inl e, net) \<Rightarrow> (Inl e, net)
             | (Inr _, net) \<Rightarrow>
                 (Inr h, if ans_restored a then net\<lparr>net_nonblocking := net_nonblocking net - {h}\<rparr> else net))"

definition set_no_delay :: "bool \<Rightarrow> Socket \<Rightarrow> Net \<Rightarrow> Net" where
  "set_no_delay enabled s net =
     (if \<not> sock_valid s then net
      else net\<lparr>net_no_delay := (if enabled then insert (sock_handle s) (net_no_delay net)
                                 else net_no_delay net - {sock_handle s})\<rparr>)"

definition connect_loopback :: "NetAnswers \<Rightarrow> Net \<Rightarrow> Socket Result \<times> Net" where
  "connect_loopback a net =
     (case connect_bounded a net of
        (Inl e, net) \<Rightarrow> (Inl e, net)
      | (Inr raw, net) \<Rightarrow> let s = socket_of raw (ans_stream a) in (Inr s, set_no_delay True s net))"

definition listen_loopback :: "NetAnswers \<Rightarrow> int \<Rightarrow> Net \<Rightarrow> Socket Result \<times> Net" where
  "listen_loopback a backlog net =
     (if backlog < 1 then (Inl (Error InvalidArgument ''listen backlog must be at least one''), net)
      else let h = ans_handle a; net = os_open h net in
        if h = kInvalid then (Inl (Error TransportFailure ''socket() failed''), net)
        else if ans_bind a \<noteq> 0 then (Inl (Error TransportFailure ''bind() failed''), close_raw h net)
        else if ans_listen a \<noteq> 0 then (Inl (Error TransportFailure ''listen() failed''), close_raw h net)
        else (Inr (socket_of h []), net))"

definition socket_accept :: "NetAnswers \<Rightarrow> Socket \<Rightarrow> Net \<Rightarrow> Socket Result \<times> Net" where
  "socket_accept a s net =
     (if \<not> sock_valid s then (Inl (Error InvalidState ''accept() on an invalid socket''), net)
      else let h = ans_handle a; net = os_open h net in
        if h = kInvalid then (Inl (Error TransportFailure ''accept() failed''), net)
        else let p = socket_of h (ans_stream a) in (Inr p, set_no_delay True p net))"

definition shutdown_both :: "Socket \<Rightarrow> Socket" where
  "shutdown_both s = (if sock_valid s then s\<lparr>sock_shut := True\<rparr> else s)"

definition socket_close :: "Socket \<Rightarrow> Net \<Rightarrow> Socket \<times> Net" where
  "socket_close s net = (s\<lparr>sock_handle := kInvalid\<rparr>, close_raw (sock_handle s) net)"

section \<open>Moving bytes\<close>

text \<open>A chunk is bounded by the largest \<open>int\<close>.\<close>

definition max_chunk :: "nat \<Rightarrow> nat" where
  "max_chunk remaining = (if remaining > 2147483647 then 2147483647 else remaining)"

function recv_loop :: "os_recv \<Rightarrow> nat \<Rightarrow> byte list \<Rightarrow> Socket \<Rightarrow> byte list Result \<times> Socket" where
  "recv_loop os remaining got s =
     (if remaining = 0 then (Inr got, s)
      else let rc = os (sock_calls s) (max_chunk remaining) (length (sock_in s));
               s = s\<lparr>sock_calls := sock_calls s + 1\<rparr>
           in if rc = 0 then (Inl (Error ConnectionClosed ''peer closed the connection''), s)
              else if rc < 0 then (Inl (Error TransportFailure ''recv() failed''), s)
              else recv_loop os (remaining - nat rc) (got @ take (nat rc) (sock_in s))
                     (s\<lparr>sock_in := drop (nat rc) (sock_in s)\<rparr>))"
  by pat_completeness auto
termination by (relation "measure (\<lambda>(_, n, _). n)") auto

declare recv_loop.simps [simp del]

definition recv_exact :: "os_recv \<Rightarrow> nat \<Rightarrow> Socket \<Rightarrow> byte list Result \<times> Socket" where
  "recv_exact os n s =
     (if \<not> sock_valid s then (Inl (Error InvalidState ''recv() on an invalid socket''), s)
      else recv_loop os n [] s)"

function send_loop :: "os_send \<Rightarrow> byte list \<Rightarrow> Socket \<Rightarrow> Status \<times> Socket" where
  "send_loop os data s =
     (if data = [] then (ok, s)
      else let rc = os (sock_calls s) (max_chunk (length data)); s = s\<lparr>sock_calls := sock_calls s + 1\<rparr>
           in if rc \<le> 0 then (Inl (Error TransportFailure ''send() failed''), s)
              else send_loop os (drop (nat rc) data) (s\<lparr>sock_out := sock_out s @ take (nat rc) data\<rparr>))"
  by pat_completeness auto
termination by (relation "measure (\<lambda>(_, d, _). length d)") auto

declare send_loop.simps [simp del]

definition send_all :: "os_send \<Rightarrow> byte list \<Rightarrow> Socket \<Rightarrow> Status \<times> Socket" where
  "send_all os data s =
     (if \<not> sock_valid s then (Inl (Error InvalidState ''send() on an invalid socket''), s)
      else send_loop os data s)"

section \<open>The loops\<close>

text \<open>
  What the code relies on of the operating system: \<open>recv\<close> answers at least one of the available bytes,
  at most as many as requested, and zero exactly at the end; \<open>send\<close> takes at least one byte.
\<close>

definition delivers :: "os_recv \<Rightarrow> bool" where
  "delivers os \<longleftrightarrow>
     (\<forall>t n a. 0 < n \<longrightarrow> (if a = 0 then os t n a = 0 else 1 \<le> os t n a \<and> os t n a \<le> int (min n a)))"

definition transmits :: "os_send \<Rightarrow> bool" where
  "transmits os \<longleftrightarrow> (\<forall>t n. 0 < n \<longrightarrow> 1 \<le> os t n \<and> os t n \<le> int n)"

lemma sock_valid_update [simp]:
  "sock_valid (s\<lparr>sock_in := i\<rparr>) = sock_valid s" "sock_valid (s\<lparr>sock_out := i\<rparr>) = sock_valid s"
  "sock_valid (s\<lparr>sock_calls := c\<rparr>) = sock_valid s" "sock_valid (s\<lparr>sock_shut := b\<rparr>) = sock_valid s"
  "sock_valid (socket_of h stream) \<longleftrightarrow> h \<noteq> kInvalid"
  by (simp_all add: sock_valid_def socket_of_def)

lemma max_chunk: "0 < n \<Longrightarrow> 0 < max_chunk n \<and> max_chunk n \<le> n"
  by (simp add: max_chunk_def)

lemma delivers_some:
  assumes "delivers os" and "0 < n" and "0 < a"
  shows "1 \<le> os t (max_chunk n) a \<and> nat (os t (max_chunk n) a) \<le> n \<and> nat (os t (max_chunk n) a) \<le> a"
proof -
  note m = max_chunk[OF assms(2)]
  have "1 \<le> os t (max_chunk n) a \<and> os t (max_chunk n) a \<le> int (min (max_chunk n) a)"
    using assms(1,3) m unfolding delivers_def by (metis less_numeral_extra(3))
  then show ?thesis using m by linarith
qed

lemma recv_loop_enough:
  assumes "delivers os" and "n \<le> length (sock_in s)"
  shows "\<exists>c. recv_loop os n got s = (Inr (got @ take n (sock_in s)), s\<lparr>sock_in := drop n (sock_in s), sock_calls := c\<rparr>)"
  using assms(2)
proof (induction n arbitrary: got s rule: less_induct)
  case (less n)
  show ?case
  proof (cases "n = 0")
    case True
    then show ?thesis by (subst recv_loop.simps) (auto intro: exI[of _ "sock_calls s"])
  next
    case False
    let ?rc = "os (sock_calls s) (max_chunk n) (length (sock_in s))"
    have rc: "1 \<le> ?rc" "nat ?rc \<le> n"
      using delivers_some[OF assms(1), of n "length (sock_in s)" "sock_calls s"] False less.prems by linarith+
    let ?s = "s\<lparr>sock_calls := sock_calls s + 1, sock_in := drop (nat ?rc) (sock_in s)\<rparr>"
    have "n - nat ?rc < n" "n - nat ?rc \<le> length (sock_in ?s)" using rc less.prems False by auto
    then obtain c where "recv_loop os (n - nat ?rc) (got @ take (nat ?rc) (sock_in s)) ?s =
        (Inr ((got @ take (nat ?rc) (sock_in s)) @ take (n - nat ?rc) (sock_in ?s)),
         ?s\<lparr>sock_in := drop (n - nat ?rc) (sock_in ?s), sock_calls := c\<rparr>)"
      using less.IH by blast
    moreover have "take (nat ?rc) (sock_in s) @ take (n - nat ?rc) (drop (nat ?rc) (sock_in s)) = take n (sock_in s)"
      using rc by (metis le_add_diff_inverse take_add)
    ultimately show ?thesis
      using rc False by (subst recv_loop.simps) (auto simp: Let_def)
  qed
qed

lemma recv_loop_short:
  assumes "delivers os" and "length (sock_in s) < n"
  shows "\<exists>c. recv_loop os n got s =
    (Inl (Error ConnectionClosed ''peer closed the connection''), s\<lparr>sock_in := [], sock_calls := c\<rparr>)"
  using assms(2)
proof (induction n arbitrary: got s rule: less_induct)
  case (less n)
  let ?rc = "os (sock_calls s) (max_chunk n) (length (sock_in s))"
  have n: "n \<noteq> 0" using less.prems by simp
  show ?case
  proof (cases "sock_in s = []")
    case True
    then have "?rc = 0" using assms(1) n max_chunk[of n] by (auto simp: delivers_def)
    then show ?thesis using n True by (subst recv_loop.simps) (auto simp: Let_def intro!: exI[of _ "sock_calls s + 1"])
  next
    case False
    have rc: "1 \<le> ?rc" "nat ?rc \<le> length (sock_in s)"
      using delivers_some[OF assms(1), of n "length (sock_in s)" "sock_calls s"] n False by auto
    let ?s = "s\<lparr>sock_calls := sock_calls s + 1, sock_in := drop (nat ?rc) (sock_in s)\<rparr>"
    have "n - nat ?rc < n" "length (sock_in ?s) < n - nat ?rc" using rc less.prems n by auto
    then obtain c where "recv_loop os (n - nat ?rc) (got @ take (nat ?rc) (sock_in s)) ?s =
        (Inl (Error ConnectionClosed ''peer closed the connection''), ?s\<lparr>sock_in := [], sock_calls := c\<rparr>)"
      using less.IH by blast
    then show ?thesis using rc n by (subst recv_loop.simps) (auto simp: Let_def)
  qed
qed

lemma send_loop_done:
  assumes "transmits os"
  shows "\<exists>c. send_loop os data s = (ok, s\<lparr>sock_out := sock_out s @ data, sock_calls := c\<rparr>)"
proof (induction data arbitrary: s rule: length_induct)
  case (1 data)
  show ?case
  proof (cases "data = []")
    case True
    then show ?thesis by (subst send_loop.simps) (auto intro: exI[of _ "sock_calls s"])
  next
    case False
    let ?rc = "os (sock_calls s) (max_chunk (length data))"
    have rc: "1 \<le> ?rc" using assms False max_chunk[of "length data"] by (auto simp: transmits_def)
    let ?s = "s\<lparr>sock_calls := sock_calls s + 1, sock_out := sock_out s @ take (nat ?rc) data\<rparr>"
    have "length (drop (nat ?rc) data) < length data" using rc False by simp
    then obtain c where "send_loop os (drop (nat ?rc) data) ?s =
        (ok, ?s\<lparr>sock_out := sock_out ?s @ drop (nat ?rc) data, sock_calls := c\<rparr>)"
      using 1 by blast
    then show ?thesis using rc False by (subst send_loop.simps) (auto simp: Let_def)
  qed
qed

lemma recv_exact_enough:
  assumes "delivers os" and "sock_valid s" and "n \<le> length (sock_in s)"
  obtains c where "recv_exact os n s = (Inr (take n (sock_in s)), s\<lparr>sock_in := drop n (sock_in s), sock_calls := c\<rparr>)"
  using recv_loop_enough[OF assms(1,3), of "[]"] assms(2) by (auto simp: recv_exact_def)

lemma recv_exact_Inr:
  assumes "delivers os" and "recv_exact os n s = (Inr bs, s')"
  shows "sock_valid s \<and> n \<le> length (sock_in s) \<and> bs = take n (sock_in s) \<and> sock_valid s' \<and> sock_in s' = drop n (sock_in s)"
proof -
  have v: "sock_valid s" using assms(2) by (auto simp: recv_exact_def split: if_splits)
  have "n \<le> length (sock_in s)"
    using assms recv_loop_short[OF assms(1), of s n "[]"] v by (force simp: recv_exact_def not_le)
  moreover from recv_exact_enough[OF assms(1) v this] obtain c
    where "recv_exact os n s = (Inr (take n (sock_in s)), s\<lparr>sock_in := drop n (sock_in s), sock_calls := c\<rparr>)" .
  ultimately show ?thesis using assms(2) v by auto
qed

end
