(* ===== verification/Transport.thy ===== *)
theory Transport
  imports Sockets
begin

text \<open>
  The wire (\<open>src/transport.cpp\<close>): frames, the channel that sends and receives them over a socket, the
  server and the client that open channels.
\<close>

section \<open>Frames\<close>

datatype FrameType = Frame_Hello | Frame_Evidence | Frame_RouteGeneration | Frame_TopologyGeneration
  | Frame_SourceDescriptor | Frame_Ack | Frame_Error | Frame_Bye | Frame_Heartbeat | Frame_ComparisonResult

fun FrameType_code :: "FrameType \<Rightarrow> u16" where
  "FrameType_code Frame_Hello = 1"
| "FrameType_code Frame_Evidence = 2"
| "FrameType_code Frame_RouteGeneration = 3"
| "FrameType_code Frame_TopologyGeneration = 4"
| "FrameType_code Frame_SourceDescriptor = 5"
| "FrameType_code Frame_Ack = 6"
| "FrameType_code Frame_Error = 7"
| "FrameType_code Frame_Bye = 8"
| "FrameType_code Frame_Heartbeat = 9"
| "FrameType_code Frame_ComparisonResult = 10"

fun FrameType_to_string :: "FrameType \<Rightarrow> string" where
  "FrameType_to_string Frame_Hello = ''hello''"
| "FrameType_to_string Frame_Evidence = ''evidence''"
| "FrameType_to_string Frame_RouteGeneration = ''route_generation''"
| "FrameType_to_string Frame_TopologyGeneration = ''topology_generation''"
| "FrameType_to_string Frame_SourceDescriptor = ''source_descriptor''"
| "FrameType_to_string Frame_Ack = ''ack''"
| "FrameType_to_string Frame_Error = ''error''"
| "FrameType_to_string Frame_Bye = ''bye''"
| "FrameType_to_string Frame_Heartbeat = ''heartbeat''"
| "FrameType_to_string Frame_ComparisonResult = ''comparison_result''"

definition parse_frame_type :: "u16 \<Rightarrow> FrameType Result" where
  "parse_frame_type raw =
     (if raw = 1 then Inr Frame_Hello
      else if raw = 2 then Inr Frame_Evidence
      else if raw = 3 then Inr Frame_RouteGeneration
      else if raw = 4 then Inr Frame_TopologyGeneration
      else if raw = 5 then Inr Frame_SourceDescriptor
      else if raw = 6 then Inr Frame_Ack
      else if raw = 7 then Inr Frame_Error
      else if raw = 8 then Inr Frame_Bye
      else if raw = 9 then Inr Frame_Heartbeat
      else if raw = 10 then Inr Frame_ComparisonResult
      else Inl (Error ProtocolViolation ''unknown frame type''))"

definition kFrameMagic :: u32 where
  "kFrameMagic = 0x54424F50"

definition kFrameHeaderBytes :: nat where
  "kFrameHeaderBytes = 20"

definition PATHOBS_WIRE_PROTOCOL_VERSION :: u16 where
  "PATHOBS_WIRE_PROTOCOL_VERSION = 1"

definition put_u16 :: "u16 \<Rightarrow> byte list" where
  "put_u16 value = le_bytes 2 value"

record Frame =
  frame_type :: FrameType
  frame_flags :: u32
  frame_payload :: "byte list"

definition frame_header :: "FrameType \<Rightarrow> u32 \<Rightarrow> byte list \<Rightarrow> byte list" where
  "frame_header type flags payload =
     put_u32 kFrameMagic @ put_u16 PATHOBS_WIRE_PROTOCOL_VERSION @ put_u16 (FrameType_code type) @ put_u32 flags @
     put_u32 (of_nat (length payload)) @ put_u32 (crc32c payload)"

definition encode_frame :: "FrameType \<Rightarrow> u32 \<Rightarrow> byte list \<Rightarrow> byte list" where
  "encode_frame type flags payload = frame_header type flags payload @ payload"

section \<open>Channels\<close>

record FramedChannel =
  ch_socket :: Socket
  ch_limits :: Limits

definition channel_send :: "os_send \<Rightarrow> FrameType \<Rightarrow> byte list \<Rightarrow> FramedChannel \<Rightarrow> Status \<times> FramedChannel" where
  "channel_send os type payload ch =
     (if \<not> sock_valid (ch_socket ch) then (Inl (Error InvalidState ''send on a closed channel''), ch)
      else if length payload > unat (max_frame_bytes (ch_limits ch))
      then (Inl (Error CapacityExceeded ''frame payload exceeds the configured bound''), ch)
      else case send_all os (encode_frame type 0 payload) (ch_socket ch) of
        (st, s) \<Rightarrow> (st, ch\<lparr>ch_socket := s\<rparr>))"

definition receive_payload ::
  "os_recv \<Rightarrow> FrameType \<Rightarrow> u32 \<Rightarrow> nat \<Rightarrow> u32 \<Rightarrow> Socket \<Rightarrow> Frame Result \<times> Socket" where
  "receive_payload os type flags payload_bytes payload_crc s =
     (case (if payload_bytes > 0 then recv_exact os payload_bytes s else (Inr [], s)) of
        (Inl e, s) \<Rightarrow> (Inl e, s)
      | (Inr payload, s) \<Rightarrow>
          if crc32c payload \<noteq> payload_crc
          then (Inl (Error IntegrityFailure ''frame payload failed its integrity check''), shutdown_both s)
          else (Inr \<lparr>frame_type = type, frame_flags = flags, frame_payload = payload\<rparr>, s))"

definition receive_frame :: "os_recv \<Rightarrow> Limits \<Rightarrow> Socket \<Rightarrow> Frame Result \<times> Socket" where
  "receive_frame os limits s =
     (case recv_exact os kFrameHeaderBytes s of
        (Inl e, s) \<Rightarrow> (Inl e, s)
      | (Inr header, s) \<Rightarrow>
          if get_u32 header 0 \<noteq> kFrameMagic
          then (Inl (Error ProtocolViolation ''frame magic does not match''), shutdown_both s)
          else if get_u16 header 4 \<noteq> PATHOBS_WIRE_PROTOCOL_VERSION
          then (Inl (Error UnsupportedVersion ''wire protocol version is not supported''), shutdown_both s)
          else case parse_frame_type (get_u16 header 6) of
              Inl e \<Rightarrow> (Inl e, s)
            | Inr type \<Rightarrow>
                if unat (get_u32 header 12) > unat (max_frame_bytes limits)
                then (Inl (Error CapacityExceeded ''frame payload exceeds the configured bound''), shutdown_both s)
                else receive_payload os type (get_u32 header 8) (unat (get_u32 header 12)) (get_u32 header 16) s)"

definition channel_receive :: "os_recv \<Rightarrow> FramedChannel \<Rightarrow> Frame Result \<times> FramedChannel" where
  "channel_receive os ch =
     (case receive_frame os (ch_limits ch) (ch_socket ch) of (r, s) \<Rightarrow> (r, ch\<lparr>ch_socket := s\<rparr>))"

definition channel_shutdown :: "FramedChannel \<Rightarrow> FramedChannel" where
  "channel_shutdown ch = ch\<lparr>ch_socket := shutdown_both (ch_socket ch)\<rparr>"

definition channel_close :: "FramedChannel \<Rightarrow> Net \<Rightarrow> FramedChannel \<times> Net" where
  "channel_close ch net = (case socket_close (ch_socket ch) net of (s, net) \<Rightarrow> (ch\<lparr>ch_socket := s\<rparr>, net))"

section \<open>Server and client\<close>

record ServerOptions =
  opt_backlog :: int
  opt_limits :: Limits

record TransportServer =
  srv_socket :: Socket
  srv_limits :: Limits

definition server_start :: "NetAnswers \<Rightarrow> ServerOptions \<Rightarrow> Net \<Rightarrow> TransportServer Result \<times> Net" where
  "server_start a options net =
     (case validate_limits (opt_limits options) of
        Inl e \<Rightarrow> (Inl e, net)
      | Inr _ \<Rightarrow>
          case system_init net of
            (Inl e, net) \<Rightarrow> (Inl e, net)
          | (Inr _, net) \<Rightarrow>
              case listen_loopback a (opt_backlog options) net of
                (Inl e, net) \<Rightarrow> (Inl e, net)
              | (Inr s, net) \<Rightarrow> (Inr \<lparr>srv_socket = s, srv_limits = opt_limits options\<rparr>, net))"

definition server_accept :: "NetAnswers \<Rightarrow> TransportServer \<Rightarrow> Net \<Rightarrow> FramedChannel Result \<times> Net" where
  "server_accept a srv net =
     (if \<not> sock_valid (srv_socket srv) then (Inl (Error InvalidState ''accept on a stopped server''), net)
      else case socket_accept a (srv_socket srv) net of
          (Inl e, net) \<Rightarrow> (Inl e, net)
        | (Inr peer, net) \<Rightarrow> (Inr \<lparr>ch_socket = peer, ch_limits = srv_limits srv\<rparr>, net))"

definition server_stop :: "TransportServer \<Rightarrow> Net \<Rightarrow> TransportServer \<times> Net" where
  "server_stop srv net =
     (if sock_valid (srv_socket srv)
      then case socket_close (shutdown_both (srv_socket srv)) net of (s, net) \<Rightarrow> (srv\<lparr>srv_socket := s\<rparr>, net)
      else (srv, net))"

definition transport_connect :: "NetAnswers \<Rightarrow> Limits \<Rightarrow> Net \<Rightarrow> FramedChannel Result \<times> Net" where
  "transport_connect a limits net =
     (case system_init net of
        (Inl e, net) \<Rightarrow> (Inl e, net)
      | (Inr _, net) \<Rightarrow>
          case connect_loopback a net of
            (Inl e, net) \<Rightarrow> (Inl e, net)
          | (Inr s, net) \<Rightarrow> (Inr \<lparr>ch_socket = s, ch_limits = limits\<rparr>, net))"

section \<open>Frames on a stream\<close>

lemma length_frame_header [simp]: "length (frame_header t f p) = kFrameHeaderBytes"
  by (simp add: frame_header_def put_u16_def kFrameHeaderBytes_def)

lemma parse_frame_type_code [simp]: "parse_frame_type (FrameType_code t) = Inr t"
  by (cases t) (simp_all add: parse_frame_type_def)

lemma parse_frame_type_Inr: "parse_frame_type raw = Inr t \<longleftrightarrow> raw = FrameType_code t"
proof
  assume "parse_frame_type raw = Inr t"
  then show "raw = FrameType_code t" by (auto simp: parse_frame_type_def split: if_splits)
qed simp

lemma frame_header_fields:
  "get_u32 (frame_header t f p) 0 = kFrameMagic" "get_u16 (frame_header t f p) 4 = PATHOBS_WIRE_PROTOCOL_VERSION"
  "get_u16 (frame_header t f p) 6 = FrameType_code t" "get_u32 (frame_header t f p) 8 = f"
  "get_u32 (frame_header t f p) 12 = of_nat (length p)" "get_u32 (frame_header t f p) 16 = crc32c p"
proof -
  let ?m = "put_u32 kFrameMagic" and ?v = "put_u16 PATHOBS_WIRE_PROTOCOL_VERSION" and ?t = "put_u16 (FrameType_code t)"
  let ?f = "put_u32 f" and ?n = "put_u32 (of_nat (length p))" and ?c = "put_u32 (crc32c p)"
  note h = frame_header_def[of t f p]
  have u: "length ?v = 2" "length ?t = 2" by (simp_all add: put_u16_def)
  show "get_u32 (frame_header t f p) 0 = kFrameMagic" using get_put_u32[of "[]" 0] by (simp add: h)
  show "get_u16 (frame_header t f p) 4 = PATHOBS_WIRE_PROTOCOL_VERSION"
    using get_put_u16[of ?m 4] by (simp add: h put_u16_def)
  show "get_u16 (frame_header t f p) 6 = FrameType_code t"
    using get_put_u16[of "?m @ ?v" 6] u by (simp add: h put_u16_def)
  show "get_u32 (frame_header t f p) 8 = f" using get_put_u32[of "?m @ ?v @ ?t" 8] u by (simp add: h)
  show "get_u32 (frame_header t f p) 12 = of_nat (length p)" using get_put_u32[of "?m @ ?v @ ?t @ ?f" 12] u by (simp add: h)
  show "get_u32 (frame_header t f p) 16 = crc32c p"
    using get_put_u32[of "?m @ ?v @ ?t @ ?f @ ?n" 16 "crc32c p" "[]"] u by (simp add: h)
qed

text \<open>Any header is made of the words that are read from it.\<close>

lemma take_drop_more: "take a (drop n h) @ drop (n + a) h = drop n h"
  by (metis append_take_drop_id drop_drop add.commute)

lemma put_get:
  "at + 4 \<le> length h \<Longrightarrow> put_u32 (get_u32 h at) = take 4 (drop at h)"
  "at + 2 \<le> length h \<Longrightarrow> put_u16 (get_u16 h at) = take 2 (drop at h)"
  by (simp_all add: put_u32_def get_u32_def put_u16_def get_u16_def le_bytes_le_value)

lemma header_words:
  assumes "length h = kFrameHeaderBytes"
  shows "h = put_u32 (get_u32 h 0) @ put_u16 (get_u16 h 4) @ put_u16 (get_u16 h 6) @ put_u32 (get_u32 h 8) @
    put_u32 (get_u32 h 12) @ put_u32 (get_u32 h 16)"
proof -
  have "put_u32 (get_u32 h 0) @ put_u16 (get_u16 h 4) @ put_u16 (get_u16 h 6) @ put_u32 (get_u32 h 8) @
      put_u32 (get_u32 h 12) @ put_u32 (get_u32 h 16) =
    take 4 (drop 0 h) @ take 2 (drop 4 h) @ take 2 (drop 6 h) @ take 4 (drop 8 h) @ take 4 (drop 12 h) @ take 4 (drop 16 h)"
    using assms by (simp add: put_get kFrameHeaderBytes_def)
  also have "take 4 (drop 16 h) = drop 16 h" using assms by (simp add: kFrameHeaderBytes_def)
  finally show ?thesis
    using take_drop_more[of 4 12 h] take_drop_more[of 4 8 h] take_drop_more[of 2 6 h] take_drop_more[of 2 4 h]
      take_drop_more[of 4 0 h] by simp
qed

text \<open>A stream starts with a frame that the receiver accepts.\<close>

definition starts_with_frame :: "Limits \<Rightarrow> Frame \<Rightarrow> byte list \<Rightarrow> byte list \<Rightarrow> bool" where
  "starts_with_frame limits f stream rest \<longleftrightarrow>
     stream = encode_frame (frame_type f) (frame_flags f) (frame_payload f) @ rest \<and>
     length (frame_payload f) \<le> unat (max_frame_bytes limits)"

lemma receive_accepts:
  assumes "delivers os" and "sock_valid s" and "starts_with_frame limits f (sock_in s) rest"
  shows "\<exists>s'. receive_frame os limits s = (Inr f, s') \<and> sock_in s' = rest \<and> sock_valid s'"
proof -
  let ?h = "frame_header (frame_type f) (frame_flags f) (frame_payload f)" and ?p = "frame_payload f"
  have i: "sock_in s = ?h @ ?p @ rest" and b: "length ?p \<le> unat (max_frame_bytes limits)"
    using assms(3) by (simp_all add: starts_with_frame_def encode_frame_def)
  then have "kFrameHeaderBytes \<le> length (sock_in s)" by simp
  from recv_exact_enough[OF assms(1,2) this] obtain c where
    r: "recv_exact os kFrameHeaderBytes s = (Inr ?h, s\<lparr>sock_in := ?p @ rest, sock_calls := c\<rparr>)"
    by (auto simp: i)
  let ?s = "s\<lparr>sock_in := ?p @ rest, sock_calls := c\<rparr>"
  have n: "unat (of_nat (length ?p) :: u32) = length ?p"
    using b by (rule fits_u32(1))
  have "length ?p \<le> length (sock_in ?s)" "sock_valid ?s" using assms(2) by simp_all
  from recv_exact_enough[OF assms(1) this(2,1)] obtain d where
    q: "recv_exact os (length ?p) ?s = (Inr ?p, ?s\<lparr>sock_in := rest, sock_calls := d\<rparr>)" by auto
  have "\<exists>s'. receive_payload os (frame_type f) (frame_flags f) (length ?p) (crc32c ?p) ?s = (Inr f, s') \<and>
      sock_in s' = rest \<and> sock_valid s'"
    using q assms(2) by (cases "?p = []") (auto simp: receive_payload_def)
  then show ?thesis using b n by (simp add: receive_frame_def r frame_header_fields)
qed

lemma receive_sound:
  assumes "delivers os" and "receive_frame os limits s = (Inr f, s')"
  shows "starts_with_frame limits f (sock_in s) (sock_in s')"
proof -
  obtain h s1 where r: "recv_exact os kFrameHeaderBytes s = (Inr h, s1)"
    and g: "get_u32 h 0 = kFrameMagic" "get_u16 h 4 = PATHOBS_WIRE_PROTOCOL_VERSION"
      "parse_frame_type (get_u16 h 6) = Inr (frame_type f)" "unat (get_u32 h 12) \<le> unat (max_frame_bytes limits)"
    and p: "receive_payload os (frame_type f) (get_u32 h 8) (unat (get_u32 h 12)) (get_u32 h 16) s1 = (Inr f, s')"
    using assms(2) by (auto simp: receive_frame_def receive_payload_def not_less split: prod.splits sum.splits if_splits)
  note h = recv_exact_Inr[OF assms(1) r]
  let ?n = "unat (get_u32 h 12)"
  obtain pl where f: "f = \<lparr>frame_type = frame_type f, frame_flags = get_u32 h 8, frame_payload = pl\<rparr>" "crc32c pl = get_u32 h 16"
      "(if ?n > 0 then recv_exact os ?n s1 else (Inr [], s1)) = (Inr pl, s')"
    using p by (auto simp: receive_payload_def split: prod.splits sum.splits if_splits)
  then have fl: "frame_flags f = get_u32 h 8" "frame_payload f = pl" by (metis Frame.select_convs(2,3))+
  have pay: "?n \<le> length (sock_in s1)" "frame_payload f = take ?n (sock_in s1)" "sock_in s' = drop ?n (sock_in s1)"
      "frame_flags f = get_u32 h 8" "crc32c (frame_payload f) = get_u32 h 16"
    using f(2,3) fl recv_exact_Inr[OF assms(1), of ?n s1 pl s'] by (auto split: if_splits)
  have "length h = kFrameHeaderBytes" using h by simp
  from header_words[OF this] have "h = frame_header (frame_type f) (frame_flags f) (frame_payload f)"
    using g pay by (simp add: frame_header_def parse_frame_type_Inr)
  moreover have "sock_in s = h @ sock_in s1" using h by simp
  ultimately show ?thesis using g(4) pay by (simp add: starts_with_frame_def encode_frame_def)
qed

lemma receive_closed:
  assumes "delivers os" and "sock_valid s" and "sock_in s = []"
  shows "fst (receive_frame os limits s) = Inl (Error ConnectionClosed ''peer closed the connection'')"
  using recv_loop_short[OF assms(1), of s kFrameHeaderBytes "[]"] assms(2,3)
  by (auto simp: receive_frame_def recv_exact_def kFrameHeaderBytes_def)

section \<open>Conversations\<close>

text \<open>Sending a list of frames, and receiving until the first error.\<close>

fun send_frames :: "os_send \<Rightarrow> (FrameType \<times> byte list) list \<Rightarrow> FramedChannel \<Rightarrow> Status \<times> FramedChannel" where
  "send_frames os [] ch = (ok, ch)"
| "send_frames os ((t, p) # fs) ch =
     (case channel_send os t p ch of
        (Inl e, ch) \<Rightarrow> (Inl e, ch)
      | (Inr _, ch) \<Rightarrow> send_frames os fs ch)"

fun receive_frames :: "os_recv \<Rightarrow> nat \<Rightarrow> FramedChannel \<Rightarrow> Frame list \<times> Frame Result \<times> FramedChannel" where
  "receive_frames os 0 ch = (case channel_receive os ch of (r, ch) \<Rightarrow> ([], r, ch))"
| "receive_frames os (Suc n) ch =
     (case channel_receive os ch of
        (Inl e, ch) \<Rightarrow> ([], Inl e, ch)
      | (Inr f, ch) \<Rightarrow> (case receive_frames os n ch of (fs, r, ch) \<Rightarrow> (f # fs, r, ch)))"

definition frame_of :: "FrameType \<times> byte list \<Rightarrow> Frame" where
  "frame_of = (\<lambda>(t, p). \<lparr>frame_type = t, frame_flags = 0, frame_payload = p\<rparr>)"

definition wire :: "(FrameType \<times> byte list) list \<Rightarrow> byte list" where
  "wire fs = concat (map (\<lambda>(t, p). encode_frame t 0 p) fs)"

definition within_frame_bound :: "Limits \<Rightarrow> (FrameType \<times> byte list) list \<Rightarrow> bool" where
  "within_frame_bound limits fs \<longleftrightarrow> list_all (\<lambda>(t, p). length p \<le> unat (max_frame_bytes limits)) fs"

lemma channel_send_done:
  assumes "transmits os" and "sock_valid (ch_socket ch)" and "length p \<le> unat (max_frame_bytes (ch_limits ch))"
  shows "\<exists>c. channel_send os t p ch =
    (ok, ch\<lparr>ch_socket := (ch_socket ch)\<lparr>sock_out := sock_out (ch_socket ch) @ encode_frame t 0 p, sock_calls := c\<rparr>\<rparr>)"
proof -
  obtain c where "send_loop os (encode_frame t 0 p) (ch_socket ch) =
      (ok, (ch_socket ch)\<lparr>sock_out := sock_out (ch_socket ch) @ encode_frame t 0 p, sock_calls := c\<rparr>)"
    using send_loop_done[OF assms(1)] by blast
  then show ?thesis using assms(2,3) by (auto simp: channel_send_def send_all_def)
qed

lemma send_frames_done:
  assumes "transmits os" and "sock_valid (ch_socket ch)" and "within_frame_bound (ch_limits ch) fs"
  shows "\<exists>ch'. send_frames os fs ch = (ok, ch') \<and> sock_out (ch_socket ch') = sock_out (ch_socket ch) @ wire fs"
  using assms(2,3)
proof (induction fs arbitrary: ch)
  case (Cons f fs)
  obtain t p where f: "f = (t, p)" by fastforce
  have "length p \<le> unat (max_frame_bytes (ch_limits ch))" "within_frame_bound (ch_limits ch) fs"
    using Cons.prems(2) by (simp_all add: within_frame_bound_def f)
  with channel_send_done[OF assms(1) Cons.prems(1), of p t] obtain ch1 where
    c: "channel_send os t p ch = (ok, ch1)" "sock_valid (ch_socket ch1)" "within_frame_bound (ch_limits ch1) fs"
      "sock_out (ch_socket ch1) = sock_out (ch_socket ch) @ encode_frame t 0 p"
    using Cons.prems(1) by auto
  from Cons.IH[OF c(2,3)] show ?case using c(1,4) by (auto simp: f wire_def)
qed (simp add: wire_def)

lemma channel_receive_accepts:
  assumes "delivers os" and "sock_valid (ch_socket ch)" and "starts_with_frame (ch_limits ch) f (sock_in (ch_socket ch)) rest"
  shows "\<exists>ch'. channel_receive os ch = (Inr f, ch') \<and> sock_valid (ch_socket ch') \<and> sock_in (ch_socket ch') = rest \<and>
    ch_limits ch' = ch_limits ch"
  using receive_accepts[OF assms] by (auto simp: channel_receive_def)

lemma receive_frames_done:
  assumes "delivers os" and "sock_valid (ch_socket ch)" and "within_frame_bound (ch_limits ch) fs"
    and "sock_in (ch_socket ch) = wire fs"
  shows "\<exists>ch'. receive_frames os (length fs) ch =
    (map frame_of fs, Inl (Error ConnectionClosed ''peer closed the connection''), ch')"
  using assms(2-4)
proof (induction fs arbitrary: ch)
  case Nil
  then have "fst (receive_frame os (ch_limits ch) (ch_socket ch)) = Inl (Error ConnectionClosed ''peer closed the connection'')"
    by (intro receive_closed[OF assms(1)]) (simp_all add: wire_def)
  then show ?case by (cases "receive_frame os (ch_limits ch) (ch_socket ch)") (simp add: channel_receive_def)
next
  case (Cons f fs)
  obtain t p where f: "f = (t, p)" by fastforce
  have "starts_with_frame (ch_limits ch) (frame_of f) (sock_in (ch_socket ch)) (wire fs)"
    using Cons.prems by (simp add: f starts_with_frame_def wire_def frame_of_def within_frame_bound_def)
  from channel_receive_accepts[OF assms(1) Cons.prems(1) this] obtain ch' where
    c: "channel_receive os ch = (Inr (frame_of f), ch')" "sock_valid (ch_socket ch')"
      "sock_in (ch_socket ch') = wire fs" "ch_limits ch' = ch_limits ch" by blast
  moreover have "within_frame_bound (ch_limits ch') fs" using Cons.prems(2) c(4) by (simp add: within_frame_bound_def)
  ultimately obtain ch'' where "receive_frames os (length fs) ch' =
      (map frame_of fs, Inl (Error ConnectionClosed ''peer closed the connection''), ch'')" using Cons.IH by blast
  then show ?case using c(1) by simp
qed

text \<open>
  C26: Whatever pieces the operating system moves at a time, the frames sent over a channel are
  received at the other end complete, in order and nothing else, and then the end of the connection
  is reported as closed.
\<close>

theorem frames_delivered:
  assumes "transmits tx" and "delivers rx"
    and "sock_valid (ch_socket sender)" and "sock_out (ch_socket sender) = []"
    and "sock_valid (ch_socket receiver)" and "\<not> sock_shut (ch_socket sender)" and "\<not> sock_shut (ch_socket receiver)"
    and "within_frame_bound (ch_limits sender) fs" and "within_frame_bound (ch_limits receiver) fs"
    and "sock_in (ch_socket receiver) = sock_out (ch_socket (snd (send_frames tx fs sender)))"
  shows "fst (send_frames tx fs sender) = ok \<and>
    (\<exists>receiver'. receive_frames rx (length fs) receiver =
      (map frame_of fs, Inl (Error ConnectionClosed ''peer closed the connection''), receiver'))"
  using send_frames_done[OF assms(1,3,8)] receive_frames_done[OF assms(2,5,9)] assms(4,10) by auto

definition one_byte_recv :: os_recv where
  "one_byte_recv t n a = (if a = 0 then 0 else 1)"

definition one_byte_send :: os_send where
  "one_byte_send t n = 1"

lemma one_byte: "delivers one_byte_recv" "transmits one_byte_send"
  by (auto simp: delivers_def transmits_def one_byte_recv_def one_byte_send_def)

definition example_channel :: "byte list \<Rightarrow> FramedChannel" where
  "example_channel stream = \<lparr>ch_socket = socket_of 3 stream, ch_limits = default_limits\<rparr>"

lemma example_channel [simp]:
  "sock_valid (ch_socket (example_channel stream))" "sock_in (ch_socket (example_channel stream)) = stream"
  "sock_out (ch_socket (example_channel stream)) = []" "\<not> sock_shut (ch_socket (example_channel stream))"
  "ch_limits (example_channel stream) = default_limits"
  by (simp_all add: example_channel_def kInvalid_def) (simp_all add: socket_of_def)

lemma example_bound: "within_frame_bound default_limits [(Frame_Hello, [7, 8]), (Frame_Bye, [])]"
  by (simp add: within_frame_bound_def default_limits_def)

theorem frames_delivered_witness:
  "fst (send_frames one_byte_send [(Frame_Hello, [7, 8]), (Frame_Bye, [])] (example_channel [])) = ok \<and>
   (\<exists>receiver'. receive_frames one_byte_recv 2
      (example_channel (sock_out (ch_socket (snd (send_frames one_byte_send [(Frame_Hello, [7, 8]), (Frame_Bye, [])] (example_channel []))))))
    = ([\<lparr>frame_type = Frame_Hello, frame_flags = 0, frame_payload = [7, 8]\<rparr>,
        \<lparr>frame_type = Frame_Bye, frame_flags = 0, frame_payload = []\<rparr>],
       Inl (Error ConnectionClosed ''peer closed the connection''), receiver'))"
  using frames_delivered[OF one_byte(2,1), of "example_channel []"
      "example_channel (sock_out (ch_socket (snd (send_frames one_byte_send [(Frame_Hello, [7, 8]), (Frame_Bye, [])] (example_channel [])))))"
      "[(Frame_Hello, [7, 8]), (Frame_Bye, [])]"] example_bound
  by (simp add: frame_of_def numeral_2_eq_2 del: send_frames.simps receive_frames.simps)

section \<open>What a receiver accepts\<close>

text \<open>
  A receiver accepts a frame exactly when the stream starts with the encoding of that frame and
  its payload is within the bound; it has then consumed that encoding and nothing more.
\<close>

theorem receive_exact:
  assumes "delivers os" and "sock_valid s" and "\<not> sock_shut s"
  shows "fst (receive_frame os limits s) = Inr f \<and> sock_in (snd (receive_frame os limits s)) = rest \<longleftrightarrow>
    starts_with_frame limits f (sock_in s) rest"
  using receive_accepts[OF assms(1,2)] receive_sound[OF assms(1)] by (metis fst_conv prod.collapse snd_conv)

theorem receive_exact_witness:
  "fst (receive_frame one_byte_recv default_limits (socket_of 3 (encode_frame Frame_Ack 9 [1, 2, 3] @ [4]))) =
     Inr \<lparr>frame_type = Frame_Ack, frame_flags = 9, frame_payload = [1, 2, 3]\<rparr>"
  using receive_exact[OF one_byte(1), of "socket_of 3 (encode_frame Frame_Ack 9 [1, 2, 3] @ [4])" default_limits
      "\<lparr>frame_type = Frame_Ack, frame_flags = 9, frame_payload = [1, 2, 3]\<rparr>" "[4]"]
  by (simp add: kInvalid_def starts_with_frame_def default_limits_def) (simp add: socket_of_def)

text \<open>
  Damage of up to four consecutive bytes of a payload is reported as an integrity failure, and the
  connection is shut down.
\<close>

lemma frame_damage_detected:
  assumes "delivers os" and "sock_valid s" and "length xs = length ys" and "length xs \<le> 4" and "xs \<noteq> ys"
    and "length (pre @ xs @ post) \<le> unat (max_frame_bytes limits)"
    and "sock_in s = frame_header t f (pre @ xs @ post) @ (pre @ ys @ post) @ rest"
  shows "\<exists>s'. receive_frame os limits s =
    (Inl (Error IntegrityFailure ''frame payload failed its integrity check''), s') \<and> sock_shut s'"
proof -
  let ?p = "pre @ xs @ post" and ?q = "pre @ ys @ post"
  let ?h = "frame_header t f ?p"
  have "kFrameHeaderBytes \<le> length (sock_in s)" using assms(7) by simp
  from recv_exact_enough[OF assms(1,2) this] obtain c where
    r: "recv_exact os kFrameHeaderBytes s = (Inr ?h, s\<lparr>sock_in := ?q @ rest, sock_calls := c\<rparr>)"
    using assms(7) by auto
  let ?s = "s\<lparr>sock_in := ?q @ rest, sock_calls := c\<rparr>"
  have n: "unat (of_nat (length ?p) :: u32) = length ?p" using assms(6) by (rule fits_u32(1))
  have l: "length ?p = length ?q" "length ?p > 0" using assms(3,5) by auto
  have "length ?q \<le> length (sock_in ?s)" "sock_valid ?s" using assms(2) by simp_all
  from recv_exact_enough[OF assms(1) this(2,1)] obtain d where
    q: "recv_exact os (length ?p) ?s = (Inr ?q, ?s\<lparr>sock_in := rest, sock_calls := d\<rparr>)" using l(1) by auto
  have "crc32c ?q \<noteq> crc32c ?p" using crc32c_burst[OF assms(3-5)] by metis
  then have "\<exists>s'. receive_payload os t f (length ?p) (crc32c ?p) ?s =
      (Inl (Error IntegrityFailure ''frame payload failed its integrity check''), s') \<and> sock_shut s'"
    using q l assms(2) by (auto simp: receive_payload_def shutdown_both_def)
  then show ?thesis using assms(6) n by (simp add: receive_frame_def r frame_header_fields)
qed

text \<open>
  The checksum covers the payload only: a frame whose type and flags were changed on the way is
  accepted as another frame.
\<close>

lemma frame_header_unprotected:
  assumes "delivers os" and "sock_valid s" and "length p \<le> unat (max_frame_bytes limits)"
  shows "drop 12 (encode_frame t f p) = drop 12 (encode_frame t' f' p) \<and>
    (sock_in s = encode_frame t' f' p @ rest \<longrightarrow>
      fst (receive_frame os limits s) = Inr \<lparr>frame_type = t', frame_flags = f', frame_payload = p\<rparr>)"
proof -
  have "sock_in s = encode_frame t' f' p @ rest \<Longrightarrow>
      starts_with_frame limits \<lparr>frame_type = t', frame_flags = f', frame_payload = p\<rparr> (sock_in s) rest"
    using assms(3) by (simp add: starts_with_frame_def)
  from receive_accepts[OF assms(1,2) this] show ?thesis
    by (auto simp: encode_frame_def frame_header_def put_u16_def)
qed

text \<open>
  Every protocol error shuts the connection down except an unknown frame type: the receiver answers
  the error and leaves the socket open, with the payload of the refused frame next in the stream.
\<close>

lemma unknown_frame_type_keeps_socket_open:
  assumes "recv_exact os kFrameHeaderBytes s = (Inr h, s')" and "get_u32 h 0 = kFrameMagic"
    and "get_u16 h 4 = PATHOBS_WIRE_PROTOCOL_VERSION" and "\<forall>t. get_u16 h 6 \<noteq> FrameType_code t"
  shows "receive_frame os limits s = (Inl (Error ProtocolViolation ''unknown frame type''), s')"
proof -
  have "parse_frame_type (get_u16 h 6) \<noteq> Inr t" for t using assms(4) by (simp add: parse_frame_type_Inr)
  moreover have "parse_frame_type raw = Inl (Error ProtocolViolation ''unknown frame type'') \<or> (\<exists>t. parse_frame_type raw = Inr t)" for raw
    unfolding parse_frame_type_def by simp
  ultimately have "parse_frame_type (get_u16 h 6) = Inl (Error ProtocolViolation ''unknown frame type'')" by blast
  then show ?thesis using assms(1-3) by (simp add: receive_frame_def)
qed

section \<open>Descriptors\<close>

text \<open>
  C28: Opening a connection, a listener or an accepted peer with a descriptor that was not open either
  fails with exactly the descriptors that were open before, or succeeds with that one descriptor more;
  a connected channel is in blocking mode when the mode could be restored, and stopping a server gives
  its descriptor back.
\<close>

theorem descriptors_accounted:
  assumes "ans_handle a \<notin> net_open net"
  shows "(case transport_connect a limits net of
      (Inl _, net') \<Rightarrow> net_open net' = net_open net
    | (Inr ch, net') \<Rightarrow> sock_valid (ch_socket ch) \<and> net_open net' = insert (sock_handle (ch_socket ch)) (net_open net) \<and>
        (ans_restored a \<longrightarrow> sock_handle (ch_socket ch) \<notin> net_nonblocking net') \<and>
        sock_handle (ch_socket ch) \<in> net_no_delay net') \<and>
    (case server_start a options net of
      (Inl _, net') \<Rightarrow> net_open net' = net_open net
    | (Inr srv, net') \<Rightarrow> sock_valid (srv_socket srv) \<and> net_open net' = insert (ans_handle a) (net_open net) \<and>
        net_open (snd (server_stop srv net')) = net_open net) \<and>
    (case server_accept a server net of
      (Inl _, net') \<Rightarrow> net_open net' = net_open net
    | (Inr ch, net') \<Rightarrow> sock_valid (ch_socket ch) \<and> net_open net' = insert (ans_handle a) (net_open net) \<and>
        net_open (snd (channel_close ch net')) = net_open net)"
  using assms
  by (auto simp: transport_connect_def system_init_def connect_loopback_def connect_bounded_def connect_pending_def
      os_open_def close_raw_def Let_def set_no_delay_def socket_of_def sock_valid_def server_start_def listen_loopback_def
      server_stop_def shutdown_both_def socket_close_def server_accept_def socket_accept_def channel_close_def
      split: sum.splits prod.splits if_splits)

definition quiet_answers :: "handle \<Rightarrow> NetAnswers" where
  "quiet_answers h = \<lparr>ans_handle = h, ans_getfl = 0, ans_setfl = 0, ans_connect = -1, ans_in_progress = True,
     ans_select = 1, ans_getsockopt = 0, ans_so_error = 0, ans_restored = True, ans_bind = 0, ans_listen = 0,
     ans_stream = []\<rparr>"

definition idle_net :: Net where
  "idle_net = \<lparr>net_open = {0, 1, 2}, net_nonblocking = {}, net_no_delay = {}, g_init_count = 0\<rparr>"

theorem descriptors_accounted_witness:
  "\<exists>ch net'. transport_connect (quiet_answers 3) default_limits idle_net = (Inr ch, net') \<and> net_open net' = {0, 1, 2, 3}"
  using descriptors_accounted[of "quiet_answers 3" idle_net default_limits]
  by (auto simp: quiet_answers_def idle_net_def transport_connect_def system_init_def connect_loopback_def
      connect_bounded_def connect_pending_def os_open_def Let_def set_no_delay_def socket_of_def sock_valid_def kInvalid_def)

end
