(* ===== verification/Json.thy ===== *)
theory Json
  imports Limits Identity
begin

text \<open>
  JSON (\<open>src/json.cpp\<close>, \<open>include/pathobs/json.hpp\<close>): UTF-8 encoding and validation, the value type, the
  bounded recursive descent parser and the printer. The parser's state is the text not yet read and the
  number of nodes so far; a failure ends the run at once, as \<open>failed_\<close> does. Numbers keep the digits of
  the document; the conversions to and from \<open>double\<close> are not modelled.
\<close>

unbundle bit_operations_syntax

section \<open>UTF-8\<close>

definition as_char :: "u32 \<Rightarrow> char" where
  "as_char w = char_of (unat w)"

definition scalar_value :: "u32 \<Rightarrow> bool" where
  "scalar_value cp \<longleftrightarrow> \<not> (cp > 0x10FFFF \<or> (cp \<ge> 0xD800 \<and> cp \<le> 0xDFFF))"

definition utf8 :: "u32 \<Rightarrow> string" where
  "utf8 cp =
     (if cp < 0x80 then [as_char cp]
      else if cp < 0x800 then [as_char (0xC0 OR drop_bit 6 cp), as_char (0x80 OR (cp AND 0x3F))]
      else if cp < 0x10000
      then [as_char (0xE0 OR drop_bit 12 cp), as_char (0x80 OR (drop_bit 6 cp AND 0x3F)),
            as_char (0x80 OR (cp AND 0x3F))]
      else [as_char (0xF0 OR drop_bit 18 cp), as_char (0x80 OR (drop_bit 12 cp AND 0x3F)),
            as_char (0x80 OR (drop_bit 6 cp AND 0x3F)), as_char (0x80 OR (cp AND 0x3F))])"

definition append_utf8 :: "string \<Rightarrow> u32 \<Rightarrow> bool \<times> string" where
  "append_utf8 out cp = (if \<not> scalar_value cp then (False, out) else (True, out @ utf8 cp))"

text \<open>The leading byte gives the number of continuation bytes and the first bits of the code point.\<close>

definition utf8_lead :: "byte \<Rightarrow> (nat \<times> u32) option" where
  "utf8_lead b =
     (if b AND 0xE0 = 0xC0 then Some (1, ucast (b AND 0x1F))
      else if b AND 0xF0 = 0xE0 then Some (2, ucast (b AND 0x0F))
      else if b AND 0xF8 = 0xF0 then Some (3, ucast (b AND 0x07))
      else None)"

fun utf8_continue :: "u32 \<Rightarrow> string \<Rightarrow> u32 option" where
  "utf8_continue cp [] = Some cp"
| "utf8_continue cp (c # cs) =
     (let b = of_char c :: byte
      in if b AND 0xC0 \<noteq> 0x80 then None else utf8_continue (push_bit 6 cp OR ucast (b AND 0x3F)) cs)"

definition utf8_minimum :: "nat \<Rightarrow> u32" where
  "utf8_minimum extra = (if extra = 1 then 0x80 else if extra = 2 then 0x800 else 0x10000)"

function is_valid_utf8 :: "string \<Rightarrow> bool" where
  "is_valid_utf8 [] = True"
| "is_valid_utf8 (c # rest) =
     (let b = of_char c :: byte
      in if b < 0x80 then is_valid_utf8 rest
         else case utf8_lead b of
             None \<Rightarrow> False
           | Some (extra, cp) \<Rightarrow>
               if length rest < extra then False
               else case utf8_continue cp (take extra rest) of
                   None \<Rightarrow> False
                 | Some cp \<Rightarrow>
                     if cp < utf8_minimum extra \<or> \<not> scalar_value cp then False
                     else is_valid_utf8 (drop extra rest))"
  by pat_completeness auto
termination by (relation "measure length") auto

declare is_valid_utf8.simps(2) [simp del]

section \<open>Values\<close>

datatype JsonValue =
    JNull
  | JBoolean bool
  | JNumber string
  | JString string
  | JArray "JsonValue list"
  | JObject "(string \<times> JsonValue) list"

definition json_find :: "string \<Rightarrow> JsonValue \<Rightarrow> JsonValue option" where
  "json_find key v = (case v of JObject fs \<Rightarrow> map_of fs key | _ \<Rightarrow> None)"

definition json_size :: "JsonValue \<Rightarrow> nat" where
  "json_size v = (case v of JArray vs \<Rightarrow> length vs | JObject fs \<Rightarrow> length fs | _ \<Rightarrow> 0)"

text \<open>
  \<open>push_back\<close> turns any other value into an empty array first, \<open>set\<close> into an empty object; \<open>set\<close>
  overwrites the field of that name in place.
\<close>

definition json_push_back :: "JsonValue \<Rightarrow> JsonValue \<Rightarrow> JsonValue" where
  "json_push_back v a = (case a of JArray vs \<Rightarrow> JArray (vs @ [v]) | _ \<Rightarrow> JArray [v])"

fun put_field :: "string \<Rightarrow> JsonValue \<Rightarrow> (string \<times> JsonValue) list \<Rightarrow> (string \<times> JsonValue) list" where
  "put_field k v [] = [(k, v)]"
| "put_field k v ((k', v') # fs) = (if k' = k then (k', v) # fs else (k', v') # put_field k v fs)"

definition json_set :: "string \<Rightarrow> JsonValue \<Rightarrow> JsonValue \<Rightarrow> JsonValue" where
  "json_set k v ob = (case ob of JObject fs \<Rightarrow> JObject (put_field k v fs) | _ \<Rightarrow> JObject [(k, v)])"

text \<open>Numbers are made from integers by \<open>std::to_chars\<close>.\<close>

definition decimal_signed :: "int \<Rightarrow> string" where
  "decimal_signed i = (if i < 0 then CHR ''-'' # decimal (nat (- i)) else decimal (nat i))"

definition make_number_u64 :: "u64 \<Rightarrow> JsonValue" where
  "make_number_u64 v = JNumber (decimal (unat v))"

definition make_number_i64 :: "i64 \<Rightarrow> JsonValue" where
  "make_number_i64 v = JNumber (decimal_signed (sint v))"

definition as_u64 :: "JsonValue \<Rightarrow> u64 Result" where
  "as_u64 v =
     (case v of
        JNumber t \<Rightarrow>
          if \<exists>c\<in>set t. c \<in> set ''.eE-+''
          then Inl (Error InvalidFormat ''number is not a non negative integer'')
          else (case from_chars_u64 t of
                  Some (n, []) \<Rightarrow> Inr (of_nat n)
                | _ \<Rightarrow> Inl (Error OutOfRange ''integer does not fit in 64 unsigned bits''))
      | _ \<Rightarrow> Inl (Error InvalidFormat ''value is not a number''))"

text \<open>\<open>std::from_chars\<close> on a signed integer takes an optional minus sign and then digits.\<close>

definition from_chars_i64 :: "string \<Rightarrow> (int \<times> string) option" where
  "from_chars_i64 text =
     (let negative = (case text of c # _ \<Rightarrow> c = CHR ''-'' | [] \<Rightarrow> False);
          body = (if negative then tl text else text);
          run = takeWhile is_digit body;
          value = (if negative then - int (digits_value run) else int (digits_value run))
      in if run = [] \<or> value < - (2 ^ 63) \<or> value \<ge> 2 ^ 63 then None
         else Some (value, dropWhile is_digit body))"

definition as_i64 :: "JsonValue \<Rightarrow> i64 Result" where
  "as_i64 v =
     (case v of
        JNumber t \<Rightarrow>
          if \<exists>c\<in>set t. c \<in> set ''.eE'' then Inl (Error InvalidFormat ''number is not an integer'')
          else (case from_chars_i64 t of
                  Some (n, []) \<Rightarrow> Inr (of_int n)
                | _ \<Rightarrow> Inl (Error OutOfRange ''integer does not fit in 64 signed bits''))
      | _ \<Rightarrow> Inl (Error InvalidFormat ''value is not a number''))"

definition as_bool_checked :: "JsonValue \<Rightarrow> bool Result" where
  "as_bool_checked v =
     (case v of JBoolean b \<Rightarrow> Inr b | _ \<Rightarrow> Inl (Error InvalidFormat ''value is not a boolean''))"

section \<open>Printing\<close>

definition kEscape :: char where
  "kEscape = CHR 0x5C"

definition kQuote :: char where
  "kQuote = CHR 0x22"

definition json_hex_digit :: "nat \<Rightarrow> char" where
  "json_hex_digit v = (if v < 10 then char_of (48 + v) else char_of (97 + (v - 10)))"

definition short_escape :: "byte \<Rightarrow> char option" where
  "short_escape b =
     (if b = 0x08 then Some CHR ''b'' else if b = 0x0C then Some CHR ''f'' else if b = 0x0A then Some CHR ''n''
      else if b = 0x0D then Some CHR ''r'' else if b = 0x09 then Some CHR ''t'' else None)"

definition escape_char :: "char \<Rightarrow> string" where
  "escape_char raw =
     (let b = of_char raw :: byte
      in if raw = kQuote \<or> raw = kEscape then [kEscape, raw]
         else if b < 0x20
         then kEscape # (case short_escape b of
                           Some c \<Rightarrow> [c]
                         | None \<Rightarrow> ''u00'' @ [json_hex_digit (unat (drop_bit 4 b AND 0x0F)), json_hex_digit (unat (b AND 0x0F))])
         else [raw])"

definition escape_into :: "string \<Rightarrow> string" where
  "escape_into text = kQuote # concat (map escape_char text) @ [kQuote]"

definition newline_indent :: "bool \<Rightarrow> nat \<Rightarrow> string" where
  "newline_indent pretty n = (if pretty then CHR 0x0A # replicate n (CHR '' '') else [])"

text \<open>The elements of an array or object, separated by commas.\<close>

fun comma_join :: "string list \<Rightarrow> string" where
  "comma_join [] = []"
| "comma_join [t] = t"
| "comma_join (t # ts) = t @ CHR '','' # comma_join ts"

primrec dump_into :: "JsonValue \<Rightarrow> bool \<Rightarrow> nat \<Rightarrow> string" where
  "dump_into JNull pretty indent = ''null''"
| "dump_into (JBoolean b) pretty indent = (if b then ''true'' else ''false'')"
| "dump_into (JNumber t) pretty indent = (if t = [] then ''0'' else t)"
| "dump_into (JString t) pretty indent = escape_into t"
| "dump_into (JArray vs) pretty indent =
     (if vs = [] then ''[]''
      else CHR ''['' # comma_join (map (\<lambda>d. newline_indent pretty (indent + 2) @ d pretty (indent + 2)) (map dump_into vs))
           @ newline_indent pretty indent @ '']'')"
| "dump_into (JObject fs) pretty indent =
     (if fs = [] then ''{}''
      else CHR ''{'' # comma_join (map (\<lambda>(k, d). newline_indent pretty (indent + 2) @ escape_into k @ CHR '':'' #
               (if pretty then '' '' else []) @ d pretty (indent + 2)) (map (map_prod id dump_into) fs))
           @ newline_indent pretty indent @ ''}'')"

definition json_dump :: "bool \<Rightarrow> JsonValue \<Rightarrow> string" where
  "json_dump pretty v = dump_into v pretty 0"

section \<open>Parsing: tokens\<close>

definition peek :: "string \<Rightarrow> char" where
  "peek text = (case text of [] \<Rightarrow> CHR 0x00 | c # _ \<Rightarrow> c)"

definition is_space :: "char \<Rightarrow> bool" where
  "is_space c \<longleftrightarrow> c = CHR '' '' \<or> c = CHR 0x09 \<or> c = CHR 0x0A \<or> c = CHR 0x0D"

definition skip_whitespace :: "string \<Rightarrow> string" where
  "skip_whitespace text = dropWhile is_space text"

definition consume_literal :: "string \<Rightarrow> string \<Rightarrow> string Result" where
  "consume_literal literal text =
     (if length text < length literal then Inl (Error InvalidFormat ''document ended inside a literal'')
      else if take (length literal) text \<noteq> literal then Inl (Error InvalidFormat ''malformed literal'')
      else Inr (drop (length literal) text))"

definition hex_value :: "char \<Rightarrow> nat option" where
  "hex_value c =
     (let n = of_char c :: nat
      in if 48 \<le> n \<and> n \<le> 57 then Some (n - 48)
         else if 97 \<le> n \<and> n \<le> 102 then Some (n - 97 + 10)
         else if 65 \<le> n \<and> n \<le> 70 then Some (n - 65 + 10)
         else None)"

fun hex_digits :: "u32 \<Rightarrow> string \<Rightarrow> u32 Result" where
  "hex_digits value [] = Inr value"
| "hex_digits value (c # cs) =
     (case hex_value c of
        None \<Rightarrow> Inl (Error InvalidFormat ''unicode escape is not hexadecimal'')
      | Some d \<Rightarrow> hex_digits (push_bit 4 value OR of_nat d) cs)"

definition read_hex4 :: "string \<Rightarrow> (u32 \<times> string) Result" where
  "read_hex4 text =
     (if length text < 4 then Inl (Error InvalidFormat ''unicode escape is truncated'')
      else try_bind (hex_digits 0 (take 4 text)) (\<lambda>v. Inr (v, drop 4 text)))"

definition read_low_surrogate :: "u32 \<Rightarrow> string \<Rightarrow> (u32 \<times> string) Result" where
  "read_low_surrogate high text =
     (if peek text \<noteq> kEscape \<or> peek (tl text) \<noteq> CHR ''u''
      then Inl (Error InvalidFormat ''high surrogate is not followed by a low surrogate'')
      else try_bind (read_hex4 (drop 2 text)) (\<lambda>(low, rest).
        if low < 0xDC00 \<or> low > 0xDFFF then Inl (Error InvalidFormat ''surrogate pair is malformed'')
        else Inr (0x10000 + push_bit 10 (high - 0xD800) + (low - 0xDC00), rest)))"

definition surrogates :: "u32 \<Rightarrow> string \<Rightarrow> (u32 \<times> string) Result" where
  "surrogates cp rest =
     (if cp \<ge> 0xD800 \<and> cp \<le> 0xDBFF then read_low_surrogate cp rest
      else if cp \<ge> 0xDC00 \<and> cp \<le> 0xDFFF then Inl (Error InvalidFormat ''unpaired low surrogate'')
      else Inr (cp, rest))"

definition unicode_escape :: "string \<Rightarrow> (string \<times> string) Result" where
  "unicode_escape text =
     try_bind (read_hex4 text) (\<lambda>(cp, rest).
     try_bind (surrogates cp rest) (\<lambda>(cp, rest).
       case append_utf8 [] cp of
         (False, _) \<Rightarrow> Inl (Error InvalidFormat ''escape sequence is not a legal scalar value'')
       | (True, bytes) \<Rightarrow> Inr (bytes, rest)))"

text \<open>The bytes an escape sequence stands for; the text starts after the escape character.\<close>

definition parse_escape :: "string \<Rightarrow> (string \<times> string) Result" where
  "parse_escape text =
     (case text of
        [] \<Rightarrow> Inl (Error InvalidFormat ''string ends inside an escape sequence'')
      | kind # rest \<Rightarrow>
          if kind = CHR ''b'' then Inr ([CHR 0x08], rest)
          else if kind = CHR ''f'' then Inr ([CHR 0x0C], rest)
          else if kind = CHR ''n'' then Inr ([CHR 0x0A], rest)
          else if kind = CHR ''r'' then Inr ([CHR 0x0D], rest)
          else if kind = CHR ''t'' then Inr ([CHR 0x09], rest)
          else if kind = CHR ''u'' then unicode_escape rest
          else if kind = kQuote then Inr ([kQuote], rest)
          else if kind = kEscape then Inr ([kEscape], rest)
          else if kind = CHR ''/'' then Inr (''/'', rest)
          else Inl (Error InvalidFormat ''unknown escape sequence in string''))"

lemma read_hex4_length: "read_hex4 text = Inr (v, rest) \<Longrightarrow> length rest \<le> length text"
  by (auto simp: read_hex4_def try_bind_eq_Inr split: if_splits)

lemma read_low_surrogate_length: "read_low_surrogate high text = Inr (v, rest) \<Longrightarrow> length rest \<le> length text"
  by (auto simp: read_low_surrogate_def try_bind_eq_Inr split: if_splits dest!: read_hex4_length)

lemma surrogates_length: "surrogates cp text = Inr (v, rest) \<Longrightarrow> length rest \<le> length text"
  by (auto simp: surrogates_def split: if_splits dest: read_low_surrogate_length)

lemma unicode_escape_length: "unicode_escape text = Inr (bytes, rest) \<Longrightarrow> length rest \<le> length text"
  by (fastforce simp: unicode_escape_def try_bind_eq_Inr append_utf8_def split: if_splits
      dest!: surrogates_length read_hex4_length)

lemma parse_escape_length: "parse_escape text = Inr (bytes, rest) \<Longrightarrow> length rest < length text"
  by (auto simp: parse_escape_def split: list.splits if_splits dest: unicode_escape_length)

definition string_fits :: "Limits \<Rightarrow> string \<Rightarrow> Status" where
  "string_fits limits out =
     guard_err (length out > unat (max_string_bytes limits)) CapacityExceeded ''string exceeds the configured bound''"

function string_loop :: "Limits \<Rightarrow> string \<Rightarrow> string \<Rightarrow> (string \<times> string) Result" where
  "string_loop limits out [] = Inl (Error InvalidFormat ''string is not terminated'')"
| "string_loop limits out (raw # rest) =
     (if raw = kQuote then Inr (out, rest)
      else if (of_char raw :: byte) < 0x20
      then Inl (Error InvalidFormat ''string contains an unescaped control character'')
      else if raw \<noteq> kEscape
      then (case string_fits limits (out @ [raw]) of
              Inl e \<Rightarrow> Inl e
            | Inr _ \<Rightarrow> string_loop limits (out @ [raw]) rest)
      else (case parse_escape rest of
              Inl e \<Rightarrow> Inl e
            | Inr (bytes, rest') \<Rightarrow>
                (case string_fits limits (out @ bytes) of
                   Inl e \<Rightarrow> Inl e
                 | Inr _ \<Rightarrow> string_loop limits (out @ bytes) rest')))"
  by pat_completeness auto
termination by (relation "measure (\<lambda>(_, _, t). length t)") (auto dest: parse_escape_length)

declare string_loop.simps(2) [simp del]

definition parse_string :: "Limits \<Rightarrow> string \<Rightarrow> (string \<times> string) Result" where
  "parse_string limits text =
     try_bind (string_loop limits [] (tl text)) (\<lambda>(out, rest).
       if \<not> is_valid_utf8 out then Inl (Error InvalidFormat ''string is not valid UTF-8'') else Inr (out, rest))"

text \<open>The parts of a number; each takes the text at its start and answers the text after it.\<close>

definition number_sign :: "string \<Rightarrow> string Result" where
  "number_sign text =
     (if peek text = CHR ''-''
      then if \<not> is_digit (peek (tl text)) then Inl (Error InvalidFormat ''number has a sign with no digits'')
           else Inr (tl text)
      else Inr text)"

definition number_integer :: "string \<Rightarrow> string Result" where
  "number_integer text =
     (if peek text = CHR ''0''
      then if is_digit (peek (tl text)) then Inl (Error InvalidFormat ''number has a leading zero'')
           else Inr (tl text)
      else if \<not> is_digit (peek text) then Inl (Error InvalidFormat ''number has no integer part'')
      else Inr (dropWhile is_digit text))"

definition number_fraction :: "string \<Rightarrow> string Result" where
  "number_fraction text =
     (if peek text = CHR ''.''
      then if \<not> is_digit (peek (tl text)) then Inl (Error InvalidFormat ''number has a fraction with no digits'')
           else Inr (dropWhile is_digit (tl text))
      else Inr text)"

definition number_exponent :: "string \<Rightarrow> string Result" where
  "number_exponent text =
     (if peek text = CHR ''e'' \<or> peek text = CHR ''E''
      then let text = tl text; text = (if peek text = CHR ''+'' \<or> peek text = CHR ''-'' then tl text else text)
           in if \<not> is_digit (peek text) then Inl (Error InvalidFormat ''number has an exponent with no digits'')
              else Inr (dropWhile is_digit text)
      else Inr text)"

definition parse_number :: "string \<Rightarrow> (string \<times> string) Result" where
  "parse_number text =
     try_bind (number_sign text) (\<lambda>t.
     try_bind (number_integer t) (\<lambda>t.
     try_bind (number_fraction t) (\<lambda>t.
     try_bind (number_exponent t) (\<lambda>rest.
       Inr (take (length text - length rest) text, rest)))))"

lemma skip_whitespace_length: "length (skip_whitespace text) \<le> length text"
  by (simp add: skip_whitespace_def length_dropWhile_le)

lemma peek_tl_length: "peek t = c \<Longrightarrow> c \<noteq> CHR 0x00 \<Longrightarrow> length (tl t) < length t"
  by (cases t) (auto simp: peek_def)

lemma string_loop_length: "string_loop limits out t = Inr (v, rest) \<Longrightarrow> length rest < length t"
proof (induction limits out t rule: string_loop.induct)
  case (2 limits out raw rest)
  then show ?case
    by (fastforce simp: string_loop.simps(2) split: if_splits sum.splits prod.splits dest: parse_escape_length)
qed simp

lemma parse_string_length: "parse_string limits text = Inr (t, rest) \<Longrightarrow> length rest \<le> length text"
  by (auto simp: parse_string_def try_bind_eq_Inr split: if_splits dest!: string_loop_length)

lemma length_dropWhile_tl: "length (dropWhile P (tl t)) \<le> length t"
  using length_dropWhile_le[of P "tl t"] by simp

lemma number_part_length:
  "number_sign text = Inr r \<Longrightarrow> length r \<le> length text"
  "number_integer text = Inr r \<Longrightarrow> length r \<le> length text"
  "number_fraction text = Inr r \<Longrightarrow> length r \<le> length text"
  "number_exponent text = Inr r \<Longrightarrow> length r \<le> length text"
proof -
  have "length (dropWhile is_digit (tl (tl text))) \<le> length text"
    using length_dropWhile_tl[of is_digit "tl text"] by simp
  then show "number_exponent text = Inr r \<Longrightarrow> length r \<le> length text"
    by (auto simp: number_exponent_def Let_def length_dropWhile_tl split: if_splits)
qed (auto simp: number_sign_def number_integer_def number_fraction_def length_dropWhile_le length_dropWhile_tl
    split: if_splits)

lemma parse_number_length: "parse_number text = Inr (t, rest) \<Longrightarrow> length rest \<le> length text"
  by (fastforce simp: parse_number_def try_bind_eq_Inr dest!: number_part_length)

lemma consume_literal_length: "consume_literal l text = Inr rest \<Longrightarrow> length rest \<le> length text"
  by (auto simp: consume_literal_def split: if_splits)

section \<open>Parsing: values\<close>

text \<open>A key of an object with its colon, up to the start of the value.\<close>

definition object_key :: "Limits \<Rightarrow> string \<Rightarrow> (string \<times> string) Result" where
  "object_key limits text =
     (let t = skip_whitespace text
      in if peek t \<noteq> kQuote then Inl (Error InvalidFormat ''object key is not a string'')
         else try_bind (parse_string limits t) (\<lambda>(key, t).
           let t = skip_whitespace t
           in if peek t \<noteq> CHR '':'' then Inl (Error InvalidFormat ''object key is not followed by a colon'')
              else Inr (key, skip_whitespace (tl t))))"

lemma object_key_length:
  assumes "object_key limits t = Inr (key, rest)"
  shows "length rest < length t"
proof -
  obtain u where u: "parse_string limits (skip_whitespace t) = Inr (key, u)" "peek (skip_whitespace u) = CHR '':''"
      "rest = skip_whitespace (tl (skip_whitespace u))"
    using assms by (auto simp: object_key_def Let_def try_bind_eq_Inr split: if_splits)
  have "length (tl (skip_whitespace u)) < length (skip_whitespace u)" using peek_tl_length[OF u(2)] by simp
  then show ?thesis
    using parse_string_length[OF u(1)] u(3) skip_whitespace_length[of u] skip_whitespace_length[of t]
      skip_whitespace_length[of "tl (skip_whitespace u)"] by simp
qed

text \<open>
  An object or an array is read by a loop over its elements; both loops and the reader of a value call
  each other, always on a shorter text or from a loop to the value at its start.
\<close>

function parse_value :: "Limits \<Rightarrow> nat \<Rightarrow> string \<Rightarrow> nat \<Rightarrow> (JsonValue \<times> string \<times> nat) Result"
  and object_loop :: "Limits \<Rightarrow> nat \<Rightarrow> (string \<times> JsonValue) list \<Rightarrow> string \<Rightarrow> nat \<Rightarrow> (JsonValue \<times> string \<times> nat) Result"
  and array_loop :: "Limits \<Rightarrow> nat \<Rightarrow> JsonValue list \<Rightarrow> string \<Rightarrow> nat \<Rightarrow> (JsonValue \<times> string \<times> nat) Result"
  where
  "parse_value limits depth text nodes =
     (if depth > unat (max_json_depth limits)
      then Inl (Error InvalidFormat ''document nesting exceeds the configured depth bound'')
      else if nodes + 1 > unat (max_json_nodes limits)
      then Inl (Error CapacityExceeded ''document exceeds the configured node bound'')
      else if peek text = CHR ''{''
      then (let t = skip_whitespace (tl text)
            in if peek t = CHR ''}'' then Inr (JObject [], tl t, nodes + 1)
               else object_loop limits depth [] t (nodes + 1))
      else if peek text = CHR ''[''
      then (let t = skip_whitespace (tl text)
            in if peek t = CHR '']'' then Inr (JArray [], tl t, nodes + 1)
               else array_loop limits depth [] t (nodes + 1))
      else if peek text = kQuote
      then try_bind (parse_string limits text) (\<lambda>(t, rest). Inr (JString t, rest, nodes + 1))
      else if peek text = CHR ''t''
      then try_bind (consume_literal ''true'' text) (\<lambda>rest. Inr (JBoolean True, rest, nodes + 1))
      else if peek text = CHR ''f''
      then try_bind (consume_literal ''false'' text) (\<lambda>rest. Inr (JBoolean False, rest, nodes + 1))
      else if peek text = CHR ''n''
      then try_bind (consume_literal ''null'' text) (\<lambda>rest. Inr (JNull, rest, nodes + 1))
      else if peek text = CHR ''-'' \<or> is_digit (peek text)
      then try_bind (parse_number text) (\<lambda>(t, rest). Inr (JNumber t, rest, nodes + 1))
      else Inl (Error InvalidFormat ''unexpected character in document''))"
| "object_loop limits depth fs text nodes =
     (case object_key limits text of
        Inl e \<Rightarrow> Inl e
      | Inr (key, t) \<Rightarrow>
          (case parse_value limits (depth + 1) t nodes of
             Inl e \<Rightarrow> Inl e
           | Inr (v, t, nodes) \<Rightarrow>
               if map_of fs key \<noteq> None then Inl (Error InvalidFormat ''object contains a duplicate key'')
               else let t = skip_whitespace t
                    in if peek t = CHR '','' then object_loop limits depth (put_field key v fs) (tl t) nodes
                       else if peek t = CHR ''}'' then Inr (JObject (put_field key v fs), tl t, nodes)
                       else Inl (Error InvalidFormat ''object is not terminated'')))"
| "array_loop limits depth items text nodes =
     (case parse_value limits (depth + 1) (skip_whitespace text) nodes of
        Inl e \<Rightarrow> Inl e
      | Inr (v, t, nodes) \<Rightarrow>
          let t = skip_whitespace t
          in if peek t = CHR '','' then array_loop limits depth (items @ [v]) (tl t) nodes
             else if peek t = CHR '']'' then Inr (JArray (items @ [v]), tl t, nodes)
             else Inl (Error InvalidFormat ''array is not terminated''))"
  by pat_completeness auto

lemma skip_peek_length: "peek (skip_whitespace t) = c \<Longrightarrow> c \<noteq> CHR 0x00 \<Longrightarrow> length (tl (skip_whitespace t)) < length t"
  using peek_tl_length[of "skip_whitespace t" c] skip_whitespace_length[of t] by simp

lemma parse_lengths:
  "parse_value_object_loop_array_loop_dom (Inl (limits, depth, t, nodes)) \<Longrightarrow>
     \<forall>v rest n. parse_value limits depth t nodes = Inr (v, rest, n) \<longrightarrow> length rest \<le> length t"
  "parse_value_object_loop_array_loop_dom (Inr (Inl (limits, depth, fs, t, nodes))) \<Longrightarrow>
     \<forall>v rest n. object_loop limits depth fs t nodes = Inr (v, rest, n) \<longrightarrow> length rest \<le> length t"
  "parse_value_object_loop_array_loop_dom (Inr (Inr (limits, depth, items, t, nodes))) \<Longrightarrow>
     \<forall>v rest n. array_loop limits depth items t nodes = Inr (v, rest, n) \<longrightarrow> length rest \<le> length t"
proof (induction rule: parse_value_object_loop_array_loop.pinduct)
  case (1 limits depth t nodes)
  note [simp] = parse_value.psimps[OF 1(1)]
  have "length (skip_whitespace (tl t)) \<le> length t" using skip_whitespace_length[of "tl t"] by simp
  then show ?case
    using 1(2,3) by (fastforce simp: Let_def try_bind_eq_Inr split: if_splits
        dest: parse_string_length parse_number_length consume_literal_length)
next
  case (2 limits depth fs t nodes)
  show ?case
  proof (intro allI impI)
    fix v rest n
    assume "object_loop limits depth fs t nodes = Inr (v, rest, n)"
    then obtain key u w u' m where k: "object_key limits t = Inr (key, u)"
        "parse_value limits (depth + 1) u nodes = Inr (w, u', m)" "map_of fs key = None"
      and e: "(peek (skip_whitespace u') = CHR '','' \<and>
          object_loop limits depth (put_field key w fs) (tl (skip_whitespace u')) m = Inr (v, rest, n)) \<or>
        (peek (skip_whitespace u') = CHR ''}'' \<and> rest = tl (skip_whitespace u'))"
      unfolding object_loop.psimps[OF 2(1)] by (auto simp: Let_def split: sum.splits if_splits)
    have u: "length u' \<le> length u" using 2(2)[OF k(1) refl] k(2) by blast
    have "length rest \<le> length (tl (skip_whitespace u'))"
      using e 2(3)[OF k(1) refl k(2) refl refl _ refl] k(3) by auto
    then show "length rest \<le> length t"
      using u object_key_length[OF k(1)] skip_whitespace_length[of u'] by simp
  qed
next
  case (3 limits depth items t nodes)
  show ?case
  proof (intro allI impI)
    fix v rest n
    assume "array_loop limits depth items t nodes = Inr (v, rest, n)"
    then obtain w u m where k: "parse_value limits (depth + 1) (skip_whitespace t) nodes = Inr (w, u, m)"
      and e: "(peek (skip_whitespace u) = CHR '','' \<and>
          array_loop limits depth (items @ [w]) (tl (skip_whitespace u)) m = Inr (v, rest, n)) \<or>
        (peek (skip_whitespace u) = CHR '']'' \<and> rest = tl (skip_whitespace u))"
      unfolding array_loop.psimps[OF 3(1)] by (auto simp: Let_def split: sum.splits if_splits)
    have u: "length u \<le> length (skip_whitespace t)" using 3(2) k by blast
    have "length rest \<le> length (tl (skip_whitespace u))"
      using e 3(3)[OF k refl refl refl] by auto
    then show "length rest \<le> length t"
      using u skip_whitespace_length[of u] skip_whitespace_length[of t] by simp
  qed
qed

termination parse_value
proof (relation "measure (\<lambda>x. case x of Inl (_, _, t, _) \<Rightarrow> 2 * length t
    | Inr (Inl (_, _, _, t, _)) \<Rightarrow> 2 * length t + 1 | Inr (Inr (_, _, _, t, _)) \<Rightarrow> 2 * length t + 1)", goal_cases)
  case 1 show ?case by simp
next
  case (2 limits depth t nodes u)
  then show ?case using skip_whitespace_length[of "tl t"] peek_tl_length[of t] by fastforce
next
  case (3 limits depth t nodes u)
  then show ?case using skip_whitespace_length[of "tl t"] peek_tl_length[of t] by fastforce
next
  case (4 limits depth fs t nodes b key u)
  then show ?case using object_key_length[of limits t key u] by auto
next
  case (5 limits depth fs t nodes b key u c w y u' m x)
  then have k: "object_key limits t = Inr (key, u)" "parse_value limits (depth + 1) u nodes = Inr (w, u', m)"
    "peek (skip_whitespace u') = CHR '',''"
    and d: "parse_value_object_loop_array_loop_dom (Inl (limits, depth + 1, u, nodes))" by auto
  show ?case
    using object_key_length[OF k(1)] parse_lengths(1)[OF d] k(2) skip_peek_length[OF k(3)] 5 by fastforce
next
  case (6 limits depth items t nodes)
  then show ?case using skip_whitespace_length[of t] by simp
next
  case (7 limits depth items t nodes b w y u m x)
  then have k: "parse_value limits (depth + 1) (skip_whitespace t) nodes = Inr (w, u, m)"
    "peek (skip_whitespace u) = CHR '',''"
    and d: "parse_value_object_loop_array_loop_dom (Inl (limits, depth + 1, skip_whitespace t, nodes))" by auto
  show ?case
    using parse_lengths(1)[OF d] k(1) skip_peek_length[OF k(2)] skip_whitespace_length[of t] 7 by fastforce
qed

declare parse_value.simps [simp del] object_loop.simps [simp del] array_loop.simps [simp del]

definition json_parse :: "Limits \<Rightarrow> string \<Rightarrow> JsonValue Result" where
  "json_parse limits text =
     (if length text > unat (max_document_bytes limits)
      then Inl (Error CapacityExceeded ''document exceeds the configured byte bound'')
      else try_bind (parse_value limits 0 (skip_whitespace text) 0) (\<lambda>(v, rest, _).
        if skip_whitespace rest \<noteq> [] then Inl (Error InvalidFormat ''document has trailing content'') else Inr v))"

end
