(* ===== verification/JsonText.thy ===== *)
theory JsonText
  imports Json
begin

text \<open>
  The text level of JSON: what the UTF-8 check accepts, that an escaped string is read back, that the
  number reader accepts exactly the number grammar, and that printed integers are read back.
\<close>

unbundle bit_operations_syntax

section \<open>Bits as arithmetic\<close>

lemma nat_or_add:
  fixes x y :: nat
  assumes "y < 2 ^ k"
  shows "(2 ^ k * x) OR y = 2 ^ k * x + y"
proof -
  have y: "take_bit k y = y" using assms by (simp add: take_bit_nat_eq_self)
  have "push_bit k x AND take_bit k y = 0" by (rule bit_eqI) (auto simp: bit_simps)
  then have "push_bit k x + y = push_bit k x OR y" using y by (simp add: disjunctive_add_eq_or)
  then show ?thesis by (simp add: push_bit_eq_mult mult.commute)
qed

lemma nat_and_high: "n AND push_bit k (mask m) = push_bit k (take_bit m (drop_bit k n))" for n :: nat
  by (rule bit_eqI) (auto simp: bit_simps)

lemma nat_and_low: "n AND mask m = n mod 2 ^ m" for n :: nat
  by (simp add: take_bit_eq_mod flip: take_bit_eq_mask)

lemma unat_high:
  fixes b :: byte
  assumes "k + m = 8"
  shows "unat b AND push_bit k (mask m) = 2 ^ k * (unat b div 2 ^ k)"
proof -
  have "unat b < 2 ^ (k + m)" using unsigned_less[of b] assms by simp
  then have "unat b div 2 ^ k < 2 ^ m" by (simp add: less_mult_imp_div_less power_add mult.commute)
  then have "take_bit m (drop_bit k (unat b)) = unat b div 2 ^ k"
    by (simp add: drop_bit_eq_div take_bit_nat_eq_self)
  then show ?thesis by (simp only: nat_and_high) (simp add: push_bit_eq_mult)
qed

lemma byte_masks:
  fixes b :: byte
  shows "b AND 0xE0 = 0xC0 \<longleftrightarrow> unat b div 32 = 6" "b AND 0xF0 = 0xE0 \<longleftrightarrow> unat b div 16 = 14"
  "b AND 0xF8 = 0xF0 \<longleftrightarrow> unat b div 8 = 30" "b AND 0xC0 = 0x80 \<longleftrightarrow> unat b div 64 = 2"
  using unat_high[of 5 3 b] unat_high[of 4 4 b] unat_high[of 3 5 b] unat_high[of 6 2 b]
  by (simp_all add: word_unat_eq_iff unsigned_and_eq mask_eq_exp_minus_1 push_bit_eq_mult)

lemma byte_low_masks:
  fixes b :: byte
  shows "unat (b AND 0x1F) = unat b mod 32" "unat (b AND 0x0F) = unat b mod 16" "unat (b AND 0x07) = unat b mod 8"
  "unat (b AND 0x3F) = unat b mod 64"
  using nat_and_low[of "unat b" 5] nat_and_low[of "unat b" 4] nat_and_low[of "unat b" 3] nat_and_low[of "unat b" 6]
  by (simp_all add: unsigned_and_eq mask_eq_exp_minus_1)

lemma word_masks:
  fixes w :: u32
  shows "unat (w AND 0x3F) = unat w mod 64" "unat (drop_bit n w) = unat w div 2 ^ n"
proof -
  have "take_bit 32 (unat w) = unat w" using unsigned_less[of w, where ?'a = nat] by (simp add: take_bit_nat_eq_self)
  then show "unat (drop_bit n w) = unat w div 2 ^ n"
    using unsigned_drop_bit_eq[of n w, where ?'a = nat] by (simp add: drop_bit_eq_div)
qed (use nat_and_low[of "unat w" 6] in \<open>simp add: unsigned_and_eq mask_eq_exp_minus_1\<close>)

lemma unat_of_char [simp]: "unat (of_char c :: byte) = of_char c"
proof -
  have "(of_char c :: byte) = of_nat (of_char c)" by (simp add: of_nat_of_char)
  moreover have "(of_char c :: nat) < 256" by simp
  ultimately show ?thesis by (simp add: unat_of_nat take_bit_nat_eq_self)
qed

lemma as_char_eq: "unat w = of_char c \<Longrightarrow> as_char w = c"
  by (simp add: as_char_def)

lemma of_as_char: "unat w < 256 \<Longrightarrow> (of_char (as_char w) :: nat) = unat w"
  by (simp add: as_char_def)

lemma unat_byte_patterns:
  fixes w :: u32
  shows "unat w < 64 \<Longrightarrow> unat (0x80 OR w) = 128 + unat w" "unat w < 32 \<Longrightarrow> unat (0xC0 OR w) = 192 + unat w"
    "unat w < 16 \<Longrightarrow> unat (0xE0 OR w) = 224 + unat w" "unat w < 8 \<Longrightarrow> unat (0xF0 OR w) = 240 + unat w"
  using nat_or_add[of "unat w" 6 2] nat_or_add[of "unat w" 5 6] nat_or_add[of "unat w" 4 14] nat_or_add[of "unat w" 3 30]
  by (simp_all add: unsigned_or_eq)

lemma unat_continue:
  fixes cp :: u32 and b :: byte
  assumes "unat cp < 2 ^ 26"
  shows "unat (push_bit 6 cp OR ucast (b AND 0x3F)) = 64 * unat cp + unat b mod 64"
proof -
  have "unat (push_bit 6 cp) = 64 * unat cp"
    using assms unat_mult_lem[of cp 64] by (simp add: push_bit_eq_mult mult.commute)
  moreover have "unat (ucast (b AND 0x3F) :: u32) = unat b mod 64"
    using byte_low_masks(4)[of b] by (simp add: unsigned_ucast_eq take_bit_nat_eq_self)
  ultimately show ?thesis using nat_or_add[of "unat b mod 64" 6 "unat cp"] by (simp add: unsigned_or_eq)
qed

section \<open>UTF-8\<close>

definition decode_one :: "string \<Rightarrow> (u32 \<times> string) option" where
  "decode_one text =
     (case text of
        [] \<Rightarrow> None
      | c # rest \<Rightarrow>
          if (of_char c :: byte) < 0x80 then Some (ucast (of_char c :: byte), rest)
          else (case utf8_lead (of_char c) of
                  None \<Rightarrow> None
                | Some (extra, cp) \<Rightarrow>
                    if length rest < extra then None
                    else (case utf8_continue cp (take extra rest) of
                            None \<Rightarrow> None
                          | Some cp \<Rightarrow>
                              if cp < utf8_minimum extra \<or> \<not> scalar_value cp then None else Some (cp, drop extra rest))))"

lemma is_valid_utf8_step:
  "is_valid_utf8 (c # rest) \<longleftrightarrow> (\<exists>cp r. decode_one (c # rest) = Some (cp, r) \<and> is_valid_utf8 r)"
  by (auto simp: is_valid_utf8.simps(2) decode_one_def Let_def split: option.splits if_splits)

lemma ucast_of_nat: "(ucast w :: u32) = of_nat (unat w)" for w :: byte
  by simp

lemma utf8_lead_nat:
  "utf8_lead b =
     (let u = unat b
      in if u div 32 = 6 then Some (1, of_nat (u mod 32)) else if u div 16 = 14 then Some (2, of_nat (u mod 16))
         else if u div 8 = 30 then Some (3, of_nat (u mod 8)) else None)"
  unfolding utf8_lead_def byte_masks ucast_of_nat byte_low_masks Let_def ..

lemma utf8_continue_Cons:
  assumes "unat cp < 2 ^ 26"
  shows "utf8_continue cp (c # cs) = Some v \<longleftrightarrow>
    (of_char c :: nat) div 64 = 2 \<and> utf8_continue (of_nat (64 * unat cp + of_char c mod 64)) cs = Some v"
proof -
  have "push_bit 6 cp OR ucast ((of_char c :: byte) AND 0x3F) = (of_nat (64 * unat cp + of_char c mod 64) :: u32)"
    using unat_continue[OF assms, of "of_char c"] by (metis unat_of_char of_nat_unat ucast_id)
  then show ?thesis by (simp add: Let_def byte_masks)
qed

lemma unat_u32_of_nat: "n < 2 ^ 32 \<Longrightarrow> unat (of_nat n :: u32) = n"
  by (simp add: unat_of_nat take_bit_nat_eq_self)

lemma continue_one:
  assumes "unat cp < 2 ^ 26"
  shows "utf8_continue cp [c] = Some v \<longleftrightarrow> (of_char c :: nat) div 64 = 2 \<and> v = of_nat (64 * unat cp + of_char c mod 64)"
  using utf8_continue_Cons[OF assms] by (auto simp del: utf8_continue.simps(2))

lemma continue_two:
  assumes "unat cp < 2 ^ 20"
  shows "utf8_continue cp [c, d] = Some v \<longleftrightarrow> (of_char c :: nat) div 64 = 2 \<and> (of_char d :: nat) div 64 = 2 \<and>
    v = of_nat (4096 * unat cp + 64 * (of_char c mod 64) + of_char d mod 64)"
proof -
  have b: "64 * unat cp + of_char c mod 64 < 2 ^ 26" using assms mod_less_divisor[of 64 "of_char c :: nat"] by simp
  then have u: "unat (of_nat (64 * unat cp + of_char c mod 64) :: u32) = 64 * unat cp + of_char c mod 64"
    by (intro unat_u32_of_nat) simp
  have "utf8_continue cp [c, d] = Some v \<longleftrightarrow>
      (of_char c :: nat) div 64 = 2 \<and> utf8_continue (of_nat (64 * unat cp + of_char c mod 64)) [d] = Some v"
    by (rule utf8_continue_Cons) (use assms in simp)
  also have "\<dots> \<longleftrightarrow> (of_char c :: nat) div 64 = 2 \<and> (of_char d :: nat) div 64 = 2 \<and>
      v = of_nat (64 * (64 * unat cp + of_char c mod 64) + of_char d mod 64)"
    using continue_one[of "of_nat (64 * unat cp + of_char c mod 64)" d v] b unfolding u by blast
  also have "64 * (64 * unat cp + of_char c mod 64) + of_char d mod 64 = 4096 * unat cp + 64 * (of_char c mod 64) + of_char d mod 64"
    by simp
  finally show ?thesis .
qed

lemma continue_three:
  assumes "unat cp < 2 ^ 14"
  shows "utf8_continue cp [c, d, e] = Some v \<longleftrightarrow>
    (of_char c :: nat) div 64 = 2 \<and> (of_char d :: nat) div 64 = 2 \<and> (of_char e :: nat) div 64 = 2 \<and>
    v = of_nat (262144 * unat cp + 4096 * (of_char c mod 64) + 64 * (of_char d mod 64) + of_char e mod 64)"
proof -
  have b: "64 * unat cp + of_char c mod 64 < 2 ^ 20" using assms mod_less_divisor[of 64 "of_char c :: nat"] by simp
  then have u: "unat (of_nat (64 * unat cp + of_char c mod 64) :: u32) = 64 * unat cp + of_char c mod 64"
    by (intro unat_u32_of_nat) simp
  have "utf8_continue cp [c, d, e] = Some v \<longleftrightarrow>
      (of_char c :: nat) div 64 = 2 \<and> utf8_continue (of_nat (64 * unat cp + of_char c mod 64)) [d, e] = Some v"
    by (rule utf8_continue_Cons) (use assms in simp)
  also have "\<dots> \<longleftrightarrow> (of_char c :: nat) div 64 = 2 \<and> (of_char d :: nat) div 64 = 2 \<and> (of_char e :: nat) div 64 = 2 \<and>
      v = of_nat (4096 * (64 * unat cp + of_char c mod 64) + 64 * (of_char d mod 64) + of_char e mod 64)"
    using continue_two[of "of_nat (64 * unat cp + of_char c mod 64)" d e v] b unfolding u by blast
  also have "4096 * (64 * unat cp + of_char c mod 64) + 64 * (of_char d mod 64) + of_char e mod 64 =
      262144 * unat cp + 4096 * (of_char c mod 64) + 64 * (of_char d mod 64) + of_char e mod 64"
    by simp
  finally show ?thesis .
qed

text \<open>Every scalar value is decoded from its encoding.\<close>

lemma utf8_codes:
  "unat cp < 0x80 \<Longrightarrow> map of_char (utf8 cp) = [unat cp]"
  "0x80 \<le> unat cp \<Longrightarrow> unat cp < 0x800 \<Longrightarrow> map of_char (utf8 cp) = [192 + unat cp div 64, 128 + unat cp mod 64]"
  "0x800 \<le> unat cp \<Longrightarrow> unat cp < 0x10000 \<Longrightarrow>
     map of_char (utf8 cp) = [224 + unat cp div 4096, 128 + unat cp div 64 mod 64, 128 + unat cp mod 64]"
  "0x10000 \<le> unat cp \<Longrightarrow> unat cp < 0x200000 \<Longrightarrow>
     map of_char (utf8 cp) =
       [240 + unat cp div 262144, 128 + unat cp div 4096 mod 64, 128 + unat cp div 64 mod 64, 128 + unat cp mod 64]"
proof -
  have t: "unat (0x80 OR (w AND 0x3F)) = 128 + unat w mod 64" for w :: u32
    by (subst unat_byte_patterns(1)) (simp_all add: word_masks)
  have t': "(of_char (as_char (0x80 OR (w AND 0x3F))) :: nat) = 128 + unat w mod 64" for w :: u32
  proof -
    have "unat (0x80 OR (w AND 0x3F)) < 256" using t[of w] mod_less_divisor[of 64 "unat w"] by linarith
    from of_as_char[OF this] t[of w] show ?thesis by simp
  qed
  show "unat cp < 0x80 \<Longrightarrow> map of_char (utf8 cp) = [unat cp]"
    by (simp add: utf8_def word_less_nat_alt of_as_char)
  show "0x80 \<le> unat cp \<Longrightarrow> unat cp < 0x800 \<Longrightarrow> map of_char (utf8 cp) = [192 + unat cp div 64, 128 + unat cp mod 64]"
    using unat_byte_patterns(2)[of "drop_bit 6 cp"]
    by (simp add: utf8_def word_less_nat_alt t' of_as_char word_masks less_mult_imp_div_less)
  show "0x800 \<le> unat cp \<Longrightarrow> unat cp < 0x10000 \<Longrightarrow>
     map of_char (utf8 cp) = [224 + unat cp div 4096, 128 + unat cp div 64 mod 64, 128 + unat cp mod 64]"
    using unat_byte_patterns(3)[of "drop_bit 12 cp"]
    by (simp add: utf8_def word_less_nat_alt t' of_as_char word_masks less_mult_imp_div_less)
  show "0x10000 \<le> unat cp \<Longrightarrow> unat cp < 0x200000 \<Longrightarrow>
     map of_char (utf8 cp) =
       [240 + unat cp div 262144, 128 + unat cp div 4096 mod 64, 128 + unat cp div 64 mod 64, 128 + unat cp mod 64]"
    using unat_byte_patterns(4)[of "drop_bit 18 cp"]
    by (simp add: utf8_def word_less_nat_alt t' of_as_char word_masks less_mult_imp_div_less)
qed

lemma chars_eqI: "map (of_char :: char \<Rightarrow> nat) xs = map of_char ys \<Longrightarrow> xs = ys"
  by (metis inj_map_eq_map inj_of_char)

lemma scalar_value_nat: "scalar_value cp \<Longrightarrow> unat cp \<le> 0x10FFFF"
  by (simp add: scalar_value_def word_less_nat_alt)

lemma of_char_less_0x80: "(of_char c :: byte) < 0x80 \<longleftrightarrow> (of_char c :: nat) < 0x80"
  by (simp add: word_less_nat_alt)

lemma decode_lead:
  assumes "decode_one (c # rest) = Some (cp, r)" and "0x80 \<le> (of_char c :: nat)"
  obtains extra lead where "utf8_lead (of_char c) = Some (extra, lead)" "extra \<le> length rest"
    "utf8_continue lead (take extra rest) = Some cp" "utf8_minimum extra \<le> cp" "scalar_value cp" "r = drop extra rest"
  using assms by (auto simp: decode_one_def of_char_less_0x80 not_less split: if_splits option.splits)

lemma div_mod_sum: "n div k = q \<Longrightarrow> k * q + n mod k = n" for n k q :: nat
  by auto

lemma radix: "z < k \<Longrightarrow> (k * q + z) div k = q \<and> (k * q + z) mod k = z" for k q z :: nat
  by simp

lemma radix64_two:
  fixes w y z :: nat
  assumes "y < 64" and "z < 64"
  shows "(4096 * w + 64 * y + z) div 4096 = w \<and> (4096 * w + 64 * y + z) div 64 mod 64 = y \<and> (4096 * w + 64 * y + z) mod 64 = z"
proof -
  have n: "4096 * w + 64 * y + z = 64 * (64 * w + y) + z" by simp
  have d: "(64 * (64 * w + y) + z) div 64 = 64 * w + y" "(64 * (64 * w + y) + z) mod 64 = z"
    using radix[OF assms(2), of "64 * w + y"] by blast+
  moreover have "(64 * (64 * w + y) + z) div 4096 = (64 * (64 * w + y) + z) div 64 div 64" by (simp add: div_mult2_eq[symmetric])
  ultimately show ?thesis unfolding n using radix[OF assms(1), of w] by simp
qed

lemma radix64_three:
  fixes w x y z :: nat
  assumes "x < 64" and "y < 64" and "z < 64"
  shows "(262144 * w + 4096 * x + 64 * y + z) div 262144 = w \<and> (262144 * w + 4096 * x + 64 * y + z) div 4096 mod 64 = x \<and>
    (262144 * w + 4096 * x + 64 * y + z) div 64 mod 64 = y \<and> (262144 * w + 4096 * x + 64 * y + z) mod 64 = z"
proof -
  have n: "262144 * w + 4096 * x + 64 * y + z = 4096 * (64 * w + x) + 64 * y + z" by simp
  have "n div 262144 = n div 4096 div 64" for n :: nat by (simp add: div_mult2_eq[symmetric])
  then show ?thesis
    unfolding n using radix64_two[OF assms(2,3), of "64 * w + x"] radix[OF assms(1), of w] by simp
qed

lemma take_exactly:
  "Suc 0 \<le> length xs \<Longrightarrow> \<exists>a. take (Suc 0) xs = [a]"
  "Suc (Suc 0) \<le> length xs \<Longrightarrow> \<exists>a b. take (Suc (Suc 0)) xs = [a, b]"
  "Suc (Suc (Suc 0)) \<le> length xs \<Longrightarrow> \<exists>a b c. take (Suc (Suc (Suc 0))) xs = [a, b, c]"
  by (cases xs; cases "tl xs"; cases "tl (tl xs)"; simp)+

lemma decode_sound:
  assumes "decode_one (c # rest) = Some (cp, r)"
  shows "scalar_value cp \<and> c # rest = utf8 cp @ r"
proof (cases "(of_char c :: nat) < 0x80")
  case True
  then have cp: "cp = ucast (of_char c :: byte)" "r = rest" using assms by (auto simp: decode_one_def of_char_less_0x80)
  then have u: "unat cp = of_char c" by (simp only: ucast_of_nat) (use True in \<open>simp add: unat_of_nat take_bit_nat_eq_self\<close>)
  then have "map of_char (utf8 cp) = map (of_char :: char \<Rightarrow> nat) [c]" using utf8_codes(1)[of cp] True by simp
  then have "utf8 cp = [c]" by (rule chars_eqI)
  moreover have "scalar_value cp" using u True by (auto simp: scalar_value_def word_less_nat_alt word_le_nat_alt)
  ultimately show ?thesis using cp by simp
next
  case False
  then have "0x80 \<le> (of_char c :: nat)" by simp
  from decode_lead[OF assms this] obtain extra lead where l: "utf8_lead (of_char c) = Some (extra, lead)" "extra \<le> length rest"
    "utf8_continue lead (take extra rest) = Some cp" "utf8_minimum extra \<le> cp" "scalar_value cp" "r = drop extra rest" .
  let ?c = "of_char c :: nat"
  consider "?c div 32 = 6" "extra = 1" "lead = of_nat (?c mod 32)"
    | "?c div 16 = 14" "extra = 2" "lead = of_nat (?c mod 16)"
    | "?c div 8 = 30" "extra = 3" "lead = of_nat (?c mod 8)"
    using l(1) by (auto simp: utf8_lead_nat Let_def split: if_splits)
  then have "map of_char (utf8 cp) = map (of_char :: char \<Rightarrow> nat) (c # take extra rest)"
  proof cases
    case 1
    then obtain d where d: "take extra rest = [d]" using l(2) take_exactly(1)[of rest] by auto
    have "unat lead = ?c mod 32" unfolding 1(3) by (rule unat_u32_of_nat) simp
    with continue_one[of lead d cp] l(3) d have e: "(of_char d :: nat) div 64 = 2"
        "cp = of_nat (64 * (?c mod 32) + of_char d mod 64)" by simp_all
    have u: "unat cp = 64 * (?c mod 32) + of_char d mod 64" unfolding e(2) by (rule unat_u32_of_nat) simp
    moreover have "0x80 \<le> unat cp" using l(4) by (simp add: 1(2) utf8_minimum_def word_le_nat_alt)
    moreover have "unat cp < 0x800" unfolding u by simp
    ultimately show ?thesis using utf8_codes(2)[of cp] div_mod_sum[OF 1(1)] div_mod_sum[OF e(1)] unfolding d by simp
  next
    case 2
    then obtain d e where d: "take extra rest = [d, e]" using l(2) take_exactly(2)[of rest] by (auto simp: numeral_2_eq_2)
    have "unat lead = ?c mod 16" unfolding 2(3) by (rule unat_u32_of_nat) simp
    with continue_two[of lead d e cp] l(3) d have e: "(of_char d :: nat) div 64 = 2" "(of_char e :: nat) div 64 = 2"
        "cp = of_nat (4096 * (?c mod 16) + 64 * (of_char d mod 64) + of_char e mod 64)" by simp_all
    have u: "unat cp = 4096 * (?c mod 16) + 64 * (of_char d mod 64) + of_char e mod 64"
      unfolding e(3) by (rule unat_u32_of_nat) simp
    moreover have "0x800 \<le> unat cp" using l(4) by (simp add: 2(2) utf8_minimum_def word_le_nat_alt)
    moreover have "unat cp < 0x10000" unfolding u by simp
    ultimately show ?thesis using utf8_codes(3)[of cp] div_mod_sum[OF 2(1)] div_mod_sum[OF e(1)] div_mod_sum[OF e(2)]
      unfolding d by (simp add: radix64_two)
  next
    case 3
    then obtain d e f where d: "take extra rest = [d, e, f]" using l(2) take_exactly(3)[of rest] by (auto simp: numeral_3_eq_3)
    have "unat lead = ?c mod 8" unfolding 3(3) by (rule unat_u32_of_nat) simp
    with continue_three[of lead d e f cp] l(3) d have e: "(of_char d :: nat) div 64 = 2" "(of_char e :: nat) div 64 = 2"
        "(of_char f :: nat) div 64 = 2"
        "cp = of_nat (262144 * (?c mod 8) + 4096 * (of_char d mod 64) + 64 * (of_char e mod 64) + of_char f mod 64)" by simp_all
    have u: "unat cp = 262144 * (?c mod 8) + 4096 * (of_char d mod 64) + 64 * (of_char e mod 64) + of_char f mod 64"
      unfolding e(4) by (rule unat_u32_of_nat) simp
    moreover have "0x10000 \<le> unat cp" using l(4) by (simp add: 3(2) utf8_minimum_def word_le_nat_alt)
    moreover have "unat cp < 0x200000" unfolding u by simp
    ultimately show ?thesis using utf8_codes(4)[of cp] div_mod_sum[OF 3(1)] div_mod_sum[OF e(1)] div_mod_sum[OF e(2)] div_mod_sum[OF e(3)]
      unfolding d by (simp add: radix64_three)
  qed
  then have "utf8 cp = c # take extra rest" by (rule chars_eqI)
  then show ?thesis using l(2,5,6) by simp
qed

lemma decode_extra:
  assumes "utf8_lead (of_char c) = Some (extra, lead)" and "utf8_continue lead cs = Some cp"
    and "0x80 \<le> (of_char c :: nat)" and "length cs = extra" and "utf8_minimum extra \<le> cp" and "scalar_value cp"
  shows "decode_one ((c # cs) @ rest) = Some (cp, rest)"
  using assms by (simp add: decode_one_def of_char_less_0x80 not_less)

lemma lead_codes:
  fixes q :: nat
  shows "q < 32 \<Longrightarrow> (192 + q) div 32 = 6 \<and> (192 + q) mod 32 = q"
    "q < 16 \<Longrightarrow> (224 + q) div 32 = 7 \<and> (224 + q) div 16 = 14 \<and> (224 + q) mod 16 = q"
    "q < 8 \<Longrightarrow> (240 + q) div 32 = 7 \<and> (240 + q) div 16 = 15 \<and> (240 + q) div 8 = 30 \<and> (240 + q) mod 8 = q"
  using radix[of q 32 6] radix[of q 32 7] radix[of q 16 14] radix[of "q + 16" 32 7] radix[of q 16 15] radix[of q 8 30]
  by (simp_all add: add.commute)

lemma radix64_join:
  fixes u :: nat
  shows "4096 * (u div 4096) + 64 * (u div 64 mod 64) + u mod 64 = u"
    "262144 * (u div 262144) + 4096 * (u div 4096 mod 64) + 64 * (u div 64 mod 64) + u mod 64 = u"
proof -
  have d: "u div 4096 = u div 64 div 64" "u div 262144 = u div 4096 div 64" by (simp_all add: div_mult2_eq[symmetric])
  have j: "64 * (v div 64) + v mod 64 = v" for v :: nat by simp
  show a: "4096 * (u div 4096) + 64 * (u div 64 mod 64) + u mod 64 = u"
    using j[of u] j[of "u div 64"] unfolding d(1) by linarith
  show "262144 * (u div 262144) + 4096 * (u div 4096 mod 64) + 64 * (u div 64 mod 64) + u mod 64 = u"
    using a j[of "u div 4096"] unfolding d(2) by linarith
qed

lemma tail_code: "(of_char d :: nat) = 128 + y \<Longrightarrow> y < 64 \<Longrightarrow> (of_char d :: nat) div 64 = 2 \<and> of_char d mod 64 = y"
  using radix[of y 64 2] by simp

lemma decode_complete:
  assumes "scalar_value cp"
  shows "decode_one (utf8 cp @ rest) = Some (cp, rest)"
proof -
  let ?u = "unat cp"
  have le: "?u \<le> 0x10FFFF" by (rule scalar_value_nat[OF assms])
  have whole: "n = ?u \<Longrightarrow> of_nat n = cp" for n by simp
  consider "?u < 0x80" | "0x80 \<le> ?u" "?u < 0x800" | "0x800 \<le> ?u" "?u < 0x10000" | "0x10000 \<le> ?u" "?u < 0x200000"
    using le by linarith
  then show ?thesis
  proof cases
    case 1
    then obtain c where c: "utf8 cp = [c]" "(of_char c :: nat) = ?u" using utf8_codes(1)[of cp] by auto
    have "(ucast (of_char c :: byte) :: u32) = cp" unfolding ucast_of_nat by (rule whole) (simp add: c(2))
    then show ?thesis using 1 c by (simp add: decode_one_def of_char_less_0x80)
  next
    case 2
    then obtain c d where c: "utf8 cp = [c, d]" "(of_char c :: nat) = 192 + ?u div 64" "(of_char d :: nat) = 128 + ?u mod 64"
      using utf8_codes(2)[of cp] by auto
    have q: "?u div 64 < 32" using 2 by (simp add: less_mult_imp_div_less)
    have "utf8_lead (of_char c) = Some (1, of_nat (?u div 64))"
      using lead_codes(1)[OF q] by (simp add: utf8_lead_nat c(2) Let_def)
    moreover have "utf8_continue (of_nat (?u div 64)) [d] = Some cp"
    proof -
      have "unat (of_nat (?u div 64) :: u32) = ?u div 64" using q by (intro unat_u32_of_nat) simp
      moreover have "64 * (?u div 64) + ?u mod 64 = ?u" by simp
      ultimately show ?thesis
        using continue_one[of "of_nat (?u div 64)" d cp] tail_code[OF c(3)] q whole by simp
    qed
    ultimately show ?thesis
      unfolding c(1) by (rule decode_extra) (use 2 assms in \<open>simp_all add: c(2) utf8_minimum_def word_le_nat_alt\<close>)
  next
    case 3
    then obtain c d e where c: "utf8 cp = [c, d, e]" "(of_char c :: nat) = 224 + ?u div 4096"
        "(of_char d :: nat) = 128 + ?u div 64 mod 64" "(of_char e :: nat) = 128 + ?u mod 64"
      using utf8_codes(3)[of cp] by auto
    have q: "?u div 4096 < 16" using 3 by (simp add: less_mult_imp_div_less)
    have "utf8_lead (of_char c) = Some (2, of_nat (?u div 4096))"
      using lead_codes(2)[OF q] by (simp add: utf8_lead_nat c(2) Let_def)
    moreover have "utf8_continue (of_nat (?u div 4096)) [d, e] = Some cp"
    proof -
      have "unat (of_nat (?u div 4096) :: u32) = ?u div 4096" using q by (intro unat_u32_of_nat) simp
      moreover note radix64_join(1)[of ?u]
      ultimately show ?thesis
        using continue_two[of "of_nat (?u div 4096)" d e cp] tail_code[OF c(3)] tail_code[OF c(4)] q whole by simp
    qed
    ultimately show ?thesis
      unfolding c(1) by (rule decode_extra) (use 3 assms in \<open>simp_all add: c(2) utf8_minimum_def word_le_nat_alt\<close>)
  next
    case 4
    then obtain c d e f where c: "utf8 cp = [c, d, e, f]" "(of_char c :: nat) = 240 + ?u div 262144"
        "(of_char d :: nat) = 128 + ?u div 4096 mod 64" "(of_char e :: nat) = 128 + ?u div 64 mod 64"
        "(of_char f :: nat) = 128 + ?u mod 64"
      using utf8_codes(4)[of cp] by auto
    have q: "?u div 262144 < 8" using 4 by (simp add: less_mult_imp_div_less)
    have "utf8_lead (of_char c) = Some (3, of_nat (?u div 262144))"
      using lead_codes(3)[OF q] by (simp add: utf8_lead_nat c(2) Let_def)
    moreover have "utf8_continue (of_nat (?u div 262144)) [d, e, f] = Some cp"
    proof -
      have "unat (of_nat (?u div 262144) :: u32) = ?u div 262144" using q by (intro unat_u32_of_nat) simp
      moreover note radix64_join(2)[of ?u]
      ultimately show ?thesis
        using continue_three[of "of_nat (?u div 262144)" d e f cp] tail_code[OF c(3)] tail_code[OF c(4)] tail_code[OF c(5)] q whole
        by simp
    qed
    ultimately show ?thesis
      unfolding c(1) by (rule decode_extra) (use 4 assms in \<open>simp_all add: c(2) utf8_minimum_def word_le_nat_alt\<close>)
  qed
qed

lemma utf8_nonempty [simp]: "utf8 cp \<noteq> []"
  by (simp add: utf8_def)

lemma is_valid_utf8_append: "scalar_value cp \<Longrightarrow> is_valid_utf8 (utf8 cp @ rest) = is_valid_utf8 rest"
  using decode_complete[of cp rest] by (cases "utf8 cp @ rest") (auto simp: is_valid_utf8_step)

text \<open>
  C31: A text is valid UTF-8 exactly when it is the concatenation of the encodings of scalar values:
  no overlong form, no surrogate and nothing above the last code point passes.
\<close>

theorem utf8_validation_exact:
  "is_valid_utf8 text \<longleftrightarrow> (\<exists>cps. list_all scalar_value cps \<and> text = concat (map utf8 cps))"
proof
  show "is_valid_utf8 text \<Longrightarrow> \<exists>cps. list_all scalar_value cps \<and> text = concat (map utf8 cps)"
  proof (induction "text" rule: length_induct)
    case (1 t)
    show ?case
    proof (cases t)
      case Nil
      then show ?thesis by (intro exI[of _ "[]"]) simp
    next
      case (Cons c rest)
      then obtain cp r where d: "decode_one (c # rest) = Some (cp, r)" "is_valid_utf8 r"
        using 1 is_valid_utf8_step by auto
      note s = decode_sound[OF d(1)]
      then have "length r < length t" using Cons by (metis length_append length_greater_0_conv less_add_same_cancel2 utf8_nonempty)
      with 1 d(2) obtain cps where "list_all scalar_value cps" "r = concat (map utf8 cps)" by blast
      with s Cons show ?thesis by (intro exI[of _ "cp # cps"]) simp
    qed
  qed
  have "list_all scalar_value cps \<Longrightarrow> is_valid_utf8 (concat (map utf8 cps))" for cps
    by (induction cps) (simp_all add: is_valid_utf8_append)
  then show "\<exists>cps. list_all scalar_value cps \<and> text = concat (map utf8 cps) \<Longrightarrow> is_valid_utf8 text" by blast
qed

section \<open>Strings\<close>

lemma utf8_ascii: "n < 128 \<Longrightarrow> utf8 (of_nat n) = [char_of n]" for n :: nat
  using unat_u32_of_nat[of n] by (simp add: utf8_def word_less_nat_alt as_char_def)

lemma scalar_ascii: "n < 128 \<Longrightarrow> scalar_value (of_nat n)" for n :: nat
  using unat_u32_of_nat[of n] by (auto simp: scalar_value_def word_less_nat_alt word_le_nat_alt)

lemma hex_value_digit: "v < 16 \<Longrightarrow> hex_value (json_hex_digit v) = Some v"
  by (auto simp: hex_value_def json_hex_digit_def Let_def)

lemma hex_pair:
  assumes "a < 16" and "b < 16"
  shows "hex_digits 0 (''00'' @ [json_hex_digit a, json_hex_digit b]) = Inr (of_nat (16 * a + b))"
proof -
  have z: "hex_value (CHR ''0'') = Some 0" by (simp add: hex_value_def)
  have u: "unat (of_nat a :: u32) = a" "unat (of_nat b :: u32) = b" "unat (of_nat (16 * a + b) :: u32) = 16 * a + b"
    by (rule unat_u32_of_nat, use assms in simp)+
  have "unat (push_bit 4 (of_nat a :: u32)) = 16 * a"
    using unat_mult_lem[of "of_nat a :: u32" 16] assms u(1) by (simp add: push_bit_eq_mult mult.commute)
  then have "unat (push_bit 4 (of_nat a) OR of_nat b :: u32) = unat (of_nat (16 * a + b) :: u32)"
    using nat_or_add[of b 4 a] assms u(2,3) by (simp add: unsigned_or_eq)
  then show ?thesis using assms by (simp add: hex_value_digit z word_unat_eq_iff)
qed

lemma hex_nibbles:
  fixes b :: byte
  shows "unat (drop_bit 4 b AND 0x0F) = unat b div 16" "unat (b AND 0x0F) = unat b mod 16"
proof -
  have "unat b div 16 < 16" using unsigned_less[of b, where ?'a = nat] by (simp add: less_mult_imp_div_less)
  moreover have "unat (drop_bit 4 b) = unat b div 16"
  proof -
    have "take_bit 8 (unat b) = unat b" using unsigned_less[of b, where ?'a = nat] by (simp add: take_bit_nat_eq_self)
    then show ?thesis using unsigned_drop_bit_eq[of 4 b, where ?'a = nat] by (simp add: drop_bit_eq_div)
  qed
  ultimately show "unat (drop_bit 4 b AND 0x0F) = unat b div 16" by (simp add: byte_low_masks)
qed (simp add: byte_low_masks)

lemma hex_of_char:
  "hex_digits 0 (''00'' @ [json_hex_digit (unat (drop_bit 4 (of_char c :: byte) AND 0x0F)),
     json_hex_digit (unat ((of_char c :: byte) AND 0x0F))]) = Inr (of_nat (of_char c))"
proof -
  have "(of_char c :: nat) div 16 < 16" by (simp add: less_mult_imp_div_less)
  from hex_pair[OF this, of "of_char c mod 16"] show ?thesis unfolding hex_nibbles(1) unfolding hex_nibbles(2) unat_of_char by (simp del: hex_digits.simps)
qed

lemma of_char_byte_eq: "(of_char c :: byte) = of_char d \<longleftrightarrow> c = d"
  by (metis unat_of_char char_of_char)

lemma short_escape_cases:
  assumes "short_escape (of_char c) = Some e"
  shows "(c, e) \<in> {(CHR 0x08, CHR ''b''), (CHR 0x0C, CHR ''f''), (CHR 0x0A, CHR ''n''), (CHR 0x0D, CHR ''r''), (CHR 0x09, CHR ''t'')}"
proof -
  have "(0x08 :: byte) = of_char (CHR 0x08)" "(0x0C :: byte) = of_char (CHR 0x0C)" "(0x0A :: byte) = of_char (CHR 0x0A)"
    "(0x0D :: byte) = of_char (CHR 0x0D)" "(0x09 :: byte) = of_char (CHR 0x09)" by simp_all
  then show ?thesis using assms unfolding short_escape_def by (simp only: of_char_byte_eq) (auto split: if_splits)
qed

lemma parse_escape_short:
  "parse_escape (CHR ''b'' # rest) = Inr ([CHR 0x08], rest)" "parse_escape (CHR ''f'' # rest) = Inr ([CHR 0x0C], rest)"
  "parse_escape (CHR ''n'' # rest) = Inr ([CHR 0x0A], rest)" "parse_escape (CHR ''r'' # rest) = Inr ([CHR 0x0D], rest)"
  "parse_escape (CHR ''t'' # rest) = Inr ([CHR 0x09], rest)" "parse_escape (CHR ''u'' # rest) = unicode_escape rest"
  by (simp_all add: parse_escape_def)

lemma parse_escape_control:
  assumes "(of_char c :: byte) < 0x20"
  shows "\<exists>es. escape_char c = kEscape # es \<and> parse_escape (es @ rest) = Inr ([c], rest)"
proof -
  have e: "escape_char c = kEscape # (case short_escape (of_char c) of Some e \<Rightarrow> [e]
      | None \<Rightarrow> ''u00'' @ [json_hex_digit (unat (drop_bit 4 (of_char c :: byte) AND 0x0F)),
          json_hex_digit (unat ((of_char c :: byte) AND 0x0F))])"
    using assms by (auto simp: escape_char_def Let_def kQuote_def kEscape_def)
  show ?thesis
  proof (cases "short_escape (of_char c)")
    case None
    have n: "(of_char c :: nat) < 128" using assms by (simp add: word_less_nat_alt)
    define h where "h = [json_hex_digit (unat (drop_bit 4 (of_char c :: byte) AND 0x0F)), json_hex_digit (unat ((of_char c :: byte) AND 0x0F))]"
    have l: "length h = 2" by (simp add: h_def)
    have r: "read_hex4 (''00'' @ h @ rest) = Inr (of_nat (of_char c), rest)"
      using hex_of_char[of c] l unfolding h_def[symmetric] by (simp add: read_hex4_def del: hex_digits.simps)
    have "unat (of_nat (of_char c) :: u32) < 128" using n unat_u32_of_nat[of "of_char c"] by simp
    then have "surrogates (of_nat (of_char c)) rest = Inr (of_nat (of_char c), rest)"
      by (simp add: surrogates_def word_le_nat_alt)
    then have "unicode_escape (''00'' @ h @ rest) = Inr ([c], rest)"
      using utf8_ascii[OF n] scalar_ascii[OF n] unfolding unicode_escape_def r by (simp add: append_utf8_def)
    moreover have "escape_char c = kEscape # ''u00'' @ h" using e None by (simp add: h_def)
    ultimately show ?thesis by (simp add: parse_escape_short)
  next
    case (Some k)
    have "parse_escape ([k] @ rest) = Inr ([c], rest)" using short_escape_cases[OF Some]
      by (elim insertE) (simp_all add: parse_escape_short)
    moreover have "escape_char c = kEscape # [k]" using e Some by simp
    ultimately show ?thesis by blast
  qed
qed

lemma parse_escape_special: "c = kQuote \<or> c = kEscape \<Longrightarrow> parse_escape (c # rest) = Inr ([c], rest)"
  by (auto simp: parse_escape_def kQuote_def kEscape_def)

text \<open>Reading an escaped character puts that character back.\<close>

lemma string_loop_char:
  assumes "length (out @ [c]) \<le> unat (max_string_bytes limits)"
  shows "string_loop limits out (escape_char c @ rest) = string_loop limits (out @ [c]) rest"
proof -
  have k: "kEscape \<noteq> kQuote" "\<not> (of_char kEscape :: byte) < 0x20" by (simp_all add: kEscape_def kQuote_def)
  have f: "string_fits limits (out @ [c]) = ok" using assms by (simp add: string_fits_def)
  consider "c = kQuote \<or> c = kEscape" | "c \<noteq> kQuote" "c \<noteq> kEscape" "(of_char c :: byte) < 0x20"
    | "c \<noteq> kQuote" "c \<noteq> kEscape" "\<not> (of_char c :: byte) < 0x20" by blast
  then show ?thesis
  proof cases
    case 1
    then have "escape_char c = [kEscape, c]" by (auto simp: escape_char_def)
    then show ?thesis using parse_escape_special[OF 1] k f by (simp add: string_loop.simps(2))
  next
    case 2
    from parse_escape_control[OF 2(3), of rest] obtain es where
      "escape_char c = kEscape # es" "parse_escape (es @ rest) = Inr ([c], rest)" by blast
    then show ?thesis using k f by (simp add: string_loop.simps(2))
  next
    case 3
    then have "escape_char c = [c]" by (simp add: escape_char_def)
    then show ?thesis using 3 f by (simp add: string_loop.simps(2))
  qed
qed

lemma string_loop_escaped:
  "length (out @ t) \<le> unat (max_string_bytes limits) \<Longrightarrow>
   string_loop limits out (concat (map escape_char t) @ kQuote # rest) = Inr (out @ t, rest)"
proof (induction t arbitrary: out)
  case Nil
  then show ?case by (simp add: string_loop.simps(2))
next
  case (Cons c t)
  then show ?case using string_loop_char[of out c limits "concat (map escape_char t) @ kQuote # rest"] by simp
qed

lemma parse_string_escaped:
  assumes "is_valid_utf8 t" and "length t \<le> unat (max_string_bytes limits)"
  shows "parse_string limits (escape_into t @ rest) = Inr (t, rest)"
  using string_loop_escaped[of "[]" t limits rest] assms by (simp add: parse_string_def escape_into_def)

lemma string_loop_bounded:
  "string_loop limits out t = Inr (s, rest) \<Longrightarrow> length out \<le> unat (max_string_bytes limits) \<Longrightarrow>
   length s \<le> unat (max_string_bytes limits)"
proof (induction limits out t rule: string_loop.induct)
  case (2 limits out raw rest)
  then show ?case
    by (auto simp: string_loop.simps(2) string_fits_def split: if_splits sum.splits prod.splits)
qed simp

lemma parse_string_sound:
  "parse_string limits t = Inr (s, rest) \<Longrightarrow> is_valid_utf8 s \<and> length s \<le> unat (max_string_bytes limits)"
  by (auto simp: parse_string_def try_bind_eq_Inr split: if_splits dest: string_loop_bounded)

section \<open>Numbers\<close>

definition digit_run :: "string \<Rightarrow> bool" where
  "digit_run ds \<longleftrightarrow> ds \<noteq> [] \<and> list_all is_digit ds"

definition sign_part :: "string \<Rightarrow> bool" where
  "sign_part s \<longleftrightarrow> s = [] \<or> s = ''-''"

definition integer_part :: "string \<Rightarrow> bool" where
  "integer_part i \<longleftrightarrow> i = ''0'' \<or> (digit_run i \<and> hd i \<noteq> CHR ''0'')"

definition fraction_part :: "string \<Rightarrow> bool" where
  "fraction_part f \<longleftrightarrow> f = [] \<or> (hd f = CHR ''.'' \<and> digit_run (tl f))"

definition exponent_part :: "string \<Rightarrow> bool" where
  "exponent_part e \<longleftrightarrow> e = [] \<or>
     (\<exists>c g ds. e = c # g @ ds \<and> (c = CHR ''e'' \<or> c = CHR ''E'') \<and> (g = [] \<or> g = ''+'' \<or> g = ''-'') \<and> digit_run ds)"

text \<open>The number grammar of RFC 8259.\<close>

definition json_number :: "string \<Rightarrow> bool" where
  "json_number t \<longleftrightarrow>
     (\<exists>s i f e. t = s @ i @ f @ e \<and> sign_part s \<and> integer_part i \<and> fraction_part f \<and> exponent_part e)"

definition ends_number :: "string \<Rightarrow> bool" where
  "ends_number rest \<longleftrightarrow> \<not> is_digit (peek rest) \<and> peek rest \<noteq> CHR ''.'' \<and> peek rest \<noteq> CHR ''e'' \<and> peek rest \<noteq> CHR ''E''"

lemma peek_simps [simp]: "peek [] = CHR 0x00" "peek (c # t) = c"
  by (simp_all add: peek_def)

lemma not_digit [simp]:
  "\<not> is_digit (CHR 0x00)" "\<not> is_digit (CHR ''-'')" "\<not> is_digit (CHR ''+'')" "\<not> is_digit (CHR ''.'')" "\<not> is_digit (CHR ''e'')"
  "\<not> is_digit (CHR ''E'')" "is_digit (CHR ''0'')"
  by (simp_all add: is_digit_def)

lemma dropWhile_run: "list_all is_digit ds \<Longrightarrow> \<not> is_digit (peek rest) \<Longrightarrow> dropWhile is_digit (ds @ rest) = rest"
  by (induction ds) (auto simp: peek_def split: list.splits)

lemma digit_run_Cons: "digit_run ds \<Longrightarrow> \<exists>d r. ds = d # r \<and> is_digit d"
  by (cases ds) (auto simp: digit_run_def)

lemma digit_peek: "digit_run ds \<Longrightarrow> is_digit (peek (ds @ rest))"
  using digit_run_Cons by fastforce

lemma number_sign_accepts: "sign_part s \<Longrightarrow> is_digit (peek x) \<Longrightarrow> number_sign (s @ x) = Inr x"
  by (auto simp: sign_part_def number_sign_def)

lemma number_integer_accepts: "integer_part i \<Longrightarrow> \<not> is_digit (peek x) \<Longrightarrow> number_integer (i @ x) = Inr x"
  using digit_run_Cons[of i] dropWhile_run[of i x]
  by (auto simp: integer_part_def number_integer_def digit_run_def simp del: dropWhile.simps)

lemma number_fraction_accepts:
  "fraction_part f \<Longrightarrow> \<not> is_digit (peek x) \<Longrightarrow> f = [] \<longrightarrow> peek x \<noteq> CHR ''.'' \<Longrightarrow> number_fraction (f @ x) = Inr x"
  using digit_peek[of "tl f" x] dropWhile_run[of "tl f" x]
  by (cases f) (auto simp: fraction_part_def number_fraction_def digit_run_def)

lemma number_exponent_accepts:
  assumes "exponent_part e" and "\<not> is_digit (peek x)" and "e = [] \<longrightarrow> peek x \<noteq> CHR ''e'' \<and> peek x \<noteq> CHR ''E''"
  shows "number_exponent (e @ x) = Inr x"
proof (cases "e = []")
  case True
  then show ?thesis using assms(3) by (simp add: number_exponent_def)
next
  case False
  then obtain c g ds where e: "e = c # g @ ds" "c = CHR ''e'' \<or> c = CHR ''E''" "g = [] \<or> g = ''+'' \<or> g = ''-''" "digit_run ds"
    using assms(1) by (auto simp: exponent_part_def)
  obtain d r where d: "ds = d # r" "is_digit d" using digit_run_Cons[OF e(4)] by blast
  then have "d \<noteq> CHR ''+''" "d \<noteq> CHR ''-''" by auto
  then show ?thesis
    using e(2,3) d dropWhile_run[of ds x] assms(2) e(4)
    by (auto simp: number_exponent_def e(1) digit_run_def Let_def)
qed

lemma integer_peek: "integer_part i \<Longrightarrow> is_digit (peek (i @ x))"
  using digit_peek[of i x] by (auto simp: integer_part_def)

lemma exponent_peek: "exponent_part e \<Longrightarrow> \<not> is_digit (peek x) \<Longrightarrow> \<not> is_digit (peek (e @ x))"
  by (auto simp: exponent_part_def)

lemma fraction_peek: "fraction_part f \<Longrightarrow> \<not> is_digit (peek x) \<Longrightarrow> \<not> is_digit (peek (f @ x))"
  by (cases f) (auto simp: fraction_part_def)

lemma parse_number_accepts:
  assumes "json_number t" and "ends_number rest"
  shows "parse_number (t @ rest) = Inr (t, rest)"
proof -
  obtain s i f e where t: "t = s @ i @ f @ e" "sign_part s" "integer_part i" "fraction_part f" "exponent_part e"
    using assms(1) by (auto simp: json_number_def)
  have r: "\<not> is_digit (peek rest)" using assms(2) by (simp add: ends_number_def)
  have "number_sign (t @ rest) = Inr (i @ f @ e @ rest)"
    using number_sign_accepts[OF t(2) integer_peek[OF t(3)]] by (simp add: t(1))
  moreover have "number_integer (i @ f @ e @ rest) = Inr (f @ e @ rest)"
    using number_integer_accepts[OF t(3)] fraction_peek[OF t(4) exponent_peek[OF t(5) r]] by simp
  moreover have "f = [] \<longrightarrow> peek (e @ rest) \<noteq> CHR ''.''"
    using t(5) assms(2) by (auto simp: exponent_part_def ends_number_def)
  then have "number_fraction (f @ e @ rest) = Inr (e @ rest)"
    using number_fraction_accepts[OF t(4) exponent_peek[OF t(5) r]] by simp
  moreover have "number_exponent (e @ rest) = Inr rest"
    using number_exponent_accepts[OF t(5) r] assms(2) by (simp add: ends_number_def)
  ultimately show ?thesis by (simp add: parse_number_def)
qed

lemma run_split: "is_digit (peek x) \<Longrightarrow> \<exists>ds. x = ds @ dropWhile is_digit x \<and> digit_run ds"
  by (rule exI[of _ "takeWhile is_digit x"])
    (auto simp: digit_run_def list_all_iff peek_def takeWhile_eq_Nil_iff dest: set_takeWhileD split: list.splits)

lemma peek_Cons: "peek x = c \<Longrightarrow> c \<noteq> CHR 0x00 \<Longrightarrow> x = c # tl x"
  by (cases x) auto

lemma number_sign_Inr: "number_sign x = Inr y \<Longrightarrow> \<exists>s. x = s @ y \<and> sign_part s"
  using peek_Cons[of x "CHR ''-''"] by (auto simp: number_sign_def sign_part_def split: if_splits)

lemma number_integer_Inr:
  assumes "number_integer x = Inr y"
  shows "\<exists>i. x = i @ y \<and> integer_part i"
proof (cases "peek x = CHR ''0''")
  case True
  then have "x = ''0'' @ y" using assms peek_Cons[OF True] by (simp add: number_integer_def split: if_splits)
  then show ?thesis by (auto simp: integer_part_def)
next
  case False
  then have "is_digit (peek x)" "y = dropWhile is_digit x" using assms by (auto simp: number_integer_def split: if_splits)
  then obtain ds where d: "x = ds @ y" "digit_run ds" using run_split by blast
  then have "hd ds = peek x" by (cases ds) (auto simp: digit_run_def)
  then show ?thesis using d False by (auto simp: integer_part_def)
qed

lemma number_fraction_Inr:
  assumes "number_fraction x = Inr y"
  shows "\<exists>f. x = f @ y \<and> fraction_part f"
proof (cases "peek x = CHR ''.''")
  case True
  then have "is_digit (peek (tl x))" "y = dropWhile is_digit (tl x)" using assms by (auto simp: number_fraction_def split: if_splits)
  then obtain ds where "tl x = ds @ y" "digit_run ds" using run_split by blast
  with peek_Cons[OF True] show ?thesis by (intro exI[of _ "CHR ''.'' # ds"]) (simp add: fraction_part_def)
qed (use assms in \<open>auto simp: number_fraction_def fraction_part_def\<close>)

lemma exponent_sign: "\<exists>g. y = g @ (if peek y = CHR ''+'' \<or> peek y = CHR ''-'' then tl y else y) \<and> (g = [] \<or> g = ''+'' \<or> g = ''-'')"
  by (cases y) auto

lemma number_exponent_Inr:
  assumes "number_exponent x = Inr y"
  shows "\<exists>e. x = e @ y \<and> exponent_part e"
proof (cases "peek x = CHR ''e'' \<or> peek x = CHR ''E''")
  case True
  define u where "u = (if peek (tl x) = CHR ''+'' \<or> peek (tl x) = CHR ''-'' then tl (tl x) else tl x)"
  have x: "x = peek x # tl x" using True by (cases x) auto
  have "is_digit (peek u)" "y = dropWhile is_digit u"
    using assms True unfolding number_exponent_def Let_def u_def[symmetric] by (auto split: if_splits)
  then obtain ds where d: "u = ds @ y" "digit_run ds" using run_split by blast
  obtain g where g: "tl x = g @ u" "g = [] \<or> g = ''+'' \<or> g = ''-''" using exponent_sign[of "tl x"] unfolding u_def by blast
  have "x = (peek x # g @ ds) @ y" using x g(1) d(1) by simp
  moreover have "exponent_part (peek x # g @ ds)" using True g(2) d(2) unfolding exponent_part_def by blast
  ultimately show ?thesis by blast
qed (use assms in \<open>auto simp: number_exponent_def exponent_part_def\<close>)

lemma parse_number_sound:
  assumes "parse_number x = Inr (t, rest)"
  shows "x = t @ rest \<and> json_number t"
proof -
  obtain a b c where p: "number_sign x = Inr a" "number_integer a = Inr b" "number_fraction b = Inr c"
      "number_exponent c = Inr rest" "t = take (length x - length rest) x"
    using assms by (auto simp: parse_number_def try_bind_eq_Inr)
  obtain s i f e where "x = s @ i @ f @ e @ rest" "sign_part s" "integer_part i" "fraction_part f" "exponent_part e"
    using number_sign_Inr[OF p(1)] number_integer_Inr[OF p(2)] number_fraction_Inr[OF p(3)] number_exponent_Inr[OF p(4)] by blast
  then show ?thesis unfolding p(5) json_number_def by force
qed

lemma json_number_peek: "json_number t \<Longrightarrow> peek (t @ x) = CHR ''-'' \<or> is_digit (peek (t @ x))"
  using integer_peek by (force simp: json_number_def sign_part_def)

lemma json_number_nonempty: "json_number t \<Longrightarrow> t \<noteq> []"
  by (auto simp: json_number_def integer_part_def digit_run_def)

text \<open>The integers the writer prints are numbers and are read back.\<close>

lemma decimal_no_leading_zero: "n \<noteq> 0 \<Longrightarrow> hd (decimal n) \<noteq> CHR ''0''"
proof (induction n rule: decimal.induct)
  case (1 n)
  show ?case
  proof (cases "n < 10")
    case True
    have "char_of (48 + n) \<noteq> (CHR ''0'' :: char)"
    proof
      assume "char_of (48 + n) = CHR ''0''"
      then have "(of_char (char_of (48 + n)) :: nat) = of_char (CHR ''0'')" by simp
      then show False using True 1(2) by simp
    qed
    then show ?thesis using True by (subst decimal.simps) simp
  next
    case False
    then have "hd (decimal (n div 10)) \<noteq> CHR ''0''" using 1 by simp
    then show ?thesis using False decimal.simps[of n] by simp
  qed
qed

lemma decimal_integer_part: "integer_part (decimal n)"
proof (cases "n = 0")
  case True
  then show ?thesis by (subst True, subst decimal.simps) (simp add: integer_part_def char_of_def bit_0)
next
  case False
  then show ?thesis using decimal_no_leading_zero[OF False] decimal_digits[of n]
    by (auto simp: integer_part_def digit_run_def list_all_iff)
qed

lemma integer_json_number: "sign_part s \<Longrightarrow> json_number (s @ decimal n)"
  unfolding json_number_def
  by (intro exI[of _ s] exI[of _ "decimal n"] exI[of _ "[]"])
    (simp add: decimal_integer_part fraction_part_def exponent_part_def)

lemma decimal_json_number: "json_number (decimal n)" and decimal_signed_json_number: "json_number (decimal_signed i)"
  using integer_json_number[of "[]"] integer_json_number[of "''-''"] by (simp_all add: sign_part_def decimal_signed_def)

lemma decimal_free: "c \<in> set (decimal n) \<Longrightarrow> \<not> is_digit d \<Longrightarrow> c \<noteq> d"
  using decimal_digits[of n] by auto

lemma as_u64_make: "as_u64 (make_number_u64 v) = Inr v"
proof -
  have "\<not> (\<exists>c\<in>set (decimal (unat v)). c \<in> set ''.eE-+'')" using decimal_free[of _ "unat v"] by auto
  moreover have "from_chars_u64 (decimal (unat v)) = Some (unat v, [])"
    by (rule from_chars_decimal) (use unsigned_less[of v, where ?'a = nat] in simp)
  ultimately show ?thesis by (simp add: as_u64_def make_number_u64_def)
qed

lemma decimal_runs: "takeWhile is_digit (decimal n) = decimal n" "dropWhile is_digit (decimal n) = []"
  using decimal_digits by auto

lemma from_chars_signed:
  assumes "- (2 ^ 63) \<le> i" and "i < 2 ^ 63"
  shows "from_chars_i64 (decimal_signed i) = Some (i, [])"
proof (cases "i < 0")
  case True
  then show ?thesis using assms
    by (simp add: from_chars_i64_def decimal_signed_def decimal_runs digits_value_decimal Let_def)
next
  case False
  obtain c r where d: "decimal (nat i) = c # r" by (cases "decimal (nat i)") auto
  then have "c \<noteq> CHR ''-''" using decimal_free[of c "nat i" "CHR ''-''"] by simp
  then show ?thesis using assms False d decimal_runs[of "nat i"] digits_value_decimal[of "nat i"]
    by (simp add: from_chars_i64_def decimal_signed_def Let_def)
qed

lemma as_i64_make: "as_i64 (make_number_i64 v) = Inr v"
proof -
  have "\<not> (\<exists>c\<in>set (decimal_signed (sint v)). c \<in> set ''.eE'')" using decimal_free by (auto simp: decimal_signed_def)
  moreover have "from_chars_i64 (decimal_signed (sint v)) = Some (sint v, [])"
    by (rule from_chars_signed) (use sint_bounds[of v] in simp_all)
  ultimately show ?thesis by (simp add: as_i64_def make_number_i64_def)
qed

end
