(* ===== verification/JsonRoundTrip.thy ===== *)
theory JsonRoundTrip
  imports JsonText
begin

text \<open>
  Values as a whole: what the parser returns is well formed and within the configured bounds, and every
  well formed value that fits is read back from its printed form, compact or pretty.
\<close>

section \<open>Well formed values\<close>

fun json_depth :: "JsonValue \<Rightarrow> nat" where
  "json_depth (JArray vs) = foldr max (map (\<lambda>v. Suc (json_depth v)) vs) 0"
| "json_depth (JObject fs) = foldr max (map (\<lambda>p. Suc (json_depth (snd p))) fs) 0"
| "json_depth _ = 0"

fun node_count :: "JsonValue \<Rightarrow> nat" where
  "node_count (JArray vs) = Suc (sum_list (map node_count vs))"
| "node_count (JObject fs) = Suc (sum_list (map (\<lambda>p. node_count (snd p)) fs))"
| "node_count _ = 1"

definition json_text :: "Limits \<Rightarrow> string \<Rightarrow> bool" where
  "json_text limits t \<longleftrightarrow> is_valid_utf8 t \<and> length t \<le> unat (max_string_bytes limits)"

fun json_wf :: "Limits \<Rightarrow> JsonValue \<Rightarrow> bool" where
  "json_wf limits (JNumber t) \<longleftrightarrow> json_number t"
| "json_wf limits (JString t) \<longleftrightarrow> json_text limits t"
| "json_wf limits (JArray vs) \<longleftrightarrow> list_all (json_wf limits) vs"
| "json_wf limits (JObject fs) \<longleftrightarrow>
     distinct (map fst fs) \<and> list_all (\<lambda>p. json_text limits (fst p) \<and> json_wf limits (snd p)) fs"
| "json_wf limits _ \<longleftrightarrow> True"

text \<open>The value nests no deeper than the bound and has no more nodes than the bound.\<close>

definition json_fits :: "Limits \<Rightarrow> JsonValue \<Rightarrow> bool" where
  "json_fits limits v \<longleftrightarrow>
     json_wf limits v \<and> json_depth v \<le> unat (max_json_depth limits) \<and> node_count v \<le> unat (max_json_nodes limits)"

lemma foldr_max_le: "foldr max xs 0 \<le> k \<longleftrightarrow> (\<forall>x\<in>set xs. x \<le> k)" for k :: nat
  by (induction xs) auto

lemma json_depth_le:
  "json_depth (JArray vs) \<le> k \<longleftrightarrow> (\<forall>v\<in>set vs. Suc (json_depth v) \<le> k)"
  "json_depth (JObject fs) \<le> k \<longleftrightarrow> (\<forall>p\<in>set fs. Suc (json_depth (snd p)) \<le> k)"
  by (simp_all add: foldr_max_le)

declare json_depth.simps(1,2) [simp del]

section \<open>What the parser returns\<close>

lemma put_field_new: "map_of fs k = None \<Longrightarrow> put_field k v fs = fs @ [(k, v)]"
  by (induction fs) (auto split: if_splits)

lemma object_key_sound: "object_key limits t = Inr (k, u) \<Longrightarrow> json_text limits k"
  by (auto simp: object_key_def Let_def try_bind_eq_Inr json_text_def split: if_splits dest!: parse_string_sound)

text \<open>
  The invariant of both loops: what was read so far is well formed and within the depth bound, and the
  node counter has grown by the nodes read.
\<close>

definition parsed :: "Limits \<Rightarrow> nat \<Rightarrow> JsonValue \<Rightarrow> bool" where
  "parsed limits depth v \<longleftrightarrow> json_wf limits v \<and> json_depth v \<le> unat (max_json_depth limits) - depth \<and> depth \<le> unat (max_json_depth limits)"

lemma parsed_array:
  "parsed limits depth (JArray items) \<Longrightarrow> parsed limits (depth + 1) v \<Longrightarrow> parsed limits depth (JArray (items @ [v]))"
  by (auto simp: parsed_def json_depth_le)

lemma parsed_object:
  "parsed limits depth (JObject fs) \<Longrightarrow> parsed limits (depth + 1) v \<Longrightarrow> json_text limits k \<Longrightarrow> map_of fs k = None \<Longrightarrow>
   parsed limits depth (JObject (put_field k v fs))"
  by (auto simp: parsed_def json_depth_le put_field_new map_of_eq_None_iff)

lemma parsed_leaf:
  "depth \<le> unat (max_json_depth limits) \<Longrightarrow> parsed limits depth (JArray [])"
  "depth \<le> unat (max_json_depth limits) \<Longrightarrow> parsed limits depth (JObject [])"
  by (simp_all add: parsed_def json_depth_le)

lemma parse_value_sound:
  "\<forall>v rest n. parse_value limits depth t nodes = Inr (v, rest, n) \<longrightarrow>
     parsed limits depth v \<and> n = nodes + node_count v \<and> n \<le> unat (max_json_nodes limits)"
  "\<forall>v rest n. object_loop limits depth fs t nodes = Inr (v, rest, n) \<and> parsed limits depth (JObject fs) \<and>
       nodes \<le> unat (max_json_nodes limits) \<longrightarrow>
     parsed limits depth v \<and> n + node_count (JObject fs) = nodes + node_count v \<and> n \<le> unat (max_json_nodes limits)"
  "\<forall>v rest n. array_loop limits depth items t nodes = Inr (v, rest, n) \<and> parsed limits depth (JArray items) \<and>
       nodes \<le> unat (max_json_nodes limits) \<longrightarrow>
     parsed limits depth v \<and> n + node_count (JArray items) = nodes + node_count v \<and> n \<le> unat (max_json_nodes limits)"
proof (induction limits depth t nodes and limits depth fs t nodes and limits depth items t nodes
    rule: parse_value_object_loop_array_loop.induct)
  case (1 limits depth t nodes)
  show ?case
  proof (intro allI impI)
    fix v rest n
    assume p: "parse_value limits depth t nodes = Inr (v, rest, n)"
    have b: "depth \<le> unat (max_json_depth limits)" "nodes + 1 \<le> unat (max_json_nodes limits)"
      using p by (subst (asm) parse_value.simps, auto split: if_splits)+
    show "parsed limits depth v \<and> n = nodes + node_count v \<and> n \<le> unat (max_json_nodes limits)"
    proof (cases "peek t = CHR ''{'' \<or> peek t = CHR ''[''")
      case True
      let ?u = "skip_whitespace (tl t)"
      from True p b consider "v = JObject []" "n = nodes + 1" | "v = JArray []" "n = nodes + 1"
        | "peek t = CHR ''{''" "peek ?u \<noteq> CHR ''}''" "object_loop limits depth [] ?u (nodes + 1) = Inr (v, rest, n)"
        | "peek t = CHR ''[''" "peek ?u \<noteq> CHR '']''" "array_loop limits depth [] ?u (nodes + 1) = Inr (v, rest, n)"
        by (subst (asm) parse_value.simps) (auto simp: Let_def split: if_splits)
      then show ?thesis
      proof cases
        case 3
        then show ?thesis using 1(1)[OF _ _ 3(1) refl 3(2)] b parsed_leaf(2)[OF b(1)] by fastforce
      next
        case 4
        then have "peek t \<noteq> CHR ''{''" by simp
        then show ?thesis using 1(2)[OF _ _ _ 4(1) refl 4(2)] 4(3) b parsed_leaf(1)[OF b(1)] by fastforce
      qed (use b parsed_leaf in simp_all)
    next
      case False
      then show ?thesis using p b
        by (subst (asm) parse_value.simps)
          (auto simp: try_bind_eq_Inr parsed_def json_text_def split: if_splits dest!: parse_string_sound parse_number_sound)
    qed
  qed
next
  case (2 limits depth fs t nodes)
  show ?case
  proof (intro allI impI, elim conjE)
    fix v rest n
    assume p: "object_loop limits depth fs t nodes = Inr (v, rest, n)" and f: "parsed limits depth (JObject fs)"
      and n: "nodes \<le> unat (max_json_nodes limits)"
    from p obtain key u w u' m where k: "object_key limits t = Inr (key, u)"
        "parse_value limits (depth + 1) u nodes = Inr (w, u', m)" "map_of fs key = None"
      and e: "(peek (skip_whitespace u') = CHR '','' \<and>
          object_loop limits depth (put_field key w fs) (tl (skip_whitespace u')) m = Inr (v, rest, n)) \<or>
        (v = JObject (put_field key w fs) \<and> n = m)"
      by (subst (asm) object_loop.simps) (auto simp: Let_def split: sum.splits if_splits)
    have w: "parsed limits (depth + 1) w" "m = nodes + node_count w" "m \<le> unat (max_json_nodes limits)"
      using 2(1)[OF k(1) refl] k(2) by blast+
    note f' = parsed_object[OF f w(1) object_key_sound[OF k(1)] k(3)]
    have "node_count (JObject (put_field key w fs)) = node_count (JObject fs) + node_count w"
      using put_field_new[OF k(3)] by simp
    then show "parsed limits depth v \<and> n + node_count (JObject fs) = nodes + node_count v \<and> n \<le> unat (max_json_nodes limits)"
      using e 2(2)[OF k(1) refl k(2) refl refl _ refl] k(3) f' w by fastforce
  qed
next
  case (3 limits depth items t nodes)
  show ?case
  proof (intro allI impI, elim conjE)
    fix v rest n
    assume p: "array_loop limits depth items t nodes = Inr (v, rest, n)" and f: "parsed limits depth (JArray items)"
      and n: "nodes \<le> unat (max_json_nodes limits)"
    from p obtain w u m where k: "parse_value limits (depth + 1) (skip_whitespace t) nodes = Inr (w, u, m)"
      and e: "(peek (skip_whitespace u) = CHR '','' \<and>
          array_loop limits depth (items @ [w]) (tl (skip_whitespace u)) m = Inr (v, rest, n)) \<or>
        (v = JArray (items @ [w]) \<and> n = m)"
      by (subst (asm) array_loop.simps) (auto simp: Let_def split: sum.splits if_splits)
    have w: "parsed limits (depth + 1) w" "m = nodes + node_count w" "m \<le> unat (max_json_nodes limits)"
      using 3(1) k by blast+
    note f' = parsed_array[OF f w(1)]
    show "parsed limits depth v \<and> n + node_count (JArray items) = nodes + node_count v \<and> n \<le> unat (max_json_nodes limits)"
      using e 3(2)[OF k refl refl refl] f' w by fastforce
  qed
qed

section \<open>Printing and reading back\<close>

lemma skip_newline_indent: "skip_whitespace (newline_indent pretty n @ x) = skip_whitespace x"
  by (induction n) (auto simp: newline_indent_def skip_whitespace_def is_space_def)

lemma skip_nonspace: "\<not> is_space c \<Longrightarrow> skip_whitespace (c # x) = c # x"
  by (simp add: skip_whitespace_def)

lemma skip_skip [simp]: "skip_whitespace (skip_whitespace x) = skip_whitespace x"
  by (simp add: skip_whitespace_def)

lemma not_space [simp]:
  "\<not> is_space (CHR '','')" "\<not> is_space (CHR '']'')" "\<not> is_space (CHR ''}'')" "\<not> is_space (CHR '':'')" "\<not> is_space kQuote"
  "\<not> is_space (CHR ''['')" "\<not> is_space (CHR ''{'')" "\<not> is_space (CHR ''n'')" "\<not> is_space (CHR ''t'')" "\<not> is_space (CHR ''f'')"
  "\<not> is_space (CHR ''-'')" "is_space (CHR '' '')"
  by (simp_all add: is_space_def kQuote_def)

lemma digit_not_space: "is_digit c \<Longrightarrow> \<not> is_space c"
  by (auto simp: is_digit_def is_space_def)

lemma digit_not_bracket: "is_digit c \<Longrightarrow> c \<noteq> CHR '']'' \<and> c \<noteq> CHR ''}''"
  by (auto simp: is_digit_def)

text \<open>A printed value starts with a character that no white space or closing bracket has.\<close>

definition value_start :: "string \<Rightarrow> bool" where
  "value_start x \<longleftrightarrow> x \<noteq> [] \<and> \<not> is_space (peek x) \<and> peek x \<noteq> CHR '']'' \<and> peek x \<noteq> CHR ''}''"

lemma dump_start:
  assumes "json_wf limits v"
  shows "value_start (dump_into v pretty indent @ x)"
proof (cases v)
  case (JNumber t)
  then have n: "json_number t" using assms by simp
  then show ?thesis
    using json_number_peek[OF n, of x] json_number_nonempty[OF n] digit_not_space digit_not_bracket
    by (auto simp: JNumber value_start_def)
qed (auto simp: value_start_def escape_into_def kQuote_def is_space_def)

lemma value_start_skip: "value_start x \<Longrightarrow> skip_whitespace x = x"
  by (cases x) (auto simp: value_start_def skip_nonspace)

lemma array_loop_skip: "array_loop limits depth items (skip_whitespace t) nodes = array_loop limits depth items t nodes"
  by (subst (1 2) array_loop.simps) simp

lemma object_loop_skip: "object_loop limits depth fs (skip_whitespace t) nodes = object_loop limits depth fs t nodes"
  by (subst (1 2) object_loop.simps) (simp add: object_key_def)

lemma ends_number_simps:
  "ends_number (CHR '','' # x)" "ends_number (newline_indent pretty n @ CHR '']'' # x)"
  "ends_number (newline_indent pretty n @ CHR ''}'' # x)" "ends_number []"
  by (auto simp: ends_number_def newline_indent_def is_digit_def)

definition reads_back :: "Limits \<Rightarrow> bool \<Rightarrow> JsonValue \<Rightarrow> bool" where
  "reads_back limits pretty v \<longleftrightarrow>
     (\<forall>depth indent nodes rest. parsed limits depth v \<and> nodes + node_count v \<le> unat (max_json_nodes limits) \<and> ends_number rest \<longrightarrow>
       parse_value limits depth (dump_into v pretty indent @ rest) nodes = Inr (v, rest, nodes + node_count v))"

lemma reads_backD:
  assumes "reads_back limits pretty v" and "parsed limits depth v" and "nodes + node_count v \<le> unat (max_json_nodes limits)"
    and "ends_number rest"
  shows "parse_value limits depth (dump_into v pretty indent @ rest) nodes = Inr (v, rest, nodes + node_count v)"
  using assms unfolding reads_back_def by blast

lemma parsed_wf: "parsed limits depth v \<Longrightarrow> json_wf limits v"
  by (simp add: parsed_def)

lemma parsed_elements:
  "parsed limits depth (JArray vs) \<Longrightarrow> v \<in> set vs \<Longrightarrow> parsed limits (depth + 1) v"
  "parsed limits depth (JObject fs) \<Longrightarrow> p \<in> set fs \<Longrightarrow> parsed limits (depth + 1) (snd p) \<and> json_text limits (fst p)"
  by (fastforce simp: parsed_def json_depth_le list_all_iff)+

definition array_body :: "bool \<Rightarrow> nat \<Rightarrow> JsonValue list \<Rightarrow> string" where
  "array_body pretty indent vs = comma_join (map (\<lambda>v. newline_indent pretty (indent + 2) @ dump_into v pretty (indent + 2)) vs)"

lemma array_loop_reads:
  assumes "vs \<noteq> []" and "\<forall>v\<in>set vs. reads_back limits pretty v \<and> parsed limits (depth + 1) v"
    and "nodes + sum_list (map node_count vs) \<le> unat (max_json_nodes limits)"
  shows "array_loop limits depth items (array_body pretty indent vs @ newline_indent pretty indent @ CHR '']'' # rest) nodes =
    Inr (JArray (items @ vs), rest, nodes + sum_list (map node_count vs))"
  using assms
proof (induction vs arbitrary: items nodes rule: list_nonempty_induct)
  case (single v)
  let ?tail = "newline_indent pretty indent @ CHR '']'' # rest"
  have v: "reads_back limits pretty v" "parsed limits (depth + 1) v" using single by auto
  have "skip_whitespace (array_body pretty indent [v] @ ?tail) = dump_into v pretty (indent + 2) @ ?tail"
    using value_start_skip[OF dump_start[OF parsed_wf[OF v(2)]]] by (simp add: array_body_def skip_newline_indent)
  moreover have "parse_value limits (depth + 1) (dump_into v pretty (indent + 2) @ ?tail) nodes = Inr (v, ?tail, nodes + node_count v)"
    by (rule reads_backD[OF v]) (use single ends_number_simps(2) in auto)
  ultimately show ?case by (subst array_loop.simps) (simp add: skip_newline_indent skip_nonspace Let_def)
next
  case (cons v vs)
  let ?tail = "newline_indent pretty indent @ CHR '']'' # rest"
  let ?more = "CHR '','' # array_body pretty indent vs @ ?tail"
  have v: "reads_back limits pretty v" "parsed limits (depth + 1) v" using cons by auto
  have "array_body pretty indent (v # vs) @ ?tail = newline_indent pretty (indent + 2) @ dump_into v pretty (indent + 2) @ ?more"
    using cons(1) by (cases vs) (auto simp: array_body_def)
  then have "skip_whitespace (array_body pretty indent (v # vs) @ ?tail) = dump_into v pretty (indent + 2) @ ?more"
    using value_start_skip[OF dump_start[OF parsed_wf[OF v(2)]]] by (simp add: skip_newline_indent)
  moreover have "parse_value limits (depth + 1) (dump_into v pretty (indent + 2) @ ?more) nodes = Inr (v, ?more, nodes + node_count v)"
    by (rule reads_backD[OF v]) (use cons.prems ends_number_simps(1) in auto)
  moreover have "array_loop limits depth (items @ [v]) (array_body pretty indent vs @ ?tail) (nodes + node_count v) =
      Inr (JArray ((items @ [v]) @ vs), rest, (nodes + node_count v) + sum_list (map node_count vs))"
    by (rule cons.IH) (use cons.prems in auto)
  ultimately show ?case by (subst array_loop.simps) (simp add: skip_nonspace Let_def add.assoc)
qed

definition field_text :: "bool \<Rightarrow> nat \<Rightarrow> string \<times> JsonValue \<Rightarrow> string" where
  "field_text pretty indent p = escape_into (fst p) @ CHR '':'' # (if pretty then '' '' else []) @ dump_into (snd p) pretty indent"

definition object_body :: "bool \<Rightarrow> nat \<Rightarrow> (string \<times> JsonValue) list \<Rightarrow> string" where
  "object_body pretty indent fs = comma_join (map (\<lambda>p. newline_indent pretty (indent + 2) @ field_text pretty (indent + 2) p) fs)"

lemma object_key_reads:
  assumes "json_text limits (fst p)" and "json_wf limits (snd p)"
  shows "object_key limits (newline_indent pretty n @ field_text pretty n p @ x) = Inr (fst p, dump_into (snd p) pretty n @ x)"
proof -
  let ?v = "(if pretty then '' '' else []) @ dump_into (snd p) pretty n @ x"
  have "skip_whitespace (newline_indent pretty n @ field_text pretty n p @ x) = escape_into (fst p) @ CHR '':'' # ?v"
    unfolding skip_newline_indent field_text_def by (simp add: escape_into_def skip_nonspace)
  moreover have "parse_string limits (escape_into (fst p) @ CHR '':'' # ?v) = Inr (fst p, CHR '':'' # ?v)"
    using assms(1) by (intro parse_string_escaped) (simp_all add: json_text_def)
  moreover have "skip_whitespace ?v = dump_into (snd p) pretty n @ x"
    using value_start_skip[OF dump_start[OF assms(2)], of pretty n x] by (cases pretty) (simp_all add: skip_whitespace_def)
  moreover have "peek (escape_into (fst p) @ CHR '':'' # ?v) = kQuote" by (simp add: escape_into_def)
  ultimately show ?thesis by (simp add: object_key_def Let_def skip_nonspace)
qed

lemma object_loop_reads:
  assumes "fs \<noteq> []"
    and "\<forall>p\<in>set fs. reads_back limits pretty (snd p) \<and> parsed limits (depth + 1) (snd p) \<and> json_text limits (fst p)"
    and "distinct (map fst (done_fs @ fs))"
    and "nodes + sum_list (map (\<lambda>p. node_count (snd p)) fs) \<le> unat (max_json_nodes limits)"
  shows "object_loop limits depth done_fs (object_body pretty indent fs @ newline_indent pretty indent @ CHR ''}'' # rest) nodes =
    Inr (JObject (done_fs @ fs), rest, nodes + sum_list (map (\<lambda>p. node_count (snd p)) fs))"
  using assms
proof (induction fs arbitrary: done_fs nodes rule: list_nonempty_induct)
  case (single p)
  let ?tail = "newline_indent pretty indent @ CHR ''}'' # rest"
  have v: "reads_back limits pretty (snd p)" "parsed limits (depth + 1) (snd p)" "json_text limits (fst p)" using single by auto
  have "object_key limits (object_body pretty indent [p] @ ?tail) = Inr (fst p, dump_into (snd p) pretty (indent + 2) @ ?tail)"
    using object_key_reads[OF v(3) parsed_wf[OF v(2)]] by (simp add: object_body_def)
  moreover have "parse_value limits (depth + 1) (dump_into (snd p) pretty (indent + 2) @ ?tail) nodes =
      Inr (snd p, ?tail, nodes + node_count (snd p))"
    by (rule reads_backD[OF v(1,2)]) (use single ends_number_simps(3) in auto)
  moreover have "map_of done_fs (fst p) = None" using single.prems(2) by (simp add: map_of_eq_None_iff)
  ultimately show ?case
    by (subst object_loop.simps) (simp add: skip_newline_indent skip_nonspace Let_def put_field_new)
next
  case (cons p fs)
  let ?tail = "newline_indent pretty indent @ CHR ''}'' # rest"
  let ?more = "CHR '','' # object_body pretty indent fs @ ?tail"
  have v: "reads_back limits pretty (snd p)" "parsed limits (depth + 1) (snd p)" "json_text limits (fst p)" using cons by auto
  have "object_body pretty indent (p # fs) @ ?tail =
      newline_indent pretty (indent + 2) @ field_text pretty (indent + 2) p @ ?more"
    using cons(1) by (cases fs) (auto simp: object_body_def)
  then have "object_key limits (object_body pretty indent (p # fs) @ ?tail) =
      Inr (fst p, dump_into (snd p) pretty (indent + 2) @ ?more)"
    using object_key_reads[OF v(3) parsed_wf[OF v(2)]] by simp
  moreover have "parse_value limits (depth + 1) (dump_into (snd p) pretty (indent + 2) @ ?more) nodes =
      Inr (snd p, ?more, nodes + node_count (snd p))"
    by (rule reads_backD[OF v(1,2)]) (use cons.prems ends_number_simps(1) in auto)
  moreover have "map_of done_fs (fst p) = None" using cons.prems(2) by (auto simp: map_of_eq_None_iff)
  moreover have "object_loop limits depth (done_fs @ [p]) (object_body pretty indent fs @ ?tail) (nodes + node_count (snd p)) =
      Inr (JObject ((done_fs @ [p]) @ fs), rest, (nodes + node_count (snd p)) + sum_list (map (\<lambda>p. node_count (snd p)) fs))"
    by (rule cons.IH) (use cons.prems in auto)
  ultimately show ?case
    by (subst object_loop.simps) (simp add: skip_nonspace Let_def add.assoc put_field_new)
qed

lemma dump_array: "vs \<noteq> [] \<Longrightarrow> dump_into (JArray vs) pretty indent @ x =
    CHR ''['' # array_body pretty indent vs @ newline_indent pretty indent @ CHR '']'' # x"
  by (simp add: array_body_def o_def)

lemma dump_object: "fs \<noteq> [] \<Longrightarrow> dump_into (JObject fs) pretty indent @ x =
    CHR ''{'' # object_body pretty indent fs @ newline_indent pretty indent @ CHR ''}'' # x"
  by (simp add: object_body_def field_text_def o_def case_prod_unfold map_prod_def)

lemma comma_join_start: "\<exists>y. comma_join (t # ts) @ x = t @ y"
  by (cases ts) auto

lemma array_body_start:
  assumes "vs \<noteq> []" and "\<forall>v\<in>set vs. json_wf limits v"
  shows "peek (skip_whitespace (array_body pretty indent vs @ x)) \<noteq> CHR '']''"
proof -
  obtain v vs' where vs: "vs = v # vs'" using assms(1) by (cases vs) auto
  obtain y where "array_body pretty indent vs @ x = newline_indent pretty (indent + 2) @ dump_into v pretty (indent + 2) @ y"
    using comma_join_start unfolding array_body_def vs list.map by (metis append.assoc)
  moreover have "value_start (dump_into v pretty (indent + 2) @ y)" using assms(2) vs by (intro dump_start[of limits]) simp
  ultimately show ?thesis using value_start_skip by (simp add: skip_newline_indent value_start_def)
qed

lemma object_body_start:
  assumes "fs \<noteq> []"
  shows "peek (skip_whitespace (object_body pretty indent fs @ x)) = kQuote"
proof -
  obtain p fs' where fs: "fs = p # fs'" using assms by (cases fs) auto
  obtain y where "object_body pretty indent fs @ x = newline_indent pretty (indent + 2) @ field_text pretty (indent + 2) p @ y"
    using comma_join_start unfolding object_body_def fs list.map by (metis append.assoc)
  then show ?thesis by (simp add: skip_newline_indent field_text_def escape_into_def skip_nonspace)
qed

lemma parse_array:
  assumes "vs \<noteq> []" and "\<forall>v\<in>set vs. reads_back limits pretty v" and "parsed limits depth (JArray vs)"
    and "nodes + node_count (JArray vs) \<le> unat (max_json_nodes limits)"
  shows "parse_value limits depth (dump_into (JArray vs) pretty indent @ rest) nodes = Inr (JArray vs, rest, nodes + node_count (JArray vs))"
proof -
  let ?body = "array_body pretty indent vs @ newline_indent pretty indent @ CHR '']'' # rest"
  have l: "array_loop limits depth [] (skip_whitespace ?body) (nodes + 1) = Inr (JArray vs, rest, nodes + node_count (JArray vs))"
    using array_loop_reads[of vs limits pretty depth "nodes + 1" "[]" indent rest] assms parsed_elements(1)[OF assms(3)]
    by (simp add: array_loop_skip)
  have "\<forall>v\<in>set vs. json_wf limits v" using parsed_elements(1)[OF assms(3)] parsed_wf by blast
  then have "peek (skip_whitespace ?body) \<noteq> CHR '']''" using array_body_start[OF assms(1)] by blast
  then show ?thesis
    unfolding dump_array[OF assms(1)] using l assms(3,4) by (subst parse_value.simps) (simp add: parsed_def Let_def)
qed

lemma parse_object:
  assumes "fs \<noteq> []" and "\<forall>p\<in>set fs. reads_back limits pretty (snd p)" and "parsed limits depth (JObject fs)"
    and "nodes + node_count (JObject fs) \<le> unat (max_json_nodes limits)"
  shows "parse_value limits depth (dump_into (JObject fs) pretty indent @ rest) nodes =
    Inr (JObject fs, rest, nodes + node_count (JObject fs))"
proof -
  let ?body = "object_body pretty indent fs @ newline_indent pretty indent @ CHR ''}'' # rest"
  have "distinct (map fst fs)" using assms(3) by (simp add: parsed_def)
  then have l: "object_loop limits depth [] (skip_whitespace ?body) (nodes + 1) = Inr (JObject fs, rest, nodes + node_count (JObject fs))"
    using object_loop_reads[of fs limits pretty depth "[]" "nodes + 1" indent rest] assms parsed_elements(2)[OF assms(3)]
    by (simp add: object_loop_skip)
  have "peek (skip_whitespace ?body) \<noteq> CHR ''}''" using object_body_start[OF assms(1)] by (simp add: kQuote_def)
  then show ?thesis
    unfolding dump_object[OF assms(1)] using l assms(3,4) by (subst parse_value.simps) (simp add: parsed_def Let_def)
qed

lemma parse_leaf:
  assumes "parsed limits depth v" and "nodes + 1 \<le> unat (max_json_nodes limits)" and "ends_number rest"
    and "v \<in> {JNull, JBoolean True, JBoolean False, JArray [], JObject []} \<or> (\<exists>t. v = JNumber t \<or> v = JString t)"
  shows "parse_value limits depth (dump_into v pretty indent @ rest) nodes = Inr (v, rest, nodes + 1)"
proof -
  have d: "depth \<le> unat (max_json_depth limits)" using assms(1) by (simp add: parsed_def)
  consider "v \<in> {JNull, JBoolean True, JBoolean False, JArray [], JObject []}" | t where "v = JNumber t" | t where "v = JString t"
    using assms(4) by blast
  then show ?thesis
  proof cases
    case 1
    note step = parse_value.simps[of limits depth "c # x" nodes for c x]
    have k: "kQuote \<noteq> CHR ''n''" "kQuote \<noteq> CHR ''t''" "kQuote \<noteq> CHR ''f''" by (simp_all add: kQuote_def)
    have "parse_value limits depth (''null'' @ rest) nodes = Inr (JNull, rest, nodes + 1)"
      "parse_value limits depth (''true'' @ rest) nodes = Inr (JBoolean True, rest, nodes + 1)"
      "parse_value limits depth (''false'' @ rest) nodes = Inr (JBoolean False, rest, nodes + 1)"
      "parse_value limits depth (''[]'' @ rest) nodes = Inr (JArray [], rest, nodes + 1)"
      "parse_value limits depth (''{}'' @ rest) nodes = Inr (JObject [], rest, nodes + 1)"
      using d assms(2) k by (simp_all add: step consume_literal_def skip_nonspace)
    with 1 show ?thesis by (elim insertE) (simp_all del: append.simps)
  next
    case 2
    then have n: "json_number t" using assms(1) by (simp add: parsed_def)
    have "peek (t @ rest) \<notin> {CHR ''{'', CHR ''['', kQuote, CHR ''t'', CHR ''f'', CHR ''n''}"
      using json_number_peek[OF n, of rest] by (auto simp: is_digit_def kQuote_def)
    then show ?thesis
      using d assms(2) parse_number_accepts[OF n assms(3)] json_number_peek[OF n, of rest] json_number_nonempty[OF n]
      by (subst parse_value.simps) (simp add: 2)
  next
    case 3
    then have "parse_string limits (escape_into t @ rest) = Inr (t, rest)"
      using assms(1) by (intro parse_string_escaped) (simp_all add: parsed_def json_text_def)
    moreover have "peek (escape_into t @ rest) = kQuote" by (simp add: escape_into_def)
    ultimately show ?thesis using d assms(2) by (subst parse_value.simps) (simp add: 3 kQuote_def)
  qed
qed

lemma all_read_back: "reads_back limits pretty v"
proof (induction v)
  case (JArray vs)
  show ?case
  proof (cases "vs = []")
    case True
    then show ?thesis using parse_leaf unfolding reads_back_def by fastforce
  next
    case False
    then show ?thesis using parse_array JArray unfolding reads_back_def[of _ _ "JArray vs"] by blast
  qed
next
  case (JObject fs)
  have i: "\<forall>p\<in>set fs. reads_back limits pretty (snd p)" using JObject by (auto simp: snds.simps)
  show ?case
  proof (cases "fs = []")
    case True
    then show ?thesis using parse_leaf unfolding reads_back_def by fastforce
  next
    case False
    then show ?thesis using parse_object i unfolding reads_back_def[of _ _ "JObject fs"] by blast
  qed
next
  case (JBoolean b)
  then show ?case using parse_leaf by (cases b) (fastforce simp: reads_back_def)+
qed (use parse_leaf in \<open>fastforce simp: reads_back_def\<close>)+

lemma json_fits_parsed: "json_fits limits v \<longleftrightarrow> parsed limits 0 v \<and> node_count v \<le> unat (max_json_nodes limits)"
  by (auto simp: json_fits_def parsed_def)

lemma json_parse_dump:
  assumes "json_fits limits v" and "length (json_dump pretty v) \<le> unat (max_document_bytes limits)"
  shows "json_parse limits (json_dump pretty v) = Inr v"
proof -
  have w: "parsed limits 0 v" "node_count v \<le> unat (max_json_nodes limits)" using assms(1) by (simp_all add: json_fits_parsed)
  have "skip_whitespace (dump_into v pretty 0) = dump_into v pretty 0"
    using value_start_skip[OF dump_start[OF parsed_wf[OF w(1)], of pretty 0 "[]"]] by simp
  moreover have "parse_value limits 0 (dump_into v pretty 0) 0 = Inr (v, [], node_count v)"
    using reads_backD[OF all_read_back w(1), of 0 "[]"] w(2) ends_number_simps(4) by simp
  ultimately show ?thesis using assms(2) by (simp add: json_parse_def json_dump_def skip_whitespace_def)
qed

text \<open>
  C29: Every well formed value within the configured bounds is read back from its printed form, compact
  or pretty, exactly as it was: same digits, same order of fields, same bytes in every string.
\<close>

theorem json_roundtrip:
  assumes "json_fits limits v" and "length (json_dump pretty v) \<le> unat (max_document_bytes limits)"
  shows "json_parse limits (json_dump pretty v) = Inr v"
  using assms by (rule json_parse_dump)

definition example_json :: JsonValue where
  "example_json = JObject [(''name'', JString ''a b''), (''hops'', JArray [make_number_u64 7, JBoolean True, JArray []]), (''at'', JNull)]"

lemma example_json_fits: "json_fits default_limits example_json"
  using decimal_json_number
  by (simp add: json_fits_def example_json_def default_limits_def json_text_def make_number_u64_def is_valid_utf8.simps(2)
      json_depth.simps)

lemma decimal_7: "decimal 7 = ''7''"
  by (subst decimal.simps) (simp add: char_of_def bit_0)

lemma example_json_dump:
  "json_dump False example_json = [CHR ''{''] @ [kQuote] @ ''name'' @ [kQuote] @ '':'' @ [kQuote] @ ''a b'' @ [kQuote] @ '','' @
     [kQuote] @ ''hops'' @ [kQuote] @ '':[7,true,[]],'' @ [kQuote] @ ''at'' @ [kQuote] @ '':null}''"
  by (simp add: json_dump_def example_json_def make_number_u64_def decimal_7 escape_into_def escape_char_def
      newline_indent_def kQuote_def kEscape_def)

theorem json_roundtrip_witness:
  "json_fits default_limits example_json \<and> json_parse default_limits (json_dump False example_json) = Inr example_json"
proof -
  have "length (json_dump False example_json) \<le> unat (max_document_bytes default_limits)"
    unfolding example_json_dump by (simp add: default_limits_def)
  from json_roundtrip[OF example_json_fits this] example_json_fits show ?thesis by blast
qed

text \<open>
  C30: Whatever the document, a value the parser returns is well formed and within the bounds: its strings
  and keys are valid UTF-8 of bounded length, its numbers follow the number grammar, no object has two
  fields of one name, and nesting and node count stay within the configured limits.
\<close>

theorem json_parse_sound:
  assumes "json_parse limits text = Inr v"
  shows "json_fits limits v \<and> length text \<le> unat (max_document_bytes limits)"
proof -
  obtain rest n where "parse_value limits 0 (skip_whitespace text) 0 = Inr (v, rest, n)"
    and l: "length text \<le> unat (max_document_bytes limits)"
    using assms by (auto simp: json_parse_def try_bind_eq_Inr split: if_splits)
  with parse_value_sound(1)[of limits 0 "skip_whitespace text" 0] show ?thesis by (auto simp: json_fits_parsed)
qed

theorem json_parse_sound_witness:
  "json_parse default_limits ''[ null , true ]'' = Inr (JArray [JNull, JBoolean True]) \<and>
   json_fits default_limits (JArray [JNull, JBoolean True])"
proof -
  have s: "skip_whitespace ''[ null , true ]'' = ''[ null , true ]''" by (simp add: skip_whitespace_def is_space_def)
  have "json_parse default_limits ''[ null , true ]'' = Inr (JArray [JNull, JBoolean True])"
    by (simp add: json_parse_def s parse_value.simps array_loop.simps skip_whitespace_def is_space_def kQuote_def
        consume_literal_def default_limits_def)
  with json_parse_sound[OF this] show ?thesis by blast
qed

end
