(* ===== verification/TimeText.thy ===== *)
theory TimeText
  imports TimeModel
begin

text \<open>
  Timestamps as text: every date the calendar produces is one the reader accepts, zero padded fields
  are read back, and so is the whole RFC 3339 form of every instant that is set.
\<close>

section \<open>Dates\<close>

text \<open>Day 366 of a year that starts in March is the 29th of February of a leap year.\<close>

lemma year_of_century_leap:
  fixes r b :: int
  assumes "0 \<le> b" "b \<le> 3" "0 \<le> r" "r < 36524"
  defines "k \<equiv> (24 * b + r) div 1460"
  defines "t \<equiv> (r - k) div 365"
  assumes "r - 365 * t - t div 4 = 365"
  shows "t mod 4 = 3" "t < 99"
proof -
  define q s where "q = t div 4" and "s = t mod 4"
  have k: "1460 * k \<le> 24 * b + r" unfolding k_def by linarith
  have t: "r - k < 365 * t + 365" unfolding t_def by linarith
  have ts: "t = 4 * q + s" "0 \<le> s" "s \<le> 3" unfolding q_def s_def by presburger+
  have r: "r = 365 * t + 365 + q" using assms(7) q_def by simp
  note tb = year_of_century[OF assms(1-4), folded k_def, folded t_def]
  have "q < k" using r t by linarith
  moreover have "q \<le> 24" "0 \<le> q" using tb(1,2) q_def by linarith+
  ultimately show "t mod 4 = 3" using k r ts assms(2) s_def by linarith
  show "t < 99"
  proof (rule ccontr)
    assume "\<not> t < 99"
    then have "t = 99" using tb(2) by simp
    then show False using r assms(4) q_def by simp
  qed
qed

lemma leap_day:
  assumes "0 \<le> doe" and "doe < 146097"
    and "doe - (365 * year_of_era doe + year_of_era doe div 4 - year_of_era doe div 100) = 365"
  shows "(year_of_era doe + 1) mod 4 = 0 \<and> ((year_of_era doe + 1) mod 100 \<noteq> 0 \<or> (year_of_era doe + 1) mod 400 = 0)"
proof (cases "doe = 146096")
  case True
  then show ?thesis by (simp add: year_of_era_def)
next
  case False
  define b r where "b = doe div 36524" and "r = doe mod 36524"
  have doe: "doe = 36524 * b + r" and r: "0 \<le> r" "r < 36524" unfolding b_def r_def by auto
  have b: "0 \<le> b" "b \<le> 3" using assms False doe r by linarith+
  define k t where "k = (24 * b + r) div 1460" and "t = (r - k) div 365"
  have a: "doe div 1460 = 25 * b + k"
    unfolding k_def doe using div_mult_self1[of 1460 "24 * b + r" "25 * b"] by (simp add: algebra_simps)
  have c: "doe div 146096 = 0" using assms False by auto
  have "year_of_era doe = (r - k + 365 * (100 * b)) div 365"
    unfolding year_of_era_def a c b_def[symmetric] by (simp add: doe algebra_simps)
  then have y: "year_of_era doe = 100 * b + t"
    unfolding t_def using div_mult_self2[of 365 "r - k" "100 * b"] by simp
  note tb = year_of_century[OF b r, folded k_def, folded t_def]
  have cycle: "(100 * b + t) div 4 = 25 * b + t div 4" "(100 * b + t) div 100 = b"
    using tb(1,2) by linarith+
  have "r - 365 * t - t div 4 = 365" using assms(3) unfolding y cycle by (simp add: doe)
  from year_of_century_leap[OF b r this[unfolded t_def k_def], folded k_def, folded t_def]
  have t: "t mod 4 = 3" "t < 99" by blast+
  have "(100 * b + t + 1) mod 4 = (t + 1) mod 4" using mod_mult_self2[of "t + 1" 4 "25 * b"] by (simp add: algebra_simps)
  moreover have "(t + 1) mod 4 = 0" using t(1) by presburger
  moreover have "(100 * b + t + 1) mod 100 = (t + 1) mod 100" using mod_mult_self2[of "t + 1" 100 b] by (simp add: algebra_simps)
  moreover have "(t + 1) mod 100 = t + 1" using t(2) tb(1) by (intro mod_pos_pos_trivial) auto
  ultimately show ?thesis unfolding y using tb(1) by simp
qed

lemma leap_year_eq: "is_leap_year y \<longleftrightarrow> (y mod 4 = 0 \<and> y mod 100 \<noteq> 0) \<or> y mod 400 = 0" if "0 \<le> y"
  using that by (simp add: is_leap_year_def tmod_nonneg)

text \<open>Every date the calendar answers is a date the reader accepts.\<close>

lemma civil_valid:
  assumes "civil_from_days z = (year, month, day)" and "0 \<le> z + 719468"
  shows "1 \<le> month \<and> month \<le> 12 \<and> 1 \<le> day \<and> day \<le> days_in_month year month"
proof -
  define era doe where "era = (z + 719468) div 146097" and "doe = (z + 719468) mod 146097"
  define yoe where "yoe = year_of_era doe"
  define doy where "doy = doe - (365 * yoe + yoe div 4 - yoe div 100)"
  define mp where "mp = (5 * doy + 2) div 153"
  define m where "m = mp + (if mp < 10 then 3 else - 9)"
  note c = civil_from_days_eq[of z, folded era_def doe_def, folded yoe_def, folded doy_def, folded mp_def, folded m_def]
  have e: "0 \<le> era" unfolding era_def using assms(2) by simp
  have ymd: "year = yoe + era * 400 + (if m \<le> 2 then 1 else 0)" "month = m" "day = doy - (153 * mp + 2) div 5 + 1"
    using assms(1) unfolding c(1) by (metis Pair_inject)+
  have "1 \<le> month" "month \<le> 12" using c(6,7) unfolding ymd(2) m_def by auto
  moreover have d: "153 * mp \<le> 5 * doy + 2" "5 * doy + 2 < 153 * mp + 153" unfolding mp_def by linarith+
  then have "1 \<le> day" unfolding ymd(3) by linarith
  moreover have "day \<le> days_in_month year month"
  proof (cases "mp = 11")
    case True
    then have m: "month = 2" unfolding ymd(2) m_def by simp
    have day: "day = doy - 336" unfolding ymd(3) True by simp
    show ?thesis
    proof (cases "doy = 365")
      case True
      have "0 \<le> doe" "doe < 146097" unfolding doe_def by auto
      from leap_day[OF this] True have l: "(yoe + 1) mod 4 = 0 \<and> ((yoe + 1) mod 100 \<noteq> 0 \<or> (yoe + 1) mod 400 = 0)"
        unfolding yoe_def doy_def by simp
      have y: "year = (yoe + 1) + 400 * era" unfolding ymd(1) using m ymd(2) by simp
      have "year mod 4 = (yoe + 1) mod 4" "year mod 100 = (yoe + 1) mod 100" "year mod 400 = (yoe + 1) mod 400"
        unfolding y using mod_mult_self2[of "yoe + 1" 4 "100 * era"] mod_mult_self2[of "yoe + 1" 100 "4 * era"]
          mod_mult_self2[of "yoe + 1" 400 era] by (simp_all add: algebra_simps)
      then have "is_leap_year year" using l e c(2) y by (subst leap_year_eq) auto
      then show ?thesis using True day m by (simp add: days_in_month_def)
    next
      case False
      then show ?thesis using c(5) day m by (simp add: days_in_month_def)
    qed
  next
    case False
    then have "mp \<in> {0, 1, 2, 3, 4, 5, 6, 7, 8, 9, 10}" using c(6,7) by simp presburger
    then show ?thesis using d unfolding ymd(2,3) m_def days_in_month_def
      by (elim insertE) (simp_all add: nth_Cons')
  qed
  ultimately show ?thesis by blast
qed

section \<open>Padded numbers\<close>

lemma parse_digits_value:
  "\<forall>c\<in>set cs. is_digit c \<Longrightarrow> parse_digits acc cs = Some (acc * 10 ^ length cs + int (digits_value cs))"
proof (induction cs rule: rev_induct)
  case (snoc c cs)
  have app: "parse_digits a (xs @ [c]) = (case parse_digits a xs of None \<Rightarrow> None | Some v \<Rightarrow> parse_digits v [c])" for a xs
    by (induction xs arbitrary: a) auto
  from snoc show ?case by (simp add: app digits_value_snoc algebra_simps)
qed (simp add: digits_value_def)

lemma length_decimal: "n < 10 ^ w \<Longrightarrow> 0 < w \<Longrightarrow> length (decimal n) \<le> w"
proof (induction n arbitrary: w rule: decimal.induct)
  case (1 n)
  show ?case
  proof (cases "n < 10")
    case True
    then show ?thesis using 1(3) by (subst decimal.simps) simp
  next
    case False
    then obtain v where w: "w = Suc v" "0 < v" using 1(2,3) by (cases w; cases "w - 1") auto
    have "n div 10 < 10 ^ v" using 1(2) w(1) by (simp add: less_mult_imp_div_less mult.commute)
    then show ?thesis using 1(1)[OF False _ w(2)] False w(1) by (subst decimal.simps) simp
  qed
qed

lemma digits_value_zeros: "digits_value (replicate k CHR ''0'' @ cs) = digits_value cs"
  by (induction k) (simp_all add: digits_value_def digit_value_def)

lemma zero_pad_facts:
  assumes "0 \<le> v" and "v < 10 ^ w" and "0 < w"
  shows "length (zero_pad w v) = w" "\<forall>c\<in>set (zero_pad w v). is_digit c" "int (digits_value (zero_pad w v)) = v"
proof -
  have "nat v < 10 ^ w" using assms(1,2) by (simp add: nat_less_iff)
  from length_decimal[OF this assms(3)] show "length (zero_pad w v) = w" by (simp add: zero_pad_def)
  show "\<forall>c\<in>set (zero_pad w v). is_digit c" using decimal_digits[of "nat v"] by (auto simp: zero_pad_def is_digit_def)
  show "int (digits_value (zero_pad w v)) = v"
    using assms(1) by (simp add: zero_pad_def digits_value_zeros digits_value_decimal)
qed

lemma parse_zero_pad: "0 \<le> v \<Longrightarrow> v < 10 ^ w \<Longrightarrow> 0 < w \<Longrightarrow> parse_digits 0 (zero_pad w v) = Some v"
  using parse_digits_value[of "zero_pad w v" 0] zero_pad_facts[of v w] by simp

lemma zero_pad_two: "0 \<le> v \<Longrightarrow> v < 100 \<Longrightarrow> \<exists>a b. zero_pad 2 v = [a, b]"
  using zero_pad_facts(1)[of v 2] by (auto simp: numeral_2_eq_2 length_Suc_conv)

lemma zero_pad_four: "0 \<le> v \<Longrightarrow> v < 10000 \<Longrightarrow> \<exists>a b c d. zero_pad 4 v = [a, b, c, d]"
  using zero_pad_facts(1)[of v 4] by (auto simp: numeral_eq_Suc length_Suc_conv)

section \<open>Fractions\<close>

lemma fraction_loop_digits:
  "\<forall>c\<in>set ds. is_digit c \<Longrightarrow> k + length ds \<le> 9 \<Longrightarrow> \<not> is_digit z \<Longrightarrow>
   fraction_loop k acc (ds @ z # rest) = (k + length ds, acc * 10 ^ length ds + int (digits_value ds), z # rest)"
proof (induction ds arbitrary: k acc)
  case (Cons d ds)
  have v: "digits_value (d # ds) = digit_value d * 10 ^ length ds + digits_value ds" for d ds
  proof -
    have "foldl (\<lambda>acc c. 10 * acc + digit_value c) a ds = a * 10 ^ length ds + foldl (\<lambda>acc c. 10 * acc + digit_value c) 0 ds" for a ds
      by (induction ds rule: rev_induct) (simp_all add: algebra_simps)
    from this[of "digit_value d" ds] show ?thesis by (simp add: digits_value_def)
  qed
  from Cons show ?case by (simp add: v algebra_simps)
qed (simp add: digits_value_def)

lemma trim_zeros_split:
  assumes "\<forall>c\<in>set cs. is_digit c" and "digits_value cs \<noteq> 0"
  shows "trim_zeros cs \<noteq> [] \<and> cs = trim_zeros cs @ replicate (length cs - length (trim_zeros cs)) CHR ''0''"
proof -
  let ?ds = "rev (dropWhile (\<lambda>c. c = CHR ''0'') (rev cs))"
  have "rev cs = takeWhile (\<lambda>c. c = CHR ''0'') (rev cs) @ dropWhile (\<lambda>c. c = CHR ''0'') (rev cs)" by simp
  then have cs: "cs = ?ds @ rev (takeWhile (\<lambda>c. c = CHR ''0'') (rev cs))" by (metis rev_append rev_rev_ident)
  have z: "takeWhile (\<lambda>c. c = CHR ''0'') xs = replicate (length (takeWhile (\<lambda>c. c = CHR ''0'') xs)) CHR ''0''" for xs
    by (induction xs) auto
  let ?k = "length (takeWhile (\<lambda>c. c = CHR ''0'') (rev cs))"
  have c: "cs = ?ds @ replicate ?k CHR ''0''" using cs z[of "rev cs"] by (metis rev_replicate)
  have "?ds \<noteq> []"
  proof
    assume "?ds = []"
    then have "cs = replicate ?k CHR ''0''" using c by (metis append_Nil)
    then have "digits_value cs = 0" using digits_value_zeros[of ?k "[]"] by (simp add: digits_value_def)
    then show False using assms(2) by simp
  qed
  then have t: "trim_zeros cs = ?ds" unfolding trim_zeros_def by (cases ?ds) (simp_all only: list.case not_True_eq_False simp_thms)
  have "length cs = length ?ds + ?k" using c by (metis length_append length_replicate)
  then show ?thesis using t c \<open>?ds \<noteq> []\<close> by simp
qed

lemma digits_value_tail_zeros: "digits_value (ds @ replicate k CHR ''0'') = digits_value ds * 10 ^ k"
proof (induction k)
  case (Suc k)
  have "digits_value (ds @ replicate (Suc k) CHR ''0'') = 10 * digits_value (ds @ replicate k CHR ''0'')"
    using digits_value_snoc[of "ds @ replicate k CHR ''0''" "CHR ''0''"]
    by (simp add: digit_value_def replicate_append_same[symmetric])
  then show ?case using Suc by simp
qed simp

lemma parse_fraction_printed:
  assumes "0 < f" and "f < 1000000000"
  shows "parse_fraction (''.'' @ trim_zeros (zero_pad 9 f) @ ''Z'') = Inr (f, ''Z'')"
proof -
  let ?p = "zero_pad 9 f" let ?ds = "trim_zeros ?p" let ?k = "9 - length ?ds"
  have p: "length ?p = 9" "\<forall>c\<in>set ?p. is_digit c" "int (digits_value ?p) = f" using zero_pad_facts[of f 9] assms by auto
  have s: "?ds \<noteq> []" "?p = ?ds @ replicate ?k CHR ''0''" using trim_zeros_split[OF p(2)] p(1,3) assms(1) by auto
  have l: "length ?ds \<le> 9" using s(2) p(1) by (metis le_add1 length_append)
  have d: "\<forall>c\<in>set ?ds. is_digit c" using p(2) s(2) by (metis UnCI set_append)
  have "\<not> is_digit (CHR ''Z'')" by (simp add: is_digit_def)
  from fraction_loop_digits[OF d _ this, of 0 0 "[]"] l
  have "fraction_loop 0 0 (?ds @ ''Z'') = (length ?ds, int (digits_value ?ds), ''Z'')" by simp
  moreover have "int (digits_value ?ds) * 10 ^ ?k = f"
    using digits_value_tail_zeros[of ?ds ?k] s(2) p(3) by (metis of_nat_mult of_nat_numeral of_nat_power)
  ultimately show ?thesis using s(1) by (simp add: parse_fraction_def)
qed

section \<open>Instants\<close>

lemma parse_printed_fields:
  assumes "0 \<le> year" "year < 10000" "0 \<le> month" "month < 100" "0 \<le> day" "day < 100" "0 \<le> hour" "hour < 100"
    "0 \<le> minute" "minute < 100" "0 \<le> second" "second < 100"
  defines "t \<equiv> zero_pad 4 year @ ''-'' @ zero_pad 2 month @ ''-'' @ zero_pad 2 day @ ''T'' @ zero_pad 2 hour @ '':'' @
      zero_pad 2 minute @ '':'' @ zero_pad 2 second"
  shows "parse_fields (t @ rest) = Some (year, month, day, hour, minute, second)" "length t = 19"
proof -
  obtain y1 y2 y3 y4 where y: "zero_pad 4 year = [y1, y2, y3, y4]" using zero_pad_four assms by blast
  obtain m1 m2 where m: "zero_pad 2 month = [m1, m2]" using zero_pad_two assms by blast
  obtain d1 d2 where d: "zero_pad 2 day = [d1, d2]" using zero_pad_two assms by blast
  obtain h1 h2 where h: "zero_pad 2 hour = [h1, h2]" using zero_pad_two assms by blast
  obtain n1 n2 where n: "zero_pad 2 minute = [n1, n2]" using zero_pad_two assms by blast
  obtain s1 s2 where s: "zero_pad 2 second = [s1, s2]" using zero_pad_two assms by blast
  have "parse_digits 0 [y1, y2, y3, y4] = Some year" "parse_digits 0 [m1, m2] = Some month" "parse_digits 0 [d1, d2] = Some day"
    "parse_digits 0 [h1, h2] = Some hour" "parse_digits 0 [n1, n2] = Some minute" "parse_digits 0 [s1, s2] = Some second"
    using parse_zero_pad[of year 4] parse_zero_pad[of month 2] parse_zero_pad[of day 2] parse_zero_pad[of hour 2]
      parse_zero_pad[of minute 2] parse_zero_pad[of second 2] assms y m d h n s by simp_all
  then show "parse_fields (t @ rest) = Some (year, month, day, hour, minute, second)"
    unfolding t_def y m d h n s by (simp add: parse_fields_def parse_fixed_int_def del: parse_digits.simps)
  show "length t = 19" unfolding t_def y m d h n s by simp
qed

lemma civil_year:
  assumes "civil_from_days z = (year, month, day)" and "- 106752 \<le> z" and "z \<le> 106752"
  shows "0 \<le> year" "year < 10000"
proof -
  define era doe where "era = (z + 719468) div 146097" and "doe = (z + 719468) mod 146097"
  note c = civil_from_days_eq[of z, folded era_def doe_def]
  have "4 \<le> era" "era \<le> 5" unfolding era_def using assms(2,3) by linarith+
  then show "0 \<le> year" "year < 10000" using assms(1) c(2,3) unfolding c(1) by (auto split: if_splits)
qed

lemma days_in_month_le: "1 \<le> month \<Longrightarrow> month \<le> 12 \<Longrightarrow> days_in_month year month \<le> 31"
proof -
  assume "1 \<le> month" "month \<le> 12"
  then have "month \<in> {1, 2, 3, 4, 5, 6, 7, 8, 9, 10, 11, 12}" by simp presburger
  then show ?thesis by (elim insertE) (simp_all add: days_in_month_def nth_Cons')
qed

lemma instant_parts:
  fixes n :: int
  defines "seconds \<equiv> n div 1000000000" and "remainder \<equiv> n div 1000000000 mod 86400"
  shows "(seconds div 86400 * 86400 + remainder div 3600 * 3600 + remainder mod 3600 div 60 * 60 + remainder mod 60) * 1000000000
    + n mod 1000000000 = n"
proof -
  have "remainder mod 60 = remainder mod 3600 mod 60" by (rule mod_mod_cancel[symmetric]) simp
  then have "remainder div 3600 * 3600 + remainder mod 3600 div 60 * 60 + remainder mod 60 = remainder"
    by (metis add.assoc div_mult_mod_eq)
  moreover have "seconds div 86400 * 86400 + remainder = seconds" unfolding remainder_def seconds_def by simp
  ultimately have "seconds div 86400 * 86400 + remainder div 3600 * 3600 + remainder mod 3600 div 60 * 60 + remainder mod 60 = seconds"
    by linarith
  then show ?thesis unfolding seconds_def by simp
qed

text \<open>The parts of a printed instant, in range, and the instant they stand for.\<close>

lemma rfc3339_parts:
  assumes "is_set t"
  obtains year month day hour minute second fraction where
    "to_rfc3339 t = (zero_pad 4 year @ ''-'' @ zero_pad 2 month @ ''-'' @ zero_pad 2 day @ ''T'' @ zero_pad 2 hour @ '':'' @
       zero_pad 2 minute @ '':'' @ zero_pad 2 second) @
       (if fraction = 0 then [] else ''.'' @ trim_zeros (zero_pad 9 fraction)) @ ''Z''"
    "0 \<le> year" "year < 10000" "1 \<le> month" "month \<le> 12" "1 \<le> day" "day \<le> days_in_month year month" "day \<le> 31"
    "0 \<le> hour" "hour \<le> 23" "0 \<le> minute" "minute \<le> 59" "0 \<le> second" "second \<le> 59"
    "0 \<le> fraction" "fraction < 1000000000" "instant_nanos year month day hour minute second fraction = nanos t"
proof -
  define seconds fraction where "seconds = nanos t div 1000000000" and "fraction = nanos t mod 1000000000"
  define days remainder where "days = seconds div 86400" and "remainder = seconds mod 86400"
  obtain year month day where c: "civil_from_days days = (year, month, day)" by (cases "civil_from_days days")
  define hour minute second where "hour = remainder div 3600" and "minute = remainder mod 3600 div 60" and "second = remainder mod 60"
  have n: "- (2 ^ 63) \<le> nanos t" "nanos t < 2 ^ 63" using nanos_bounds by blast+
  have r: "0 \<le> remainder" "remainder < 86400" unfolding remainder_def by auto
  have f: "0 \<le> fraction" "fraction < 1000000000" unfolding fraction_def by auto
  have "- 9223372037 \<le> seconds" "seconds \<le> 9223372036"
    unfolding seconds_def using zdiv_mono1[OF n(1), of 1000000000] zdiv_mono1[of "nanos t" "2 ^ 63 - 1" 1000000000] n(2) by simp_all
  then have days: "- 106752 \<le> days" "days \<le> 106752" unfolding days_def by linarith+
  have valid: "1 \<le> month" "month \<le> 12" "1 \<le> day" "day \<le> days_in_month year month"
    using civil_valid[OF c] days by linarith+
  have day: "day \<le> 31" using valid days_in_month_le[of month year] by linarith
  have hms: "0 \<le> hour" "hour \<le> 23" "0 \<le> minute" "minute \<le> 59" "0 \<le> second" "second \<le> 59"
    unfolding hour_def minute_def second_def using r by auto
  have layout: "to_rfc3339 t = (zero_pad 4 year @ ''-'' @ zero_pad 2 month @ ''-'' @ zero_pad 2 day @ ''T'' @ zero_pad 2 hour @ '':'' @
       zero_pad 2 minute @ '':'' @ zero_pad 2 second) @
       (if fraction = 0 then [] else ''.'' @ trim_zeros (zero_pad 9 fraction)) @ ''Z''"
    using assms r by (simp add: to_rfc3339_def floor_split_eq seconds_def[symmetric] fraction_def[symmetric]
        days_def[symmetric] remainder_def[symmetric] c tdiv_nonneg tmod_nonneg hour_def minute_def second_def)
  have "instant_nanos year month day hour minute second fraction = nanos t"
    using civil_roundtrip[of days] instant_parts[of "nanos t"] c
    by (simp add: instant_nanos_def hour_def minute_def second_def remainder_def days_def seconds_def fraction_def)
  with that layout civil_year[OF c days] valid day hms f show ?thesis by blast
qed

lemma parse_to_rfc3339:
  assumes "is_set t"
  shows "parse_rfc3339 (to_rfc3339 t) = Inr t"
proof -
  obtain year month day hour minute second fraction where
    layout: "to_rfc3339 t = (zero_pad 4 year @ ''-'' @ zero_pad 2 month @ ''-'' @ zero_pad 2 day @ ''T'' @ zero_pad 2 hour @
       '':'' @ zero_pad 2 minute @ '':'' @ zero_pad 2 second) @
       (if fraction = 0 then [] else ''.'' @ trim_zeros (zero_pad 9 fraction)) @ ''Z''"
    and b: "0 \<le> year" "year < 10000" "1 \<le> month" "month \<le> 12" "1 \<le> day" "day \<le> days_in_month year month" "day \<le> 31"
    "0 \<le> hour" "hour \<le> 23" "0 \<le> minute" "minute \<le> 59" "0 \<le> second" "second \<le> 59"
    and f: "0 \<le> fraction" "fraction < 1000000000" and n: "instant_nanos year month day hour minute second fraction = nanos t"
    using rfc3339_parts[OF assms] .
  define y where "y = (if fraction = 0 then [] else ''.'' @ trim_zeros (zero_pad 9 fraction)) @ ''Z''"
  define x where "x = zero_pad 4 year @ ''-'' @ zero_pad 2 month @ ''-'' @ zero_pad 2 day @ ''T'' @ zero_pad 2 hour @ '':'' @
      zero_pad 2 minute @ '':'' @ zero_pad 2 second"
  have "to_rfc3339 t = x @ y" by (simp add: layout x_def y_def)
  moreover have "parse_fields (x @ y) = Some (year, month, day, hour, minute, second)" "length x = 19"
    unfolding x_def by (rule parse_printed_fields; use b in simp)+
  moreover have "parse_fraction y = Inr (fraction, ''Z'')"
    using parse_fraction_printed[of fraction] f by (auto simp: y_def parse_fraction_def)
  moreover have "y \<noteq> []" by (simp add: y_def)
  ultimately show ?thesis using b n
    by (simp add: parse_rfc3339_def parse_zone_def nanos_def from_unix_nanos_def)
qed

lemma rfc3339_length: "length (to_rfc3339 t) \<le> 30"
proof (cases "is_set t")
  case True
  obtain year month day hour minute second fraction where
    layout: "to_rfc3339 t = (zero_pad 4 year @ ''-'' @ zero_pad 2 month @ ''-'' @ zero_pad 2 day @ ''T'' @ zero_pad 2 hour @
       '':'' @ zero_pad 2 minute @ '':'' @ zero_pad 2 second) @
       (if fraction = 0 then [] else ''.'' @ trim_zeros (zero_pad 9 fraction)) @ ''Z''"
    and b: "0 \<le> year" "year < 10000" "1 \<le> month" "month \<le> 12" "1 \<le> day" "day \<le> 31"
    "0 \<le> hour" "hour \<le> 23" "0 \<le> minute" "minute \<le> 59" "0 \<le> second" "second \<le> 59"
    and f: "0 \<le> fraction" "fraction < 1000000000"
    using rfc3339_parts[OF True] by metis
  have "length (trim_zeros cs) \<le> length cs" for cs
    using length_dropWhile_le[of "\<lambda>c. c = CHR ''0''" "rev cs"]
    by (auto simp: trim_zeros_def split: list.splits)
  from this[of "zero_pad 9 fraction"] have "length (trim_zeros (zero_pad 9 fraction)) \<le> 9"
    using zero_pad_facts(1)[of fraction 9] f by simp
  then show ?thesis using b parse_printed_fields(2)[of year month day hour minute second] unfolding layout by simp
qed (simp add: to_rfc3339_def)

text \<open>An instant that is not set is printed as a word that the reader refuses.\<close>

lemma unset_not_readable: "parse_rfc3339 (to_rfc3339 unset) = Inl (Error InvalidFormat ''timestamp is too short for RFC 3339'')"
  by (simp add: to_rfc3339_def parse_rfc3339_def)

text \<open>
  C34: Every instant that is set is read back from its RFC 3339 text, to the nanosecond, over the whole
  64-bit range.
\<close>

theorem timestamp_roundtrip: "is_set t \<Longrightarrow> parse_rfc3339 (to_rfc3339 t) = Inr t"
  by (rule parse_to_rfc3339)

theorem timestamp_roundtrip_witness:
  "is_set (from_unix_nanos 1767225600000000001) \<and>
   parse_rfc3339 (to_rfc3339 (from_unix_nanos 1767225600000000001)) = Inr (from_unix_nanos 1767225600000000001)"
proof -
  have s: "is_set (from_unix_nanos 1767225600000000001)"
    unfolding is_set_iff_nanos by (subst nanos_from_unix) simp_all
  from timestamp_roundtrip[OF this] s show ?thesis by blast
qed

end
