(* ===== verification/Documents.thy ===== *)
theory Documents
  imports JsonRoundTrip TimeText CodecRoundTrip Runtime
begin

text \<open>
  JSON documents (\<open>src/documents.cpp\<close>, \<open>include/pathobs/documents.hpp\<close>): the readers of source, topology,
  route and evidence documents, the JSON Lines reader, and the writers of every record the tools print.
  Readers take the members in the order of the source, so the first missing or malformed member decides
  the error. The free text of a comparison (rationale and reasons) is an argument of its writer.
\<close>

section \<open>Members\<close>

definition require_member :: "JsonValue \<Rightarrow> string \<Rightarrow> JsonValue Result" where
  "require_member ob key =
     (case ob of
        JObject _ \<Rightarrow> (case json_find key ob of
                        None \<Rightarrow> Inl (Error InvalidFormat (''document is missing a required member: '' @ key))
                      | Some v \<Rightarrow> Inr v)
      | _ \<Rightarrow> Inl (Error InvalidFormat ''document node is not an object''))"

definition optional_member :: "JsonValue \<Rightarrow> string \<Rightarrow> JsonValue option" where
  "optional_member ob key = (case ob of JObject _ \<Rightarrow> json_find key ob | _ \<Rightarrow> None)"

definition require_u64 :: "JsonValue \<Rightarrow> string \<Rightarrow> u64 Result" where
  "require_u64 ob key =
     try_bind (require_member ob key) (\<lambda>v.
       case v of JNumber _ \<Rightarrow> as_u64 v | _ \<Rightarrow> Inl (Error InvalidFormat (''member is not a number: '' @ key)))"

definition optional_u64 :: "JsonValue \<Rightarrow> string \<Rightarrow> u64 \<Rightarrow> u64 Result" where
  "optional_u64 ob key fallback =
     (case optional_member ob key of
        None \<Rightarrow> Inr fallback
      | Some JNull \<Rightarrow> Inr fallback
      | Some (JNumber t) \<Rightarrow> as_u64 (JNumber t)
      | Some _ \<Rightarrow> Inl (Error InvalidFormat (''member is not a number: '' @ key)))"

definition require_text :: "JsonValue \<Rightarrow> string \<Rightarrow> string Result" where
  "require_text ob key =
     try_bind (require_member ob key) (\<lambda>v.
       case v of JString t \<Rightarrow> Inr t | _ \<Rightarrow> Inl (Error InvalidFormat (''member is not a string: '' @ key)))"

definition optional_text :: "JsonValue \<Rightarrow> string \<Rightarrow> string \<Rightarrow> string Result" where
  "optional_text ob key fallback =
     (case optional_member ob key of
        None \<Rightarrow> Inr fallback
      | Some JNull \<Rightarrow> Inr fallback
      | Some (JString t) \<Rightarrow> Inr t
      | Some _ \<Rightarrow> Inl (Error InvalidFormat (''member is not a string: '' @ key)))"

definition optional_boolean :: "JsonValue \<Rightarrow> string \<Rightarrow> bool \<Rightarrow> bool Result" where
  "optional_boolean ob key fallback =
     (case optional_member ob key of
        None \<Rightarrow> Inr fallback
      | Some JNull \<Rightarrow> Inr fallback
      | Some v \<Rightarrow> as_bool_checked v)"

definition require_time :: "JsonValue \<Rightarrow> string \<Rightarrow> TimePoint Result" where
  "require_time ob key = try_bind (require_text ob key) parse_rfc3339"

definition optional_time :: "JsonValue \<Rightarrow> string \<Rightarrow> TimePoint \<Rightarrow> TimePoint Result" where
  "optional_time ob key fallback =
     (case optional_member ob key of
        None \<Rightarrow> Inr fallback
      | Some JNull \<Rightarrow> Inr fallback
      | Some (JString t) \<Rightarrow> parse_rfc3339 t
      | Some _ \<Rightarrow> Inl (Error InvalidFormat (''member is not a timestamp: '' @ key)))"

definition check_kind :: "JsonValue \<Rightarrow> string \<Rightarrow> Status" where
  "check_kind ob expected =
     try_bind (require_text ob ''kind'') (\<lambda>k.
       if k \<noteq> expected then Inl (Error InvalidFormat ''document kind does not match'') else ok)"

definition to_id :: "u64 \<Rightarrow> string \<Rightarrow> 'tag StrongId Result" where
  "to_id raw what =
     (if raw = 0 then Inl (Error InvalidIdentity (''identity must not be zero: '' @ what)) else Inr (from_value raw))"

text \<open>A required number that is an identity, and an optional one that is absent when it is zero.\<close>

definition require_id :: "JsonValue \<Rightarrow> string \<Rightarrow> string \<Rightarrow> 'tag StrongId Result" where
  "require_id ob key what = try_bind (require_u64 ob key) (\<lambda>raw. to_id raw what)"

definition optional_id :: "JsonValue \<Rightarrow> string \<Rightarrow> 'tag MaybeId Result" where
  "optional_id ob key =
     try_bind (optional_u64 ob key 0) (\<lambda>raw. Inr (if raw = 0 then absent else MaybeId (from_value raw)))"

text \<open>The elements of an array are read in order; the first failure ends the run.\<close>

fun read_items :: "(JsonValue \<Rightarrow> 'a Result) \<Rightarrow> JsonValue list \<Rightarrow> 'a list Result" where
  "read_items f [] = Inr []"
| "read_items f (v # vs) = try_bind (f v) (\<lambda>x. try_bind (read_items f vs) (\<lambda>xs. Inr (x # xs)))"

definition array_items :: "JsonValue \<Rightarrow> string \<Rightarrow> nat \<Rightarrow> string \<Rightarrow> JsonValue list Result" where
  "array_items v not_array bound too_long =
     (case v of
        JArray vs \<Rightarrow> if length vs > bound then Inl (Error CapacityExceeded too_long) else Inr vs
      | _ \<Rightarrow> Inl (Error InvalidFormat not_array))"

definition optional_items :: "JsonValue \<Rightarrow> string \<Rightarrow> string \<Rightarrow> nat \<Rightarrow> string \<Rightarrow> JsonValue list Result" where
  "optional_items ob key not_array bound too_long =
     (case optional_member ob key of
        None \<Rightarrow> Inr []
      | Some v \<Rightarrow> array_items v not_array bound too_long)"

section \<open>Reading sources\<close>

definition kSourceKindTag :: string where
  "kSourceKindTag = ''pathobs.source''"

definition kTopologyKindTag :: string where
  "kTopologyKindTag = ''pathobs.topology_generation''"

definition kRoutesKindTag :: string where
  "kRoutesKindTag = ''pathobs.route_generation''"

definition kEvidenceKindTag :: string where
  "kEvidenceKindTag = ''pathobs.evidence''"

fun read_capabilities :: "JsonValue list \<Rightarrow> SourceCapabilities \<Rightarrow> SourceCapabilities Result" where
  "read_capabilities [] c = Inr c"
| "read_capabilities (v # vs) c =
     (case v of
        JString t \<Rightarrow>
          if t = ''expected_state'' then read_capabilities vs (c\<lparr>expected_state := True\<rparr>)
          else if t = ''observed_evidence'' then read_capabilities vs (c\<lparr>observed_evidence := True\<rparr>)
          else if t = ''topology'' then read_capabilities vs (c\<lparr>topology_capability := True\<rparr>)
          else Inl (Error InvalidFormat ''unknown capability'')
      | _ \<Rightarrow> Inl (Error InvalidFormat ''capability names must be strings''))"

definition no_capabilities :: SourceCapabilities where
  "no_capabilities = \<lparr>expected_state = False, observed_evidence = False, topology_capability = False\<rparr>"

definition capabilities_of_json :: "JsonValue \<Rightarrow> SourceCapabilities Result" where
  "capabilities_of_json ob =
     (case optional_member ob ''capabilities'' of
        None \<Rightarrow> Inr no_capabilities
      | Some (JArray vs) \<Rightarrow> read_capabilities vs no_capabilities
      | Some _ \<Rightarrow> Inl (Error InvalidFormat ''capabilities must be an array''))"

definition source_of_json :: "JsonValue \<Rightarrow> SourceDescriptor Result" where
  "source_of_json ob =
     try_bind (check_kind ob kSourceKindTag) (\<lambda>_.
     try_bind (require_id ob ''id'' ''source'') (\<lambda>i.
     try_bind (require_text ob ''name'') (\<lambda>name.
     try_bind (require_text ob ''source_kind'') (\<lambda>t.
     try_bind (parse_source_kind t) (\<lambda>kind.
     try_bind (require_text ob ''surface'') (\<lambda>t.
     try_bind (parse_proof_surface t) (\<lambda>surface.
     try_bind (require_text ob ''authority'') (\<lambda>t.
     try_bind (parse_authority_class t) (\<lambda>authority.
     try_bind (capabilities_of_json ob) (\<lambda>caps.
     try_bind (optional_u64 ob ''max_observation_age_ms'' 0) (\<lambda>age.
     try_bind (optional_u64 ob ''clock_skew_tolerance_ms'' 0) (\<lambda>skew.
       if age > 86400000 \<or> skew > 86400000
       then Inl (Error OutOfRange ''source timing tolerance is implausibly large'')
       else let d = \<lparr>source_id = i, source_name = name, source_kind = kind, source_surface = surface,
                     source_authority = authority, source_capabilities = caps,
                     max_observation_age = age * 1000000, clock_skew_tolerance = skew * 1000000\<rparr>
            in try_bind (SourceDescriptor_validate d) (\<lambda>_. Inr d)))))))))))))"

definition parse_source_descriptor :: "Limits \<Rightarrow> string \<Rightarrow> SourceDescriptor Result" where
  "parse_source_descriptor limits text = try_bind (json_parse limits text) source_of_json"

section \<open>Reading topologies\<close>

definition device_of_json :: "JsonValue \<Rightarrow> DeviceRecord Result" where
  "device_of_json ob =
     try_bind (require_id ob ''id'' ''device'') (\<lambda>i.
     try_bind (optional_text ob ''name'' []) (\<lambda>name.
     try_bind (optional_text ob ''role'' ''unknown'') (\<lambda>t.
     try_bind (parse_device_role t) (\<lambda>role.
       Inr \<lparr>device_id = i, device_name = name, device_role = role\<rparr>))))"

definition port_of_json :: "JsonValue \<Rightarrow> PortRecord Result" where
  "port_of_json ob =
     try_bind (require_id ob ''id'' ''port'') (\<lambda>i.
     try_bind (require_id ob ''device'' ''device'') (\<lambda>dev.
     try_bind (optional_text ob ''name'' []) (\<lambda>name.
     try_bind (optional_u64 ob ''index'' 0) (\<lambda>index.
       Inr \<lparr>port_id = i, port_device = dev, port_name = name, port_index = ucast index\<rparr>))))"

definition link_of_json :: "JsonValue \<Rightarrow> LinkRecord Result" where
  "link_of_json ob =
     try_bind (require_id ob ''id'' ''link'') (\<lambda>i.
     try_bind (require_id ob ''local_device'' ''local device'') (\<lambda>ld.
     try_bind (require_id ob ''local_port'' ''local port'') (\<lambda>lp.
     try_bind (require_id ob ''remote_device'' ''remote device'') (\<lambda>rd.
     try_bind (require_id ob ''remote_port'' ''remote port'') (\<lambda>rp.
     try_bind (optional_text ob ''kind'' ''unknown'') (\<lambda>t.
     try_bind (parse_link_kind t) (\<lambda>kind.
       Inr \<lparr>link_id = i, local_device = ld, local_port = lp, remote_device = rd, remote_port = rp, link_kind = kind\<rparr>)))))))"

definition topology_of_json :: "hasher \<Rightarrow> Limits \<Rightarrow> JsonValue \<Rightarrow> TopologyGeneration Result" where
  "topology_of_json H limits ob =
     try_bind (check_kind ob kTopologyKindTag) (\<lambda>_.
     try_bind (require_id ob ''generation'' ''topology generation'') (\<lambda>i.
     try_bind (require_id ob ''epoch'' ''epoch'') (\<lambda>epoch.
     try_bind (require_id ob ''incarnation'' ''incarnation'') (\<lambda>inc.
     try_bind (require_id ob ''revision'' ''revision'') (\<lambda>rev.
     try_bind (require_id ob ''sequence'' ''sequence'') (\<lambda>seq.
     try_bind (require_id ob ''source'' ''source'') (\<lambda>src.
     try_bind (require_time ob ''created'') (\<lambda>created.
     try_bind (optional_time ob ''received'' created) (\<lambda>received.
     try_bind (optional_items ob ''devices'' ''devices must be an array''
         (unat (max_devices_per_topology limits)) ''device list exceeds the configured bound'') (\<lambda>items.
     try_bind (read_items device_of_json items) (\<lambda>ds.
     try_bind (optional_items ob ''ports'' ''ports must be an array''
         (unat (max_links_per_topology limits) * 2) ''port list exceeds the configured bound'') (\<lambda>items.
     try_bind (read_items port_of_json items) (\<lambda>ps.
     try_bind (optional_items ob ''links'' ''links must be an array''
         (unat (max_links_per_topology limits)) ''link list exceeds the configured bound'') (\<lambda>items.
     try_bind (read_items link_of_json items) (\<lambda>ls.
       TopologyGeneration_finalize H limits
         \<lparr>topo_id = i, topo_epoch = epoch, topo_incarnation = inc, topo_revision = rev,
          topo_sequence = seq, topo_source = src, topo_created = created, topo_received = received,
          devices = ds, ports = ps, links = ls, topo_digest = zero_digest\<rparr>)))))))))))))))"

definition parse_topology_generation :: "hasher \<Rightarrow> Limits \<Rightarrow> string \<Rightarrow> TopologyGeneration Result" where
  "parse_topology_generation H limits text = try_bind (json_parse limits text) (topology_of_json H limits)"

section \<open>Reading route generations\<close>

definition member_of_json :: "JsonValue \<Rightarrow> PathId Result" where
  "member_of_json v =
     (case v of
        JNumber _ \<Rightarrow> try_bind (as_u64 v) (\<lambda>raw. to_id raw ''path'')
      | _ \<Rightarrow> Inl (Error InvalidFormat ''group member identities must be numbers''))"

definition group_of_json :: "Limits \<Rightarrow> JsonValue \<Rightarrow> PathGroup Result" where
  "group_of_json limits ob =
     try_bind (require_id ob ''id'' ''path group'') (\<lambda>i.
     try_bind (require_id ob ''origin'' ''origin device'') (\<lambda>origin.
     try_bind (require_id ob ''destination'' ''destination device'') (\<lambda>destination.
     try_bind (optional_text ob ''label'' []) (\<lambda>label.
     try_bind (require_member ob ''members'') (\<lambda>v.
     try_bind (array_items v ''group members must be an array''
         (unat (max_members_per_group limits)) ''group exceeds the configured member bound'') (\<lambda>items.
     try_bind (read_items member_of_json items) (\<lambda>ms.
       Inr \<lparr>group_id = i, group_origin = origin, group_destination = destination, group_label = label,
            members = ms\<rparr>)))))))"

definition expected_hop_of_json :: "u32 \<Rightarrow> JsonValue \<Rightarrow> ExpectedHop Result" where
  "expected_hop_of_json expected_index ob =
     try_bind (require_id ob ''id'' ''hop'') (\<lambda>i.
     try_bind (optional_u64 ob ''index'' (ucast expected_index)) (\<lambda>index.
     try_bind (require_id ob ''device'' ''hop device'') (\<lambda>dev.
     try_bind (require_id ob ''ingress'' ''hop ingress port'') (\<lambda>ingress.
     try_bind (require_id ob ''egress'' ''hop egress port'') (\<lambda>egress.
     try_bind (optional_u64 ob ''link'' 0) (\<lambda>link.
       Inr \<lparr>eh_id = i, eh_index = ucast index, eh_device = dev, eh_ingress = ingress, eh_egress = egress,
            eh_egress_link = (if link \<noteq> 0 then from_value link else no_id), has_egress_link = (link \<noteq> 0)\<rparr>))))))"

fun read_expected_hops :: "u32 \<Rightarrow> JsonValue list \<Rightarrow> ExpectedHop list Result" where
  "read_expected_hops n [] = Inr []"
| "read_expected_hops n (v # vs) =
     try_bind (expected_hop_of_json n v) (\<lambda>h. try_bind (read_expected_hops (n + 1) vs) (\<lambda>hs. Inr (h # hs)))"

definition path_of_json :: "Limits \<Rightarrow> RouteGenerationId \<Rightarrow> JsonValue \<Rightarrow> ExpectedPath Result" where
  "path_of_json limits generation ob =
     try_bind (require_id ob ''id'' ''path'') (\<lambda>i.
     try_bind (require_id ob ''group'' ''path group'') (\<lambda>grp.
     try_bind (optional_u64 ob ''generation'' (id_value generation)) (\<lambda>raw.
     try_bind (require_member ob ''hops'') (\<lambda>v.
     try_bind (array_items v ''path hops must be an array''
         (unat (max_hops_per_path limits)) ''path exceeds the configured hop bound'') (\<lambda>items.
     try_bind (read_expected_hops 0 items) (\<lambda>hs.
       Inr \<lparr>path_id = i, path_group = grp, path_generation = from_value raw, path_hops = hs,
            path_digest = zero_digest\<rparr>))))))"

definition routes_of_json :: "hasher \<Rightarrow> Limits \<Rightarrow> JsonValue \<Rightarrow> RouteGeneration Result" where
  "routes_of_json H limits ob =
     try_bind (check_kind ob kRoutesKindTag) (\<lambda>_.
     try_bind (require_id ob ''generation'' ''route generation'') (\<lambda>i.
     try_bind (require_id ob ''epoch'' ''epoch'') (\<lambda>epoch.
     try_bind (require_id ob ''incarnation'' ''incarnation'') (\<lambda>inc.
     try_bind (require_id ob ''revision'' ''revision'') (\<lambda>rev.
     try_bind (require_id ob ''sequence'' ''sequence'') (\<lambda>seq.
     try_bind (require_id ob ''source'' ''source'') (\<lambda>src.
     try_bind (require_id ob ''topology_generation'' ''topology generation'') (\<lambda>topo.
     try_bind (require_time ob ''created'') (\<lambda>created.
     try_bind (optional_time ob ''received'' created) (\<lambda>received.
     try_bind (require_member ob ''groups'') (\<lambda>v.
     try_bind (array_items v ''groups must be an array''
         (unat (max_groups_per_generation limits)) ''group list exceeds the configured bound'') (\<lambda>items.
     try_bind (read_items (group_of_json limits) items) (\<lambda>gs.
     try_bind (require_member ob ''paths'') (\<lambda>v.
     try_bind (array_items v ''paths must be an array''
         (unat (max_paths_per_generation limits)) ''path list exceeds the configured bound'') (\<lambda>items.
     try_bind (read_items (path_of_json limits i) items) (\<lambda>ps.
       RouteGeneration_finalize H limits
         \<lparr>route_id = i, route_epoch = epoch, route_incarnation = inc, route_revision = rev, route_sequence = seq,
          route_source = src, route_topology = topo, route_created = created, route_received = received,
          groups = gs, paths = ps, route_digest = zero_digest\<rparr>))))))))))))))))"

definition parse_route_generation :: "hasher \<Rightarrow> Limits \<Rightarrow> string \<Rightarrow> RouteGeneration Result" where
  "parse_route_generation H limits text = try_bind (json_parse limits text) (routes_of_json H limits)"

section \<open>Reading evidence\<close>

definition payload_of_json :: "JsonValue \<Rightarrow> Digest Result" where
  "payload_of_json ob =
     try_bind (optional_text ob ''payload_digest'' []) (\<lambda>hex.
       if hex \<noteq> [] then parse_hex hex else Inr zero_digest)"

text \<open>The index of a hop defaults to the position after the previous hop's index, as a 32-bit number.\<close>

definition observed_hop_of_json :: "u32 option \<Rightarrow> JsonValue \<Rightarrow> ObservedHop Result" where
  "observed_hop_of_json previous ob =
     try_bind (optional_u64 ob ''index'' (case previous of None \<Rightarrow> 0 | Some p \<Rightarrow> ucast (p + 1))) (\<lambda>index.
     try_bind (require_id ob ''device'' ''hop device'') (\<lambda>dev.
     try_bind (optional_u64 ob ''ingress'' 0) (\<lambda>ingress.
     try_bind (optional_u64 ob ''egress'' 0) (\<lambda>egress.
     try_bind (optional_u64 ob ''link'' 0) (\<lambda>link.
     try_bind (optional_text ob ''link_provenance'' ''absent'') (\<lambda>t.
     try_bind (parse_hop_link_provenance t) (\<lambda>provenance.
     try_bind (optional_time ob ''at'' unset) (\<lambda>at.
       Inr \<lparr>oh_index = ucast index, oh_device = dev, oh_ingress = from_value ingress, oh_egress = from_value egress,
            oh_link = from_value link, oh_link_provenance = provenance, oh_at = at\<rparr>))))))))"

fun read_observed_hops :: "u32 option \<Rightarrow> JsonValue list \<Rightarrow> ObservedHop list Result" where
  "read_observed_hops previous [] = Inr []"
| "read_observed_hops previous (v # vs) =
     try_bind (observed_hop_of_json previous v) (\<lambda>h.
     try_bind (read_observed_hops (Some (oh_index h)) vs) (\<lambda>hs. Inr (h # hs)))"

definition evidence_of_json :: "hasher \<Rightarrow> Limits \<Rightarrow> JsonValue \<Rightarrow> ObservedPathEvidence Result" where
  "evidence_of_json H limits ob =
     try_bind (check_kind ob kEvidenceKindTag) (\<lambda>_.
     try_bind (require_id ob ''source'' ''source'') (\<lambda>src.
     try_bind (require_id ob ''incarnation'' ''source incarnation'') (\<lambda>inc.
     try_bind (require_id ob ''sequence'' ''sequence'') (\<lambda>seq.
     try_bind (require_text ob ''surface'') (\<lambda>t.
     try_bind (parse_proof_surface t) (\<lambda>surface.
     try_bind (require_text ob ''authority'') (\<lambda>t.
     try_bind (parse_authority_class t) (\<lambda>authority.
     try_bind (require_id ob ''epoch'' ''epoch'') (\<lambda>epoch.
     try_bind (require_id ob ''claimed_incarnation'' ''claimed incarnation'') (\<lambda>claimed.
     try_bind (require_id ob ''revision'' ''revision'') (\<lambda>rev.
     try_bind (optional_id ob ''route_generation'') (\<lambda>generation.
     try_bind (optional_id ob ''topology_generation'') (\<lambda>topo.
     try_bind (optional_id ob ''path'') (\<lambda>path.
     try_bind (optional_id ob ''group'') (\<lambda>grp.
     try_bind (optional_id ob ''origin'') (\<lambda>origin.
     try_bind (optional_id ob ''destination'') (\<lambda>destination.
     try_bind (optional_time ob ''observed_at'' unset) (\<lambda>observed.
     try_bind (optional_time ob ''received_at'' observed) (\<lambda>received.
     try_bind (optional_boolean ob ''truncated'' False) (\<lambda>cut.
     try_bind (optional_text ob ''completeness'' ''unknown'') (\<lambda>t.
     try_bind (parse_evidence_completeness t) (\<lambda>declared.
     try_bind (payload_of_json ob) (\<lambda>payload.
     try_bind (optional_text ob ''note'' []) (\<lambda>note.
     try_bind (optional_items ob ''hops'' ''hops must be an array''
         (unat (max_hops_per_path limits)) ''hop list exceeds the configured bound'') (\<lambda>items.
     try_bind (read_observed_hops None items) (\<lambda>hs.
       let e = \<lparr>ev_id = no_digest_id, ev_source = src, ev_incarnation = inc, ev_sequence = seq, ev_surface = surface,
            ev_authority = authority, ev_path = path, ev_group = grp, ev_origin = origin,
            ev_destination = destination, ev_epoch = epoch, claimed_incarnation = claimed,
            ev_route_generation = generation, ev_topology_generation = topo, ev_revision = rev,
            observed_at = observed, received_at = received, ev_hops = hs, source_truncated = cut,
            declared_completeness = declared, payload_digest = payload, ev_note = note\<rparr>
       in try_bind (evidence_validate H limits e) (\<lambda>_. Inr (seal H e))))))))))))))))))))))))))))"

definition parse_evidence :: "hasher \<Rightarrow> Limits \<Rightarrow> string \<Rightarrow> ObservedPathEvidence Result" where
  "parse_evidence H limits text = try_bind (json_parse limits text) (evidence_of_json H limits)"

section \<open>Reading JSON Lines\<close>

definition is_line_blank :: "char \<Rightarrow> bool" where
  "is_line_blank c \<longleftrightarrow> c = CHR '' '' \<or> c = CHR 0x09"

text \<open>A line without trailing carriage returns, blanks and tabs, and without leading blanks and tabs.\<close>

definition trim_line :: "string \<Rightarrow> string" where
  "trim_line line =
     dropWhile is_line_blank (rev (dropWhile (\<lambda>c. c = CHR 0x0D \<or> is_line_blank c) (rev line)))"

function evidence_lines ::
  "hasher \<Rightarrow> Limits \<Rightarrow> nat \<Rightarrow> ObservedPathEvidence list \<Rightarrow> string \<Rightarrow> ObservedPathEvidence list Result" where
  "evidence_lines H limits line_number out [] = Inr out"
| "evidence_lines H limits line_number out (c # cs) =
     (let text = c # cs;
          line = trim_line (takeWhile (\<lambda>c. c \<noteq> CHR 0x0A) text);
          rest = drop 1 (dropWhile (\<lambda>c. c \<noteq> CHR 0x0A) text);
          n = line_number + 1
      in if line = [] \<or> hd line = CHR ''#'' then evidence_lines H limits n out rest
         else case parse_evidence H limits line of
             Inl e \<Rightarrow> Inl (Error (error_code e) (''evidence line '' @ decimal n @ '': '' @ error_message e))
           | Inr v \<Rightarrow>
               if length (out @ [v]) > unat (max_evidence_per_ingest_batch limits)
               then Inl (Error CapacityExceeded ''evidence document exceeds the ingest bound'')
               else evidence_lines H limits n (out @ [v]) rest)"
  by pat_completeness auto

lemma rest_shorter: "length (drop 1 (dropWhile P (c # cs))) < length (c # cs)"
  using length_dropWhile_le[of P "c # cs"] by (cases "dropWhile P (c # cs)") (auto split: if_splits)

termination evidence_lines
  by (relation "measure (\<lambda>(_, _, _, _, t). length t)") (use rest_shorter in \<open>auto simp del: dropWhile.simps\<close>)

declare evidence_lines.simps(2) [simp del]

definition parse_evidence_lines :: "hasher \<Rightarrow> Limits \<Rightarrow> string \<Rightarrow> ObservedPathEvidence list Result" where
  "parse_evidence_lines H limits text = evidence_lines H limits 0 [] text"

section \<open>Writing\<close>

definition set_string :: "string \<Rightarrow> string \<Rightarrow> JsonValue \<Rightarrow> JsonValue" where
  "set_string key v ob = json_set key (JString v) ob"

definition set_bool :: "string \<Rightarrow> bool \<Rightarrow> JsonValue \<Rightarrow> JsonValue" where
  "set_bool key v ob = json_set key (JBoolean v) ob"

definition set_u64 :: "string \<Rightarrow> u64 \<Rightarrow> JsonValue \<Rightarrow> JsonValue" where
  "set_u64 key v ob = json_set key (make_number_u64 v) ob"

definition set_time :: "string \<Rightarrow> TimePoint \<Rightarrow> JsonValue \<Rightarrow> JsonValue" where
  "set_time key v ob = json_set key (JString (to_rfc3339 v)) ob"

definition set_array :: "string \<Rightarrow> JsonValue list \<Rightarrow> JsonValue \<Rightarrow> JsonValue" where
  "set_array key vs ob = json_set key (foldl (\<lambda>a v. json_push_back v a) (JArray []) vs) ob"

text \<open>A member that is only written under a condition.\<close>

definition set_id :: "string \<Rightarrow> 'tag StrongId \<Rightarrow> JsonValue \<Rightarrow> JsonValue" where
  "set_id key i ob = set_u64 key (id_value i) ob"

definition set_maybe :: "string \<Rightarrow> 'tag MaybeId \<Rightarrow> JsonValue \<Rightarrow> JsonValue" where
  "set_maybe key m ob = (if present m then set_id key (maybe_value m) ob else ob)"

definition set_when :: "bool \<Rightarrow> (JsonValue \<Rightarrow> JsonValue) \<Rightarrow> JsonValue \<Rightarrow> JsonValue" where
  "set_when c f ob = (if c then f ob else ob)"

definition make_object :: "(JsonValue \<Rightarrow> JsonValue) list \<Rightarrow> JsonValue" where
  "make_object sets = fold (\<lambda>f. f) sets (JObject [])"

definition source_json :: "SourceDescriptor \<Rightarrow> JsonValue" where
  "source_json v = make_object
     [set_string ''kind'' kSourceKindTag, set_id ''id'' (source_id v), set_string ''name'' (source_name v),
      set_string ''source_kind'' (SourceKind_to_string (source_kind v)),
      set_string ''surface'' (ProofSurface_to_string (source_surface v)),
      set_string ''authority'' (AuthorityClass_to_string (source_authority v)),
      set_array ''capabilities''
        ((if expected_state (source_capabilities v) then [JString ''expected_state''] else []) @
         (if observed_evidence (source_capabilities v) then [JString ''observed_evidence''] else []) @
         (if topology_capability (source_capabilities v) then [JString ''topology''] else [])),
      set_u64 ''max_observation_age_ms'' (word_of_int (tdiv (sint (max_observation_age v)) 1000000)),
      set_u64 ''clock_skew_tolerance_ms'' (word_of_int (tdiv (sint (clock_skew_tolerance v)) 1000000))]"

definition device_json :: "DeviceRecord \<Rightarrow> JsonValue" where
  "device_json d = make_object
     [set_id ''id'' (device_id d), set_string ''name'' (device_name d), set_string ''role'' (DeviceRole_to_string (device_role d))]"

definition port_json :: "PortRecord \<Rightarrow> JsonValue" where
  "port_json p = make_object
     [set_id ''id'' (port_id p), set_id ''device'' (port_device p), set_string ''name'' (port_name p),
      set_u64 ''index'' (ucast (port_index p))]"

definition link_json :: "LinkRecord \<Rightarrow> JsonValue" where
  "link_json l = make_object
     [set_id ''id'' (link_id l), set_id ''local_device'' (local_device l), set_id ''local_port'' (local_port l),
      set_id ''remote_device'' (remote_device l), set_id ''remote_port'' (remote_port l),
      set_string ''kind'' (LinkKind_to_string (link_kind l))]"

definition topology_json :: "TopologyGeneration \<Rightarrow> JsonValue" where
  "topology_json v = make_object
     [set_string ''kind'' kTopologyKindTag, set_id ''generation'' (topo_id v), set_id ''epoch'' (topo_epoch v),
      set_id ''incarnation'' (topo_incarnation v), set_id ''revision'' (topo_revision v),
      set_id ''sequence'' (topo_sequence v), set_id ''source'' (topo_source v), set_time ''created'' (topo_created v),
      set_time ''received'' (topo_received v), set_string ''digest'' (Digest_hex (topo_digest v)),
      set_array ''devices'' (map device_json (devices v)), set_array ''ports'' (map port_json (ports v)),
      set_array ''links'' (map link_json (links v))]"

definition hop_json :: "ExpectedHop \<Rightarrow> JsonValue" where
  "hop_json h = make_object
     [set_id ''id'' (eh_id h), set_u64 ''index'' (ucast (eh_index h)), set_id ''device'' (eh_device h),
      set_id ''ingress'' (eh_ingress h), set_id ''egress'' (eh_egress h),
      set_when (has_egress_link h) (set_id ''link'' (eh_egress_link h))]"

definition group_json :: "PathGroup \<Rightarrow> JsonValue" where
  "group_json g = make_object
     [set_id ''id'' (group_id g), set_id ''origin'' (group_origin g), set_id ''destination'' (group_destination g),
      set_string ''label'' (group_label g), set_array ''members'' (map (\<lambda>m. make_number_u64 (id_value m)) (members g))]"

definition path_json :: "ExpectedPath \<Rightarrow> JsonValue" where
  "path_json p = make_object
     [set_id ''id'' (path_id p), set_id ''group'' (path_group p), set_id ''generation'' (path_generation p),
      set_array ''hops'' (map hop_json (path_hops p))]"

definition routes_json :: "RouteGeneration \<Rightarrow> JsonValue" where
  "routes_json v = make_object
     [set_string ''kind'' kRoutesKindTag, set_id ''generation'' (route_id v), set_id ''epoch'' (route_epoch v),
      set_id ''incarnation'' (route_incarnation v), set_id ''revision'' (route_revision v),
      set_id ''sequence'' (route_sequence v), set_id ''source'' (route_source v),
      set_id ''topology_generation'' (route_topology v), set_time ''created'' (route_created v),
      set_time ''received'' (route_received v), set_string ''digest'' (Digest_hex (route_digest v)),
      set_array ''groups'' (map group_json (groups v)), set_array ''paths'' (map path_json (paths v))]"

definition observed_hop_json :: "ObservedHop \<Rightarrow> JsonValue" where
  "observed_hop_json h = make_object
     [set_u64 ''index'' (ucast (oh_index h)), set_id ''device'' (oh_device h),
      set_when (valid_id (oh_ingress h)) (set_id ''ingress'' (oh_ingress h)),
      set_when (valid_id (oh_egress h)) (set_id ''egress'' (oh_egress h)),
      set_when (valid_id (oh_link h)) (set_id ''link'' (oh_link h)),
      set_string ''link_provenance'' (HopLinkProvenance_to_string (oh_link_provenance h)),
      set_when (is_set (oh_at h)) (set_time ''at'' (oh_at h))]"

definition evidence_json :: "ObservedPathEvidence \<Rightarrow> JsonValue" where
  "evidence_json v = make_object
     [set_string ''kind'' kEvidenceKindTag, set_string ''id'' (DigestId_str (ev_id v)), set_id ''source'' (ev_source v),
      set_id ''incarnation'' (ev_incarnation v), set_id ''sequence'' (ev_sequence v),
      set_string ''surface'' (ProofSurface_to_string (ev_surface v)),
      set_string ''authority'' (AuthorityClass_to_string (ev_authority v)), set_id ''epoch'' (ev_epoch v),
      set_id ''claimed_incarnation'' (claimed_incarnation v), set_id ''revision'' (ev_revision v),
      set_maybe ''route_generation'' (ev_route_generation v), set_maybe ''topology_generation'' (ev_topology_generation v),
      set_maybe ''path'' (ev_path v), set_maybe ''group'' (ev_group v), set_maybe ''origin'' (ev_origin v),
      set_maybe ''destination'' (ev_destination v), set_time ''observed_at'' (observed_at v),
      set_time ''received_at'' (received_at v), set_bool ''truncated'' (source_truncated v),
      set_string ''completeness'' (EvidenceCompleteness_to_string (declared_completeness v)),
      set_string ''payload_digest'' (Digest_hex (payload_digest v)), set_string ''note'' (ev_note v),
      set_array ''hops'' (map observed_hop_json (ev_hops v))]"

definition source_to_json :: "bool \<Rightarrow> SourceDescriptor \<Rightarrow> string" where
  "source_to_json pretty v = json_dump pretty (source_json v)"

definition topology_to_json :: "bool \<Rightarrow> TopologyGeneration \<Rightarrow> string" where
  "topology_to_json pretty v = json_dump pretty (topology_json v)"

definition routes_to_json :: "bool \<Rightarrow> RouteGeneration \<Rightarrow> string" where
  "routes_to_json pretty v = json_dump pretty (routes_json v)"

definition evidence_to_json :: "bool \<Rightarrow> ObservedPathEvidence \<Rightarrow> string" where
  "evidence_to_json pretty v = json_dump pretty (evidence_json v)"

end
