(* ===== verification/DocumentsRoundTrip.thy ===== *)
theory DocumentsRoundTrip
  imports Documents
begin

text \<open>
  Documents are read back: a law for a writer and a reader of one kind of document as a locale, its
  interpretations on the writers and readers of \<open>Documents\<close>, and what every reader promises of the records
  it accepts.
\<close>

section \<open>Writers and readers\<close>

named_theorems doc_simps "members of the documents that the writers make"

definition json_object :: "JsonValue \<Rightarrow> bool" where
  "json_object v = (case v of JObject _ \<Rightarrow> True | _ \<Rightarrow> False)"

lemma map_of_put_field: "map_of (put_field k v fs) k' = (if k' = k then Some v else map_of fs k')"
  by (induction k v fs rule: put_field.induct) auto

lemma json_find_set [doc_simps]: "json_find k (json_set k' v ob) = (if k = k' then Some v else json_find k ob)"
  by (cases ob) (simp_all add: json_find_def json_set_def map_of_put_field)

lemma json_object_set [doc_simps]: "json_object (json_set k v ob)"
  by (cases ob) (simp_all add: json_object_def json_set_def)

lemma push_all: "foldl (\<lambda>a v. json_push_back v a) (JArray us) vs = JArray (us @ vs)"
  by (induction vs arbitrary: us) (simp_all add: json_push_back_def)

lemma set_array_eq [doc_simps]: "set_array key vs ob = json_set key (JArray vs) ob"
  by (simp add: set_array_def push_all)

lemmas [doc_simps] = set_string_def set_bool_def set_u64_def set_time_def set_id_def

lemma json_find_set_when [doc_simps]:
  "json_find k (set_when c f ob) = (if c then json_find k (f ob) else json_find k ob)"
  "json_find k (set_maybe k' m ob) =
     (if present m \<and> k = k' then Some (make_number_u64 (id_value (maybe_value m))) else json_find k ob)"
  by (simp_all add: set_when_def set_maybe_def set_id_def set_u64_def json_find_set)

lemma json_object_set_when [doc_simps]:
  "json_object ob \<Longrightarrow> json_object (set_maybe k' m ob)"
  "json_object ob \<Longrightarrow> json_object (set_when c (set_id k' i) ob)"
  "json_object ob \<Longrightarrow> json_object (set_when c (set_time k' t) ob)"
  by (simp_all add: set_when_def set_maybe_def set_id_def set_u64_def set_time_def json_object_set)

lemma make_object_steps [doc_simps]:
  "make_object fs = fold (\<lambda>f. f) fs (JObject [])" "json_object (JObject fs')" "json_find k (JObject []) = None"
  by (simp_all add: make_object_def json_object_def json_find_def)

text \<open>Reading a member that is known.\<close>

lemma require_member_found: "json_object ob \<Longrightarrow> json_find k ob = Some v \<Longrightarrow> require_member ob k = Inr v"
  by (cases ob) (simp_all add: require_member_def json_object_def)

lemma optional_member_find: "optional_member ob k = json_find k ob"
  by (cases ob) (simp_all add: optional_member_def json_find_def)

lemma number_cases: "(case make_number_u64 n of JNumber t \<Rightarrow> f t | _ \<Rightarrow> y) = f (decimal (unat n))"
  by (simp add: make_number_u64_def)

lemma require_found:
  assumes "json_object ob"
  shows "json_find k ob = Some (make_number_u64 n) \<Longrightarrow> require_u64 ob k = Inr n"
    and "json_find k ob = Some (make_number_u64 (id_value i)) \<Longrightarrow> valid_id i \<Longrightarrow> require_id ob k what = Inr i"
    and "json_find k ob = Some (JString t) \<Longrightarrow> require_text ob k = Inr t"
    and "json_find k ob = Some (JString (to_rfc3339 at)) \<Longrightarrow> is_set at \<Longrightarrow> require_time ob k = Inr at"
    and "json_find ''kind'' ob = Some (JString kind) \<Longrightarrow> check_kind ob kind = ok"
proof -
  show *: "json_find k ob = Some (make_number_u64 n) \<Longrightarrow> require_u64 ob k = Inr n" for n
    using as_u64_make[of n] require_member_found[OF assms] by (simp add: require_u64_def make_number_u64_def)
  show "json_find k ob = Some (make_number_u64 (id_value i)) \<Longrightarrow> valid_id i \<Longrightarrow> require_id ob k what = Inr i"
    using * by (cases i) (simp add: require_id_def to_id_def valid_id_def from_value_def)
  show t: "json_find k ob = Some (JString t) \<Longrightarrow> require_text ob k = Inr t" for k t
    using require_member_found[OF assms] by (simp add: require_text_def)
  show "json_find k ob = Some (JString (to_rfc3339 at)) \<Longrightarrow> is_set at \<Longrightarrow> require_time ob k = Inr at"
    using t parse_to_rfc3339 by (simp add: require_time_def)
  show "json_find ''kind'' ob = Some (JString kind) \<Longrightarrow> check_kind ob kind = ok"
    using t by (simp add: check_kind_def)
qed

lemma optional_found:
  "json_find k ob = Some (make_number_u64 n) \<Longrightarrow> optional_u64 ob k d = Inr n"
  "json_find k ob = None \<Longrightarrow> optional_u64 ob k d = Inr d"
  "json_find k ob = Some (JString t) \<Longrightarrow> optional_text ob k dt = Inr t"
  "json_find k ob = Some (JBoolean b) \<Longrightarrow> optional_boolean ob k db = Inr b"
  "json_find k ob = Some (JString (to_rfc3339 at)) \<Longrightarrow> is_set at \<Longrightarrow> optional_time ob k dat = Inr at"
  "json_find k ob = None \<Longrightarrow> optional_time ob k dat = Inr dat"
  using as_u64_make[of n] parse_to_rfc3339
  by (simp_all add: optional_u64_def optional_text_def optional_boolean_def optional_time_def optional_member_find
      make_number_u64_def as_bool_checked_def)

lemma optional_id_found:
  assumes "json_find k ob = (if present m then Some (make_number_u64 (id_value (maybe_value m))) else None)"
  shows "optional_id ob k = Inr m"
proof (cases "present m")
  case True
  then have "optional_u64 ob k 0 = Inr (id_value (maybe_value m))" using assms by (simp add: optional_found)
  then show ?thesis using True
    by (cases m; cases "maybe_value m") (simp add: optional_id_def from_value_def valid_id_def)
next
  case False
  then show ?thesis using assms by (simp add: optional_id_def optional_found not_present_iff)
qed

lemma items_found:
  "length vs \<le> b \<Longrightarrow> array_items (JArray vs) e b m = Inr vs"
  "json_find k ob = Some (JArray vs) \<Longrightarrow> length vs \<le> b \<Longrightarrow> optional_items ob k e b m = Inr vs"
  by (simp_all add: array_items_def optional_items_def optional_member_find)

lemma index_widened: "(ucast (ucast i :: u64) :: u32) = i" for i :: u32
  by (rule bit_word_eqI) (simp add: bit_simps)

lemmas found = index_widened require_member_found require_found optional_found optional_id_found items_found
  source_kind.parse_to_str proof_surface.parse_to_str authority_class.parse_to_str device_role.parse_to_str
  link_kind.parse_to_str hop_link_provenance.parse_to_str evidence_completeness.parse_to_str

section \<open>The law of a document\<close>

locale document =
  fixes render :: "'a \<Rightarrow> JsonValue" and reader :: "JsonValue \<Rightarrow> 'a Result" and good :: "'a \<Rightarrow> bool"
  assumes read_render: "good v \<Longrightarrow> reader (render v) = Inr v"
begin

lemma read_all: "list_all good vs \<Longrightarrow> read_items reader (map render vs) = Inr vs"
  by (induction vs) (simp_all add: read_render)

lemma read_text:
  assumes "good v" and "json_fits limits (render v)"
    and "length (json_dump pretty (render v)) \<le> unat (max_document_bytes limits)"
  shows "try_bind (json_parse limits (json_dump pretty (render v))) reader = Inr v"
  using json_parse_dump[OF assms(2,3)] read_render[OF assms(1)] by simp

end

text \<open>Durations of a source are printed in whole milliseconds and bounded by a day.\<close>

definition document_duration :: "u64 \<Rightarrow> bool" where
  "document_duration d \<longleftrightarrow> 0 \<le> sint d \<and> sint d \<le> 86400000000000 \<and> sint d mod 1000000 = 0"

lemma duration_millis:
  assumes "document_duration d"
  defines "ms \<equiv> word_of_int (tdiv (sint d) 1000000) :: u64"
  shows "ms \<le> 86400000" and "ms * 1000000 = d"
proof -
  have b: "0 \<le> sint d" "sint d div 1000000 \<le> 86400000" "sint d mod 1000000 = 0"
    using assms(1) by (auto simp: document_duration_def)
  have ms: "ms = word_of_int (sint d div 1000000)" using b by (cases "sint d = 0") (simp_all add: ms_def tdiv_def)
  have "uint ms = sint d div 1000000"
    unfolding ms uint_word_of_int by (rule mod_pos_pos_trivial) (use b in \<open>simp_all add: pos_imp_zdiv_nonneg_iff\<close>)
  then show "ms \<le> 86400000" using b by (simp add: word_le_def)
  have "ms * 1000000 = word_of_int (sint d div 1000000 * 1000000)" by (simp add: ms)
  also have "sint d div 1000000 * 1000000 = sint d" using div_mult_mod_eq[of "sint d" 1000000] b(3) by simp
  finally show "ms * 1000000 = d" by simp
qed

definition source_document :: "SourceDescriptor \<Rightarrow> bool" where
  "source_document v \<longleftrightarrow>
     SourceDescriptor_validate v = ok \<and> document_duration (max_observation_age v) \<and>
     document_duration (clock_skew_tolerance v)"

lemma read_capabilities_written:
  "read_capabilities
     ((if e then [JString ''expected_state''] else []) @ (if obs then [JString ''observed_evidence''] else []) @
      (if t then [JString ''topology''] else [])) no_capabilities =
   Inr \<lparr>expected_state = e, observed_evidence = obs, topology_capability = t\<rparr>"
  by (simp add: no_capabilities_def)

lemma source_members:
  "json_object (source_json v)"
  "json_find ''kind'' (source_json v) = Some (JString kSourceKindTag)"
  "json_find ''id'' (source_json v) = Some (make_number_u64 (id_value (source_id v)))"
  "json_find ''name'' (source_json v) = Some (JString (source_name v))"
  "json_find ''source_kind'' (source_json v) = Some (JString (SourceKind_to_string (source_kind v)))"
  "json_find ''surface'' (source_json v) = Some (JString (ProofSurface_to_string (source_surface v)))"
  "json_find ''authority'' (source_json v) = Some (JString (AuthorityClass_to_string (source_authority v)))"
  "json_find ''max_observation_age_ms'' (source_json v) =
     Some (make_number_u64 (word_of_int (tdiv (sint (max_observation_age v)) 1000000)))"
  "json_find ''clock_skew_tolerance_ms'' (source_json v) =
     Some (make_number_u64 (word_of_int (tdiv (sint (clock_skew_tolerance v)) 1000000)))"
  by (simp_all add: source_json_def doc_simps)

lemma source_capabilities_member:
  "capabilities_of_json (source_json v) = Inr (source_capabilities v)"
  by (simp add: capabilities_of_json_def optional_member_find source_json_def doc_simps read_capabilities_written
      del: append.simps)

interpretation source_document: document source_json source_of_json source_document
proof unfold_locales
  fix v assume g: "source_document v"
  then have i: "valid_id (source_id v)"
    by (simp add: source_document_def SourceDescriptor_valid_iff)
  show "source_of_json (source_json v) = Inr v"
    using g duration_millis[of "max_observation_age v"] duration_millis[of "clock_skew_tolerance v"]
    by (simp add: source_of_json_def found source_members i source_capabilities_member source_document_def not_less Let_def
        source_eta)
qed

section \<open>Topologies\<close>

lemma device_members:
  "json_object (device_json d)"
  "json_find ''id'' (device_json d) = Some (make_number_u64 (id_value (device_id d)))"
  "json_find ''name'' (device_json d) = Some (JString (device_name d))"
  "json_find ''role'' (device_json d) = Some (JString (DeviceRole_to_string (device_role d)))"
  by (simp_all add: device_json_def doc_simps)

lemma port_members:
  "json_object (port_json p)"
  "json_find ''id'' (port_json p) = Some (make_number_u64 (id_value (port_id p)))"
  "json_find ''device'' (port_json p) = Some (make_number_u64 (id_value (port_device p)))"
  "json_find ''name'' (port_json p) = Some (JString (port_name p))"
  "json_find ''index'' (port_json p) = Some (make_number_u64 (ucast (port_index p)))"
  by (simp_all add: port_json_def doc_simps)

lemma link_members:
  "json_object (link_json l)"
  "json_find ''id'' (link_json l) = Some (make_number_u64 (id_value (link_id l)))"
  "json_find ''local_device'' (link_json l) = Some (make_number_u64 (id_value (local_device l)))"
  "json_find ''local_port'' (link_json l) = Some (make_number_u64 (id_value (local_port l)))"
  "json_find ''remote_device'' (link_json l) = Some (make_number_u64 (id_value (remote_device l)))"
  "json_find ''remote_port'' (link_json l) = Some (make_number_u64 (id_value (remote_port l)))"
  "json_find ''kind'' (link_json l) = Some (JString (LinkKind_to_string (link_kind l)))"
  by (simp_all add: link_json_def doc_simps)

interpretation device_document: document device_json device_of_json "\<lambda>d. valid_id (device_id d)"
  by unfold_locales (simp add: device_of_json_def found device_members)

interpretation port_document: document port_json port_of_json "\<lambda>p. valid_id (port_id p) \<and> valid_id (port_device p)"
  by unfold_locales (simp add: port_of_json_def found port_members)

interpretation link_document: document link_json link_of_json
  "\<lambda>l. valid_id (link_id l) \<and> valid_id (local_device l) \<and> valid_id (local_port l) \<and> valid_id (remote_device l) \<and>
       valid_id (remote_port l)"
  by unfold_locales (simp add: link_of_json_def found link_members)

text \<open>
  A finalised generation whose timestamps are set. Finalising does not look at the publication sequence,
  the reader does.
\<close>

definition topology_document :: "hasher \<Rightarrow> Limits \<Rightarrow> TopologyGeneration \<Rightarrow> bool" where
  "topology_document H limits v \<longleftrightarrow>
     TopologyGeneration_finalize H limits v = Inr v \<and> valid_id (topo_sequence v) \<and> is_set (topo_created v) \<and>
     is_set (topo_received v)"

lemma topology_members:
  "json_object (topology_json v)"
  "json_find ''kind'' (topology_json v) = Some (JString kTopologyKindTag)"
  "json_find ''generation'' (topology_json v) = Some (make_number_u64 (id_value (topo_id v)))"
  "json_find ''epoch'' (topology_json v) = Some (make_number_u64 (id_value (topo_epoch v)))"
  "json_find ''incarnation'' (topology_json v) = Some (make_number_u64 (id_value (topo_incarnation v)))"
  "json_find ''revision'' (topology_json v) = Some (make_number_u64 (id_value (topo_revision v)))"
  "json_find ''sequence'' (topology_json v) = Some (make_number_u64 (id_value (topo_sequence v)))"
  "json_find ''source'' (topology_json v) = Some (make_number_u64 (id_value (topo_source v)))"
  "json_find ''created'' (topology_json v) = Some (JString (to_rfc3339 (topo_created v)))"
  "json_find ''received'' (topology_json v) = Some (JString (to_rfc3339 (topo_received v)))"
  "json_find ''devices'' (topology_json v) = Some (JArray (map device_json (devices v)))"
  "json_find ''ports'' (topology_json v) = Some (JArray (map port_json (ports v)))"
  "json_find ''links'' (topology_json v) = Some (JArray (map link_json (links v)))"
  by (simp_all add: topology_json_def doc_simps)

lemma topology_inv_valid:
  assumes "topology_inv v"
  shows "list_all (\<lambda>d. valid_id (device_id d)) (devices v)"
    and "list_all (\<lambda>p. valid_id (port_id p) \<and> valid_id (port_device p)) (ports v)"
    and "list_all (\<lambda>l. valid_id (link_id l) \<and> valid_id (local_device l) \<and> valid_id (local_port l) \<and>
           valid_id (remote_device l) \<and> valid_id (remote_port l)) (links v)"
proof -
  show "list_all (\<lambda>d. valid_id (device_id d)) (devices v)" using assms by (simp add: topology_inv_def)
  show p: "list_all (\<lambda>p. valid_id (port_id p) \<and> valid_id (port_device p)) (ports v)"
    using assms by (auto simp: topology_inv_def list_all_iff)
  show "list_all (\<lambda>l. valid_id (link_id l) \<and> valid_id (local_device l) \<and> valid_id (local_port l) \<and>
           valid_id (remote_device l) \<and> valid_id (remote_port l)) (links v)"
    using assms p by (fastforce simp: topology_inv_def list_all_iff)
qed

interpretation topology_document:
  document topology_json "topology_of_json H limits" "topology_document H limits" for H limits
proof unfold_locales
  fix v assume g: "topology_document H limits v"
  then have final: "TopologyGeneration_finalize H limits v = Inr v" by (simp add: topology_document_def)
  have again: "TopologyGeneration_finalize H limits (v\<lparr>topo_digest := zero_digest\<rparr>) = Inr v"
    by (rule topology_finalize_again[OF final])
  have ids: "valid_id (topo_id v)" "valid_id (topo_epoch v)" "valid_id (topo_incarnation v)" "valid_id (topo_revision v)"
    "valid_id (topo_source v)" and bounds: "length (devices v) \<le> unat (max_devices_per_topology limits)"
    "length (links v) \<le> unat (max_links_per_topology limits)" "length (ports v) \<le> unat (max_links_per_topology limits) * 2"
    using final by (auto simp: TopologyGeneration_finalize_def try_bind_eq_Inr first_error_Inr not_less
        simp del: first_error.simps)
  note items = topology_inv_valid[OF finalize_inv[OF final]]
  have undigested: "\<lparr>topo_id = topo_id v, topo_epoch = topo_epoch v, topo_incarnation = topo_incarnation v,
      topo_revision = topo_revision v, topo_sequence = topo_sequence v, topo_source = topo_source v,
      topo_created = topo_created v, topo_received = topo_received v, devices = devices v, ports = ports v,
      links = links v, topo_digest = zero_digest\<rparr> = v\<lparr>topo_digest := zero_digest\<rparr>"
    by simp
  show "topology_of_json H limits (topology_json v) = Inr v"
    using g bounds
    by (simp add: topology_of_json_def found topology_members ids topology_document_def again undigested
        device_document.read_all[OF items(1)] port_document.read_all[OF items(2)] link_document.read_all[OF items(3)])
qed

section \<open>Route generations\<close>

text \<open>
  The text of a hop has no flag for its egress link: the link is there when the member is. A hop whose flag
  and link disagree does not survive.
\<close>

definition hop_document :: "ExpectedHop \<Rightarrow> bool" where
  "hop_document h \<longleftrightarrow>
     valid_id (eh_id h) \<and> valid_id (eh_device h) \<and> valid_id (eh_ingress h) \<and> valid_id (eh_egress h) \<and>
     has_egress_link h = valid_id (eh_egress_link h)"

lemma hop_members:
  "json_object (hop_json h)"
  "json_find ''id'' (hop_json h) = Some (make_number_u64 (id_value (eh_id h)))"
  "json_find ''index'' (hop_json h) = Some (make_number_u64 (ucast (eh_index h)))"
  "json_find ''device'' (hop_json h) = Some (make_number_u64 (id_value (eh_device h)))"
  "json_find ''ingress'' (hop_json h) = Some (make_number_u64 (id_value (eh_ingress h)))"
  "json_find ''egress'' (hop_json h) = Some (make_number_u64 (id_value (eh_egress h)))"
  "json_find ''link'' (hop_json h) = (if has_egress_link h then Some (make_number_u64 (id_value (eh_egress_link h))) else None)"
  by (simp_all add: hop_json_def doc_simps)

interpretation hop_document: document hop_json "expected_hop_of_json n" hop_document for n
proof unfold_locales
  fix h assume g: "hop_document h"
  have "optional_u64 (hop_json h) ''link'' 0 = Inr (id_value (eh_egress_link h))"
    using g by (cases "eh_egress_link h") (auto simp: hop_document_def optional_found hop_members valid_id_def)
  moreover have "eh_egress_link h = (if id_value (eh_egress_link h) \<noteq> 0 then from_value (id_value (eh_egress_link h)) else no_id)"
    by (cases "eh_egress_link h") (simp add: from_value_def no_id_def)
  ultimately show "expected_hop_of_json n (hop_json h) = Inr h"
    using g by (simp add: expected_hop_of_json_def found hop_members hop_document_def valid_id_def)
qed

lemma read_expected_hops_written: "list_all hop_document hs \<Longrightarrow> read_expected_hops n (map hop_json hs) = Inr hs"
  by (induction hs arbitrary: n) (simp_all add: hop_document.read_render)

lemma group_members:
  "json_object (group_json g)"
  "json_find ''id'' (group_json g) = Some (make_number_u64 (id_value (group_id g)))"
  "json_find ''origin'' (group_json g) = Some (make_number_u64 (id_value (group_origin g)))"
  "json_find ''destination'' (group_json g) = Some (make_number_u64 (id_value (group_destination g)))"
  "json_find ''label'' (group_json g) = Some (JString (group_label g))"
  "json_find ''members'' (group_json g) = Some (JArray (map (\<lambda>m. make_number_u64 (id_value m)) (members g)))"
  by (simp_all add: group_json_def doc_simps)

interpretation member_document: document "\<lambda>m. make_number_u64 (id_value m)" member_of_json valid_id
proof unfold_locales
  fix m :: PathId assume "valid_id m"
  then show "member_of_json (make_number_u64 (id_value m)) = Inr m"
    using as_u64_make[of "id_value m"]
    by (cases m) (simp add: member_of_json_def make_number_u64_def to_id_def from_value_def valid_id_def)
qed

definition group_document :: "Limits \<Rightarrow> PathGroup \<Rightarrow> bool" where
  "group_document limits g \<longleftrightarrow>
     valid_id (group_id g) \<and> valid_id (group_origin g) \<and> valid_id (group_destination g) \<and> list_all valid_id (members g) \<and>
     length (members g) \<le> unat (max_members_per_group limits)"

interpretation group_document: document group_json "group_of_json limits" "group_document limits" for limits
  by unfold_locales
    (simp add: group_of_json_def found group_members group_document_def member_document.read_all)

lemma path_members:
  "json_object (path_json p)"
  "json_find ''id'' (path_json p) = Some (make_number_u64 (id_value (path_id p)))"
  "json_find ''group'' (path_json p) = Some (make_number_u64 (id_value (path_group p)))"
  "json_find ''generation'' (path_json p) = Some (make_number_u64 (id_value (path_generation p)))"
  "json_find ''hops'' (path_json p) = Some (JArray (map hop_json (path_hops p)))"
  by (simp_all add: path_json_def doc_simps)

text \<open>The digest of a path is not written; it is computed again.\<close>

definition path_document :: "Limits \<Rightarrow> ExpectedPath \<Rightarrow> bool" where
  "path_document limits p \<longleftrightarrow>
     valid_id (path_id p) \<and> valid_id (path_group p) \<and> list_all hop_document (path_hops p) \<and>
     length (path_hops p) \<le> unat (max_hops_per_path limits)"

lemma path_of_written:
  "path_document limits p \<Longrightarrow> path_of_json limits i (path_json p) = Inr (p\<lparr>path_digest := zero_digest\<rparr>)"
  by (cases "path_generation p")
    (simp add: path_of_json_def found path_members path_document_def read_expected_hops_written from_value_def)

lemma paths_of_written:
  "list_all (path_document limits) ps \<Longrightarrow>
   read_items (path_of_json limits i) (map path_json ps) = Inr (map (\<lambda>p. p\<lparr>path_digest := zero_digest\<rparr>) ps)"
  by (induction ps) (simp_all add: path_of_written)

definition routes_document :: "hasher \<Rightarrow> Limits \<Rightarrow> RouteGeneration \<Rightarrow> bool" where
  "routes_document H limits v \<longleftrightarrow>
     RouteGeneration_finalize H limits v = Inr v \<and> valid_id (route_sequence v) \<and> is_set (route_created v) \<and>
     is_set (route_received v) \<and>
     list_all (\<lambda>p. list_all (\<lambda>h. has_egress_link h = valid_id (eh_egress_link h)) (path_hops p)) (paths v)"

lemma routes_members:
  "json_object (routes_json v)"
  "json_find ''kind'' (routes_json v) = Some (JString kRoutesKindTag)"
  "json_find ''generation'' (routes_json v) = Some (make_number_u64 (id_value (route_id v)))"
  "json_find ''epoch'' (routes_json v) = Some (make_number_u64 (id_value (route_epoch v)))"
  "json_find ''incarnation'' (routes_json v) = Some (make_number_u64 (id_value (route_incarnation v)))"
  "json_find ''revision'' (routes_json v) = Some (make_number_u64 (id_value (route_revision v)))"
  "json_find ''sequence'' (routes_json v) = Some (make_number_u64 (id_value (route_sequence v)))"
  "json_find ''source'' (routes_json v) = Some (make_number_u64 (id_value (route_source v)))"
  "json_find ''topology_generation'' (routes_json v) = Some (make_number_u64 (id_value (route_topology v)))"
  "json_find ''created'' (routes_json v) = Some (JString (to_rfc3339 (route_created v)))"
  "json_find ''received'' (routes_json v) = Some (JString (to_rfc3339 (route_received v)))"
  "json_find ''groups'' (routes_json v) = Some (JArray (map group_json (groups v)))"
  "json_find ''paths'' (routes_json v) = Some (JArray (map path_json (paths v)))"
  by (simp_all add: routes_json_def doc_simps)

text \<open>What finalising has checked is all that the readers ask for.\<close>

lemma final_route_ids:
  assumes "RouteGeneration_finalize H limits v = Inr v"
  shows "list_all (\<lambda>p. valid_id (path_id p) \<and> valid_id (path_group p) \<and>
      list_all (\<lambda>h. valid_id (eh_id h) \<and> valid_id (eh_device h) \<and> valid_id (eh_ingress h) \<and> valid_id (eh_egress h)) (path_hops p))
      (paths v)"
    and "list_all (\<lambda>g. valid_id (group_id g) \<and> valid_id (group_origin g) \<and> valid_id (group_destination g)) (groups v)"
proof -
  note shape = route_finalize_shape[OF assms]
  have "list_all (\<lambda>p. valid_id (path_id p) \<and> valid_id (path_group p) \<and>
      list_all (\<lambda>h. valid_id (eh_id h) \<and> valid_id (eh_device h) \<and> valid_id (eh_ingress h) \<and> valid_id (eh_egress h)) (path_hops p))
      (sort_by_key path_id (paths v))"
    using shape(5) by (auto simp: indexed_checks_Inr path_checks_def expected_hop_checks_def Let_def list_all_length)
  then show "list_all (\<lambda>p. valid_id (path_id p) \<and> valid_id (path_group p) \<and>
      list_all (\<lambda>h. valid_id (eh_id h) \<and> valid_id (eh_device h) \<and> valid_id (eh_ingress h) \<and> valid_id (eh_egress h)) (path_hops p))
      (paths v)" by (simp add: list_all_iff)
  have "list_all (\<lambda>g. valid_id (group_id g) \<and> valid_id (group_origin g) \<and> valid_id (group_destination g))
      (sort_by_key group_id (groups v))"
    using shape(6) by (auto simp: indexed_checks_Inr group_checks_def Let_def list_all_length)
  then show "list_all (\<lambda>g. valid_id (group_id g) \<and> valid_id (group_origin g) \<and> valid_id (group_destination g)) (groups v)"
    by (simp add: list_all_iff)
qed

lemma found_path_id: "find_path g m = Some p \<Longrightarrow> path_id p = m \<and> p \<in> set (paths g)"
  using find_by_key_sound[of path_id m "paths g" p] by (simp add: find_path_def)

lemma routes_document_parts:
  assumes "routes_document H limits v"
  shows "list_all (path_document limits) (paths v)" and "list_all (group_document limits) (groups v)"
proof -
  have final: "RouteGeneration_finalize H limits v = Inr v" using assms by (simp add: routes_document_def)
  note ids = final_route_ids[OF final] and bounds = final_route_bounds[OF final]
  show "list_all (path_document limits) (paths v)"
    using ids(1) bounds(4) assms by (auto simp: routes_document_def path_document_def hop_document_def list_all_iff)
  have "list_all valid_id (members g)" if "g \<in> set (groups v)" for g
    using route_finalize_inv[OF final] that ids(1) found_path_id by (fastforce simp: route_inv_def list_all_iff)
  then show "list_all (group_document limits) (groups v)"
    using ids(2) bounds(3) by (simp add: group_document_def list_all_iff)
qed

interpretation routes_document:
  document routes_json "routes_of_json H limits" "routes_document H limits" for H limits
proof unfold_locales
  fix v assume g: "routes_document H limits v"
  then have final: "RouteGeneration_finalize H limits v = Inr v" by (simp add: routes_document_def)
  have ids: "valid_id (route_id v)" "valid_id (route_epoch v)" "valid_id (route_incarnation v)" "valid_id (route_revision v)"
    "valid_id (route_source v)" "valid_id (route_topology v)"
    using final by (auto simp: RouteGeneration_finalize_def try_bind_eq_Inr first_error_Inr simp del: first_error.simps)
  note again = route_finalize_again[OF final, of zero_digest "\<lambda>_. zero_digest"]
  have undigested: "\<lparr>route_id = route_id v, route_epoch = route_epoch v, route_incarnation = route_incarnation v,
      route_revision = route_revision v, route_sequence = route_sequence v, route_source = route_source v,
      route_topology = route_topology v, route_created = route_created v, route_received = route_received v,
      groups = groups v, paths = map (\<lambda>p. p\<lparr>path_digest := zero_digest\<rparr>) (paths v), route_digest = zero_digest\<rparr> =
      v\<lparr>paths := map (\<lambda>p. p\<lparr>path_digest := zero_digest\<rparr>) (paths v), route_digest := zero_digest\<rparr>"
    by simp
  show "routes_of_json H limits (routes_json v) = Inr v"
    using g final_route_bounds(1,2)[OF final]
    by (simp add: routes_of_json_def found routes_members ids routes_document_def again undigested
        group_document.read_all[OF routes_document_parts(2)[OF g]] paths_of_written[OF routes_document_parts(1)[OF g]])
qed

section \<open>Evidence\<close>

lemma observed_hop_members:
  "json_object (observed_hop_json h)"
  "json_find ''index'' (observed_hop_json h) = Some (make_number_u64 (ucast (oh_index h)))"
  "json_find ''device'' (observed_hop_json h) = Some (make_number_u64 (id_value (oh_device h)))"
  "json_find ''ingress'' (observed_hop_json h) = (if valid_id (oh_ingress h) then Some (make_number_u64 (id_value (oh_ingress h))) else None)"
  "json_find ''egress'' (observed_hop_json h) = (if valid_id (oh_egress h) then Some (make_number_u64 (id_value (oh_egress h))) else None)"
  "json_find ''link'' (observed_hop_json h) = (if valid_id (oh_link h) then Some (make_number_u64 (id_value (oh_link h))) else None)"
  "json_find ''link_provenance'' (observed_hop_json h) = Some (JString (HopLinkProvenance_to_string (oh_link_provenance h)))"
  "json_find ''at'' (observed_hop_json h) = (if is_set (oh_at h) then Some (JString (to_rfc3339 (oh_at h))) else None)"
  by (simp_all add: observed_hop_json_def doc_simps)

lemma optional_number_found:
  "json_find k ob = (if valid_id i then Some (make_number_u64 (id_value i)) else None) \<Longrightarrow>
     optional_u64 ob k 0 = Inr (id_value i)"
  by (cases "valid_id i") (simp_all add: optional_found, cases i, simp add: valid_id_def)

lemma optional_time_found:
  "json_find k ob = (if is_set t then Some (JString (to_rfc3339 t)) else None) \<Longrightarrow> optional_time ob k unset = Inr t"
  by (cases "is_set t") (simp_all add: optional_found, cases t, simp add: is_set_def unset_def)

lemma from_value_id [simp]: "from_value (id_value i) = i"
  by (cases i) (simp add: from_value_def)

interpretation observed_hop_document:
  document observed_hop_json "observed_hop_of_json previous" "\<lambda>h. valid_id (oh_device h)" for previous
  by unfold_locales
    (simp add: observed_hop_of_json_def found optional_number_found optional_time_found observed_hop_members)

lemma read_observed_hops_written:
  "list_all (\<lambda>h. valid_id (oh_device h)) hs \<Longrightarrow> read_observed_hops previous (map observed_hop_json hs) = Inr hs"
  by (induction hs arbitrary: previous) (simp_all add: observed_hop_document.read_render)

text \<open>
  Sealed evidence with both timestamps set. Validation is content with one of them, but the writer prints
  both, and an instant that is not set as a word that the reader refuses.
\<close>

definition evidence_document :: "hasher \<Rightarrow> Limits \<Rightarrow> ObservedPathEvidence \<Rightarrow> bool" where
  "evidence_document H limits v \<longleftrightarrow>
     evidence_validate H limits v = ok \<and> ev_id v = compute_evidence_id H v \<and>
     length (digest_bytes (payload_digest v)) = 32 \<and> is_set (observed_at v) \<and> is_set (received_at v)"

lemma evidence_members:
  "json_object (evidence_json v)"
  "json_find ''kind'' (evidence_json v) = Some (JString kEvidenceKindTag)"
  "json_find ''source'' (evidence_json v) = Some (make_number_u64 (id_value (ev_source v)))"
  "json_find ''incarnation'' (evidence_json v) = Some (make_number_u64 (id_value (ev_incarnation v)))"
  "json_find ''sequence'' (evidence_json v) = Some (make_number_u64 (id_value (ev_sequence v)))"
  "json_find ''surface'' (evidence_json v) = Some (JString (ProofSurface_to_string (ev_surface v)))"
  "json_find ''authority'' (evidence_json v) = Some (JString (AuthorityClass_to_string (ev_authority v)))"
  "json_find ''epoch'' (evidence_json v) = Some (make_number_u64 (id_value (ev_epoch v)))"
  "json_find ''claimed_incarnation'' (evidence_json v) = Some (make_number_u64 (id_value (claimed_incarnation v)))"
  "json_find ''revision'' (evidence_json v) = Some (make_number_u64 (id_value (ev_revision v)))"
  by (simp_all add: evidence_json_def doc_simps)

lemma evidence_optional_members:
  "json_find ''route_generation'' (evidence_json v) =
     (if present (ev_route_generation v) then Some (make_number_u64 (id_value (maybe_value (ev_route_generation v)))) else None)"
  "json_find ''topology_generation'' (evidence_json v) =
     (if present (ev_topology_generation v) then Some (make_number_u64 (id_value (maybe_value (ev_topology_generation v)))) else None)"
  "json_find ''path'' (evidence_json v) =
     (if present (ev_path v) then Some (make_number_u64 (id_value (maybe_value (ev_path v)))) else None)"
  "json_find ''group'' (evidence_json v) =
     (if present (ev_group v) then Some (make_number_u64 (id_value (maybe_value (ev_group v)))) else None)"
  "json_find ''origin'' (evidence_json v) =
     (if present (ev_origin v) then Some (make_number_u64 (id_value (maybe_value (ev_origin v)))) else None)"
  "json_find ''destination'' (evidence_json v) =
     (if present (ev_destination v) then Some (make_number_u64 (id_value (maybe_value (ev_destination v)))) else None)"
  by (simp_all add: evidence_json_def doc_simps)

lemma evidence_other_members:
  "json_find ''observed_at'' (evidence_json v) = Some (JString (to_rfc3339 (observed_at v)))"
  "json_find ''received_at'' (evidence_json v) = Some (JString (to_rfc3339 (received_at v)))"
  "json_find ''truncated'' (evidence_json v) = Some (JBoolean (source_truncated v))"
  "json_find ''completeness'' (evidence_json v) = Some (JString (EvidenceCompleteness_to_string (declared_completeness v)))"
  "json_find ''payload_digest'' (evidence_json v) = Some (JString (Digest_hex (payload_digest v)))"
  "json_find ''note'' (evidence_json v) = Some (JString (ev_note v))"
  "json_find ''hops'' (evidence_json v) = Some (JArray (map observed_hop_json (ev_hops v)))"
  by (simp_all add: evidence_json_def doc_simps)

lemma payload_of_written:
  "length (digest_bytes (payload_digest v)) = 32 \<Longrightarrow> payload_of_json (evidence_json v) = Inr (payload_digest v)"
  by (simp add: payload_of_json_def found evidence_other_members parse_hex_hex)
    (auto simp: Digest_hex_def hex_bytes_length dest: arg_cong[of _ _ length])

lemma evidence_same_id: "v\<lparr>ev_id := ev_id v\<rparr> = (v :: ObservedPathEvidence)"
  by simp

interpretation evidence_document:
  document evidence_json "evidence_of_json H limits" "evidence_document H limits" for H limits
proof unfold_locales
  fix v assume g: "evidence_document H limits v"
  then have valid: "evidence_validate H limits v = ok" by (simp add: evidence_document_def)
  have ids: "valid_id (ev_incarnation v)" "valid_id (ev_sequence v)" "valid_id (claimed_incarnation v)" "valid_id (ev_revision v)"
    using valid unfolding evidence_validate_def by (simp_all add: first_error_Inr del: first_error.simps)
  note valid_parts = evidence_validateD[OF valid]
  have hops: "list_all (\<lambda>h. valid_id (oh_device h)) (ev_hops v)"
    using hop_checks_ok(1)[OF valid_parts(8)] by (simp add: list_all_iff)
  have unsealed: "\<lparr>ev_id = no_digest_id, ev_source = ev_source v, ev_incarnation = ev_incarnation v,
      ev_sequence = ev_sequence v, ev_surface = ev_surface v, ev_authority = ev_authority v, ev_path = ev_path v,
      ev_group = ev_group v, ev_origin = ev_origin v, ev_destination = ev_destination v, ev_epoch = ev_epoch v,
      claimed_incarnation = claimed_incarnation v, ev_route_generation = ev_route_generation v,
      ev_topology_generation = ev_topology_generation v, ev_revision = ev_revision v, observed_at = observed_at v,
      received_at = received_at v, ev_hops = ev_hops v, source_truncated = source_truncated v,
      declared_completeness = declared_completeness v, payload_digest = payload_digest v, ev_note = ev_note v\<rparr>
    = v\<lparr>ev_id := no_digest_id\<rparr>"
    by simp
  have "seal H (v\<lparr>ev_id := no_digest_id\<rparr>) = v\<lparr>ev_id := compute_evidence_id H v\<rparr>"
    by (simp add: seal_def compute_evidence_id_def)
  then have sealed: "seal H (v\<lparr>ev_id := no_digest_id\<rparr>) = v" using g unfolding evidence_document_def by (metis evidence_same_id)
  show "evidence_of_json H limits (evidence_json v) = Inr v"
    using g valid_parts(5)
    by (simp add: evidence_of_json_def found evidence_members evidence_optional_members evidence_other_members ids
        valid_parts(1,2) payload_of_written evidence_document_def read_observed_hops_written[OF hops] unsealed
        validate_unsealed[OF valid] sealed)
qed

section \<open>What a reader returns\<close>

text \<open>A reader only returns what it has validated.\<close>

lemma source_of_json_sound: "source_of_json ob = Inr d \<Longrightarrow> SourceDescriptor_validate d = ok"
  by (auto simp: source_of_json_def try_bind_eq_Inr Let_def split: if_splits)

lemma topology_of_json_sound:
  "topology_of_json H limits ob = Inr t \<Longrightarrow> \<exists>g. TopologyGeneration_finalize H limits g = Inr t"
  by (auto simp: topology_of_json_def try_bind_eq_Inr)

lemma routes_of_json_sound:
  "routes_of_json H limits ob = Inr t \<Longrightarrow> \<exists>g. RouteGeneration_finalize H limits g = Inr t"
  by (auto simp: routes_of_json_def try_bind_eq_Inr)

definition sound_evidence :: "hasher \<Rightarrow> Limits \<Rightarrow> ObservedPathEvidence \<Rightarrow> bool" where
  "sound_evidence H limits e \<longleftrightarrow> evidence_validate H limits e = ok \<and> ev_id e = compute_evidence_id H e"

lemma validate_sealed:
  assumes "evidence_validate H limits e = ok"
  shows "evidence_validate H limits (seal H e) = ok"
  using assms unfolding evidence_validate_def
  by (simp add: first_error_Inr seal_def compute_evidence_id_def del: first_error.simps)

lemma seal_sound: "evidence_validate H limits e = ok \<Longrightarrow> sound_evidence H limits (seal H e)"
  using validate_sealed[of H limits e] by (simp add: sound_evidence_def seal_def compute_evidence_id_def)

lemma evidence_of_json_sound: "evidence_of_json H limits ob = Inr e \<Longrightarrow> sound_evidence H limits e"
  by (auto simp: evidence_of_json_def try_bind_eq_Inr Let_def intro!: seal_sound)

lemma parse_evidence_sound: "parse_evidence H limits t = Inr e \<Longrightarrow> sound_evidence H limits e"
  by (auto simp: parse_evidence_def try_bind_eq_Inr intro: evidence_of_json_sound)

lemma evidence_lines_sound:
  assumes "evidence_lines H limits n out t = Inr es" and "list_all (sound_evidence H limits) out"
    and "length out \<le> unat (max_evidence_per_ingest_batch limits)"
  shows "list_all (sound_evidence H limits) es \<and> length es \<le> unat (max_evidence_per_ingest_batch limits)"
  using assms
proof (induction H limits n out t rule: evidence_lines.induct)
  case (2 H limits n out c cs)
  let ?line = "trim_line (takeWhile (\<lambda>c. c \<noteq> CHR 0x0A) (c # cs))"
  show ?case
  proof (cases "?line = [] \<or> hd ?line = CHR ''#''")
    case True
    then show ?thesis using 2 by (simp add: evidence_lines.simps(2) Let_def)
  next
    case False
    then obtain v where v: "parse_evidence H limits ?line = Inr v" "length (out @ [v]) \<le> unat (max_evidence_per_ingest_batch limits)"
      "evidence_lines H limits (n + 1) (out @ [v]) (drop 1 (dropWhile (\<lambda>c. c \<noteq> CHR 0x0A) (c # cs))) = Inr es"
      using 2(3) by (auto simp: evidence_lines.simps(2) Let_def split: sum.splits if_splits)
    show ?thesis
      using 2(2)[OF refl refl refl refl False v(1) _ v(3)] v(2) 2(4) parse_evidence_sound[OF v(1)] by simp
  qed
qed simp

text \<open>
  Evidence that carries only the time it was received is valid, and is printed with an observation time
  that no reader accepts.
\<close>

lemma received_only_not_readable:
  assumes "\<not> is_set (observed_at v)" and "evidence_of_json H limits (evidence_json v) = Inr w"
  shows False
proof -
  have "observed_at v = unset" using assms(1) by (cases "observed_at v") (simp add: is_set_def unset_def)
  then have "optional_time (evidence_json v) ''observed_at'' unset = Inl (Error InvalidFormat ''timestamp is too short for RFC 3339'')"
    by (simp add: optional_time_def optional_member_find evidence_other_members unset_not_readable)
  then show False using assms(2) by (auto simp: evidence_of_json_def try_bind_eq_Inr)
qed

end
