(* ===== verification/Reports.thy ===== *)
theory Reports
  imports Documents
begin

text \<open>
  The report writers of \<open>src/documents.cpp\<close>: comparisons, findings, history, recovery, metrics and runtime
  statistics. The free text of a comparison (the reason of every judgement and the rationale) and the count
  of invalid records of a recovery report are arguments, because the records of the model do not carry
  them. Nested reports are printed and read back, as the code does, and become null when reading fails.
\<close>

section \<open>Comparisons\<close>

definition set_nat :: "string \<Rightarrow> nat \<Rightarrow> JsonValue \<Rightarrow> JsonValue" where
  "set_nat key n ob = set_u64 key (of_nat n) ob"

definition set_texts :: "string \<Rightarrow> string list \<Rightarrow> JsonValue \<Rightarrow> JsonValue" where
  "set_texts key ts ob = set_array key (map JString ts) ob"

definition judgement_json :: "EvidenceJudgement \<Rightarrow> string \<Rightarrow> JsonValue" where
  "judgement_json j reason = make_object
     [set_string ''evidence'' (DigestId_str (judged_id j)), set_bool ''accepted'' (judged_accepted j),
      set_string ''rejection'' (to_code (judged_rejection j)),
      set_string ''freshness'' (Freshness_to_string (judged_freshness j)),
      set_string ''surface'' (ProofSurface_to_string (judged_surface j)),
      set_string ''authority'' (AuthorityClass_to_string (judged_authority j)),
      set_string ''completeness'' (EvidenceCompleteness_to_string (judged_completeness j)),
      set_string ''reason'' reason]"

definition set_expected_hop :: "ExpectedHop option \<Rightarrow> JsonValue \<Rightarrow> JsonValue" where
  "set_expected_hop e ob =
     (case e of
        None \<Rightarrow> ob
      | Some h \<Rightarrow> set_id ''expected_egress'' (eh_egress h)
                    (set_id ''expected_ingress'' (eh_ingress h) (set_id ''expected_device'' (eh_device h) ob)))"

definition set_observed_hop :: "ObservedHop option \<Rightarrow> JsonValue \<Rightarrow> JsonValue" where
  "set_observed_hop e ob =
     (case e of
        None \<Rightarrow> ob
      | Some h \<Rightarrow> set_when (valid_id (oh_egress h)) (set_id ''observed_egress'' (oh_egress h))
                    (set_when (valid_id (oh_ingress h)) (set_id ''observed_ingress'' (oh_ingress h))
                       (set_id ''observed_device'' (oh_device h) ob)))"

definition difference_json :: "HopDifference \<Rightarrow> JsonValue" where
  "difference_json d = make_object
     [set_u64 ''index'' (ucast (diff_index d)), set_string ''detail'' (to_code (diff_detail d)),
      set_expected_hop (diff_expected d), set_observed_hop (diff_observed d)]"

definition comparison_json :: "string list \<Rightarrow> string list \<Rightarrow> ComparisonResult \<Rightarrow> JsonValue" where
  "comparison_json reasons rationale v = make_object
     [set_string ''kind'' ''pathobs.comparison'', set_string ''id'' (DigestId_str (cmp_id v)),
      set_id ''route_generation'' (cmp_generation v), set_id ''topology_generation'' (cmp_topology v),
      set_maybe ''group'' (cmp_group v), set_maybe ''path'' (cmp_path v), set_maybe ''matched_path'' (matched_path v),
      set_string ''outcome'' (MatchOutcome_to_string (outcome v)),
      set_string ''compliance'' (if is_compliance (outcome v) then ''true'' else ''false''),
      set_string ''primary_class'' (to_code (primary v)),
      set_string ''primary_category'' (DivergenceCategory_to_string (category_of (primary v))),
      set_texts ''classes'' (map to_code (classes v)),
      set_string ''freshness'' (Freshness_to_string (cmp_freshness v)),
      set_string ''completeness'' (EvidenceCompleteness_to_string (completeness v)),
      set_string ''consistency'' (ObservationConsistency_to_string (consistency v)),
      set_string ''proof_surface'' (ProofSurface_to_string (cmp_surface v)),
      set_bool ''multipath'' (cmp_multipath v), set_bool ''multipath_ambiguous'' (multipath_ambiguous v),
      set_nat ''evidence_offered'' (evidence_offered v), set_nat ''evidence_considered'' (evidence_considered v),
      set_nat ''evidence_rejected'' (evidence_rejected v), set_nat ''duplicate_evidence'' (duplicate_evidence v),
      set_time ''evaluated_at'' (evaluated_at v),
      set_array ''judgements'' (map2 judgement_json (judgements v) reasons),
      set_array ''differences'' (map difference_json (differences v)),
      set_texts ''rationale'' rationale]"

section \<open>Findings and history\<close>

definition finding_json :: "Finding \<Rightarrow> JsonValue" where
  "finding_json v = make_object
     [set_string ''kind'' ''pathobs.finding'', set_string ''id'' (DigestId_str (finding_id v)),
      set_string ''class'' (to_code (cls v)),
      set_string ''category'' (DivergenceCategory_to_string (category_of (cls v))),
      set_maybe ''group'' (finding_group v), set_maybe ''path'' (finding_path v),
      set_id ''route_generation'' (finding_generation v), set_id ''topology_generation'' (finding_topology v),
      set_string ''status'' (FindingStatus_to_string (status v)), set_u64 ''occurrences'' (occurrences v),
      set_time ''first_seen'' (first_seen v), set_time ''last_seen'' (last_seen v),
      set_string ''last_comparison'' (DigestId_str (last_comparison v)), set_string ''detail'' (finding_detail v),
      set_texts ''evidence'' (map DigestId_str (finding_evidence v)),
      set_array ''hop_indices'' (map (\<lambda>i. make_number_u64 (ucast i)) (hop_indices v))]"

definition history_record_json :: "HistoryRecord \<Rightarrow> JsonValue" where
  "history_record_json v = make_object
     [set_string ''kind'' ''pathobs.history_record'', set_string ''id'' (DigestId_str (hist_id v)),
      set_id ''route_generation'' (hist_generation v), set_id ''topology_generation'' (hist_topology v),
      set_maybe ''group'' (hist_group v), set_maybe ''path'' (hist_path v),
      set_string ''outcome'' (MatchOutcome_to_string (hist_outcome v)),
      set_string ''primary_class'' (to_code (hist_primary v)),
      set_string ''freshness'' (Freshness_to_string (hist_freshness v)),
      set_string ''completeness'' (EvidenceCompleteness_to_string (hist_completeness v)),
      set_string ''consistency'' (ObservationConsistency_to_string (hist_consistency v)),
      set_string ''proof_surface'' (ProofSurface_to_string (hist_surface v)),
      set_u64 ''evidence_considered'' (ucast (hist_considered v)),
      set_u64 ''evidence_rejected'' (ucast (hist_rejected v)),
      set_time ''evaluated_at'' (hist_evaluated_at v)]"

text \<open>A report that is printed compactly, read back under the default limits and embedded.\<close>

definition embedded :: "JsonValue \<Rightarrow> JsonValue" where
  "embedded report = (case json_parse default_limits (json_dump False report) of Inr v \<Rightarrow> v | Inl _ \<Rightarrow> JNull)"

definition history_query_json :: "HistoryQueryResult \<Rightarrow> JsonValue" where
  "history_query_json v = make_object
     [set_string ''kind'' ''pathobs.history'', set_nat ''matched'' (matched v),
      set_nat ''excluded_by_window'' (excluded_by_window v), set_nat ''excluded_by_filter'' (excluded_by_filter v),
      set_bool ''truncated'' (History.truncated v),
      set_array ''records'' (map (\<lambda>r. embedded (history_record_json r)) (records v))]"

section \<open>Recovery, metrics and statistics\<close>

definition recovery_json :: "u64 \<Rightarrow> RecoveryReport \<Rightarrow> JsonValue" where
  "recovery_json invalid_records v = make_object
     [set_string ''kind'' ''pathobs.store_recovery'', set_bool ''created'' (store_created v),
      set_bool ''used_secondary_header_slot'' (used_secondary_header_slot v),
      set_bool ''unclean_previous_shutdown'' (unclean_previous_shutdown v),
      set_bool ''corrupt_tail_truncated'' (corrupt_tail_truncated v), set_nat ''valid_records'' (valid_records v),
      set_u64 ''invalid_records'' invalid_records, set_nat ''bytes'' (report_bytes v),
      set_u64 ''restart_count'' (ucast (restart_count v)), set_u64 ''header_generation'' (header_generation v),
      set_id ''store_incarnation'' (store_incarnation v), set_string ''truncate_detail'' (truncate_detail v),
      set_time ''created_at'' (created_at v), set_time ''opened_at'' (opened_at v)]"

definition metrics_json :: "MetricsSnapshot \<Rightarrow> JsonValue" where
  "metrics_json v = make_object
     [set_string ''kind'' ''pathobs.metrics'',
      set_u64 ''evidence_offered'' (m_evidence_offered v), set_u64 ''evidence_accepted'' (m_evidence_accepted v),
      set_u64 ''evidence_rejected'' (m_evidence_rejected v),
      set_u64 ''evidence_unregistered_source'' (m_evidence_unregistered_source v),
      set_u64 ''evidence_replayed'' (m_evidence_replayed v), set_u64 ''evidence_gap_events'' (m_evidence_gap_events v),
      set_u64 ''comparisons'' (m_comparisons v), set_u64 ''matches'' (m_matches v),
      set_u64 ''divergences'' (m_divergences v), set_u64 ''indeterminate'' (m_indeterminate v),
      set_u64 ''unsupported'' (m_unsupported v), set_u64 ''no_expected_state'' (m_no_expected_state v),
      set_u64 ''findings_recorded'' (m_findings_recorded v), set_u64 ''findings_resolved'' (m_findings_resolved v),
      set_u64 ''findings_evicted'' (m_findings_evicted v), set_u64 ''queue_submitted'' (m_queue_submitted v),
      set_u64 ''queue_rejected'' (m_queue_rejected v), set_u64 ''tasks_completed'' (m_tasks_completed v),
      set_u64 ''tasks_cancelled'' (m_tasks_cancelled v), set_u64 ''store_appends'' (m_store_appends v),
      set_u64 ''store_records_recovered'' (m_store_records_recovered v),
      set_u64 ''store_corrupt_tail_truncations'' (m_store_corrupt_tail_truncations v),
      set_u64 ''transport_frames_in'' (m_transport_frames_in v),
      set_u64 ''transport_frames_out'' (m_transport_frames_out v),
      set_u64 ''transport_bytes_in'' (m_transport_bytes_in v),
      set_u64 ''transport_bytes_out'' (m_transport_bytes_out v),
      set_u64 ''transport_protocol_violations'' (m_transport_protocol_violations v)]"

definition stats_json :: "u64 \<Rightarrow> RuntimeStats \<Rightarrow> JsonValue" where
  "stats_json invalid_records v = make_object
     [set_string ''kind'' ''pathobs.runtime_stats'', set_string ''state'' (RuntimeState_to_string (stat_state v)),
      set_bool ''has_route_generation'' (has_route_generation v),
      set_bool ''has_topology_generation'' (has_topology_generation v),
      set_id ''epoch'' (stat_epoch v), set_id ''incarnation'' (stat_incarnation v),
      set_id ''route_generation'' (stat_route_generation v),
      set_id ''topology_generation'' (stat_topology_generation v),
      set_id ''route_revision'' (stat_route_revision v), set_nat ''evidence_buckets'' (evidence_buckets v),
      set_nat ''evidence_records'' (evidence_records v), set_nat ''findings'' (stat_findings v),
      set_nat ''findings_open'' (findings_open v), set_nat ''history'' (stat_history v),
      set_nat ''queue_pending'' (queue_pending v),
      json_set ''metrics'' (embedded (metrics_json (stat_metrics v))),
      json_set ''recovery'' (embedded (recovery_json invalid_records (stat_recovery v)))]"

definition comparison_to_json :: "bool \<Rightarrow> string list \<Rightarrow> string list \<Rightarrow> ComparisonResult \<Rightarrow> string" where
  "comparison_to_json pretty reasons rationale v = json_dump pretty (comparison_json reasons rationale v)"

definition finding_to_json :: "bool \<Rightarrow> Finding \<Rightarrow> string" where
  "finding_to_json pretty v = json_dump pretty (finding_json v)"

definition history_record_to_json :: "bool \<Rightarrow> HistoryRecord \<Rightarrow> string" where
  "history_record_to_json pretty v = json_dump pretty (history_record_json v)"

definition history_query_to_json :: "bool \<Rightarrow> HistoryQueryResult \<Rightarrow> string" where
  "history_query_to_json pretty v = json_dump pretty (history_query_json v)"

definition recovery_to_json :: "bool \<Rightarrow> u64 \<Rightarrow> RecoveryReport \<Rightarrow> string" where
  "recovery_to_json pretty invalid_records v = json_dump pretty (recovery_json invalid_records v)"

definition metrics_to_json :: "bool \<Rightarrow> MetricsSnapshot \<Rightarrow> string" where
  "metrics_to_json pretty v = json_dump pretty (metrics_json v)"

definition stats_to_json :: "bool \<Rightarrow> u64 \<Rightarrow> RuntimeStats \<Rightarrow> string" where
  "stats_to_json pretty invalid_records v = json_dump pretty (stats_json invalid_records v)"

end
