(* ===== verification/DocumentBounds.thy ===== *)
theory DocumentBounds
  imports DocumentsRoundTrip Reports
begin

text \<open>
  The size of printed documents, and with it the round trip of documents through their text. Reports are
  embedded in other reports by printing and reading them back, and would silently become null if reading
  failed: the bounds here show that it never does.
\<close>

section \<open>Plain text\<close>

definition plain_text :: "string \<Rightarrow> bool" where
  "plain_text t \<longleftrightarrow> list_all (\<lambda>c. (of_char c :: nat) < 128) t"

lemma plain_text_simps [simp]:
  "plain_text []" "plain_text (c # t) \<longleftrightarrow> (of_char c :: nat) < 128 \<and> plain_text t"
  "plain_text (s @ t) \<longleftrightarrow> plain_text s \<and> plain_text t"
  by (simp_all add: plain_text_def)

lemma plain_text_utf8: "plain_text t \<Longrightarrow> is_valid_utf8 t"
  by (induction t) (simp_all add: is_valid_utf8.simps(2) Let_def word_less_nat_alt)

lemma plain_text_subset: "plain_text t \<Longrightarrow> set s \<subseteq> set t \<Longrightarrow> plain_text s"
  by (auto simp: plain_text_def list_all_iff)

lemma digits_plain: "\<forall>c\<in>set t. is_digit c \<Longrightarrow> plain_text t"
  by (auto simp: plain_text_def list_all_iff is_digit_def)

lemma decimal_plain: "plain_text (decimal n)"
  by (rule digits_plain[OF decimal_digits])

lemma zero_pad_plain: "plain_text (zero_pad w v)"
  using decimal_plain[of "nat v"] by (auto simp: zero_pad_def plain_text_def list_all_iff)

lemma trim_zeros_plain: "plain_text t \<Longrightarrow> plain_text (trim_zeros t)"
proof (rule plain_text_subset)
  have *: "set ds \<subseteq> set t \<Longrightarrow> set (case ds of [] \<Rightarrow> take 1 t | d # ds' \<Rightarrow> d # ds') \<subseteq> set t" for ds
    by (cases ds) (auto dest: in_set_takeD)
  show "set (trim_zeros t) \<subseteq> set t"
    unfolding trim_zeros_def by (rule *) (auto dest: set_dropWhileD)
qed

lemma rfc3339_plain: "plain_text (to_rfc3339 t)"
  by (simp add: to_rfc3339_def zero_pad_plain trim_zeros_plain split: prod.splits)

lemma hex_digit_plain: "v < 16 \<Longrightarrow> (of_char (hex_digit v) :: nat) < 128"
  by (simp add: hex_digit_def)

lemma hex_bytes_plain: "plain_text (hex_bytes bs)"
proof (induction bs)
  case (Cons b bs)
  have "unat b div 16 < 16" "unat b mod 16 < 16" using unsigned_less[of b, where ?'a = nat] by simp_all
  then show ?case using Cons by (simp add: hex_bytes_def hex_digit_plain)
qed (simp add: hex_bytes_def)

section \<open>Length of a printed value\<close>

fun short_json :: "JsonValue \<Rightarrow> bool" where
  "short_json (JNumber t) \<longleftrightarrow> length t \<le> 4096"
| "short_json (JString t) \<longleftrightarrow> length t \<le> 4096"
| "short_json (JArray vs) \<longleftrightarrow> list_all short_json vs"
| "short_json (JObject fs) \<longleftrightarrow> list_all (\<lambda>p. length (fst p) \<le> 4096 \<and> short_json (snd p)) fs"
| "short_json _ \<longleftrightarrow> True"

lemma escape_into_length: "length (escape_into t) \<le> 6 * length t + 2"
proof -
  have "length (escape_char c) \<le> 6" for c by (simp add: escape_char_def Let_def split: option.splits)
  then have "length (concat (map escape_char t)) \<le> 6 * length t"
    by (induction t) (simp_all add: add_mono)
  then show ?thesis by (simp add: escape_into_def)
qed

lemma comma_join_length: "length (comma_join ts) \<le> sum_list (map (\<lambda>t. Suc (length t)) ts)"
  by (induction ts rule: comma_join.induct) simp_all

lemma sum_list_le: "(\<And>x. x \<in> set xs \<Longrightarrow> f x \<le> g x) \<Longrightarrow> sum_list (map f xs) \<le> sum_list (map g xs)" for f g :: "'a \<Rightarrow> nat"
  by (induction xs) (simp_all add: add_mono)

lemma dump_length: "short_json v \<Longrightarrow> length (dump_into v False i) + 25000 \<le> 60000 * node_count v"
proof (induction v arbitrary: i)
  case (JString t)
  then show ?case using escape_into_length[of t] by simp
next
  case (JArray vs)
  have "sum_list (map (\<lambda>v. Suc (length (dump_into v False (i + 2)))) vs) \<le> sum_list (map (\<lambda>v. 60000 * node_count v) vs)"
  proof (rule sum_list_le)
    fix v assume "v \<in> set vs"
    then have "length (dump_into v False (i + 2)) + 25000 \<le> 60000 * node_count v" using JArray by (simp add: list_all_iff)
    then show "Suc (length (dump_into v False (i + 2))) \<le> 60000 * node_count v" by linarith
  qed
  also have "\<dots> = 60000 * sum_list (map node_count vs)" by (simp add: sum_list_const_mult)
  finally show ?case
    using comma_join_length[of "map (\<lambda>v. dump_into v False (i + 2)) vs"] by (simp add: newline_indent_def comp_def)
next
  case (JObject fs)
  have "sum_list (map (\<lambda>p. Suc (length (escape_into (fst p) @ CHR '':'' # dump_into (snd p) False (i + 2)))) fs)
      \<le> sum_list (map (\<lambda>p. 60000 * node_count (snd p)) fs)"
  proof (rule sum_list_le)
    fix p assume p: "p \<in> set fs"
    then have "length (dump_into (snd p) False (i + 2)) + 25000 \<le> 60000 * node_count (snd p)" "length (fst p) \<le> 4096"
      using JObject by (auto simp: list_all_iff snds.simps)
    then show "Suc (length (escape_into (fst p) @ CHR '':'' # dump_into (snd p) False (i + 2))) \<le> 60000 * node_count (snd p)"
      using escape_into_length[of "fst p"] by simp
  qed
  also have "\<dots> = 60000 * sum_list (map (\<lambda>p. node_count (snd p)) fs)" by (simp add: sum_list_const_mult)
  finally show ?case
    using comma_join_length[of "map (\<lambda>p. escape_into (fst p) @ CHR '':'' # dump_into (snd p) False (i + 2)) fs"]
    by (simp add: newline_indent_def comp_def case_prod_beta)
qed simp_all

section \<open>Building small documents\<close>

text \<open>A value of at most \<open>n\<close> nodes, nested at most \<open>d\<close> deep, with short texts, under the default limits.\<close>

definition small :: "nat \<Rightarrow> nat \<Rightarrow> JsonValue \<Rightarrow> bool" where
  "small n d v \<longleftrightarrow> json_wf default_limits v \<and> short_json v \<and> json_depth v \<le> d \<and> node_count v \<le> n"

definition short_text :: "string \<Rightarrow> bool" where
  "short_text t \<longleftrightarrow> is_valid_utf8 t \<and> length t \<le> 4096"

lemma short_json_text: "short_text t \<Longrightarrow> json_text default_limits t"
  by (simp add: short_text_def json_text_def default_limits_def)

lemma small_leaf:
  "short_text t \<Longrightarrow> 0 < n \<Longrightarrow> small n d (JString t)"
  "0 < n \<Longrightarrow> small n d (JBoolean b)" "0 < n \<Longrightarrow> small n d JNull"
  "0 < n \<Longrightarrow> small n d (make_number_u64 w)"
proof -
  have "length (decimal (unat w)) \<le> 20"
    by (rule length_decimal) (use unsigned_less[of w, where ?'a = nat] in simp_all)
  then show "0 < n \<Longrightarrow> small n d (make_number_u64 w)"
    by (simp add: small_def make_number_u64_def decimal_json_number)
qed (simp_all add: small_def short_json_text, simp add: short_text_def)

lemma small_array:
  "list_all (small m d) vs \<Longrightarrow> m * length vs < n \<Longrightarrow> small n (Suc d) (JArray vs)"
proof -
  assume vs: "list_all (small m d) vs" and n: "m * length vs < n"
  have "sum_list (map node_count vs) \<le> m * length vs" using vs by (induction vs) (simp_all add: small_def)
  then show ?thesis using vs n by (auto simp: small_def list_all_iff json_depth_le)
qed

lemma set_put_field: "set (put_field k v fs) \<subseteq> insert (k, v) (set fs)"
  by (induction k v fs rule: put_field.induct) auto

lemma distinct_put_field: "distinct (map fst fs) \<Longrightarrow> distinct (map fst (put_field k v fs))"
proof (induction k v fs rule: put_field.induct)
  case (2 k v k' v' fs)
  then show ?case using set_put_field[of k v fs] by fastforce
qed simp

lemma node_count_put_field:
  "sum_list (map (\<lambda>p. node_count (snd p)) (put_field k v fs)) \<le> sum_list (map (\<lambda>p. node_count (snd p)) fs) + node_count v"
  by (induction k v fs rule: put_field.induct) auto

lemma small_set:
  assumes "small n (Suc d) ob" and "json_object ob" and "small m d v" and "short_text k"
  shows "small (n + m) (Suc d) (json_set k v ob)"
proof -
  obtain fs where ob: "ob = JObject fs" using assms(2) by (cases ob) (simp_all add: json_object_def)
  have "distinct (map fst (put_field k v fs))" using assms(1) distinct_put_field by (simp add: ob small_def)
  moreover have "\<forall>p\<in>set (put_field k v fs). json_text default_limits (fst p) \<and> json_wf default_limits (snd p) \<and>
      length (fst p) \<le> 4096 \<and> short_json (snd p) \<and> json_depth (snd p) \<le> d"
    using assms set_put_field[of k v fs] short_json_text[OF assms(4)]
    by (auto simp: ob small_def list_all_iff json_depth_le short_text_def dest!: subsetD)
  moreover have "node_count (JObject (put_field k v fs)) \<le> n + m"
    using node_count_put_field[of k v fs] assms(1,3) by (simp add: ob small_def)
  ultimately show ?thesis by (simp add: ob json_set_def small_def list_all_iff json_depth_le)
qed

text \<open>A step of a writer that adds at most \<open>m\<close> nodes of depth \<open>d\<close> to an object.\<close>

definition adds :: "nat \<Rightarrow> nat \<Rightarrow> (JsonValue \<Rightarrow> JsonValue) \<Rightarrow> bool" where
  "adds m d f \<longleftrightarrow>
     (\<forall>n ob. json_object ob \<and> small n (Suc d) ob \<longrightarrow> json_object (f ob) \<and> small (n + m) (Suc d) (f ob))"

lemma small_mono: "small n d v \<Longrightarrow> n \<le> n' \<Longrightarrow> small n' d v"
  by (simp add: small_def)

lemma adds_set: "small m d v \<Longrightarrow> short_text k \<Longrightarrow> adds m d (json_set k v)"
  by (simp add: adds_def json_object_set small_set)

lemma adds_skip: "adds m d (\<lambda>ob. ob)"
  by (auto simp: adds_def intro: small_mono)

lemma adds_leaves:
  assumes "short_text k" and "0 < m"
  shows "short_text t \<Longrightarrow> adds m d (set_string k t)" and "adds m d (set_bool k b)" and "adds m d (set_u64 k w)"
    and "adds m d (set_id k i)" and "adds m d (set_time k at)" and "adds m d (set_nat k x)"
    and "adds m d (set_maybe k i')"
proof -
  have u: "adds m d (set_u64 k w)" for w
    using adds_set[OF small_leaf(4)[OF assms(2)] assms(1)] by (simp add: set_u64_def[abs_def])
  then show "adds m d (set_u64 k w)" "adds m d (set_id k i)" "adds m d (set_nat k x)"
    by (simp_all add: set_id_def[abs_def] set_nat_def[abs_def])
  have "set_maybe k i' = (if present i' then set_u64 k (id_value (maybe_value i')) else (\<lambda>ob. ob))"
    by (auto simp: set_maybe_def set_id_def)
  then show "adds m d (set_maybe k i')" using u adds_skip by simp
  show "short_text t \<Longrightarrow> adds m d (set_string k t)"
    using adds_set[OF small_leaf(1)[OF _ assms(2)] assms(1)] by (simp add: set_string_def[abs_def])
  show "adds m d (set_bool k b)"
    using adds_set[OF small_leaf(2)[OF assms(2)] assms(1)] by (simp add: set_bool_def[abs_def])
  have "short_text (to_rfc3339 at)"
    using rfc3339_length[of at] rfc3339_plain[of at] by (simp add: short_text_def plain_text_utf8)
  then show "adds m d (set_time k at)"
    using adds_set[OF small_leaf(1)[OF _ assms(2)] assms(1)] by (simp add: set_time_def[abs_def])
qed

lemma adds_when: "adds m d f \<Longrightarrow> adds m d (set_when c f)"
  using adds_skip by (cases c) (simp_all add: set_when_def[abs_def])

lemma adds_array: "list_all (small l d) vs \<Longrightarrow> l * length vs < m \<Longrightarrow> short_text k \<Longrightarrow> adds m (Suc d) (set_array k vs)"
  using adds_set[OF small_array] by (simp add: set_array_eq[abs_def])

lemma small_fold:
  "list_all (adds m d) fs \<Longrightarrow> json_object ob \<Longrightarrow> small n (Suc d) ob \<Longrightarrow>
   json_object (fold (\<lambda>f. f) fs ob) \<and> small (n + m * length fs) (Suc d) (fold (\<lambda>f. f) fs ob)"
proof (induction fs arbitrary: n ob)
  case (Cons f fs)
  then have "json_object (f ob)" "small (n + m) (Suc d) (f ob)" by (simp_all add: adds_def)
  from Cons.IH[OF _ this] Cons.prems(1) show ?case by (simp add: algebra_simps)
qed simp

lemma small_object: "list_all (adds m d) fs \<Longrightarrow> small (1 + m * length fs) (Suc d) (make_object fs)"
  unfolding make_object_def
  by (rule conjunct2[OF small_fold]) (simp_all add: json_object_def small_def json_depth_le)

text \<open>A small document is read back from its compact text.\<close>

lemma small_reads_back:
  assumes "small n d v" and "n \<le> 1000" and "d \<le> 64"
  shows "json_fits default_limits v" and "length (json_dump False v) \<le> unat (max_document_bytes default_limits)"
proof -
  show "json_fits default_limits v" using assms by (simp add: small_def json_fits_def default_limits_def)
  have "length (json_dump False v) + 25000 \<le> 60000 * node_count v"
    using dump_length[of v 0] assms(1) by (simp add: small_def json_dump_def)
  then show "length (json_dump False v) \<le> unat (max_document_bytes default_limits)"
    using assms by (simp add: small_def default_limits_def)
qed

lemma embedded_small: "small n d v \<Longrightarrow> n \<le> 1000 \<Longrightarrow> d \<le> 64 \<Longrightarrow> embedded v = v"
  using json_parse_dump[OF small_reads_back] by (simp add: embedded_def)

section \<open>Reports\<close>

lemma short_plain: "plain_text t \<Longrightarrow> length t \<le> 4096 \<Longrightarrow> short_text t"
  by (simp add: short_text_def plain_text_utf8)

lemma short_names:
  "short_text (Freshness_to_string f)" "short_text (EvidenceCompleteness_to_string ec)"
  "short_text (ObservationConsistency_to_string oc)" "short_text (ProofSurface_to_string ps)"
  "short_text (MatchOutcome_to_string mo)" "short_text (RuntimeState_to_string rs)"
  subgoal by (cases f) (simp_all add: short_plain)
  subgoal by (cases ec) (simp_all add: short_plain)
  subgoal by (cases oc) (simp_all add: short_plain)
  subgoal by (cases ps) (simp_all add: short_plain)
  subgoal by (cases mo) (simp_all add: short_plain)
  subgoal by (cases rs) (simp_all add: short_plain)
  done

lemma short_class: "short_text (to_code c)"
proof -
  have "list_all (\<lambda>d. plain_text (descriptor_code d) \<and> length (descriptor_code d) \<le> 4096) kDescriptors"
    by (simp add: kDescriptors_def)
  moreover have "describe c \<in> set kDescriptors"
    by (auto simp: describe_def Let_def kDescriptors_def[THEN arg_cong[of _ _ length]] not_le intro!: nth_mem)
  ultimately show ?thesis by (simp add: to_code_def list_all_iff short_plain)
qed

lemma short_digest_id: "length (digest_id_bytes i) = 16 \<Longrightarrow> short_text (DigestId_str i)"
  by (simp add: DigestId_str_def short_plain hex_bytes_plain hex_bytes_length)

lemmas report_adds = adds_leaves short_plain short_names short_class short_digest_id

lemma small_metrics: "small 29 1 (metrics_json v)"
  unfolding metrics_json_def
  by (rule small_mono[OF small_object[of 1 0, unfolded One_nat_def[symmetric]]]) (simp_all add: report_adds)

lemma small_recovery: "short_text (truncate_detail v) \<Longrightarrow> small 15 1 (recovery_json n v)"
  unfolding recovery_json_def
  by (rule small_mono[OF small_object[of 1 0, unfolded One_nat_def[symmetric]]]) (simp_all add: report_adds)

lemma small_history_record: "length (digest_id_bytes (hist_id v)) = 16 \<Longrightarrow> small 16 1 (history_record_json v)"
  unfolding history_record_json_def
  by (rule small_mono[OF small_object[of 1 0, unfolded One_nat_def[symmetric]]]) (simp_all add: report_adds)

text \<open>
  No report is lost when it is embedded in another one. Runtime statistics hold exactly the metrics and
  the recovery report they were given, and the answer to a history query exactly its records, in order:
  printing and reading back never falls into the branch that writes null.
\<close>

theorem reports_embedded:
  assumes "short_text (truncate_detail (stat_recovery s))"
    and "list_all (\<lambda>r. length (digest_id_bytes (hist_id r)) = 16) (records q)"
  shows "json_find ''metrics'' (stats_json n s) = Some (metrics_json (stat_metrics s)) \<and>
    json_find ''recovery'' (stats_json n s) = Some (recovery_json n (stat_recovery s)) \<and>
    json_find ''records'' (history_query_json q) = Some (JArray (map history_record_json (records q)))"
proof -
  have "embedded (history_record_json r) = history_record_json r" if "r \<in> set (records q)" for r
    using assms(2) that by (auto simp: list_all_iff intro: embedded_small[OF small_history_record])
  then show ?thesis
    by (simp add: stats_json_def history_query_json_def doc_simps set_nat_def embedded_small[OF small_metrics]
        embedded_small[OF small_recovery[OF assms(1)]] cong: map_cong)
qed

section \<open>Round trip of documents\<close>

definition fits_document :: "Limits \<Rightarrow> bool \<Rightarrow> JsonValue \<Rightarrow> bool" where
  "fits_document limits pretty v \<longleftrightarrow> json_fits limits v \<and> length (json_dump pretty v) \<le> unat (max_document_bytes limits)"


text \<open>
  C33: A document reader never returns a record that has not passed the checks of its component: a source it
  returns is valid; a topology and a route generation are finalised, sorted, free of duplicates and of
  dangling references, with their own digest; evidence is valid and sealed with the identity of its
  content; and a file of JSON lines gives at most a batch of such records.
\<close>

theorem documents_sound:
  "(parse_source_descriptor limits t = Inr d \<longrightarrow> SourceDescriptor_validate d = ok) \<and>
   (parse_topology_generation H limits t = Inr topo \<longrightarrow>
      topology_inv topo \<and> topo_digest topo = TopologyGeneration_canonical_digest H topo) \<and>
   (parse_route_generation H limits t = Inr g \<longrightarrow> route_inv g \<and> route_digest g = RouteGeneration_canonical_digest H g) \<and>
   (parse_evidence H limits t = Inr e \<longrightarrow> sound_evidence H limits e) \<and>
   (parse_evidence_lines H limits t = Inr es \<longrightarrow>
      list_all (sound_evidence H limits) es \<and> length es \<le> unat (max_evidence_per_ingest_batch limits))"
proof (intro conjI impI)
  assume "parse_source_descriptor limits t = Inr d"
  then show "SourceDescriptor_validate d = ok"
    by (auto simp: parse_source_descriptor_def try_bind_eq_Inr intro: source_of_json_sound)
next
  assume "parse_topology_generation H limits t = Inr topo"
  then obtain g where g: "TopologyGeneration_finalize H limits g = Inr topo"
    by (auto simp: parse_topology_generation_def try_bind_eq_Inr dest: topology_of_json_sound)
  show "topology_inv topo" by (rule finalize_inv[OF g])
  show "topo_digest topo = TopologyGeneration_canonical_digest H topo" using finalize_shape[OF g] by simp
next
  assume "parse_route_generation H limits t = Inr g"
  then obtain g' where g: "RouteGeneration_finalize H limits g' = Inr g"
    by (auto simp: parse_route_generation_def try_bind_eq_Inr dest: routes_of_json_sound)
  show "route_inv g" by (rule route_finalize_inv[OF g])
  show "route_digest g = RouteGeneration_canonical_digest H g" using route_finalize_shape(3)[OF g] .
next
  assume "parse_evidence H limits t = Inr e"
  then show "sound_evidence H limits e" by (rule parse_evidence_sound)
next
  assume lines: "parse_evidence_lines H limits t = Inr es"
  have "list_all (sound_evidence H limits) es \<and> length es \<le> unat (max_evidence_per_ingest_batch limits)"
    by (rule evidence_lines_sound[OF lines[unfolded parse_evidence_lines_def]]) simp_all
  then show "list_all (sound_evidence H limits) es" "length es \<le> unat (max_evidence_per_ingest_batch limits)"
    by blast+
qed

text \<open>One concrete document of each kind.\<close>

definition document_source :: SourceDescriptor where
  "document_source = example_source\<lparr>max_observation_age := 5000000, clock_skew_tolerance := 1000000\<rparr>"

definition document_topology :: TopologyGeneration where
  "document_topology = final_topology\<lparr>topo_created := from_unix_nanos 5, topo_received := from_unix_nanos 6\<rparr>"

definition document_routes :: RouteGeneration where
  "document_routes = final_routes\<lparr>route_created := from_unix_nanos 5, route_received := from_unix_nanos 6\<rparr>"

lemma document_examples_good:
  "source_document document_source"
  "topology_document three_hash default_limits document_topology"
  "routes_document three_hash default_limits document_routes"
  "evidence_document three_hash default_limits final_evidence"
proof -
  have set: "is_set (from_unix_nanos 5)" "is_set (from_unix_nanos 6)" "is_set (from_unix_nanos 1000)"
    by (simp_all add: is_set_def from_unix_nanos_def smin_def)
  show "source_document document_source"
    by (simp add: source_document_def document_source_def SourceDescriptor_valid_iff example_source_def document_duration_def)
  show "topology_document three_hash default_limits document_topology"
    using final_records_wf(2)
    by (simp add: topology_wf_def topology_document_def set TopologyGeneration_finalize_def document_topology_def
        final_topology_def example_topology_def example_device_def example_port_def example_link_def default_limits_def
        guard_err_def std_sort_Cons indexed_checks_def Let_def device_checks_def port_checks_def link_checks_def repeats_def
        device_present_def port_belongs_def find_by_key_Cons upt_rec TopologyGeneration_canonical_digest_def three_hash_def)
  show "routes_document three_hash default_limits document_routes"
    by (simp add: routes_document_def set RouteGeneration_finalize_def document_routes_def final_routes_def example_routes_def
        example_path_def example_expected_hop_def default_limits_def guard_err_def std_sort_Cons indexed_checks_def Let_def
        path_checks_def group_checks_def member_checks_def normal_members_def repeats_def expected_hop_checks_def
        find_by_key_Cons upt_rec three_hash_def RouteGeneration_canonical_digest_def ExpectedPath_canonical_digest_def)
  show "evidence_document three_hash default_limits final_evidence"
    using final_records_wf(4) by (simp add: evidence_wf_def evidence_document_def set final_evidence_def example_evidence_def)
qed

lemma small_fits_document: "small n d v \<Longrightarrow> n \<le> 1000 \<Longrightarrow> d \<le> 64 \<Longrightarrow> fits_document default_limits False v"
  using small_reads_back by (simp add: fits_document_def)

lemma short_record_names:
  "short_text (DeviceRole_to_string dr)" "short_text (LinkKind_to_string lk)" "short_text (SourceKind_to_string sk)"
  "short_text (AuthorityClass_to_string ac)" "short_text (HopLinkProvenance_to_string hp)"
  subgoal by (cases dr) (simp_all add: short_plain)
  subgoal by (cases lk) (simp_all add: short_plain)
  subgoal by (cases sk) (simp_all add: short_plain)
  subgoal by (cases ac) (simp_all add: short_plain)
  subgoal by (cases hp) (simp_all add: short_plain)
  done

lemma short_digest: "length (digest_bytes d) = 32 \<Longrightarrow> short_text (Digest_hex d)"
  by (simp add: Digest_hex_def short_plain hex_bytes_plain hex_bytes_length)

lemmas record_adds = report_adds short_record_names short_digest adds_when

lemma small_records:
  "short_text (device_name dev) \<Longrightarrow> small 8 (Suc 0) (device_json dev)"
  "short_text (port_name p) \<Longrightarrow> small 8 (Suc 0) (port_json p)"
  "small 8 (Suc 0) (link_json l)" "small 8 (Suc 0) (hop_json h)" "small 8 (Suc 0) (observed_hop_json oh)"
  unfolding device_json_def port_json_def link_json_def hop_json_def observed_hop_json_def
  by (rule small_mono[OF small_object[of 1 0]]; simp add: record_adds)+

lemma fits_object:
  "list_all (adds m d) fs \<Longrightarrow> 1 + m * length fs \<le> 1000 \<Longrightarrow> Suc d \<le> 64 \<Longrightarrow> fits_document default_limits False (make_object fs)"
  by (rule small_fits_document[OF small_object, of m d]) simp_all

lemmas kind_tags = kSourceKindTag_def kTopologyKindTag_def kRoutesKindTag_def kEvidenceKindTag_def

lemma source_example_fits: "fits_document default_limits False (source_json document_source)"
proof -
  have "adds 10 (Suc 0) (set_array ''capabilities'' [JString ''observed_evidence''])"
    by (rule adds_array[of 1]) (simp_all add: small_leaf short_plain)
  then show ?thesis unfolding source_json_def
    by (intro fits_object[of 10 "Suc 0"]) (simp_all add: record_adds kind_tags document_source_def example_source_def)
qed

lemma topology_example_fits: "fits_document default_limits False (topology_json document_topology)"
proof -
  have "adds 40 (Suc (Suc 0)) (set_array ''devices'' (map device_json (devices document_topology)))"
    "adds 40 (Suc (Suc 0)) (set_array ''ports'' (map port_json (ports document_topology)))"
    "adds 40 (Suc (Suc 0)) (set_array ''links'' (map link_json (links document_topology)))"
    by (rule adds_array[of 8]; simp add: short_plain document_topology_def final_topology_def example_topology_def
        example_device_def example_port_def small_records)+
  moreover have "length (digest_bytes (topo_digest document_topology)) = 32"
    by (simp add: document_topology_def final_topology_def)
  ultimately show ?thesis unfolding topology_json_def
    by (intro fits_object[of 40 "Suc (Suc 0)"]) (simp_all add: record_adds kind_tags)
qed

lemma routes_example_fits: "fits_document default_limits False (routes_json document_routes)"
proof -
  have "small 60 (Suc (Suc 0)) (group_json g)" if "g \<in> set (groups document_routes)" for g
  proof -
    have "adds 10 (Suc 0) (set_array ''members'' (map (\<lambda>m. make_number_u64 (id_value m)) (members g)))"
      using that by (intro adds_array[of 1]) (auto simp: small_leaf short_plain document_routes_def final_routes_def)
    moreover have "short_text (group_label g)" using that by (simp add: short_plain document_routes_def final_routes_def)
    ultimately show ?thesis unfolding group_json_def
      by (intro small_mono[OF small_object[of 10 "Suc 0"]]) (simp_all add: record_adds)
  qed
  then have gs: "adds 70 (Suc 3) (set_array ''groups'' (map group_json (groups document_routes)))"
    by (intro adds_array[of 60]) (auto simp: list_all_iff short_plain document_routes_def final_routes_def small_def)
  have "small 60 (Suc (Suc (Suc 0))) (path_json p)" if "p \<in> set (paths document_routes)" for p
  proof -
    have "adds 10 (Suc (Suc 0)) (set_array ''hops'' (map hop_json (path_hops p)))"
      using that by (intro adds_array[of 8])
        (auto simp: small_records short_plain document_routes_def final_routes_def example_path_def)
    then show ?thesis unfolding path_json_def
      by (intro small_mono[OF small_object[of 10 "Suc (Suc 0)"]]) (simp_all add: record_adds)
  qed
  then have ps: "adds 70 (Suc 3) (set_array ''paths'' (map path_json (paths document_routes)))"
    by (intro adds_array[of 60]) (auto simp: list_all_iff short_plain document_routes_def final_routes_def small_def)
  have "length (digest_bytes (route_digest document_routes)) = 32" by (simp add: document_routes_def final_routes_def)
  with gs ps show ?thesis unfolding routes_json_def
    by (intro fits_object[of 70 "Suc 3"]) (simp_all add: record_adds kind_tags)
qed

lemma evidence_example_fits: "fits_document default_limits False (evidence_json final_evidence)"
proof -
  have "adds 20 (Suc (Suc 0)) (set_array ''hops'' (map observed_hop_json (ev_hops final_evidence)))"
    by (rule adds_array[of 8]) (simp_all add: small_records short_plain final_evidence_def example_evidence_def)
  moreover have "length (digest_bytes (payload_digest final_evidence)) = 32" "length (digest_id_bytes (ev_id final_evidence)) = 16"
    "short_text (ev_note final_evidence)"
    by (simp_all add: final_evidence_def example_evidence_def short_plain)
  ultimately show ?thesis unfolding evidence_json_def
    by (intro fits_object[of 20 "Suc (Suc 0)"]) (simp_all add: record_adds kind_tags)
qed


lemma document_examples_read:
  "parse_source_descriptor default_limits (source_to_json False document_source) = Inr document_source"
  "parse_topology_generation three_hash default_limits (topology_to_json False document_topology) = Inr document_topology"
  "parse_route_generation three_hash default_limits (routes_to_json False document_routes) = Inr document_routes"
  "parse_evidence three_hash default_limits (evidence_to_json False final_evidence) = Inr final_evidence"
  using document_examples_good source_example_fits topology_example_fits routes_example_fits evidence_example_fits
  by (auto simp: fits_document_def parse_source_descriptor_def source_to_json_def parse_topology_generation_def
      topology_to_json_def parse_route_generation_def routes_to_json_def parse_evidence_def evidence_to_json_def
      intro: source_document.read_text topology_document.read_text routes_document.read_text
      evidence_document.read_text)

theorem documents_sound_witness:
  "SourceDescriptor_validate document_source = ok \<and> topology_inv document_topology \<and> route_inv document_routes \<and>
   sound_evidence three_hash default_limits final_evidence \<and>
   parse_evidence_lines three_hash default_limits ''# no records'' = Inr []"
proof -
  have lines: "parse_evidence_lines three_hash default_limits ''# no records'' = Inr []"
    by (simp add: parse_evidence_lines_def evidence_lines.simps(2) trim_line_def is_line_blank_def Let_def)
  show ?thesis
    using documents_sound[of default_limits "source_to_json False document_source" document_source three_hash]
      documents_sound[of default_limits "topology_to_json False document_topology" _ three_hash document_topology]
      documents_sound[of default_limits "routes_to_json False document_routes" _ three_hash _ document_routes]
      documents_sound[of default_limits "evidence_to_json False final_evidence" _ three_hash _ _ final_evidence]
      document_examples_read lines by blast
qed

definition example_stats :: RuntimeStats where
  "example_stats = \<lparr>stat_state = Runtime_Running, stat_metrics = new_metrics\<lparr>m_comparisons := 3\<rparr>, evidence_buckets = 1,
     evidence_records = 2, stat_findings = 0, findings_open = 0, stat_history = 3, queue_pending = 0, stat_epoch = StrongId 1,
     stat_incarnation = StrongId 1, stat_route_generation = StrongId 1, stat_topology_generation = StrongId 1,
     stat_route_revision = StrongId 1, stat_recovery = new_report, has_route_generation = True, has_topology_generation = True\<rparr>"

definition example_answer :: HistoryQueryResult where
  "example_answer = \<lparr>records = [history_record final_comparison], matched = 1, excluded_by_window = 0, excluded_by_filter = 0,
     truncated = False\<rparr>"

theorem reports_embedded_witness:
  "json_find ''metrics'' (stats_json 0 example_stats) = Some (metrics_json (new_metrics\<lparr>m_comparisons := 3\<rparr>)) \<and>
   json_find ''records'' (history_query_json example_answer) =
     Some (JArray [history_record_json (history_record final_comparison)])"
  using reports_embedded[of example_stats example_answer 0]
  by (simp add: example_stats_def example_answer_def new_report_def short_plain history_record_def final_comparison_def)

end
