(* ===== verification/RandomNumbers.thy ===== *)
theory RandomNumbers
  imports Prelude Identity "HOL-Library.Multiset"
begin

text \<open>
  Pseudo random numbers (\<open>src/random.cpp\<close>, \<open>include/pathobs/random.hpp\<close>): the seed expander splitmix64,
  the generator xoshiro256**, bounded numbers by rejection and the shuffle. The rejection loop has no
  bound of its own, so it is an optional value that is \<open>None\<close> when it would not return. \<open>next_unit\<close> returns a
  floating point number and is not modelled.
\<close>

unbundle bit_operations_syntax

section \<open>Generators\<close>

definition rotl :: "u64 \<Rightarrow> nat \<Rightarrow> u64" where
  "rotl v amount = push_bit amount v OR drop_bit (64 - amount) v"

type_synonym SplitMix64 = u64

definition SplitMix64_next :: "SplitMix64 \<Rightarrow> u64 \<times> SplitMix64" where
  "SplitMix64_next s =
     (let s = s + 0x9e3779b97f4a7c15;
          z = (s XOR drop_bit 30 s) * 0xbf58476d1ce4e5b9;
          z = (z XOR drop_bit 27 z) * 0x94d049bb133111eb
      in (z XOR drop_bit 31 z, s))"

record Rng =
  rng_seed :: u64
  rng_s0 :: u64
  rng_s1 :: u64
  rng_s2 :: u64
  rng_s3 :: u64

definition new_Rng :: "u64 \<Rightarrow> Rng" where
  "new_Rng seed =
     (let (w0, s) = SplitMix64_next seed; (w1, s) = SplitMix64_next s; (w2, s) = SplitMix64_next s;
          (w3, s) = SplitMix64_next s
      in \<lparr>rng_seed = seed,
          rng_s0 = (if w0 OR w1 OR w2 OR w3 = 0 then 0x9e3779b97f4a7c15 else w0),
          rng_s1 = w1, rng_s2 = w2, rng_s3 = w3\<rparr>)"

definition next_u64 :: "Rng \<Rightarrow> u64 \<times> Rng" where
  "next_u64 r =
     (let result = rotl (rng_s1 r * 5) 7 * 9;
          t = push_bit 17 (rng_s1 r);
          s2 = rng_s2 r XOR rng_s0 r;
          s3 = rng_s3 r XOR rng_s1 r;
          s1 = rng_s1 r XOR s2;
          s0 = rng_s0 r XOR s3;
          s2 = s2 XOR t;
          s3 = rotl s3 45
      in (result, r\<lparr>rng_s0 := s0, rng_s1 := s1, rng_s2 := s2, rng_s3 := s3\<rparr>))"

definition next_bool :: "Rng \<Rightarrow> bool \<times> Rng" where
  "next_bool r = (case next_u64 r of (v, r) \<Rightarrow> (v AND 1 \<noteq> 0, r))"

section \<open>Bounded numbers\<close>

definition rejection_threshold :: "u64 \<Rightarrow> u64" where
  "rejection_threshold bound = (NOT bound + 1) mod bound"

partial_function (option) rejection_loop :: "u64 \<Rightarrow> u64 \<Rightarrow> Rng \<Rightarrow> (u64 \<times> Rng) option" where
  "rejection_loop bound threshold r =
     (case next_u64 r of (v, r) \<Rightarrow>
        if v \<ge> threshold then Some (v mod bound, r) else rejection_loop bound threshold r)"

definition next_below :: "u64 \<Rightarrow> Rng \<Rightarrow> (u64 \<times> Rng) option" where
  "next_below bound r = (if bound = 0 then Some (0, r) else rejection_loop bound (rejection_threshold bound) r)"

definition next_in_range :: "u64 \<Rightarrow> u64 \<Rightarrow> Rng \<Rightarrow> (u64 \<times> Rng) option" where
  "next_in_range low high r =
     (if high \<le> low then Some (low, r)
      else map_option (\<lambda>(v, r). (low + v, r)) (next_below (high - low + 1) r))"

fun shuffle_loop :: "nat \<Rightarrow> 'a list \<Rightarrow> Rng \<Rightarrow> ('a list \<times> Rng) option" where
  "shuffle_loop 0 items r = Some (items, r)"
| "shuffle_loop (Suc i) items r =
     (case next_below (of_nat (Suc i + 1)) r of
        None \<Rightarrow> None
      | Some (v, r) \<Rightarrow> shuffle_loop i (items[Suc i := items ! unat v, unat v := items ! Suc i]) r)"

definition shuffle :: "'a list \<Rightarrow> Rng \<Rightarrow> ('a list \<times> Rng) option" where
  "shuffle items r = (if length items < 2 then Some (items, r) else shuffle_loop (length items - 1) items r)"

section \<open>The state never degenerates\<close>

definition rng_alive :: "Rng \<Rightarrow> bool" where
  "rng_alive r \<longleftrightarrow> \<not> (rng_s0 r = 0 \<and> rng_s1 r = 0 \<and> rng_s2 r = 0 \<and> rng_s3 r = 0)"

lemma rotl_zero: "rotl v 45 = 0 \<longleftrightarrow> v = 0"
proof
  assume z: "rotl v 45 = 0"
  show "v = 0"
  proof (rule bit_word_eqI)
    fix n assume n: "n < LENGTH(64)"
    have "\<not> bit (rotl v 45) (if n < 19 then n + 45 else n - 19)" using z by simp
    then show "bit v n = bit 0 n" using n by (auto simp: rotl_def bit_simps split: if_splits)
  qed
qed (simp add: rotl_def)

lemma shift_fixed: "v = push_bit 17 v \<Longrightarrow> v = 0" for v :: u64
proof (rule bit_word_eqI)
  fix n assume v: "v = push_bit 17 v" and n: "n < LENGTH(64)"
  have "\<not> bit v n" for n
  proof (induction n rule: less_induct)
    case (less n)
    have "bit v n \<longleftrightarrow> 17 \<le> n \<and> n < 64 \<and> bit v (n - 17)" by (subst v) (auto simp: bit_simps)
    then show ?case using less[of "n - 17"] by auto
  qed
  then show "bit v n = bit 0 n" by simp
qed

lemma xor_zero_iff: "a XOR b = 0 \<longleftrightarrow> a = b" for a b :: u64
proof
  assume "a XOR b = 0"
  then have "(a XOR b) XOR b = 0 XOR b" by simp
  then show "a = b" by (simp add: xor.assoc)
qed simp

lemma next_u64_alive: "rng_alive r \<Longrightarrow> rng_alive (snd (next_u64 r))"
proof (rule ccontr)
  assume a: "rng_alive r" and "\<not> rng_alive (snd (next_u64 r))"
  then have "rng_s2 r XOR push_bit 17 (rng_s1 r) = 0" "rng_s1 r XOR rng_s2 r = 0" "rng_s0 r = 0" "rng_s3 r XOR rng_s1 r = 0"
    by (auto simp: rng_alive_def next_u64_def Let_def rotl_zero)
  then have z: "rng_s3 r = rng_s1 r" "rng_s0 r = 0" "rng_s1 r = rng_s2 r" "rng_s2 r = push_bit 17 (rng_s1 r)"
    unfolding xor_zero_iff by auto
  have "rng_s1 r = 0" by (rule shift_fixed[OF trans[OF z(3,4)]])
  then show False using a z(1-3) by (simp add: rng_alive_def)
qed

lemma new_Rng_alive: "rng_alive (new_Rng seed)"
  by (auto simp: rng_alive_def new_Rng_def Let_def split: prod.splits)

section \<open>The rejection loop\<close>

text \<open>The generator after \<open>n\<close> draws.\<close>

definition draws :: "nat \<Rightarrow> Rng \<Rightarrow> Rng" where
  "draws n = (snd \<circ> next_u64) ^^ n"

lemma draws_Suc: "draws (Suc n) r = draws n (snd (next_u64 r))"
  by (simp add: draws_def funpow_swap1)

lemma rejection_loop_Some:
  assumes "rejection_loop bound threshold r = Some (v, r')"
  shows "\<exists>n. fst (next_u64 (draws n r)) \<ge> threshold \<and> (\<forall>k<n. fst (next_u64 (draws k r)) < threshold) \<and>
    v = fst (next_u64 (draws n r)) mod bound \<and> r' = draws (Suc n) r"
  using assms
proof (induction bound threshold r "(v, r')" rule: rejection_loop.raw_induct[rotated, consumes 1])
  case (1 f bound threshold r)
  obtain w q where w: "next_u64 r = (w, q)" by (cases "next_u64 r")
  show ?case
  proof (cases "threshold \<le> w")
    case True
    then show ?thesis using 1(2) w by (intro exI[of _ 0]) (simp add: draws_def)
  next
    case False
    then have "f bound threshold q = Some (v, r')" using 1(2) w by simp
    from 1(1)[OF this] obtain n where "fst (next_u64 (draws n q)) \<ge> threshold"
      "\<forall>k<n. fst (next_u64 (draws k q)) < threshold" "v = fst (next_u64 (draws n q)) mod bound" "r' = draws (Suc n) q" by blast
    then show ?thesis using w False
      by (intro exI[of _ "Suc n"]) (auto simp: draws_Suc less_Suc_eq_0_disj draws_def[of 0] not_le)
  qed
qed

lemma rejection_loop_returns:
  "fst (next_u64 (draws n r)) \<ge> threshold \<Longrightarrow> \<exists>y. rejection_loop bound threshold r = Some y"
proof (induction n arbitrary: r)
  case 0
  then show ?case by (subst rejection_loop.simps) (auto simp: draws_def split: prod.splits)
next
  case (Suc n)
  obtain w q where w: "next_u64 r = (w, q)" by (cases "next_u64 r")
  then show ?case using Suc.IH[of q] Suc.prems by (subst rejection_loop.simps) (simp add: draws_Suc)
qed

section \<open>Uniformity\<close>

lemma threshold_nat:
  assumes "bound \<noteq> 0"
  shows "unat (rejection_threshold bound) = 2 ^ 64 mod unat bound"
proof -
  have b: "0 < unat bound" "unat bound < 2 ^ 64"
    using assms unsigned_less[of bound, where ?'a = nat] by (simp_all add: unat_gt_0)
  have "(of_nat (2 ^ 64 - unat bound) :: u64) = of_nat (2 ^ 64) - of_nat (unat bound)"
    by (rule of_nat_diff) (use b in simp)
  then have "- bound = of_nat (2 ^ 64 - unat bound)" by simp
  then have "unat (- bound) = unat (of_nat (2 ^ 64 - unat bound) :: u64)" by (rule arg_cong)
  also have "\<dots> = 2 ^ 64 - unat bound" using b by (subst unat_of_nat) simp
  finally have "unat (- bound) = 2 ^ 64 - unat bound" .
  moreover have "NOT bound + 1 = - bound" by (simp add: minus_eq_not_plus_1)
  moreover have "unat bound \<le> 2 ^ 64" using b by simp
  ultimately show ?thesis by (simp add: rejection_threshold_def unat_mod_distrib le_mod_geq)
qed

lemma card_residues:
  fixes B T q R :: nat
  assumes "T < B" and "R < B"
  shows "card {n. T \<le> n \<and> n < T + q * B \<and> n mod B = R} = q"
proof -
  let ?K = "if T \<le> R then {0..<q} else {1..<Suc q}"
  have "{n. T \<le> n \<and> n < T + q * B \<and> n mod B = R} = (\<lambda>k. R + k * B) ` ?K"
  proof (intro equalityI subsetI)
    fix n assume "n \<in> {n. T \<le> n \<and> n < T + q * B \<and> n mod B = R}"
    then have n: "T \<le> n" "n < T + q * B" "n = R + n div B * B" by (auto simp: mult.commute)
    have "n div B < q" if "T \<le> R"
    proof -
      have "n div B * B < q * B" using n that by linarith
      then show ?thesis by simp
    qed
    moreover have "0 < n div B" if "R < T" using n that by (cases "n div B = 0") auto
    moreover have "n div B \<le> q"
    proof (rule ccontr)
      assume "\<not> n div B \<le> q"
      then have "(q + 1) * B \<le> n div B * B" by (intro mult_le_mono1) simp
      then show False using n assms by simp
    qed
    ultimately show "n \<in> (\<lambda>k. R + k * B) ` ?K" using n(3) by (intro image_eqI[of _ _ "n div B"]) auto
  next
    fix n assume "n \<in> (\<lambda>k. R + k * B) ` ?K"
    then obtain k where k: "n = R + k * B" "k \<in> ?K" by blast
    have "T \<le> n \<and> n < T + q * B"
    proof (cases "T \<le> R")
      case True
      then have "Suc k * B \<le> q * B" using k by (intro mult_le_mono1) simp
      then show ?thesis using True k assms by simp
    next
      case False
      then have "B \<le> k * B" "k * B \<le> q * B" using k mult_le_mono1[of 1 k B] by (auto intro!: mult_le_mono1)
      then show ?thesis unfolding k(1) using False assms by linarith
    qed
    then show "n \<in> {n. T \<le> n \<and> n < T + q * B \<and> n mod B = R}" using k assms by simp
  qed
  moreover have "inj_on (\<lambda>k. R + k * B) ?K" using assms by (auto simp: inj_on_def)
  ultimately show ?thesis by (simp add: card_image)
qed

lemma card_accepted:
  assumes "bound \<noteq> 0" and "r < bound"
  shows "card {v. rejection_threshold bound \<le> v \<and> v mod bound = r} = 2 ^ 64 div unat bound"
proof -
  let ?B = "unat bound" and ?T = "unat (rejection_threshold bound)"
  have B: "0 < ?B" using assms(1) by (simp add: unat_gt_0)
  have T: "?T = 2 ^ 64 mod ?B" by (rule threshold_nat[OF assms(1)])
  have "unat ` {v. rejection_threshold bound \<le> v \<and> v mod bound = r} =
      {n. ?T \<le> n \<and> n < ?T + (2 ^ 64 div ?B) * ?B \<and> n mod ?B = unat r}" (is "?L = ?R")
  proof (intro equalityI subsetI)
    fix n assume "n \<in> ?L"
    then obtain v where "n = unat v" "rejection_threshold bound \<le> v" "v mod bound = r" by blast
    moreover have "unat v < 2 ^ 64" using unsigned_less[of v, where ?'a = nat] by simp
    ultimately show "n \<in> ?R" by (auto simp: T word_le_nat_alt unat_mod_distrib)
  next
    fix n assume n: "n \<in> ?R"
    then have "n < 2 ^ 64" using mod_div_decomp[of "2 ^ 64" ?B] by (auto simp: T algebra_simps)
    then have "unat (of_nat n :: u64) = n" by (simp add: unat_of_nat)
    moreover from this have "of_nat n mod bound = r" using n by (auto simp: word_unat_eq_iff unat_mod_distrib)
    ultimately show "n \<in> ?L" using n by (intro image_eqI[of _ _ "of_nat n"]) (auto simp: word_le_nat_alt)
  qed
  moreover have "card ?L = card {v. rejection_threshold bound \<le> v \<and> v mod bound = r}"
    by (rule card_image) (auto simp: inj_on_def word_unat_eq_iff)
  moreover have "?T < ?B" "unat r < ?B" using assms B by (simp_all add: T word_less_nat_alt)
  ultimately show ?thesis using card_residues[of ?T ?B "unat r" "2 ^ 64 div ?B"] by simp
qed

section \<open>Shuffle\<close>

lemma next_below_bound: "next_below bound r = Some (v, r') \<Longrightarrow> bound \<noteq> 0 \<Longrightarrow> v < bound"
  by (auto simp: next_below_def word_mod_less_divisor word_neq_0_conv dest: rejection_loop_Some)

lemma shuffle_loop_permutes:
  "i < length items \<Longrightarrow> length items < 2 ^ 64 \<Longrightarrow> shuffle_loop i items r = Some (items', r') \<Longrightarrow> mset items' = mset items"
proof (induction i items r rule: shuffle_loop.induct)
  case (2 i items r)
  then obtain v q where v: "next_below (of_nat (Suc i + 1)) r = Some (v, q)"
    "shuffle_loop i (items[Suc i := items ! unat v, unat v := items ! Suc i]) q = Some (items', r')"
    by (auto split: option.splits prod.splits)
  have n: "unat (of_nat (Suc i + 1) :: u64) = Suc i + 1" using 2(2,3) by (subst unat_of_nat) simp
  then have "(of_nat (Suc i + 1) :: u64) \<noteq> 0" by (metis unat_0 add_is_0 one_neq_zero)
  from next_below_bound[OF v(1) this] have "unat v < Suc i + 1" using n by (simp add: word_less_nat_alt)
  then have "mset (items[Suc i := items ! unat v, unat v := items ! Suc i]) = mset items" using 2(2) by (intro mset_swap) simp_all
  moreover have "mset items' = mset (items[Suc i := items ! unat v, unat v := items ! Suc i])"
    by (rule 2(1)[OF v(1) refl]) (use 2 v in simp_all)
  ultimately show ?case by simp
qed simp

lemma shuffle_permutes:
  "length items < 2 ^ 64 \<Longrightarrow> shuffle items r = Some (items', r') \<Longrightarrow> mset items' = mset items"
  using shuffle_loop_permutes[of "length items - 1" items r items' r'] by (auto simp: shuffle_def split: if_splits)

section \<open>Properties\<close>

text \<open>
  \<open>next_below\<close> returns exactly when some draw of the generator reaches the rejection threshold, and then
  returns the remainder of the first such draw, which is below the bound and free of modulo bias: among
  the 64-bit numbers that are not rejected, every remainder comes from equally many. The generator it
  leaves behind has been advanced past the accepted draw and is never in the all zero state.
\<close>

theorem next_below_uniform:
  assumes "bound \<noteq> 0" and "rng_alive r"
  shows "((\<exists>y. next_below bound r = Some y) \<longleftrightarrow> (\<exists>n. rejection_threshold bound \<le> fst (next_u64 (draws n r)))) \<and>
    (\<forall>v r'. next_below bound r = Some (v, r') \<longrightarrow>
       v < bound \<and> rng_alive r' \<and>
       (\<exists>n. r' = draws (Suc n) r \<and> v = fst (next_u64 (draws n r)) mod bound \<and>
            rejection_threshold bound \<le> fst (next_u64 (draws n r)) \<and>
            (\<forall>k<n. fst (next_u64 (draws k r)) < rejection_threshold bound))) \<and>
    (\<forall>v<bound. card {w. rejection_threshold bound \<le> w \<and> w mod bound = v} = 2 ^ 64 div unat bound)"
proof (intro conjI allI impI)
  have alive: "rng_alive (draws n q)" if "rng_alive q" for n q
    using that by (induction n arbitrary: q) (simp_all add: draws_Suc next_u64_alive, simp add: draws_def)
  show "(\<exists>y. next_below bound r = Some y) \<longleftrightarrow> (\<exists>n. rejection_threshold bound \<le> fst (next_u64 (draws n r)))"
    using assms(1) rejection_loop_Some rejection_loop_returns by (force simp: next_below_def)
  fix v r' assume "next_below bound r = Some (v, r')"
  then have "rejection_loop bound (rejection_threshold bound) r = Some (v, r')" using assms(1) by (simp add: next_below_def)
  from rejection_loop_Some[OF this] next_below_bound[OF \<open>next_below bound r = Some (v, r')\<close> assms(1)] alive[OF assms(2)]
  show "v < bound" "rng_alive r'" "\<exists>n. r' = draws (Suc n) r \<and> v = fst (next_u64 (draws n r)) mod bound \<and>
            rejection_threshold bound \<le> fst (next_u64 (draws n r)) \<and>
            (\<forall>k<n. fst (next_u64 (draws k r)) < rejection_threshold bound)"
    by blast+
next
  fix v assume "v < bound"
  then show "card {w. rejection_threshold bound \<le> w \<and> w mod bound = v} = 2 ^ 64 div unat bound"
    by (rule card_accepted[OF assms(1)])
qed

theorem next_below_uniform_witness:
  "\<exists>v r'. next_below 6 (new_Rng 42) = Some (v, r') \<and> v < 6 \<and> rng_alive r' \<and>
     card {w. rejection_threshold 6 \<le> w \<and> w mod 6 = (5 :: u64)} = 2 ^ 64 div 6"
proof -
  have t: "rejection_threshold 6 \<le> fst (next_u64 (draws 0 (new_Rng 42)))" by code_simp
  note u = next_below_uniform[of 6 "new_Rng 42", OF _ new_Rng_alive, simplified]
  from u t obtain v r' where "next_below 6 (new_Rng 42) = Some (v, r')" by fastforce
  then show ?thesis using u by auto
qed

end
