(* ===== verification/LabFabrics.thy ===== *)
theory LabFabrics
  imports Expected Observed
begin

text \<open>
  Laboratory fabrics (\<open>src/synthetic.cpp\<close>, \<open>include/pathobs/synthetic.hpp\<close>): the generator of a topology, a
  route generation, the two sources that publish them and observed evidence. Loops over a 32-bit counter
  run over the list of the counter's values.
\<close>

section \<open>Options and result\<close>

record LabOptions =
  lab_seed :: u64
  lab_hop_count :: u32
  multipath_members :: u32
  lab_surface :: ProofSurface
  observer_authority :: AuthorityClass
  observer_kind :: SourceKind
  planning_source_id :: u64
  observer_source_id :: u64
  lab_epoch :: u64
  lab_incarnation :: u64
  lab_route_generation :: u64
  lab_topology_generation :: u64
  lab_revision :: u64
  evidence_count :: u32
  first_sequence :: u64
  evidence_age_nanos :: i64
  diverge :: bool
  partial :: bool
  omit_links :: bool
  stale_epoch :: bool
  stale_revision :: bool
  unknown_generation :: bool
  empty_trace :: bool

definition default_lab_options :: LabOptions where
  "default_lab_options = \<lparr>lab_seed = 0, lab_hop_count = 4, multipath_members = 1, lab_surface = Synthetic,
     observer_authority = Advisory, observer_kind = Simulator, planning_source_id = 1, observer_source_id = 2,
     lab_epoch = 1, lab_incarnation = 3, lab_route_generation = 7, lab_topology_generation = 5, lab_revision = 12,
     evidence_count = 1, first_sequence = 1, evidence_age_nanos = 0, diverge = False, partial = False, omit_links = False,
     stale_epoch = False, stale_revision = False, unknown_generation = False, empty_trace = False\<rparr>"

record LabFabric =
  lab_topology :: TopologyGeneration
  lab_routes :: RouteGeneration
  lab_sources :: "SourceDescriptor list"
  lab_evidence :: "ObservedPathEvidence list"
  divergent_device :: DeviceId
  primary_path :: PathId
  lab_group :: PathGroupId

section \<open>Identities\<close>

definition kCreationNanos :: i64 where
  "kCreationNanos = 1767225600000000000"

definition device_for :: "u32 \<Rightarrow> u32 \<Rightarrow> u32 \<Rightarrow> DeviceId" where
  "device_for member position hop_count =
     (if position = 0 then StrongId 10
      else if position + 1 = hop_count then StrongId 40
      else StrongId (100 + ucast member * 100 + ucast position))"

definition lab_port :: "DeviceId \<Rightarrow> u32 \<Rightarrow> u64 \<Rightarrow> PortId" where
  "lab_port device member index = StrongId (id_value device * 100 + ucast member * 10 + index)"

definition ingress_for :: "DeviceId \<Rightarrow> u32 \<Rightarrow> PortId" where
  "ingress_for device member = lab_port device member 1"

definition egress_for :: "DeviceId \<Rightarrow> u32 \<Rightarrow> PortId" where
  "egress_for device member = lab_port device member 2"

definition link_for :: "u32 \<Rightarrow> u32 \<Rightarrow> LinkId" where
  "link_for member position = StrongId (1000 + ucast member * 100 + ucast position)"

definition divergent_device_id :: DeviceId where
  "divergent_device_id = StrongId 9999"

definition counter :: "u32 \<Rightarrow> u32 list" where
  "counter n = map of_nat [0..<unat n]"

section \<open>Sources\<close>

definition lab_source :: "u64 \<Rightarrow> string \<Rightarrow> SourceKind \<Rightarrow> ProofSurface \<Rightarrow> AuthorityClass \<Rightarrow> SourceCapabilities \<Rightarrow> SourceDescriptor" where
  "lab_source i name kind surface authority caps =
     \<lparr>source_id = StrongId i, source_name = name, source_kind = kind, source_surface = surface,
      source_authority = authority, source_capabilities = caps, max_observation_age = 0, clock_skew_tolerance = 0\<rparr>"

definition lab_planning :: "LabOptions \<Rightarrow> SourceDescriptor" where
  "lab_planning o' = lab_source (planning_source_id o') ''laboratory-planning-authority'' RoutingAuthority Synthetic Authoritative
     \<lparr>expected_state = True, observed_evidence = False, topology_capability = True\<rparr>"

definition lab_observer :: "LabOptions \<Rightarrow> SourceDescriptor" where
  "lab_observer o' = lab_source (observer_source_id o') ''laboratory-observer'' (observer_kind o') (lab_surface o')
     (observer_authority o') \<lparr>expected_state = False, observed_evidence = True, topology_capability = False\<rparr>"

section \<open>Topology\<close>

definition add_device :: "DeviceId \<Rightarrow> TopologyGeneration \<Rightarrow> TopologyGeneration" where
  "add_device device t =
     (if list_ex (\<lambda>d. device_id d = device) (devices t) then t
      else t\<lparr>devices := devices t @ [\<lparr>device_id = device, device_name = ''lab-device-'' @ decimal (unat (id_value device)),
                                     device_role = Switch\<rparr>]\<rparr>)"

definition add_port :: "DeviceId \<Rightarrow> u32 \<Rightarrow> u64 \<Rightarrow> TopologyGeneration \<Rightarrow> TopologyGeneration" where
  "add_port device member index t =
     (let i = lab_port device member index
      in if list_ex (\<lambda>p. port_id p = i) (ports t) then t
         else t\<lparr>ports := ports t @ [\<lparr>port_id = i, port_device = device, port_name = ''lab-port-'' @ decimal (unat index),
                                    port_index = ucast index\<rparr>]\<rparr>)"

definition add_lab_link :: "u32 \<Rightarrow> u32 \<Rightarrow> u32 \<Rightarrow> TopologyGeneration \<Rightarrow> TopologyGeneration" where
  "add_lab_link hop_count member position t =
     (if position + 1 < hop_count
      then let device = device_for member position hop_count; next = device_for member (position + 1) hop_count
           in t\<lparr>links := links t @ [\<lparr>link_id = link_for member position, local_device = device,
                  local_port = egress_for device member, remote_device = next, remote_port = ingress_for next member,
                  link_kind = Physical\<rparr>]\<rparr>
      else t)"

definition lab_position :: "u32 \<Rightarrow> u32 \<Rightarrow> u32 \<Rightarrow> TopologyGeneration \<Rightarrow> TopologyGeneration" where
  "lab_position hop_count member position t =
     (let device = device_for member position hop_count
      in add_lab_link hop_count member position
           (add_port device member 2 (add_port device member 1 (add_device device t))))"

definition draft_topology :: "LabOptions \<Rightarrow> TopologyGeneration" where
  "draft_topology o' =
     fold (\<lambda>member. fold (lab_position (lab_hop_count o') member) (counter (lab_hop_count o'))) (counter (multipath_members o'))
       \<lparr>topo_id = StrongId (lab_topology_generation o'),
        topo_epoch = StrongId (if stale_epoch o' then lab_epoch o' + 1 else lab_epoch o'),
        topo_incarnation = StrongId (lab_incarnation o'), topo_revision = StrongId 2, topo_sequence = StrongId 9,
        topo_source = source_id (lab_planning o'), topo_created = TimePoint kCreationNanos,
        topo_received = TimePoint kCreationNanos, devices = [], ports = [], links = [], topo_digest = zero_digest\<rparr>"

section \<open>Expected state\<close>

definition lab_hop :: "u32 \<Rightarrow> u32 \<Rightarrow> u32 \<Rightarrow> ExpectedHop" where
  "lab_hop hop_count member position =
     (let device = device_for member position hop_count
      in \<lparr>eh_id = StrongId (1000 + ucast member * 1000 + ucast position), eh_index = position, eh_device = device,
          eh_ingress = ingress_for device member, eh_egress = egress_for device member,
          eh_egress_link = (if position + 1 < hop_count then link_for member position else no_id),
          has_egress_link = (position + 1 < hop_count)\<rparr>)"

definition lab_path :: "LabOptions \<Rightarrow> u32 \<Rightarrow> ExpectedPath" where
  "lab_path o' member =
     \<lparr>path_id = StrongId (ucast (100 + member)), path_group = StrongId 1, path_generation = StrongId (lab_route_generation o'),
      path_hops = map (lab_hop (lab_hop_count o') member) (counter (lab_hop_count o')), path_digest = zero_digest\<rparr>"

definition lab_path_group :: "LabOptions \<Rightarrow> PathGroup" where
  "lab_path_group o' =
     \<lparr>group_id = StrongId 1, group_origin = device_for 0 0 (lab_hop_count o'),
      group_destination = device_for 0 (lab_hop_count o' - 1) (lab_hop_count o'), group_label = ''laboratory path group'',
      members = map (\<lambda>member. StrongId (ucast (100 + member))) (counter (multipath_members o'))\<rparr>"

definition draft_routes :: "LabOptions \<Rightarrow> TopologyGeneration \<Rightarrow> RouteGeneration" where
  "draft_routes o' t =
     \<lparr>route_id = StrongId (lab_route_generation o'), route_epoch = topo_epoch t, route_incarnation = topo_incarnation t,
      route_revision = StrongId (if stale_revision o' then lab_revision o' + 1 else lab_revision o'),
      route_sequence = StrongId 100, route_source = source_id (lab_planning o'), route_topology = topo_id t,
      route_created = TimePoint kCreationNanos, route_received = TimePoint kCreationNanos,
      groups = [lab_path_group o'], paths = map (lab_path o') (counter (multipath_members o')), route_digest = zero_digest\<rparr>"

section \<open>Evidence\<close>

definition lab_observed_hop :: "LabOptions \<Rightarrow> u32 \<Rightarrow> ObservedHop" where
  "lab_observed_hop o' position =
     (let device = (if diverge o' \<and> position = 1 \<and> lab_hop_count o' > 2 then divergent_device_id
                    else device_for 0 position (lab_hop_count o'));
          linked = (\<not> omit_links o' \<and> position + 1 < lab_hop_count o' \<and> \<not> diverge o')
      in \<lparr>oh_index = position, oh_device = device, oh_ingress = ingress_for device 0, oh_egress = egress_for device 0,
          oh_link = (if linked then link_for 0 position else no_id),
          oh_link_provenance = (if linked then Provenance_Observed else Provenance_Absent), oh_at = unset\<rparr>)"

definition trace_length :: "LabOptions \<Rightarrow> u32" where
  "trace_length o' =
     (if partial o' then (if lab_hop_count o' > 1 then lab_hop_count o' - 1 else 1) else lab_hop_count o')"

definition lab_record :: "hasher \<Rightarrow> LabOptions \<Rightarrow> TopologyGeneration \<Rightarrow> RouteGeneration \<Rightarrow> u32 \<Rightarrow> ObservedPathEvidence" where
  "lab_record H o' t routes index =
     seal H \<lparr>ev_id = no_digest_id, ev_source = source_id (lab_observer o'), ev_incarnation = StrongId 7,
       ev_sequence = StrongId (first_sequence o' + ucast index), ev_surface = lab_surface o',
       ev_authority = observer_authority o', ev_path = MaybeId (StrongId 100), ev_group = MaybeId (StrongId 1),
       ev_origin = MaybeId (group_origin (lab_path_group o')), ev_destination = MaybeId (group_destination (lab_path_group o')),
       ev_epoch = StrongId (lab_epoch o'), claimed_incarnation = topo_incarnation t,
       ev_route_generation = MaybeId (if unknown_generation o' then StrongId (lab_route_generation o' + 100) else route_id routes),
       ev_topology_generation = MaybeId (topo_id t), ev_revision = StrongId (lab_revision o'),
       observed_at = TimePoint (kCreationNanos + evidence_age_nanos o'),
       received_at = TimePoint (kCreationNanos + evidence_age_nanos o'),
       ev_hops = (if empty_trace o' then [] else map (lab_observed_hop o') (counter (trace_length o'))),
       source_truncated = partial o',
       declared_completeness =
         (if empty_trace o' then Evidence_Unknown else if partial o' then Evidence_Partial else Evidence_Complete),
       payload_digest = zero_digest, ev_note = ''laboratory observation''\<rparr>"

definition build_lab_fabric :: "hasher \<Rightarrow> LabOptions \<Rightarrow> Limits \<Rightarrow> LabFabric Result" where
  "build_lab_fabric H o' limits =
     try_bind (first_error
       [guard_err (lab_hop_count o' < 2) InvalidArgument ''a laboratory path needs at least two devices'',
        guard_err (lab_hop_count o' > max_hops_per_path limits) OutOfRange
          ''the requested hop count exceeds the configured bound'',
        guard_err (multipath_members o' = 0) InvalidArgument ''a path group needs at least one member'',
        guard_err (multipath_members o' > max_members_per_group limits) OutOfRange
          ''the requested member count exceeds the configured bound'',
        guard_err (evidence_count o' > max_evidence_per_comparison limits) OutOfRange
          ''the requested evidence count exceeds the configured bound'',
        SourceDescriptor_validate (lab_planning o'), SourceDescriptor_validate (lab_observer o')]) (\<lambda>_.
     try_bind (TopologyGeneration_finalize H limits (draft_topology o')) (\<lambda>t.
     try_bind (RouteGeneration_finalize H limits (draft_routes o' t)) (\<lambda>routes.
       Inr \<lparr>lab_topology = t, lab_routes = routes, lab_sources = [lab_planning o', lab_observer o'],
            lab_evidence = map (lab_record H o' t routes) (counter (evidence_count o')),
            divergent_device = divergent_device_id, primary_path = StrongId 100, lab_group = StrongId 1\<rparr>)))"

section \<open>Lemmas\<close>

lemma counter_nth: "i < unat n \<Longrightarrow> counter n ! i = of_nat i" and length_counter: "length (counter n) = unat n"
  by (simp_all add: counter_def)

lemma of_nat_u32: "i < unat n \<Longrightarrow> unat (of_nat i :: u32) = i" for n :: u32
  using unsigned_less[of n, where ?'a = nat] by (subst unat_of_nat) simp

lemma counter_first: "n \<noteq> 0 \<Longrightarrow> 0 \<in> set (counter n)"
  by (auto simp: counter_def unat_gt_0 intro: image_eqI[of _ _ 0])

text \<open>A hop of the evidence agrees with the hop of the primary path, except where the evidence diverges.\<close>

lemma lab_hops_agree:
  "hops_agree (lab_hop (lab_hop_count o') 0 position) (lab_observed_hop o' position) \<longleftrightarrow>
     \<not> (diverge o' \<and> position = 1 \<and> lab_hop_count o' > 2)"
proof (cases "diverge o' \<and> position = 1 \<and> lab_hop_count o' > 2")
  case True
  then have "device_for 0 1 (lab_hop_count o') = StrongId 101" by (auto simp: device_for_def)
  then show ?thesis using True
    by (simp add: hops_agree_def lab_hop_def lab_observed_hop_def Let_def divergent_device_id_def)
next
  case False
  then show ?thesis by (auto simp: hops_agree_def lab_hop_def lab_observed_hop_def Let_def)
qed

lemma trace_length_bounds:
  assumes "2 \<le> lab_hop_count o'"
  shows "trace_length o' = (if partial o' then lab_hop_count o' - 1 else lab_hop_count o')"
    and "unat (lab_hop_count o' - 1) = unat (lab_hop_count o') - 1" and "2 \<le> unat (lab_hop_count o')"
proof -
  have n: "2 \<le> unat (lab_hop_count o')" using assms by (simp add: word_le_nat_alt)
  then show "2 \<le> unat (lab_hop_count o')" .
  show "unat (lab_hop_count o' - 1) = unat (lab_hop_count o') - 1" by (rule unat_minus_one) (use n in auto)
  show "trace_length o' = (if partial o' then lab_hop_count o' - 1 else lab_hop_count o')"
    using n by (auto simp: trace_length_def word_less_nat_alt)
qed

definition lab_verdict :: "LabOptions \<Rightarrow> TraceComparison" where
  "lab_verdict o' =
     (if empty_trace o' then \<lparr>trace_match = Trace_Incomparable, first_difference = 0, has_difference = False\<rparr>
      else if diverge o' \<and> lab_hop_count o' > 2
      then \<lparr>trace_match = Trace_Mismatch, first_difference = 1, has_difference = True\<rparr>
      else \<lparr>trace_match = (if partial o' then Trace_Prefix else Trace_Exact), first_difference = 0, has_difference = False\<rparr>)"

lemma lab_trace_verdict:
  assumes "2 \<le> lab_hop_count o'"
  defines "es \<equiv> map (lab_hop (lab_hop_count o') 0) (counter (lab_hop_count o'))"
    and "hs \<equiv> if empty_trace o' then [] else map (lab_observed_hop o') (counter (trace_length o'))"
  assumes "path_hops p = es"
  shows "compare_trace p hs = lab_verdict o'"
proof (cases "empty_trace o'")
  case True
  then show ?thesis by (simp add: compare_trace_def lab_verdict_def hs_def)
next
  case False
  note len = trace_length_bounds[OF assms(1)]
  have n: "length es = unat (lab_hop_count o')" "length hs = (if partial o' then length es - 1 else length es)" "2 \<le> length es"
    using len False by (simp_all add: es_def hs_def length_counter)
  have agree: "hops_agree (es ! i) (hs ! i) \<longleftrightarrow> \<not> (diverge o' \<and> i = 1 \<and> lab_hop_count o' > 2)"
    if i: "i < length es" "i < length hs" for i
  proof -
    have "es ! i = lab_hop (lab_hop_count o') 0 (of_nat i)" "hs ! i = lab_observed_hop o' (of_nat i)"
      using i False by (simp_all add: es_def hs_def length_counter counter_nth)
    moreover have "(of_nat i :: u32) = 1 \<longleftrightarrow> i = 1"
      using of_nat_u32[of i "lab_hop_count o'"] i n(1) by (auto simp: word_unat_eq_iff)
    ultimately show ?thesis using lab_hops_agree[of o' "of_nat i"] by simp
  qed
  have nonempty: "path_hops p \<noteq> []" "hs \<noteq> []" using n assms(4) by (auto split: if_splits)
  show ?thesis
  proof (cases "diverge o' \<and> lab_hop_count o' > 2")
    case True
    then have three: "2 < length es" using n(1) by (simp add: word_less_nat_alt)
    then have "es \<noteq> []" by auto
    with three have "first_disagreement es hs = Some (es ! 1)"
      unfolding first_disagreement_Some using agree[of 1] agree[of 0] True n(2)
      by (intro exI[of _ 1]) (auto split: if_splits)
    moreover have "eh_index (es ! 1) = 1" using three n(1) by (simp add: es_def counter_nth lab_hop_def Let_def length_counter)
    ultimately show ?thesis using True False nonempty assms(4) by (simp add: compare_trace_def lab_verdict_def)
  next
    case ok: False
    then have "first_disagreement es hs = None" unfolding first_disagreement_None using agree by auto
    then show ?thesis using ok False nonempty assms(4) n by (auto simp: compare_trace_def lab_verdict_def)
  qed
qed

lemma lab_primary_path:
  assumes "RouteGeneration_finalize H limits (draft_routes o' t) = Inr g" and "multipath_members o' \<noteq> 0"
  shows "\<exists>p. find_path g (StrongId 100) = Some p \<and>
    path_hops p = map (lab_hop (lab_hop_count o') 0) (counter (lab_hop_count o'))"
proof -
  note inv = route_finalize_inv[OF assms(1)]
  have "lab_path o' 0 \<in> set (paths (draft_routes o' t))"
    using counter_first[OF assms(2)] by (simp add: draft_routes_def)
  then obtain d where p: "(lab_path o' 0)\<lparr>path_digest := d\<rparr> \<in> set (paths g)"
    unfolding route_finalize_shape(1)[OF assms(1)] by force
  have "find_by_key path_id (path_id ((lab_path o' 0)\<lparr>path_digest := d\<rparr>)) (paths g) = Some ((lab_path o' 0)\<lparr>path_digest := d\<rparr>)"
    by (rule find_by_key_complete) (use inv p in \<open>auto simp: route_inv_def\<close>)
  then show ?thesis by (simp add: find_path_def lab_path_def)
qed

lemma seal_identity: "ev_id (seal H e) = compute_evidence_id H (seal H e)"
  by (simp add: seal_def compute_evidence_id_def write_canonical_def)

section \<open>Properties\<close>


text \<open>A divergent fabric of three hops.\<close>

definition example_lab :: LabOptions where
  "example_lab = default_lab_options\<lparr>lab_hop_count := 3, diverge := True\<rparr>"

lemma example_lab_options:
  "lab_hop_count example_lab = 3" "multipath_members example_lab = 1" "evidence_count example_lab = 1"
  "counter 3 = [0, 1, 2]" "counter 1 = [0]"
  by (simp_all add: example_lab_def default_lab_options_def counter_def upt_rec)

lemma example_lab_devices:
  "device_for 0 0 3 = StrongId 10" "device_for 0 1 3 = StrongId 101" "device_for 0 2 3 = StrongId 40"
  by (simp_all add: device_for_def)

lemma example_lab_topology:
  "\<exists>t. TopologyGeneration_finalize (\<lambda>_. zero_digest) default_limits (draft_topology example_lab) = Inr t \<and>
     topo_epoch t = StrongId 1 \<and> topo_incarnation t = StrongId 3 \<and> topo_id t = StrongId 5"
  by (simp add: draft_topology_def example_lab_options lab_position_def add_device_def add_port_def add_lab_link_def
      example_lab_devices lab_port_def ingress_for_def egress_for_def link_for_def Let_def
      TopologyGeneration_finalize_def default_limits_def guard_err_def std_sort_Cons indexed_checks_def device_checks_def
      port_checks_def link_checks_def repeats_def device_present_def port_belongs_def find_by_key_Cons upt_rec
      TopologyGeneration_canonical_digest_def example_lab_def default_lab_options_def lab_planning_def lab_source_def)

lemma example_lab_routes:
  "topo_epoch t = StrongId 1 \<Longrightarrow> topo_incarnation t = StrongId 3 \<Longrightarrow> topo_id t = StrongId 5 \<Longrightarrow>
   \<exists>g. RouteGeneration_finalize (\<lambda>_. zero_digest) default_limits (draft_routes example_lab t) = Inr g"
  by (simp add: draft_routes_def example_lab_options lab_path_def lab_path_group_def lab_hop_def
      example_lab_devices lab_port_def ingress_for_def egress_for_def link_for_def Let_def
      RouteGeneration_finalize_def default_limits_def guard_err_def std_sort_Cons indexed_checks_def path_checks_def
      group_checks_def member_checks_def normal_members_def repeats_def expected_hop_checks_def find_by_key_Cons upt_rec
      example_lab_def default_lab_options_def lab_planning_def lab_source_def)

lemma example_lab_built: "\<exists>f. build_lab_fabric (\<lambda>_. zero_digest) example_lab default_limits = Inr f"
proof -
  obtain t where t: "TopologyGeneration_finalize (\<lambda>_. zero_digest) default_limits (draft_topology example_lab) = Inr t"
    "topo_epoch t = StrongId 1" "topo_incarnation t = StrongId 3" "topo_id t = StrongId 5"
    using example_lab_topology by blast
  obtain g where g: "RouteGeneration_finalize (\<lambda>_. zero_digest) default_limits (draft_routes example_lab t) = Inr g"
    using example_lab_routes[OF t(2-4)] by blast
  have "SourceDescriptor_validate (lab_planning example_lab) = ok" "SourceDescriptor_validate (lab_observer example_lab) = ok"
    by (simp_all add: SourceDescriptor_valid_iff lab_planning_def lab_observer_def lab_source_def example_lab_def
        default_lab_options_def)
  then show ?thesis using t g
    by (simp add: build_lab_fabric_def example_lab_options default_limits_def guard_err_def)
qed


text \<open>
  The surface of the evidence is the caller's choice: the generator also labels its records as real.
\<close>

lemma lab_evidence_can_be_real: "ev_surface (lab_record H (example_lab\<lparr>lab_surface := Real\<rparr>) t g i) = Real"
  by (simp add: lab_record_def seal_def)

end
