(* ===== verification/KnownAnswers.thy ===== *)
theory KnownAnswers
  imports Digests
begin

text \<open>
  The digests on published inputs: SHA-256 of \<open>abc\<close> and the CRC-32C check value. They pin the constants and
  the bit operations of the model of \<open>src/digest.cpp\<close>. Sums of words are evaluated on literals, so every
  sum is brought back to 32 bits by the marker \<open>reduced\<close>.
\<close>

unbundle bit_operations_syntax

section \<open>Evaluation\<close>

definition reduced :: "u32 \<Rightarrow> u32" where
  "reduced x = x"

lemma reduced_numeral: "reduced (numeral n) = of_nat (numeral n mod 4294967296)" "reduced 0 = 0" "reduced 1 = 1"
proof -
  have "(of_nat (k mod 4294967296) :: u32) = of_nat k" for k
    by (simp add: word_unat_eq_iff unsigned_of_nat take_bit_eq_mod)
  from this[of "numeral n"] show "reduced (numeral n) = of_nat (numeral n mod 4294967296)"
    by (simp only: reduced_def of_nat_numeral)
qed (simp_all add: reduced_def)

lemma schedule_extend_step:
  "schedule_extend (numeral k) w =
     schedule_extend (pred_numeral k)
       (w @ [reduced (small_sigma1 (w ! (length w - 2)) + w ! (length w - 7) + small_sigma0 (w ! (length w - 15)) + w ! (length w - 16))])"
  "schedule_extend (Suc 0) w =
     w @ [reduced (small_sigma1 (w ! (length w - 2)) + w ! (length w - 7) + small_sigma0 (w ! (length w - 15)) + w ! (length w - 16))]"
  by (simp_all add: numeral_eq_Suc Let_def reduced_def)

lemma sha_round_step:
  "sha_round s i (a, b, c, d, e, f, g, h) =
     (let temp1 = reduced (h + big_sigma1 e + ((e AND f) XOR ((NOT e) AND g)) + kSha256K ! i + s ! i);
          temp2 = big_sigma0 a + ((a AND b) XOR (a AND c) XOR (b AND c))
      in (reduced (temp1 + temp2), a, b, c, reduced (d + temp1), e, f, g))"
  by (simp add: sha_round_def reduced_def)

lemmas sha_eval = schedule_extend_step sha_round_step reduced_numeral small_sigma0_def small_sigma1_def
  big_sigma0_def big_sigma1_def rotr_def kSha256K_def Let_def upt_rec

section \<open>SHA-256\<close>

text \<open>The one padded block of \<open>abc\<close>.\<close>

definition abc_block :: "byte list" where
  "abc_block = [97, 98, 99, 0x80, 0, 0, 0, 0, 0, 0, 0, 0, 0, 0, 0, 0, 0, 0, 0, 0, 0, 0, 0, 0, 0, 0, 0, 0, 0, 0, 0, 0,
     0, 0, 0, 0, 0, 0, 0, 0, 0, 0, 0, 0, 0, 0, 0, 0, 0, 0, 0, 0, 0, 0, 0, 0, 0, 0, 0, 0, 0, 0, 0, 24]"

definition abc_schedule :: "u32 list" where
  "abc_schedule = schedule_extend 48 [0x61626380, 0, 0, 0, 0, 0, 0, 0, 0, 0, 0, 0, 0, 0, 0, 24]"

lemma abc_head: "schedule_extend 48 (schedule_head abc_block) = abc_schedule"
proof -
  have "schedule_head abc_block = [0x61626380, 0, 0, 0, 0, 0, 0, 0, 0, 0, 0, 0, 0, 0, 0, 24]"
    by (simp add: abc_block_def schedule_head_def upt_rec be_word_def)
  then show ?thesis by (simp only: abc_schedule_def)
qed

lemma abc_rounds:
  "fold (sha_round abc_schedule) [0..<64]
     (0x6a09e667, 0xbb67ae85, 0x3c6ef372, 0xa54ff53a, 0x510e527f, 0x9b05688c, 0x1f83d9ab, 0x5be0cd19) =
   (0x506e3058, 0xd39a2165, 0x04d24d6c, 0xb85e2ce9, 0x5ef50f24, 0xfb121210, 0x948d25b6, 0x961f4894)"
  by (simp add: abc_schedule_def sha_eval)

lemma abc_compressed:
  "compress sha_init abc_block =
     [0xba7816bf, 0x8f01cfea, 0x414140de, 0x5dae2223, 0xb00361a3, 0x96177a9c, 0xb410ff61, 0xf20015ad]"
  using abc_rounds by (simp add: compress_def abc_head sha_init_def)

lemma sha_pad_short:
  assumes "sha_buffer s = bs" and "length bs < 56"
  shows "sha_state (sha_pad s) = sha_state s \<and> sha_buffer (sha_pad s) = bs @ replicate (56 - length bs) 0"
  using assms
proof (induction "56 - length bs" arbitrary: s bs)
  case (Suc n)
  let ?s = "sha_update s [0]"
  have u: "sha_state ?s = sha_state s" "sha_buffer ?s = bs @ [0]"
    using Suc.prems by (simp_all add: sha_update_eq sha_absorb_short)
  have p: "sha_pad s = sha_pad ?s" using Suc.prems by (subst sha_pad.simps) simp
  show ?case
  proof (cases "length (bs @ [0]) < 56")
    case True
    have "n = 56 - length (bs @ [0])" using Suc.hyps(2) by simp
    from Suc.hyps(1)[OF this u(2) True] have "sha_state (sha_pad ?s) = sha_state s"
      "sha_buffer (sha_pad ?s) = bs @ 0 # replicate (56 - Suc (length bs)) 0" using u(1) by simp_all
    moreover have "56 - length bs = Suc (56 - Suc (length bs))" using Suc.prems(2) by simp
    ultimately show ?thesis by (simp add: p)
  next
    case False
    then have "length bs = 55" using Suc.prems(2) by simp
    moreover from this have "sha_pad ?s = ?s" using u(2) by (subst sha_pad.simps) simp
    ultimately show ?thesis using u by (simp add: p)
  qed
qed simp

lemma abc_padding: "be_bytes_u64 24 = [0, 0, 0, 0, 0, 0, 0, 24]" "replicate 52 x = replicate 4 x @ replicate 16 x @ replicate 32 x"
  "replicate 4 x = [x, x, x, x]" "replicate 16 x = [x, x, x, x, x, x, x, x, x, x, x, x, x, x, x, x]"
  "replicate 32 x = replicate 16 x @ replicate 16 x"
  by (simp_all add: be_bytes_u64_def upt_rec replicate_add[symmetric]) (simp_all add: numeral_eq_Suc)

lemma sha256_abc:
  "digest_bytes (Digest_of (map of_char ''abc'')) = concat (map be_bytes_u32
     [0xba7816bf, 0x8f01cfea, 0x414140de, 0x5dae2223, 0xb00361a3, 0x96177a9c, 0xb410ff61, 0xf20015ad])"
proof -
  let ?s = "sha_update (sha_update Sha256_new (map of_char ''abc'')) [0x80]"
  have u: "sha_state ?s = sha_init" "sha_buffer ?s = [97, 98, 99, 0x80]"
    "sha_byte_count (sha_update Sha256_new (map of_char ''abc'')) = 3"
    by (simp_all add: sha_update_def Sha256_new_def sha_absorb_short)
  have "sha_state (sha_pad ?s) = sha_init" "sha_buffer (sha_pad ?s) @ be_bytes_u64 (3 * 8) = abc_block"
    using sha_pad_short[OF u(2)] u(1) by (simp_all add: abc_block_def abc_padding)
  then show ?thesis using u(3) abc_compressed by (simp add: Digest_of_def sha_finish_def Let_def)
qed

lemma sha256_abc_hex:
  "Digest_hex (Digest_of (map of_char ''abc'')) = ''ba7816bf8f01cfea414140de5dae2223b00361a396177a9cb410ff61f20015ad''"
  unfolding Digest_hex_def sha256_abc by (simp add: be_bytes_u32_def hex_bytes_def hex_digit_def char_of_eq_iff)

section \<open>CRC-32C\<close>

lemma crc_bits: "(crc_bit ^^ 8) x = crc_bit (crc_bit (crc_bit (crc_bit (crc_bit (crc_bit (crc_bit (crc_bit x)))))))"
  by (simp add: numeral_eq_Suc)

lemmas crc_bit_numeral = crc_bit_def[of "numeral n" for n]

lemma crc32c_check: "crc32c (map of_char ''123456789'') = 0xe3069283"
  unfolding crc32c_table_driven
  by (simp add: crc32c_reference_def crc_bits crc_bit_numeral)

end
