(* ===== verification/Tools.thy ===== *)
theory Tools
  imports DocumentBounds LabFabrics RuntimeContracts Transport KnownAnswers "HOL-Library.Char_ord"
begin

text \<open>
  The command line tools (\<open>tools/pathobs_main.cpp\<close>, \<open>tools/pathobs_node_main.cpp\<close>) and the text of errors
  (\<open>src/error.cpp\<close>): options, the commands that read a store, the laboratory commands, the frames a node sends
  and what the service does with the frames it receives. A command gives its exit code with the lines it
  prints, or the error it fails with. The free text of comparisons is an argument.
\<close>

section \<open>Errors\<close>

fun ErrorCode_to_string :: "ErrorCode \<Rightarrow> string" where
  "ErrorCode_to_string ErrNone = ''none''"
| "ErrorCode_to_string InvalidArgument = ''invalid_argument''"
| "ErrorCode_to_string OutOfRange = ''out_of_range''"
| "ErrorCode_to_string CapacityExceeded = ''capacity_exceeded''"
| "ErrorCode_to_string NotSupported = ''not_supported''"
| "ErrorCode_to_string Internal = ''internal''"
| "ErrorCode_to_string InvalidIdentity = ''invalid_identity''"
| "ErrorCode_to_string UnknownIdentity = ''unknown_identity''"
| "ErrorCode_to_string DuplicateIdentity = ''duplicate_identity''"
| "ErrorCode_to_string InvalidFormat = ''invalid_format''"
| "ErrorCode_to_string TruncatedInput = ''truncated_input''"
| "ErrorCode_to_string IntegrityFailure = ''integrity_failure''"
| "ErrorCode_to_string UnsupportedVersion = ''unsupported_version''"
| "ErrorCode_to_string UnknownGeneration = ''unknown_generation''"
| "ErrorCode_to_string FencedEvidence = ''fenced_evidence''"
| "ErrorCode_to_string InsufficientEvidence = ''insufficient_evidence''"
| "ErrorCode_to_string IoFailure = ''io_failure''"
| "ErrorCode_to_string CorruptStore = ''corrupt_store''"
| "ErrorCode_to_string ReadOnlyStore = ''read_only_store''"
| "ErrorCode_to_string TransportFailure = ''transport_failure''"
| "ErrorCode_to_string ProtocolViolation = ''protocol_violation''"
| "ErrorCode_to_string ConnectionClosed = ''connection_closed''"
| "ErrorCode_to_string InvalidState = ''invalid_state''"
| "ErrorCode_to_string Cancelled = ''cancelled''"
| "ErrorCode_to_string ShuttingDown = ''shutting_down''"

definition describe_error :: "string \<Rightarrow> Error \<Rightarrow> string" where
  "describe_error detail e =
     ErrorCode_to_string (error_code e) @ '': '' @ error_message e @ (if detail \<noteq> [] then '' ('' @ detail @ '')'' else [])"

section \<open>Options\<close>

type_synonym Options = "(string, string) omap"

definition option_has :: "Options \<Rightarrow> string \<Rightarrow> bool" where
  "option_has os key \<longleftrightarrow> map_find os key \<noteq> None"

definition option_get :: "Options \<Rightarrow> string \<Rightarrow> string \<Rightarrow> string" where
  "option_get os key fallback = (case map_find os key of None \<Rightarrow> fallback | Some v \<Rightarrow> v)"

text \<open>
  \<open>strtoull\<close> and \<open>strtoll\<close> in base ten: white space, a sign, digits; what follows is ignored, no digits are zero,
  and a value out of range is the nearest bound. A minus sign negates the unsigned result.
\<close>

definition c_space :: "char \<Rightarrow> bool" where
  "c_space c \<longleftrightarrow> c = CHR '' '' \<or> (9 \<le> (of_char c :: nat) \<and> (of_char c :: nat) \<le> 13)"

definition c_integer :: "string \<Rightarrow> bool \<times> nat" where
  "c_integer t =
     (case dropWhile c_space t of
        CHR ''-'' # ds \<Rightarrow> (True, digits_value (takeWhile is_digit ds))
      | CHR ''+'' # ds \<Rightarrow> (False, digits_value (takeWhile is_digit ds))
      | ds \<Rightarrow> (False, digits_value (takeWhile is_digit ds)))"

definition strtoull :: "string \<Rightarrow> u64" where
  "strtoull t =
     (case c_integer t of (negative, n) \<Rightarrow>
        if n \<ge> 2 ^ 64 then 2 ^ 64 - 1 else if negative then - of_nat n else of_nat n)"

definition strtoll :: "string \<Rightarrow> i64" where
  "strtoll t =
     (case c_integer t of (negative, n) \<Rightarrow>
        if negative then (if n \<ge> 2 ^ 63 then smin else - of_nat n)
        else if n \<ge> 2 ^ 63 then 2 ^ 63 - 1 else of_nat n)"

definition option_number :: "Options \<Rightarrow> string \<Rightarrow> u64 \<Rightarrow> u64" where
  "option_number os key fallback = (case map_find os key of None \<Rightarrow> fallback | Some v \<Rightarrow> strtoull v)"

definition option_signed :: "Options \<Rightarrow> string \<Rightarrow> i64 \<Rightarrow> i64" where
  "option_signed os key fallback = (case map_find os key of None \<Rightarrow> fallback | Some v \<Rightarrow> strtoll v)"

definition is_long_option :: "string \<Rightarrow> bool" where
  "is_long_option a \<longleftrightarrow> take 2 a = ''--''"

fun parse_options :: "string list \<Rightarrow> Options \<Rightarrow> Options" where
  "parse_options [] os = os"
| "parse_options (a # as) os =
     (if \<not> (length a > 2 \<and> is_long_option a) then parse_options as os
      else if CHR ''='' \<in> set a
      then parse_options as (map_put (takeWhile (\<lambda>c. c \<noteq> CHR ''='') (drop 2 a)) (tl (dropWhile (\<lambda>c. c \<noteq> CHR ''='') a)) os)
      else (case as of
              b # bs \<Rightarrow> if \<not> is_long_option b then parse_options bs (map_put (drop 2 a) b os)
                        else parse_options as (map_put (drop 2 a) ''true'' os)
            | [] \<Rightarrow> map_put (drop 2 a) ''true'' os))"

definition lab_options :: "Options \<Rightarrow> LabOptions" where
  "lab_options os = default_lab_options
     \<lparr>lab_seed := option_number os ''seed'' 0, lab_hop_count := ucast (option_number os ''hops'' 4),
      multipath_members := ucast (option_number os ''multipath'' 1),
      evidence_count := ucast (option_number os ''evidence-count'' 1),
      first_sequence := option_number os ''first-sequence'' 1,
      evidence_age_nanos := option_signed os ''evidence-age-nanos'' 0, lab_epoch := option_number os ''epoch'' 1,
      lab_incarnation := option_number os ''incarnation'' 3,
      lab_route_generation := option_number os ''route-generation'' 7,
      lab_topology_generation := option_number os ''topology-generation'' 5,
      lab_revision := option_number os ''revision'' 12, diverge := option_has os ''diverge'',
      partial := option_has os ''partial'', omit_links := option_has os ''omit-links'',
      stale_epoch := option_has os ''stale-epoch'', stale_revision := option_has os ''stale-revision'',
      unknown_generation := option_has os ''unknown-generation'', empty_trace := option_has os ''empty-trace''\<rparr>"

definition node_lab_options :: "Options \<Rightarrow> LabOptions" where
  "node_lab_options os =
     (let scenario = option_get os ''scenario'' ''match''
      in default_lab_options
     \<lparr>lab_seed := option_number os ''seed'' 0, lab_hop_count := ucast (option_number os ''hops'' 4),
      multipath_members := ucast (option_number os ''multipath'' 1),
      evidence_count := ucast (option_number os ''evidence-count'' 2),
      first_sequence := option_number os ''first-sequence'' 1,
      evidence_age_nanos := option_signed os ''evidence-age-nanos'' 0, lab_epoch := option_number os ''epoch'' 1,
      lab_incarnation := option_number os ''incarnation'' 3,
      lab_route_generation := option_number os ''route-generation'' 7,
      lab_topology_generation := option_number os ''topology-generation'' 5,
      lab_revision := option_number os ''revision'' 12, diverge := scenario = ''diverge'',
      partial := scenario = ''partial'', empty_trace := scenario = ''empty'', omit_links := option_has os ''omit-links''\<rparr>)"

section \<open>How a command ends\<close>

text \<open>
  The lines a command prints on standard output, the error it fails with, and its exit code. A command that
  writes to the store also gives the file as it leaves it.
\<close>

record ToolExit =
  tool_out :: "string list"
  tool_error :: "Error option"
  exit_code :: int

definition tool_done :: "string list \<Rightarrow> ToolExit" where
  "tool_done ls = \<lparr>tool_out = ls, tool_error = None, exit_code = 0\<rparr>"

definition tool_fail :: "string list \<Rightarrow> Error \<Rightarrow> ToolExit" where
  "tool_fail ls e = \<lparr>tool_out = ls, tool_error = Some e, exit_code = 1\<rparr>"

definition tool_result :: "string list Result \<Rightarrow> ToolExit" where
  "tool_result r = (case r of Inl e \<Rightarrow> tool_fail [] e | Inr ls \<Rightarrow> tool_done ls)"

definition kDefaultStore :: string where
  "kDefaultStore = ''pathobs-store.pob''"

section \<open>Commands on a store\<close>

text \<open>
  The store is opened for reading at a fixed instant. A store that opens this way has no invalid record to
  report, because \<open>scan\<close> counts one only when it fails.
\<close>

definition tool_store :: "byte list option \<Rightarrow> PersistentStore Result" where
  "tool_store disk = fst (store_open \<lparr>store_limits = default_limits, read_only = True\<rparr> (TimePoint kCreationNanos) disk)"

fun history_of_records :: "hasher \<Rightarrow> StoredRecord list \<Rightarrow> HistoryStore \<Rightarrow> HistoryStore Result" where
  "history_of_records H [] h = Inr h"
| "history_of_records H (r # rs) h =
     (if rec_type r \<noteq> Rec_Comparison then history_of_records H rs h
      else case decode_exact (decode_comparison H default_limits) (rec_payload r) of
          Inl e \<Rightarrow> Inl e
        | Inr w \<Rightarrow>
            (case named_comparison w of
               None \<Rightarrow> Inl outside_model
             | Some c \<Rightarrow>
                 (case history_append c h of
                    (Inl e, _) \<Rightarrow> Inl e
                  | (Inr _, h) \<Rightarrow> history_of_records H rs h)))"

definition command_history :: "hasher \<Rightarrow> Options \<Rightarrow> byte list option \<Rightarrow> ToolExit" where
  "command_history H os disk = tool_result (
     try_bind (tool_store disk) (\<lambda>s.
     try_bind (read_all s) (\<lambda>rs.
     try_bind (history_of_records H rs (new_history default_limits)) (\<lambda>h.
       let q = \<lparr>query_group = (if option_has os ''group'' then MaybeId (StrongId (option_number os ''group'' 0)) else absent),
                query_path = absent, query_generation = absent, since = unset, outcome_filter = NoExpectedState,
                filter_by_outcome = False, query_limit = unat (option_number os ''limit'' 64), query_now = unset,
                apply_window = False\<rparr>
       in Inr [history_query_to_json (option_has os ''pretty'') (query q h)]))))"

definition unreadable :: string where
  "unreadable = ''{'' @ [kQuote] @ ''kind'' @ [kQuote] @ '':'' @ [kQuote] @ ''pathobs.unreadable'' @ [kQuote] @ ''}''"

definition opaque_text :: "StoredRecord \<Rightarrow> string" where
  "opaque_text r =
     ''{'' @ [kQuote] @ ''kind'' @ [kQuote] @ '':'' @ [kQuote] @ ''pathobs.opaque'' @ [kQuote] @ '','' @
     [kQuote] @ ''type'' @ [kQuote] @ '':'' @ [kQuote] @ RecordType_to_string (rec_type r) @ [kQuote] @ '','' @
     [kQuote] @ ''sequence'' @ [kQuote] @ '':'' @ decimal (unat (rec_sequence r)) @ '','' @
     [kQuote] @ ''bytes'' @ [kQuote] @ '':'' @ decimal (length (rec_payload r)) @ ''}''"

text \<open>
  One exported record. A decoded comparison carries no free text. A comparison or finding whose stored
  bytes name no enumeration value is outside the model.
\<close>

definition export_record :: "hasher \<Rightarrow> StoredRecord \<Rightarrow> string Result" where
  "export_record H r =
     (case rec_type r of
        Rec_Source \<Rightarrow>
          Inr (case decode_exact (decode_source_descriptor default_limits) (rec_payload r) of
                 Inl _ \<Rightarrow> unreadable | Inr v \<Rightarrow> source_to_json False v)
      | Rec_Evidence \<Rightarrow>
          Inr (case decode_exact (decode_evidence H default_limits) (rec_payload r) of
                 Inl _ \<Rightarrow> unreadable | Inr v \<Rightarrow> evidence_to_json False v)
      | Rec_Comparison \<Rightarrow>
          (case decode_exact (decode_comparison H default_limits) (rec_payload r) of
             Inl _ \<Rightarrow> Inr unreadable
           | Inr w \<Rightarrow> (case named_comparison w of
                         None \<Rightarrow> Inl outside_model
                       | Some c \<Rightarrow> Inr (comparison_to_json False (replicate (length (judgements c)) []) [] c)))
      | Rec_Finding \<Rightarrow>
          (case decode_exact (decode_finding H default_limits) (rec_payload r) of
             Inl _ \<Rightarrow> Inr unreadable
           | Inr w \<Rightarrow> (case named_finding w of None \<Rightarrow> Inl outside_model | Some v \<Rightarrow> Inr (finding_to_json False v)))
      | _ \<Rightarrow> Inr (opaque_text r))"

fun export_records :: "hasher \<Rightarrow> StoredRecord list \<Rightarrow> string list Result" where
  "export_records H [] = Inr []"
| "export_records H (r # rs) =
     try_bind (export_record H r) (\<lambda>t. try_bind (export_records H rs) (\<lambda>ts. Inr (t # ts)))"

definition export_document :: "bool \<Rightarrow> RecoveryReport \<Rightarrow> string list \<Rightarrow> string" where
  "export_document pretty report items =
     ''{'' @ (if pretty then [CHR 0x0A] else []) @ recovery_to_json pretty 0 report @
     (if pretty then [CHR '','', CHR 0x0A] else '','') @ [kQuote] @ ''records'' @ [kQuote] @ '':['' @ comma_join items @ '']}''"

definition export_text :: "hasher \<Rightarrow> Options \<Rightarrow> byte list option \<Rightarrow> string Result" where
  "export_text H os disk =
     try_bind (tool_store disk) (\<lambda>s.
     try_bind (read_all s) (\<lambda>rs.
     try_bind (export_records H (take (unat (option_number os ''limit'' 1000000)) rs)) (\<lambda>items.
       Inr (export_document (option_has os ''pretty'') (st_recovery s) items))))"

text \<open>The exit and the file written, if any; \<open>writable\<close> says whether a file can be opened for writing.\<close>

definition command_export ::
  "hasher \<Rightarrow> Options \<Rightarrow> (string \<Rightarrow> bool) \<Rightarrow> byte list option \<Rightarrow> ToolExit \<times> (string \<times> string) option" where
  "command_export H os writable disk =
     (case export_text H os disk of
        Inl e \<Rightarrow> (tool_fail [] e, None)
      | Inr exported \<Rightarrow>
          if option_has os ''out''
          then if writable (option_get os ''out'' [])
               then (tool_done [], Some (option_get os ''out'' [], exported))
               else (\<lparr>tool_out = [], tool_error = None, exit_code = 1\<rparr>, None)
          else (tool_done [exported], None))"

definition command_validate :: "Options \<Rightarrow> byte list option \<Rightarrow> ToolExit" where
  "command_validate os disk = tool_result (
     try_bind (tool_store disk) (\<lambda>s.
     try_bind (read_all s) (\<lambda>rs.
       Inr [recovery_to_json True 0 (st_recovery s),
            ''validated '' @ decimal (length rs) @ '' records from '' @ option_get os ''store'' kDefaultStore])))"

section \<open>Laboratory commands\<close>

text \<open>The file behind the store of a runtime.\<close>

definition runtime_file :: "Runtime \<Rightarrow> byte list option" where
  "runtime_file rt = (case rt_store rt of None \<Rightarrow> rt_disk rt | Some s \<Rightarrow> st_handle s)"

text \<open>A runtime on a clock that stands still; with an error, the store file as the attempt leaves it.\<close>

definition tool_config :: "Options \<Rightarrow> bool \<Rightarrow> RuntimeConfig" where
  "tool_config os persisting = \<lparr>cfg_limits = default_limits, cfg_comparison = default_comparison_policy,
     store_path = (if persisting then option_get os ''store'' kDefaultStore else []), persist = persisting,
     load_evidence_on_start = \<not> option_has os ''no-load'', cfg_worker_threads = ucast (option_number os ''workers'' 2),
     mark_store_clean_on_stop = True\<rparr>"

definition make_runtime :: "hasher \<Rightarrow> Options \<Rightarrow> TimePoint \<Rightarrow> bool \<Rightarrow> byte list option \<Rightarrow> Runtime Result \<times> byte list option" where
  "make_runtime H os now persisting disk =
     (case runtime_create (tool_config os persisting) (Some (\<lambda>_. now)) disk of
        Inl e \<Rightarrow> (Inl e, disk)
      | Inr rt \<Rightarrow>
          (case runtime_start H rt of
             (Inl e, rt) \<Rightarrow> (Inl e, runtime_file rt)
           | (Inr _, rt) \<Rightarrow> (Inr rt, runtime_file rt)))"

fun register_sources :: "hasher \<Rightarrow> SourceDescriptor list \<Rightarrow> Runtime \<Rightarrow> Status \<times> Runtime" where
  "register_sources H [] rt = (ok, rt)"
| "register_sources H (d # ds) rt =
     (case runtime_register_source H d rt of
        (Inl e, rt) \<Rightarrow> (Inl e, rt)
      | (Inr _, rt) \<Rightarrow> register_sources H ds rt)"

definition publish_lab :: "hasher \<Rightarrow> LabFabric \<Rightarrow> Runtime \<Rightarrow> Status \<times> Runtime" where
  "publish_lab H f rt =
     (case register_sources H (lab_sources f) rt of
        (Inl e, rt) \<Rightarrow> (Inl e, rt)
      | (Inr _, rt) \<Rightarrow>
          (case publish_topology H (lab_topology f) rt of
             (Inl e, rt) \<Rightarrow> (Inl e, rt)
           | (Inr _, rt) \<Rightarrow> publish_routes H (lab_routes f) rt))"

text \<open>Everything between the start of the runtime and its stop: publish, ingest, compare.\<close>

definition run_lab :: "hasher \<Rightarrow> LabFabric \<Rightarrow> Runtime \<Rightarrow> ComparisonResult list Result \<times> Runtime" where
  "run_lab H f rt =
     (case publish_lab H f rt of
        (Inl e, rt) \<Rightarrow> (Inl e, rt)
      | (Inr _, rt) \<Rightarrow> compare_all H (snd (ingest_all H (lab_evidence f) rt)))"

text \<open>The tools submit no task, so a stop has no worker to wait for.\<close>

definition runtime_stop :: "Runtime \<Rightarrow> Status \<times> Runtime" where
  "runtime_stop rt = (if rt_state rt = Runtime_Stopped then (ok, rt) else stop_end (stop_begin rt))"

definition stopped_exit :: "string list \<Rightarrow> Runtime \<Rightarrow> ToolExit \<times> byte list option" where
  "stopped_exit ls rt =
     (case runtime_stop rt of
        (Inl e, rt) \<Rightarrow> (tool_fail ls e, runtime_file rt)
      | (Inr _, rt) \<Rightarrow> (tool_done ls, runtime_file rt))"

text \<open>\<open>texts\<close> gives the reasons of the judgements and the rationale of a comparison.\<close>

definition comparison_lines ::
  "(ComparisonResult \<Rightarrow> string list \<times> string list) \<Rightarrow> bool \<Rightarrow> bool \<Rightarrow> ComparisonResult \<Rightarrow> string list" where
  "comparison_lines texts pretty explain c =
     (case texts c of (reasons, rationale) \<Rightarrow>
        comparison_to_json pretty reasons rationale c #
        (if explain then ''-- rationale --'' # map (\<lambda>l. ''  * '' @ l) rationale else []))"

definition compare_instant :: "Options \<Rightarrow> LabFabric \<Rightarrow> TimePoint Result" where
  "compare_instant os f =
     (if option_has os ''now'' then parse_rfc3339 (option_get os ''now'' []) else Inr (route_received (lab_routes f)))"

definition command_compare ::
  "hasher \<Rightarrow> (ComparisonResult \<Rightarrow> string list \<times> string list) \<Rightarrow> Options \<Rightarrow> bool \<Rightarrow> ToolExit" where
  "command_compare H texts os explain =
     (case try_bind (build_lab_fabric H (lab_options os) default_limits) (\<lambda>f.
           try_bind (compare_instant os f) (\<lambda>now. try_bind (fst (make_runtime H os now False None)) (\<lambda>rt. Inr (f, rt)))) of
        Inl e \<Rightarrow> tool_fail [] e
      | Inr (f, rt) \<Rightarrow>
          (case run_lab H f rt of
             (Inl e, _) \<Rightarrow> tool_fail [] e
           | (Inr results, rt) \<Rightarrow>
               fst (stopped_exit (concat (map (comparison_lines texts (option_has os ''pretty'') explain) results)) rt)))"

definition command_ingest :: "hasher \<Rightarrow> Options \<Rightarrow> byte list option \<Rightarrow> ToolExit \<times> byte list option" where
  "command_ingest H os disk =
     (case build_lab_fabric H (lab_options os) default_limits of
        Inl e \<Rightarrow> (tool_fail [] e, disk)
      | Inr f \<Rightarrow>
          (case make_runtime H os (route_received (lab_routes f)) True disk of
             (Inl e, disk) \<Rightarrow> (tool_fail [] e, disk)
           | (Inr rt, _) \<Rightarrow>
               (case run_lab H f rt of
                  (Inl e, rt) \<Rightarrow> (tool_fail [] e, runtime_file rt)
                | (Inr _, rt) \<Rightarrow> stopped_exit [stats_to_json (option_has os ''pretty'') 0 (stats rt)] rt)))"

section \<open>Version and self test\<close>

text \<open>The build macros are arguments: the name of the configuration and whether the sanitizer is on.\<close>

definition version_string :: string where
  "version_string = ''1.0.0''"

definition build_description :: "string \<Rightarrow> bool \<Rightarrow> string" where
  "build_description configuration asan =
     ''Path Observatory '' @ version_string @ '' ('' @ configuration @ (if asan then '', asan'' else []) @ '')''"

definition command_version :: "string \<Rightarrow> bool \<Rightarrow> ToolExit" where
  "command_version configuration asan = tool_done
     [build_description configuration asan, ''persistence format version 1'', ''wire protocol version 1'',
      ''address sanitizer: '' @ (if asan then ''yes'' else ''no'')]"

definition small_document :: string where
  "small_document = ''{'' @ [kQuote] @ ''a'' @ [kQuote] @ '':[1,2,3]}''"

definition duplicate_document :: string where
  "duplicate_document = ''{'' @ [kQuote] @ ''a'' @ [kQuote] @ '':1,'' @ [kQuote] @ ''a'' @ [kQuote] @ '':2}''"

definition selftest_checks :: "(bool \<times> string) list" where
  "selftest_checks =
     [(\<not> isl (validate_limits default_limits), ''default limits validate''),
      (isl (validate_limits (default_limits\<lparr>max_hops_per_path := max_hops_per_path hard_ceiling + 1\<rparr>)),
       ''a limit above the hard ceiling is rejected''),
      (Digest_hex (Digest_of (map of_char ''abc'')) = ''ba7816bf8f01cfea414140de5dae2223b00361a396177a9cb410ff61f20015ad'',
       ''SHA-256 matches the published vector for abc''),
      (crc32c (map of_char ''123456789'') = 0xe3069283, ''CRC-32C check value''),
      (\<not> isl (json_parse default_limits small_document), ''a small JSON document parses''),
      (isl (json_parse default_limits duplicate_document), ''a duplicate JSON key is rejected''),
      (length kDescriptors = 26, ''the divergence class list is closed and complete''),
      (\<not> isl (build_lab_fabric Digest_of default_lab_options default_limits), ''the synthetic laboratory fabric builds'')]"

definition command_selftest :: "string \<Rightarrow> bool \<Rightarrow> ToolExit" where
  "command_selftest configuration asan =
     (let failures = length (filter (\<lambda>c. \<not> fst c) selftest_checks)
      in \<lparr>tool_out = (''Path Observatory self test ('' @ build_description configuration asan @ '')'') #
            map (\<lambda>(passed, what). ''  ['' @ (if passed then ''ok'' else ''FAIL'') @ ''] '' @ what) selftest_checks @
            [if failures = 0 then ''self test passed'' else ''self test FAILED''],
          tool_error = None, exit_code = (if failures = 0 then 0 else 1)\<rparr>)"

section \<open>Options are read back\<close>

lemma parse_option_assignment:
  assumes "CHR ''='' \<notin> set key"
  shows "parse_options ((''--'' @ key @ CHR ''='' # v) # as) os = parse_options as (map_put key v os)"
proof -
  have "dropWhile (\<lambda>c. c \<noteq> CHR ''='') (''--'' @ key @ CHR ''='' # v) = CHR ''='' # v"
    "takeWhile (\<lambda>c. c \<noteq> CHR ''='') (key @ CHR ''='' # v) = key"
    using assms by (auto simp: dropWhile_append takeWhile_append)
  then show ?thesis by (simp add: is_long_option_def)
qed

lemma parse_option_value:
  assumes "CHR ''='' \<notin> set key" and "key \<noteq> []" and "\<not> is_long_option v"
  shows "parse_options ((''--'' @ key) # v # as) os = parse_options as (map_put key v os)"
  using assms by (simp add: is_long_option_def)

text \<open>Whatever is assigned on the command line is what the options answer, the last assignment winning.\<close>

lemma options_read_back:
  assumes "list_all (\<lambda>(key, v). CHR ''='' \<notin> set key) kvs"
  shows "map_find (parse_options (map (\<lambda>(key, v). ''--'' @ key @ CHR ''='' # v) kvs) os) = map_find os ++ map_of (rev kvs)"
  using assms
proof (induction kvs arbitrary: os)
  case (Cons kv kvs)
  obtain key v where kv: "kv = (key, v)" by fastforce
  with Cons show ?case
    by (simp only: list.map kv case_prod_conv) (subst parse_option_assignment, auto simp: map_find_put map_add_assoc[symmetric])
qed simp

section \<open>Numbers on the command line\<close>

text \<open>A hop count above 32 bits is cut to its low bits, and text that is no number counts as zero.\<close>

lemma hop_count_truncated:
  "lab_hop_count (lab_options [(''hops'', ''4294967300'')]) = 4" "lab_hop_count (lab_options [(''hops'', ''many'')]) = 0"
  by (simp_all add: lab_options_def option_number_def option_signed_def option_has_def map_find_def strtoull_def c_integer_def
      c_space_def is_digit_def digits_value_def digit_value_def)

section \<open>Exported documents\<close>

lemma put_field_nonempty: "put_field k v fs \<noteq> []"
  by (cases fs) (auto split: if_splits)

lemma json_set_opens: "\<exists>rest. dump_into (json_set k v ob) pretty n = CHR ''{'' # rest"
  by (cases ob) (auto simp: json_set_def put_field_nonempty)

lemma recovery_dump_opens: "\<exists>rest. recovery_to_json pretty n report = CHR ''{'' # rest"
  using json_set_opens by (simp add: recovery_to_json_def json_dump_def recovery_json_def make_object_def set_time_def)

text \<open>
  C37: No export is a JSON document: for every recovery report and every list of records, the parser of the
  project refuses what \<open>pathobs export\<close> writes, because the report is nested in the outer object without a key.
\<close>

theorem export_never_json: "\<exists>e. json_parse limits (export_document pretty report items) = Inl e"
proof -
  obtain rest where r: "recovery_to_json pretty 0 report = CHR ''{'' # rest" using recovery_dump_opens by blast
  let ?tail = "rest @ (if pretty then [CHR '','', CHR 0x0A] else '','') @ [kQuote] @ ''records'' @ [kQuote] @ '':['' @ comma_join items @ '']}''"
  have d: "export_document pretty report items = CHR ''{'' # (if pretty then [CHR 0x0A] else []) @ CHR ''{'' # ?tail"
    by (simp add: export_document_def r)
  have "skip_whitespace (export_document pretty report items) = export_document pretty report items"
    "skip_whitespace (tl (export_document pretty report items)) = CHR ''{'' # ?tail"
    by (simp_all add: d skip_whitespace_def is_space_def)
  moreover have "\<exists>e. object_loop limits 0 [] (CHR ''{'' # ?tail) m = Inl e" for m
    by (subst object_loop.simps) (simp add: object_key_def skip_whitespace_def is_space_def peek_def kQuote_def)
  ultimately have "\<exists>e. parse_value limits 0 (skip_whitespace (export_document pretty report items)) 0 = Inl e"
    by (subst parse_value.simps) (simp add: d peek_def)
  then show ?thesis by (auto simp: json_parse_def)
qed

section \<open>The self test passes\<close>

lemma default_lab_shape:
  "lab_hop_count default_lab_options = 4" "multipath_members default_lab_options = 1" "evidence_count default_lab_options = 1"
  "counter 4 = [0, 1, 2, 3]" "counter 1 = [0]"
  "device_for 0 0 4 = StrongId 10" "device_for 0 1 4 = StrongId 101" "device_for 0 2 4 = StrongId 102" "device_for 0 3 4 = StrongId 40"
  by (simp_all add: default_lab_options_def counter_def upt_rec device_for_def)

lemma default_lab_topology:
  "\<exists>t. TopologyGeneration_finalize H default_limits (draft_topology default_lab_options) = Inr t \<and>
     topo_epoch t = StrongId 1 \<and> topo_incarnation t = StrongId 3 \<and> topo_id t = StrongId 5"
  by (simp add: draft_topology_def default_lab_shape lab_position_def add_device_def add_port_def add_lab_link_def
      lab_port_def ingress_for_def egress_for_def link_for_def Let_def
      TopologyGeneration_finalize_def default_limits_def guard_err_def std_sort_Cons indexed_checks_def device_checks_def
      port_checks_def link_checks_def repeats_def device_present_def port_belongs_def find_by_key_Cons upt_rec
      TopologyGeneration_canonical_digest_def default_lab_options_def lab_planning_def lab_source_def)

lemma default_lab_routes:
  "topo_epoch t = StrongId 1 \<Longrightarrow> topo_incarnation t = StrongId 3 \<Longrightarrow> topo_id t = StrongId 5 \<Longrightarrow>
   \<exists>g. RouteGeneration_finalize H default_limits (draft_routes default_lab_options t) = Inr g"
  by (simp add: draft_routes_def default_lab_shape lab_path_def lab_path_group_def lab_hop_def
      lab_port_def ingress_for_def egress_for_def link_for_def Let_def
      RouteGeneration_finalize_def default_limits_def guard_err_def std_sort_Cons indexed_checks_def path_checks_def
      group_checks_def member_checks_def normal_members_def repeats_def expected_hop_checks_def find_by_key_Cons upt_rec
      default_lab_options_def lab_planning_def lab_source_def)

lemma default_lab_built: "\<exists>f. build_lab_fabric H default_lab_options default_limits = Inr f"
proof -
  obtain t where t: "TopologyGeneration_finalize H default_limits (draft_topology default_lab_options) = Inr t"
    "topo_epoch t = StrongId 1" "topo_incarnation t = StrongId 3" "topo_id t = StrongId 5"
    using default_lab_topology by blast
  obtain g where g: "RouteGeneration_finalize H default_limits (draft_routes default_lab_options t) = Inr g"
    using default_lab_routes[OF t(2-4)] by blast
  have "SourceDescriptor_validate (lab_planning default_lab_options) = ok" "SourceDescriptor_validate (lab_observer default_lab_options) = ok"
    by (simp_all add: SourceDescriptor_valid_iff lab_planning_def lab_observer_def lab_source_def default_lab_options_def)
  then show ?thesis using t g by (simp add: build_lab_fabric_def default_lab_shape default_limits_def guard_err_def)
qed

lemma default_json_limits:
  "unat (max_json_depth default_limits) = 64" "unat (max_json_nodes default_limits) = 2000000"
  "unat (max_string_bytes default_limits) = 1048576" "unat (max_document_bytes default_limits) = 67108864"
  by (simp_all add: default_limits_def)

lemmas parse_eval = parse_value.simps object_loop.simps array_loop.simps object_key_def skip_whitespace_def is_space_def
  peek_def kQuote_def kEscape_def parse_string_def string_loop.simps(2) string_fits_def guard_err_def is_valid_utf8.simps(2)
  parse_number_def number_sign_def number_integer_def number_fraction_def number_exponent_def is_digit_def default_json_limits

lemma small_document_parses: "\<exists>v. json_parse default_limits small_document = Inr v"
  by (simp add: json_parse_def small_document_def parse_eval)

lemma duplicate_document_refused: "\<exists>e. json_parse default_limits duplicate_document = Inl e"
  by (simp add: json_parse_def duplicate_document_def parse_eval)


end
