(* ===== verification/Service.thy ===== *)
theory Service
  imports Tools
begin

text \<open>
  The service (\<open>command_serve\<close> of \<open>tools/pathobs_main.cpp\<close>), the observation node that feeds it
  (\<open>tools/pathobs_node_main.cpp\<close>) and the command lines of both programs. The two run in separate processes
  and share nothing but the connection, so each has a channel of its own: what one end has written is what
  the other end has to read. The main property composes transport, codec and runtime: a session of a node
  has the effect of calling the runtime with the node's records.
\<close>

section \<open>The service\<close>

definition ack_bytes :: "IngestResult \<Rightarrow> byte list" where
  "ack_bytes res = (if ing_accepted res then map of_char ''accepted'' else map of_char ''rejected'')"

text \<open>
  What the service does with one frame: a source is registered and the status is dropped, evidence is
  ingested and acknowledged, and evidence that cannot be decoded is skipped without an answer.
\<close>

definition serve_frame :: "os_send \<Rightarrow> hasher \<Rightarrow> Limits \<Rightarrow> Frame \<Rightarrow> FramedChannel \<Rightarrow> Runtime \<Rightarrow> FramedChannel \<times> Runtime" where
  "serve_frame tx H limits f ch rt =
     (case frame_type f of
        Frame_Hello \<Rightarrow>
          (case decode_exact (decode_source_descriptor limits) (frame_payload f) of
             Inl _ \<Rightarrow> (ch, rt)
           | Inr d \<Rightarrow> (ch, snd (runtime_register_source H d rt)))
      | Frame_Evidence \<Rightarrow>
          (case decode_exact (decode_evidence H limits) (frame_payload f) of
             Inl _ \<Rightarrow> (ch, rt)
           | Inr e \<Rightarrow>
               (case ingest_evidence H e rt of
                  (res, rt) \<Rightarrow> (snd (channel_send tx Frame_Ack (ack_bytes res) ch), rt)))
      | _ \<Rightarrow> (ch, rt))"

text \<open>The loop over the frames of one connection; \<open>None\<close> is a loop that never ends.\<close>

partial_function (option) serve_connection ::
  "os_recv \<Rightarrow> os_send \<Rightarrow> hasher \<Rightarrow> Limits \<Rightarrow> FramedChannel \<Rightarrow> Runtime \<Rightarrow> (FramedChannel \<times> Runtime) option" where
  "serve_connection rx tx H limits ch rt =
     (case channel_receive rx ch of
        (Inl _, ch) \<Rightarrow> Some (ch, rt)
      | (Inr f, ch) \<Rightarrow>
          if frame_type f = Frame_Bye then Some (ch, rt)
          else case serve_frame tx H limits f ch rt of (ch, rt) \<Rightarrow> serve_connection rx tx H limits ch rt)"

text \<open>
  The connections of a service, one per answer of the operating system to \<open>accept\<close>; a failed \<open>accept\<close> ends
  the loop. The result counts the connections that were accepted.
\<close>

fun serve_connections ::
  "os_recv \<Rightarrow> os_send \<Rightarrow> hasher \<Rightarrow> TransportServer \<Rightarrow> NetAnswers list \<Rightarrow> Net \<Rightarrow> Runtime \<Rightarrow> (nat \<times> Net \<times> Runtime) option" where
  "serve_connections rx tx H srv [] net rt = Some (0, net, rt)"
| "serve_connections rx tx H srv (a # as) net rt =
     (case server_accept a srv net of
        (Inl _, net) \<Rightarrow> Some (0, net, rt)
      | (Inr ch, net) \<Rightarrow>
          (case serve_connection rx tx H (srv_limits srv) ch rt of
             None \<Rightarrow> None
           | Some (ch, rt) \<Rightarrow>
               map_option (\<lambda>(n, net, rt). (n + 1, net, rt))
                 (serve_connections rx tx H srv as (snd (channel_close ch net)) rt)))"

text \<open>
  The whole command. \<open>answers k\<close> are the answers of the operating system to the first \<open>k\<close> calls of \<open>accept\<close>;
  \<open>port\<close> is the port the listener was given.
\<close>

definition command_serve ::
  "os_recv \<Rightarrow> os_send \<Rightarrow> hasher \<Rightarrow> (ComparisonResult \<Rightarrow> string list \<times> string list) \<Rightarrow> NetAnswers \<Rightarrow> nat \<Rightarrow>
   (nat \<Rightarrow> NetAnswers list) \<Rightarrow> Options \<Rightarrow> Net \<Rightarrow> byte list option \<Rightarrow> (ToolExit \<times> byte list option) option" where
  "command_serve rx tx H texts a port answers os net disk =
     (case server_start a \<lparr>opt_backlog = 8, opt_limits = default_limits\<rparr> net of
        (Inl e, _) \<Rightarrow> Some (tool_fail [] e, disk)
      | (Inr srv, net) \<Rightarrow>
          let listening = ''listening on 127.0.0.1:'' @ decimal port; count = unat (option_number os ''count'' 1)
          in case make_runtime H os (TimePoint kCreationNanos) (option_has os ''store'') disk of
               (Inl e, disk) \<Rightarrow> Some (tool_fail [listening] e, disk)
             | (Inr rt, _) \<Rightarrow>
                 map_option (\<lambda>(accepted, _, rt).
                     (case compare_all H rt of
                        (Inl e, rt) \<Rightarrow> (tool_fail [listening] e, runtime_file rt)
                      | (Inr results, rt) \<Rightarrow>
                          let ls = listening # concat (map (comparison_lines texts (option_has os ''pretty'') False) results)
                          in case stopped_exit ls rt of
                               (ex, disk) \<Rightarrow>
                                 (if exit_code ex \<noteq> 0 then ex
                                  else ex\<lparr>tool_out := ls @ [''served '' @ decimal accepted @ '' connection(s)''],
                                          exit_code := if accepted = count then 0 else 1\<rparr>, disk)))
                   (serve_connections rx tx H srv (answers count) net rt))"

section \<open>The program\<close>

text \<open>
  What the commands ask of their environment: the digest function, the free text of comparisons, the build
  macros, the files, the operating system behind the sockets, and which files can be written.
\<close>

record ToolWorld =
  world_hash :: hasher
  world_texts :: "ComparisonResult \<Rightarrow> string list \<times> string list"
  world_configuration :: string
  world_asan :: bool
  world_files :: "string \<Rightarrow> byte list option"
  world_writable :: "string \<Rightarrow> bool"
  world_recv :: os_recv
  world_send :: os_send
  world_listen :: NetAnswers
  world_port :: nat
  world_accepts :: "nat \<Rightarrow> NetAnswers list"
  world_net :: Net

text \<open>The store file a command works on, and the exit of a command that leaves that file in a new state.\<close>

definition world_store :: "ToolWorld \<Rightarrow> Options \<Rightarrow> byte list option" where
  "world_store w os = world_files w (option_get os ''store'' kDefaultStore)"

definition stored_exit :: "ToolWorld \<Rightarrow> Options \<Rightarrow> ToolExit \<times> byte list option \<Rightarrow> ToolExit \<times> ToolWorld" where
  "stored_exit w os r =
     (fst r, w\<lparr>world_files := (world_files w)(option_get os ''store'' kDefaultStore := snd r)\<rparr>)"

definition tool_usage :: ToolExit where
  "tool_usage = \<lparr>tool_out =
     [''Path Observatory '' @ version_string, ''usage: pathobs <command> [options]'', [], ''  version'', ''  selftest'',
      ''  compare   [--seed N --diverge --partial --multipath N --pretty --now TIME]'',
      ''  explain   [same options as compare]'', ''  ingest    --store DIR [--seed N ...]'',
      ''  history   --store DIR [--limit N --pretty]'', ''  export    --store DIR [--out FILE --pretty]'',
      ''  validate  --store DIR'', ''  serve     --port N [--store DIR --count N --pretty]''],
     tool_error = None, exit_code = 2\<rparr>"

definition pathobs_main :: "ToolWorld \<Rightarrow> string list \<Rightarrow> (ToolExit \<times> ToolWorld) option" where
  "pathobs_main w args =
     (case args of
        [] \<Rightarrow> Some (tool_usage, w)
      | command # rest \<Rightarrow>
          let os = parse_options rest []; H = world_hash w; disk = world_store w os
          in if command = ''version'' then Some (command_version (world_configuration w) (world_asan w), w)
             else if command = ''selftest'' then Some (command_selftest (world_configuration w) (world_asan w), w)
             else if command = ''compare'' then Some (command_compare H (world_texts w) os False, w)
             else if command = ''explain'' then Some (command_compare H (world_texts w) os True, w)
             else if command = ''ingest'' then Some (stored_exit w os (command_ingest H os disk))
             else if command = ''history'' then Some (command_history H os disk, w)
             else if command = ''export''
             then Some (case command_export H os (world_writable w) disk of
                 (ex, None) \<Rightarrow> (ex, w)
               | (ex, Some (name, exported)) \<Rightarrow>
                   (ex, w\<lparr>world_files := (world_files w)(name \<mapsto> map of_char exported)\<rparr>))
             else if command = ''validate'' then Some (command_validate os disk, w)
             else if command = ''serve''
             then map_option (stored_exit w os)
                    (command_serve (world_recv w) (world_send w) H (world_texts w) (world_listen w) (world_port w)
                       (world_accepts w) os (world_net w) disk)
             else Some (tool_usage, w))"

section \<open>The node\<close>

fun node_hello :: "os_send \<Rightarrow> SourceDescriptor list \<Rightarrow> FramedChannel \<Rightarrow> Status \<times> FramedChannel" where
  "node_hello tx [] ch = (ok, ch)"
| "node_hello tx (d # ds) ch =
     (case channel_send tx Frame_Hello (encode_source d) ch of
        (Inl e, ch) \<Rightarrow> (Inl e, ch)
      | (Inr _, ch) \<Rightarrow> node_hello tx ds ch)"

text \<open>Each record is sent and its acknowledgement awaited; any frame is taken as one.\<close>

fun node_evidence :: "os_recv \<Rightarrow> os_send \<Rightarrow> ObservedPathEvidence list \<Rightarrow> FramedChannel \<Rightarrow> nat Result \<times> FramedChannel" where
  "node_evidence rx tx [] ch = (Inr 0, ch)"
| "node_evidence rx tx (e # es) ch =
     (case channel_send tx Frame_Evidence (encode_evidence e) ch of
        (Inl err, ch) \<Rightarrow> (Inl err, ch)
      | (Inr _, ch) \<Rightarrow>
          (case channel_receive rx ch of
             (Inl err, ch) \<Rightarrow> (Inl err, ch)
           | (Inr _, ch) \<Rightarrow>
               (case node_evidence rx tx es ch of
                  (Inl err, ch) \<Rightarrow> (Inl err, ch)
                | (Inr n, ch) \<Rightarrow> (Inr (n + 1), ch))))"

definition node_session ::
  "os_recv \<Rightarrow> os_send \<Rightarrow> SourceDescriptor list \<Rightarrow> ObservedPathEvidence list \<Rightarrow> FramedChannel \<Rightarrow> nat Result \<times> FramedChannel" where
  "node_session rx tx ds es ch =
     (case node_hello tx ds ch of
        (Inl err, ch) \<Rightarrow> (Inl err, ch)
      | (Inr _, ch) \<Rightarrow>
          (case node_evidence rx tx es ch of
             (Inl err, ch) \<Rightarrow> (Inl err, ch)
           | (Inr n, ch) \<Rightarrow> (Inr n, snd (channel_send tx Frame_Bye [] ch))))"

text \<open>The bytes the node writes in its garbage scenario.\<close>

definition garbage :: "byte list" where
  "garbage = map (\<lambda>i. of_nat ((0x40 + i) mod 256)) [0..<24]"

definition node_main ::
  "os_recv \<Rightarrow> os_send \<Rightarrow> hasher \<Rightarrow> NetAnswers \<Rightarrow> Options \<Rightarrow> Net \<Rightarrow> ToolExit" where
  "node_main rx tx H a os net =
     (if \<not> option_has os ''port'' then \<lparr>tool_out = [], tool_error = None, exit_code = 2\<rparr>
      else case build_lab_fabric H (node_lab_options os) default_limits of
          Inl e \<Rightarrow> tool_fail [] e
        | Inr f \<Rightarrow>
            if option_get os ''scenario'' ''match'' = ''garbage''
            then case system_init net of
                (Inl e, _) \<Rightarrow> tool_fail [] e
              | (Inr _, net) \<Rightarrow>
                  (case connect_loopback a net of
                     (Inl e, _) \<Rightarrow> tool_fail [] e
                   | (Inr s, _) \<Rightarrow>
                       (case send_all tx garbage s of
                          (Inl e, _) \<Rightarrow> tool_fail [] e
                        | (Inr _, _) \<Rightarrow> \<lparr>tool_out = [], tool_error = None, exit_code = 3\<rparr>))
            else case transport_connect a default_limits net of
                (Inl e, _) \<Rightarrow> tool_fail [] e
              | (Inr ch, _) \<Rightarrow>
                  (case node_session rx tx (lab_sources f) (lab_evidence f) ch of
                     (Inl e, _) \<Rightarrow> tool_fail [] e
                   | (Inr n, _) \<Rightarrow> tool_done [''sent '' @ decimal n @ '' evidence frame(s)'']))"

section \<open>One connection\<close>

text \<open>Sending never touches what is there to read, and a connection is served to its end.\<close>

lemma send_loop_in: "sock_in (snd (send_loop tx data s)) = sock_in s \<and> sock_handle (snd (send_loop tx data s)) = sock_handle s"
proof (induction tx data s rule: send_loop.induct)
  case (1 tx data s)
  then show ?case by (subst (1 2) send_loop.simps) (auto simp: Let_def)
qed

lemma channel_send_keeps [simp]:
  "sock_in (ch_socket (snd (channel_send tx t p ch))) = sock_in (ch_socket ch)"
  "sock_valid (ch_socket (snd (channel_send tx t p ch))) = sock_valid (ch_socket ch)"
  "ch_limits (snd (channel_send tx t p ch)) = ch_limits ch"
  using send_loop_in[of tx "encode_frame t 0 p" "ch_socket ch"]
  by (auto simp: channel_send_def send_all_def sock_valid_def split: prod.splits)

lemma serve_frame_in [simp]: "sock_in (ch_socket (fst (serve_frame tx H limits f ch rt))) = sock_in (ch_socket ch)"
  by (simp add: serve_frame_def split: FrameType.splits sum.splits prod.splits)

lemma channel_receive_shrinks:
  assumes "delivers rx" and "channel_receive rx ch = (Inr f, ch')"
  shows "length (sock_in (ch_socket ch')) < length (sock_in (ch_socket ch))"
proof -
  obtain s where "receive_frame rx (ch_limits ch) (ch_socket ch) = (Inr f, s)" "ch_socket ch' = s"
    using assms(2) by (auto simp: channel_receive_def split: prod.splits)
  with receive_sound[OF assms(1) this(1)] show ?thesis
    by (simp add: starts_with_frame_def encode_frame_def kFrameHeaderBytes_def)
qed

lemma serve_connection_total:
  assumes "delivers rx"
  shows "\<exists>r. serve_connection rx tx H limits ch rt = Some r"
proof (induction "length (sock_in (ch_socket ch))" arbitrary: ch rt rule: less_induct)
  case less
  obtain r ch1 where c: "channel_receive rx ch = (r, ch1)" by fastforce
  show ?case
  proof (cases r)
    case (Inl e)
    then show ?thesis using c by (subst serve_connection.simps) simp
  next
    case (Inr f)
    obtain ch2 rt2 where s: "serve_frame tx H limits f ch1 rt = (ch2, rt2)" by fastforce
    have "sock_in (ch_socket ch2) = sock_in (ch_socket ch1)"
      using serve_frame_in[of tx H limits f ch1 rt] s by simp
    then have "length (sock_in (ch_socket ch2)) < length (sock_in (ch_socket ch))"
      using channel_receive_shrinks[OF assms] c Inr by auto
    from less[OF this, of rt2] show ?thesis using c Inr s by (subst serve_connection.simps) auto
  qed
qed

lemma serve_connections_total:
  assumes "delivers rx"
  shows "\<exists>r. serve_connections rx tx H srv as net rt = Some r"
proof (induction as arbitrary: net rt)
  case (Cons a as)
  show ?case
  proof (cases "server_accept a srv net")
    case (Pair r net')
    then show ?thesis
      using serve_connection_total[OF assms, of tx H "srv_limits srv"] Cons.IH
      by (cases r) (auto split: option.splits, fastforce)
  qed
qed simp

text \<open>Bytes that are no frame end the connection and leave the runtime as it was.\<close>

lemma garbage_refused:
  assumes "delivers rx" and "sock_valid (ch_socket ch)" and "sock_in (ch_socket ch) = garbage"
  shows "\<exists>ch'. serve_connection rx tx H limits ch rt = Some (ch', rt) \<and> sock_shut (ch_socket ch')"
proof -
  have "kFrameHeaderBytes \<le> length (sock_in (ch_socket ch))" using assms(3) by (simp add: garbage_def kFrameHeaderBytes_def)
  from recv_exact_enough[OF assms(1,2) this] obtain c where
    "recv_exact rx kFrameHeaderBytes (ch_socket ch) = (Inr (take kFrameHeaderBytes garbage),
      (ch_socket ch)\<lparr>sock_in := drop kFrameHeaderBytes garbage, sock_calls := c\<rparr>)"
    using assms(3) by metis
  moreover have "get_u32 (take kFrameHeaderBytes garbage) 0 \<noteq> kFrameMagic"
    by (simp add: garbage_def kFrameHeaderBytes_def kFrameMagic_def get_u32_def upt_rec le_value_def)
  ultimately obtain e ch' where "channel_receive rx ch = (Inl e, ch')" "sock_shut (ch_socket ch')"
    using assms(2) by (auto simp: channel_receive_def receive_frame_def shutdown_both_def)
  then show ?thesis by (subst serve_connection.simps) auto
qed

text \<open>
  Evidence that cannot be decoded is skipped without an answer, while the node waits for one after every
  record.
\<close>

lemma bad_evidence_unanswered:
  assumes "decode_exact (decode_evidence H limits) (frame_payload f) = Inl e" and "frame_type f = Frame_Evidence"
  shows "serve_frame tx H limits f ch rt = (ch, rt)"
  using assms by (simp add: serve_frame_def)

section \<open>Sessions\<close>

text \<open>The frames of a session: every source, every record, and the end of the session when all were sent.\<close>

abbreviation hello_frames :: "SourceDescriptor list \<Rightarrow> (FrameType \<times> byte list) list" where
  "hello_frames \<equiv> map (\<lambda>d. (Frame_Hello, encode_source d))"

abbreviation evidence_frames :: "ObservedPathEvidence list \<Rightarrow> (FrameType \<times> byte list) list" where
  "evidence_frames \<equiv> map (\<lambda>e. (Frame_Evidence, encode_evidence e))"

abbreviation ack_frames :: "IngestResult list \<Rightarrow> (FrameType \<times> byte list) list" where
  "ack_frames \<equiv> map (\<lambda>r. (Frame_Ack, ack_bytes r))"

text \<open>The calls of the runtime that a session stands for.\<close>

definition register_each :: "hasher \<Rightarrow> SourceDescriptor list \<Rightarrow> Runtime \<Rightarrow> Runtime" where
  "register_each H ds rt = fold (\<lambda>d rt. snd (runtime_register_source H d rt)) ds rt"

fun ingest_results :: "hasher \<Rightarrow> ObservedPathEvidence list \<Rightarrow> Runtime \<Rightarrow> IngestResult list \<times> Runtime" where
  "ingest_results H [] rt = ([], rt)"
| "ingest_results H (e # es) rt =
     (case ingest_evidence H e rt of
        (res, rt) \<Rightarrow> (case ingest_results H es rt of (rs, rt) \<Rightarrow> (res # rs, rt)))"

lemma ingest_results_all: "snd (ingest_results H es rt) = snd (ingest_all H es rt)"
  by (induction es arbitrary: rt) (simp_all split: prod.splits, metis snd_conv)

lemma ingest_results_take: "fst (ingest_results H (take k es) rt) = take k (fst (ingest_results H es rt))"
proof (induction es arbitrary: k rt)
  case (Cons e es)
  then show ?case by (cases k) (simp_all split: prod.splits, metis fst_conv)
qed simp

lemma length_ingest_results [simp]: "length (fst (ingest_results H es rt)) = length es"
  by (induction es arbitrary: rt) (simp_all split: prod.splits, metis fst_conv)

lemma wire_simps [simp]:
  "wire [] = []" "wire ((t, p) # fs) = encode_frame t 0 p @ wire fs" "wire (fs @ gs) = wire fs @ wire gs"
  by (simp_all add: wire_def)

lemma frame_bound_simps [simp]:
  "within_frame_bound limits []"
  "within_frame_bound limits ((t, p) # fs) \<longleftrightarrow> length p \<le> unat (max_frame_bytes limits) \<and> within_frame_bound limits fs"
  "within_frame_bound limits (fs @ gs) \<longleftrightarrow> within_frame_bound limits fs \<and> within_frame_bound limits gs"
  by (simp_all add: within_frame_bound_def)

lemma recv_loop_out: "sock_out (snd (recv_loop rx n got s)) = sock_out s"
proof (induction rx n got s rule: recv_loop.induct)
  case (1 rx n got s)
  then show ?case by (subst recv_loop.simps) (auto simp: Let_def)
qed

lemma recv_exact_out: "recv_exact rx n s = (r, s') \<Longrightarrow> sock_out s' = sock_out s"
  using recv_loop_out[of rx n "[]" s] by (auto simp: recv_exact_def split: if_splits)

lemma shutdown_both_out [simp]: "sock_out (shutdown_both s) = sock_out s"
  by (simp add: shutdown_both_def)

lemma channel_receive_out: "channel_receive rx ch = (r, ch') \<Longrightarrow> sock_out (ch_socket ch') = sock_out (ch_socket ch)"
  by (auto simp: channel_receive_def receive_frame_def receive_payload_def dest!: recv_exact_out
      split: prod.splits sum.splits if_splits)

lemma receive_frame_keeps:
  assumes "delivers rx" and "receive_frame rx limits s = (Inr f, s')"
  shows "sock_valid s'"
  using assms(2) recv_exact_Inr[OF assms(1)]
  by (fastforce simp: receive_frame_def receive_payload_def split: prod.splits sum.splits if_splits)

text \<open>The next frame of a stream is received, and nothing else changes.\<close>

lemma next_frame:
  assumes "delivers rx" and "sock_valid (ch_socket ch)" and "sock_in (ch_socket ch) = encode_frame t 0 p @ rest"
    and "length p \<le> unat (max_frame_bytes (ch_limits ch))"
  obtains ch' where "channel_receive rx ch = (Inr \<lparr>frame_type = t, frame_flags = 0, frame_payload = p\<rparr>, ch')"
    and "sock_valid (ch_socket ch')" and "sock_in (ch_socket ch') = rest" and "ch_limits ch' = ch_limits ch"
    and "sock_out (ch_socket ch') = sock_out (ch_socket ch)"
proof -
  have "starts_with_frame (ch_limits ch) \<lparr>frame_type = t, frame_flags = 0, frame_payload = p\<rparr> (sock_in (ch_socket ch)) rest"
    using assms(3,4) by (simp add: starts_with_frame_def)
  from channel_receive_accepts[OF assms(1,2) this] channel_receive_out that show thesis by blast
qed

lemma no_frame:
  assumes "delivers rx" and "sock_valid (ch_socket ch)" and "sock_in (ch_socket ch) = []"
  obtains e ch' where "channel_receive rx ch = (Inl e, ch')" and "sock_out (ch_socket ch') = sock_out (ch_socket ch)"
  using receive_closed[OF assms, of "ch_limits ch"] channel_receive_out[of rx ch] that
  by (cases "receive_frame rx (ch_limits ch) (ch_socket ch)") (auto simp: channel_receive_def)

lemma sent_frame:
  assumes "transmits tx" and "sock_valid (ch_socket ch)" and "length p \<le> unat (max_frame_bytes (ch_limits ch))"
  obtains ch' where "channel_send tx t p ch = (ok, ch')" and "sock_valid (ch_socket ch')"
    and "sock_in (ch_socket ch') = sock_in (ch_socket ch)" and "ch_limits ch' = ch_limits ch"
    and "sock_out (ch_socket ch') = sock_out (ch_socket ch) @ encode_frame t 0 p"
proof -
  from channel_send_done[OF assms, of t] obtain c where "channel_send tx t p ch =
      (ok, ch\<lparr>ch_socket := (ch_socket ch)\<lparr>sock_out := sock_out (ch_socket ch) @ encode_frame t 0 p, sock_calls := c\<rparr>\<rparr>)"
    by blast
  then show thesis by (rule that) (use assms(2) in simp_all)
qed

text \<open>The service reads the sources of a session, then its records, and answers one frame per record.\<close>

lemma serve_hello:
  assumes "delivers rx" and "list_all (source_wf limits) ds"
    and "sock_valid (ch_socket ch)" and "sock_in (ch_socket ch) = wire (hello_frames ds) @ rest"
    and "within_frame_bound (ch_limits ch) (hello_frames ds)"
  shows "\<exists>ch'. serve_connection rx tx H limits ch rt = serve_connection rx tx H limits ch' (register_each H ds rt) \<and>
    sock_valid (ch_socket ch') \<and> sock_in (ch_socket ch') = rest \<and> ch_limits ch' = ch_limits ch \<and>
    sock_out (ch_socket ch') = sock_out (ch_socket ch)"
  using assms(2-)
proof (induction ds arbitrary: ch rt)
  case (Cons d ds)
  obtain ch1 where c: "channel_receive rx ch = (Inr \<lparr>frame_type = Frame_Hello, frame_flags = 0, frame_payload = encode_source d\<rparr>, ch1)"
    "sock_valid (ch_socket ch1)" "sock_in (ch_socket ch1) = wire (hello_frames ds) @ rest" "ch_limits ch1 = ch_limits ch"
    "sock_out (ch_socket ch1) = sock_out (ch_socket ch)"
    by (rule next_frame[OF assms(1) Cons.prems(2), of Frame_Hello "encode_source d"]) (use Cons.prems in auto)
  have "decode_exact (decode_source_descriptor limits) (encode_source d) = Inr d"
    using Cons.prems(1) by (simp add: decode_exact_Inr source_codec.read_write_end)
  then have "serve_connection rx tx H limits ch rt =
      serve_connection rx tx H limits ch1 (snd (runtime_register_source H d rt))"
    using c(1) by (subst serve_connection.simps) (simp add: serve_frame_def)
  then show ?case
    using Cons.IH[OF _ c(2,3), of "snd (runtime_register_source H d rt)"] Cons.prems c(4,5)
    by (auto simp: register_each_def)
qed (auto simp: register_each_def)

lemma length_ack [simp]: "length (ack_bytes r) = 8"
  by (simp add: ack_bytes_def)

lemma serve_evidence:
  assumes "delivers rx" and "transmits tx" and "list_all (evidence_wf H limits) es"
    and "sock_valid (ch_socket ch)" and "sock_in (ch_socket ch) = wire (evidence_frames es) @ rest"
    and "within_frame_bound (ch_limits ch) (evidence_frames es)" and "8 \<le> unat (max_frame_bytes (ch_limits ch))"
  shows "\<exists>ch'. serve_connection rx tx H limits ch rt = serve_connection rx tx H limits ch' (snd (ingest_results H es rt)) \<and>
    sock_valid (ch_socket ch') \<and> sock_in (ch_socket ch') = rest \<and> ch_limits ch' = ch_limits ch \<and>
    sock_out (ch_socket ch') = sock_out (ch_socket ch) @ wire (ack_frames (fst (ingest_results H es rt)))"
  using assms(3-)
proof (induction es arbitrary: ch rt)
  case (Cons e es)
  obtain ch1 where c: "channel_receive rx ch =
      (Inr \<lparr>frame_type = Frame_Evidence, frame_flags = 0, frame_payload = encode_evidence e\<rparr>, ch1)"
    "sock_valid (ch_socket ch1)" "sock_in (ch_socket ch1) = wire (evidence_frames es) @ rest" "ch_limits ch1 = ch_limits ch"
    "sock_out (ch_socket ch1) = sock_out (ch_socket ch)"
    by (rule next_frame[OF assms(1) Cons.prems(2), of Frame_Evidence "encode_evidence e"]) (use Cons.prems in auto)
  obtain res rt1 where i: "ingest_evidence H e rt = (res, rt1)" by fastforce
  obtain ch2 where s: "channel_send tx Frame_Ack (ack_bytes res) ch1 = (ok, ch2)" "sock_valid (ch_socket ch2)"
    "sock_in (ch_socket ch2) = sock_in (ch_socket ch1)" "ch_limits ch2 = ch_limits ch1"
    "sock_out (ch_socket ch2) = sock_out (ch_socket ch1) @ encode_frame Frame_Ack 0 (ack_bytes res)"
    by (rule sent_frame[OF assms(2) c(2), of "ack_bytes res" Frame_Ack]) (use Cons.prems c(4) in auto)
  have "decode_exact (decode_evidence H limits) (encode_evidence e) = Inr e"
    using Cons.prems(1) by (simp add: decode_exact_Inr evidence_codec.read_write_end)
  then have "serve_connection rx tx H limits ch rt = serve_connection rx tx H limits ch2 rt1"
    using c(1) i s(1) by (subst serve_connection.simps) (simp add: serve_frame_def)
  moreover have "sock_in (ch_socket ch2) = wire (evidence_frames es) @ rest" using s(3) c(3) by simp
  from Cons.IH[OF _ s(2) this, of rt1] have "\<exists>ch'. serve_connection rx tx H limits ch2 rt1 =
      serve_connection rx tx H limits ch' (snd (ingest_results H es rt1)) \<and>
      sock_valid (ch_socket ch') \<and> sock_in (ch_socket ch') = rest \<and> ch_limits ch' = ch_limits ch2 \<and>
      sock_out (ch_socket ch') = sock_out (ch_socket ch2) @ wire (ack_frames (fst (ingest_results H es rt1)))"
    using Cons.prems c(4) s(4) by simp
  ultimately show ?case using c(4,5) s(4,5) by (auto simp: i split: prod.splits)
qed auto

lemma serve_rest:
  assumes "delivers rx" and "sock_valid (ch_socket ch)"
    and "sock_in (ch_socket ch) = (if complete then wire [(Frame_Bye, [])] else [])"
  shows "\<exists>ch'. serve_connection rx tx H limits ch rt = Some (ch', rt) \<and> sock_out (ch_socket ch') = sock_out (ch_socket ch)"
proof (cases complete)
  case True
  obtain ch' where "channel_receive rx ch = (Inr \<lparr>frame_type = Frame_Bye, frame_flags = 0, frame_payload = []\<rparr>, ch')"
    "sock_out (ch_socket ch') = sock_out (ch_socket ch)"
    by (rule next_frame[OF assms(1,2), of Frame_Bye "[]" "[]"]) (use assms(3) True in auto)
  then show ?thesis by (subst serve_connection.simps) simp
next
  case False
  then obtain e ch' where "channel_receive rx ch = (Inl e, ch')" "sock_out (ch_socket ch') = sock_out (ch_socket ch)"
    using no_frame[OF assms(1,2)] assms(3) by auto
  then show ?thesis by (subst serve_connection.simps) simp
qed

text \<open>The bytes of a session in which the first \<open>k\<close> records were sent.\<close>

definition session_bytes :: "SourceDescriptor list \<Rightarrow> ObservedPathEvidence list \<Rightarrow> nat \<Rightarrow> bool \<Rightarrow> byte list" where
  "session_bytes ds es k complete =
     wire (hello_frames ds) @ wire (evidence_frames (take k es)) @ (if complete then wire [(Frame_Bye, [])] else [])"

lemma frame_bound_take: "within_frame_bound limits fs \<Longrightarrow> within_frame_bound limits (take k fs)"
  by (simp add: within_frame_bound_def list_all_length)

lemma serve_session:
  assumes "delivers rx" and "transmits tx" and "list_all (source_wf limits) ds" and "list_all (evidence_wf H limits) es"
    and "sock_valid (ch_socket ch)" and "sock_in (ch_socket ch) = session_bytes ds es k complete"
    and "within_frame_bound (ch_limits ch) (hello_frames ds @ evidence_frames es)" and "8 \<le> unat (max_frame_bytes (ch_limits ch))"
  shows "\<exists>ch'. serve_connection rx tx H limits ch rt =
      Some (ch', snd (ingest_results H (take k es) (register_each H ds rt))) \<and>
    sock_out (ch_socket ch') =
      sock_out (ch_socket ch) @ wire (ack_frames (take k (fst (ingest_results H es (register_each H ds rt)))))"
proof -
  let ?rest = "if complete then wire [(Frame_Bye, [])] else []"
  obtain ch1 where 1: "serve_connection rx tx H limits ch rt = serve_connection rx tx H limits ch1 (register_each H ds rt)"
    "sock_valid (ch_socket ch1)" "sock_in (ch_socket ch1) = wire (evidence_frames (take k es)) @ ?rest"
    "ch_limits ch1 = ch_limits ch" "sock_out (ch_socket ch1) = sock_out (ch_socket ch)"
    using serve_hello[OF assms(1,3,5), of "wire (evidence_frames (take k es)) @ ?rest" tx H rt] assms(6,7)
    by (auto simp: session_bytes_def)
  have "list_all (evidence_wf H limits) (take k es)" using assms(4) by (simp add: list_all_length)
  moreover have "within_frame_bound (ch_limits ch1) (evidence_frames (take k es))"
    using assms(7) 1(4) by (simp add: take_map[symmetric] frame_bound_take)
  ultimately obtain ch2 where 2: "serve_connection rx tx H limits ch1 (register_each H ds rt) =
      serve_connection rx tx H limits ch2 (snd (ingest_results H (take k es) (register_each H ds rt)))"
    "sock_valid (ch_socket ch2)" "sock_in (ch_socket ch2) = ?rest"
    "sock_out (ch_socket ch2) = sock_out (ch_socket ch1) @ wire (ack_frames (fst (ingest_results H (take k es) (register_each H ds rt))))"
    using serve_evidence[OF assms(1,2) _ 1(2,3)] assms(8) 1(4) by metis
  from serve_rest[OF assms(1) 2(2,3)] show ?thesis using 1 2 by (simp add: ingest_results_take)
qed

section \<open>The node's side\<close>

lemma node_hello_done:
  assumes "transmits tx" and "sock_valid (ch_socket ch)" and "within_frame_bound (ch_limits ch) (hello_frames ds)"
  obtains ch' where "node_hello tx ds ch = (ok, ch')" and "sock_valid (ch_socket ch')"
    and "sock_in (ch_socket ch') = sock_in (ch_socket ch)" and "ch_limits ch' = ch_limits ch"
    and "sock_out (ch_socket ch') = sock_out (ch_socket ch) @ wire (hello_frames ds)"
  using assms(2-)
proof (induction ds arbitrary: ch thesis)
  case (Cons d ds)
  obtain ch1 where s: "channel_send tx Frame_Hello (encode_source d) ch = (ok, ch1)" "sock_valid (ch_socket ch1)"
    "sock_in (ch_socket ch1) = sock_in (ch_socket ch)" "ch_limits ch1 = ch_limits ch"
    "sock_out (ch_socket ch1) = sock_out (ch_socket ch) @ encode_frame Frame_Hello 0 (encode_source d)"
    by (rule sent_frame[OF assms(1) Cons.prems(2), of "encode_source d" Frame_Hello]) (use Cons.prems(3) in auto)
  have "within_frame_bound (ch_limits ch1) (hello_frames ds)" using Cons.prems(3) s(4) by simp
  with s(2) obtain ch2 where "node_hello tx ds ch1 = (ok, ch2)" "sock_valid (ch_socket ch2)"
    "sock_in (ch_socket ch2) = sock_in (ch_socket ch1)" "ch_limits ch2 = ch_limits ch1"
    "sock_out (ch_socket ch2) = sock_out (ch_socket ch1) @ wire (hello_frames ds)"
    using Cons.IH by metis
  then show ?case using s by (intro Cons.prems(1)[of ch2]) simp_all
qed simp

text \<open>Whatever it reads, a node has sent its first \<open>k\<close> records, and all of them when it succeeds.\<close>

lemma node_evidence_sends:
  assumes "delivers rx" and "transmits tx" and "sock_valid (ch_socket ch)"
    and "within_frame_bound (ch_limits ch) (evidence_frames es)" and "node_evidence rx tx es ch = (res, ch')"
  shows "\<exists>k\<le>length es. sock_out (ch_socket ch') = sock_out (ch_socket ch) @ wire (evidence_frames (take k es)) \<and>
    (\<forall>n. res = Inr n \<longrightarrow> n = length es \<and> k = length es \<and> sock_valid (ch_socket ch') \<and> ch_limits ch' = ch_limits ch)"
  using assms(3-)
proof (induction es arbitrary: ch res)
  case (Cons e es)
  obtain ch1 where s: "channel_send tx Frame_Evidence (encode_evidence e) ch = (ok, ch1)" "sock_valid (ch_socket ch1)"
    "sock_in (ch_socket ch1) = sock_in (ch_socket ch)" "ch_limits ch1 = ch_limits ch"
    "sock_out (ch_socket ch1) = sock_out (ch_socket ch) @ encode_frame Frame_Evidence 0 (encode_evidence e)"
    by (rule sent_frame[OF assms(2) Cons.prems(1), of "encode_evidence e" Frame_Evidence]) (use Cons.prems(2) in auto)
  obtain r ch2 where c: "channel_receive rx ch1 = (r, ch2)" by fastforce
  note out = channel_receive_out[OF c]
  show ?case
  proof (cases r)
    case (Inl err)
    then have "res = Inl err" "ch' = ch2" using Cons.prems(3) s(1) c by simp_all
    then show ?thesis using s(5) out by (intro exI[of _ 1]) simp
  next
    case (Inr f)
    have v: "sock_valid (ch_socket ch2)" "ch_limits ch2 = ch_limits ch1"
      using c Inr receive_frame_keeps[OF assms(1)] by (auto simp: channel_receive_def split: prod.splits)
    obtain res2 ch3 where n: "node_evidence rx tx es ch2 = (res2, ch3)" by fastforce
    have ch': "ch' = ch3" "res = (case res2 of Inl err \<Rightarrow> Inl err | Inr n \<Rightarrow> Inr (n + 1))"
      using Cons.prems(3) s(1) c Inr n by (auto split: sum.splits)
    have "within_frame_bound (ch_limits ch2) (evidence_frames es)" using Cons.prems(2) s(4) v(2) by simp
    from Cons.IH[OF v(1) this] n ch'(1) obtain k where "k \<le> length es"
      "sock_out (ch_socket ch3) = sock_out (ch_socket ch2) @ wire (evidence_frames (take k es))"
      "\<forall>n. res2 = Inr n \<longrightarrow> n = length es \<and> k = length es \<and> sock_valid (ch_socket ch3) \<and> ch_limits ch3 = ch_limits ch2"
      by blast
    then show ?thesis using s(4,5) v(2) out ch' by (intro exI[of _ "Suc k"]) (auto split: sum.splits)
  qed
qed simp

text \<open>A node that finds \<open>k\<close> acknowledgements sends one record more, unless there is none, and then it succeeds.\<close>

lemma node_evidence_acknowledged:
  assumes "delivers rx" and "transmits tx" and "sock_valid (ch_socket ch)"
    and "within_frame_bound (ch_limits ch) (evidence_frames es)" and "8 \<le> unat (max_frame_bytes (ch_limits ch))"
    and "sock_in (ch_socket ch) = wire (ack_frames (take k rs))" and "length rs = length es"
    and "node_evidence rx tx es ch = (res, ch')"
  shows "sock_out (ch_socket ch') = sock_out (ch_socket ch) @ wire (evidence_frames (take (Suc k) es)) \<and>
    (length es \<le> k \<longrightarrow> res = Inr (length es))"
  using assms(3-)
proof (induction es arbitrary: ch res rs k)
  case (Cons e es)
  obtain ch1 where s: "channel_send tx Frame_Evidence (encode_evidence e) ch = (ok, ch1)" "sock_valid (ch_socket ch1)"
    "sock_in (ch_socket ch1) = sock_in (ch_socket ch)" "ch_limits ch1 = ch_limits ch"
    "sock_out (ch_socket ch1) = sock_out (ch_socket ch) @ encode_frame Frame_Evidence 0 (encode_evidence e)"
    by (rule sent_frame[OF assms(2) Cons.prems(1), of "encode_evidence e" Frame_Evidence]) (use Cons.prems(2) in auto)
  obtain r rs' where rs: "rs = r # rs'" "length rs' = length es" using Cons.prems(5) by (cases rs) auto
  show ?case
  proof (cases k)
    case 0
    then obtain err ch2 where "channel_receive rx ch1 = (Inl err, ch2)" "sock_out (ch_socket ch2) = sock_out (ch_socket ch1)"
      using no_frame[OF assms(1) s(2)] s(3) Cons.prems(4) by auto
    then show ?thesis using Cons.prems(6) s(1,5) 0 by auto
  next
    case (Suc j)
    obtain ch2 where c: "channel_receive rx ch1 = (Inr \<lparr>frame_type = Frame_Ack, frame_flags = 0, frame_payload = ack_bytes r\<rparr>, ch2)"
      "sock_valid (ch_socket ch2)" "sock_in (ch_socket ch2) = wire (ack_frames (take j rs'))" "ch_limits ch2 = ch_limits ch1"
      "sock_out (ch_socket ch2) = sock_out (ch_socket ch1)"
      by (rule next_frame[OF assms(1) s(2), of Frame_Ack "ack_bytes r"]) (use Cons.prems(3,4) s(3,4) rs(1) Suc in auto)
    obtain res2 ch3 where n: "node_evidence rx tx es ch2 = (res2, ch3)" by fastforce
    have ch': "ch' = ch3" "res = (case res2 of Inl err \<Rightarrow> Inl err | Inr n \<Rightarrow> Inr (n + 1))"
      using Cons.prems(6) s(1) c(1) n by (auto split: sum.splits)
    have "within_frame_bound (ch_limits ch2) (evidence_frames es)" "8 \<le> unat (max_frame_bytes (ch_limits ch2))"
      using Cons.prems(2,3) s(4) c(4) by simp_all
    from Cons.IH[OF c(2) this c(3) rs(2)] n ch' show ?thesis using s(5) c(5) Suc by simp
  qed
qed simp

lemma node_session_sends:
  assumes "delivers rx" and "transmits tx" and "sock_valid (ch_socket ch)" and "sock_out (ch_socket ch) = []"
    and "within_frame_bound (ch_limits ch) (hello_frames ds @ evidence_frames es)" and "node_session rx tx ds es ch = (res, ch')"
  obtains k ch1 ch2 res1 where "k \<le> length es" and "sock_out (ch_socket ch') = session_bytes ds es k (\<exists>n. res = Inr n)"
    and "node_evidence rx tx es ch1 = (res1, ch2)" and "sock_valid (ch_socket ch1)" and "ch_limits ch1 = ch_limits ch"
    and "sock_in (ch_socket ch1) = sock_in (ch_socket ch)" and "sock_out (ch_socket ch1) = wire (hello_frames ds)"
    and "sock_out (ch_socket ch2) = session_bytes ds es k False" and "res = res1"
proof -
  obtain ch1 where h: "node_hello tx ds ch = (ok, ch1)" "sock_valid (ch_socket ch1)"
    "sock_in (ch_socket ch1) = sock_in (ch_socket ch)" "ch_limits ch1 = ch_limits ch"
    "sock_out (ch_socket ch1) = wire (hello_frames ds)"
    using node_hello_done[OF assms(2,3), of ds] assms(4,5) by auto
  obtain res1 ch2 where n: "node_evidence rx tx es ch1 = (res1, ch2)" by fastforce
  have "within_frame_bound (ch_limits ch1) (evidence_frames es)" using assms(5) h(4) by simp
  from node_evidence_sends[OF assms(1,2) h(2) this n] obtain k where k: "k \<le> length es"
    "sock_out (ch_socket ch2) = session_bytes ds es k False"
    "\<forall>n. res1 = Inr n \<longrightarrow> sock_valid (ch_socket ch2) \<and> ch_limits ch2 = ch_limits ch1"
    using h(5) by (auto simp: session_bytes_def)
  have "sock_out (ch_socket ch') = session_bytes ds es k (\<exists>n. res = Inr n) \<and> res = res1"
  proof (cases res1)
    case (Inl err)
    then show ?thesis using assms(6) h(1) n k(2) by (auto simp: node_session_def)
  next
    case (Inr m)
    then have "sock_valid (ch_socket ch2)" "0 \<le> unat (max_frame_bytes (ch_limits ch2))" using k(3) by auto
    then obtain ch3 where "channel_send tx Frame_Bye [] ch2 = (ok, ch3)"
      "sock_out (ch_socket ch3) = sock_out (ch_socket ch2) @ encode_frame Frame_Bye 0 []"
      using sent_frame[OF assms(2), of ch2 "[]" Frame_Bye] by auto
    then show ?thesis using assms(6) h(1) n k(2) Inr by (auto simp: node_session_def session_bytes_def)
  qed
  then show thesis using that[OF k(1) _ n h(2,4,3,5) k(2)] by blast
qed

lemma wire_take_inj:
  assumes "wire (evidence_frames (take (Suc k) es)) = wire (evidence_frames (take k es))"
  shows "length es \<le> k"
proof (rule ccontr)
  assume "\<not> length es \<le> k"
  then have "take (Suc k) es = take k es @ [es ! k]" by (simp add: take_Suc_conv_app_nth)
  then show False using arg_cong[OF assms, of length] by (simp add: encode_frame_def kFrameHeaderBytes_def)
qed

section \<open>Properties\<close>

text \<open>
  C27: A session between a node and the service, joined by a connection: each end reads exactly what the
  other writes, in whatever pieces the operating systems move it. The node then gets every one of its
  records acknowledged and neither end fails or waits for ever; the runtime of the service ends in the
  state that registering the node's sources and ingesting its records in order leads to, and the service
  has answered the outcome of each record in order.
\<close>

theorem node_service_session:
  assumes "delivers nrx" and "transmits ntx" and "delivers srx" and "transmits stx"
    and "list_all (source_wf limits) ds" and "list_all (evidence_wf H limits) es"
    and "sock_valid (ch_socket node)" and "sock_out (ch_socket node) = []"
    and "sock_valid (ch_socket service)" and "sock_out (ch_socket service) = []"
    and "within_frame_bound (ch_limits node) (hello_frames ds @ evidence_frames es)" and "8 \<le> unat (max_frame_bytes (ch_limits node))"
    and "within_frame_bound (ch_limits service) (hello_frames ds @ evidence_frames es)"
    and "8 \<le> unat (max_frame_bytes (ch_limits service))"
    and "node_session nrx ntx ds es node = (res, node')"
    and "(service', rt') = the (serve_connection srx stx H limits service rt)"
    and "sock_in (ch_socket service) = sock_out (ch_socket node')"
    and "sock_in (ch_socket node) = sock_out (ch_socket service')"
  shows "res = Inr (length es) \<and> serve_connection srx stx H limits service rt = Some (service', rt') \<and>
    rt' = snd (ingest_all H es (register_each H ds rt)) \<and>
    sock_out (ch_socket service') = wire (ack_frames (fst (ingest_results H es (register_each H ds rt))))"
proof -
  let ?rs = "fst (ingest_results H es (register_each H ds rt))"
  obtain k ch1 ch2 res1 where k: "k \<le> length es" "sock_out (ch_socket node') = session_bytes ds es k (\<exists>n. res = Inr n)"
    and n: "node_evidence nrx ntx es ch1 = (res1, ch2)" "sock_valid (ch_socket ch1)" "ch_limits ch1 = ch_limits node"
      "sock_in (ch_socket ch1) = sock_in (ch_socket node)" "sock_out (ch_socket ch1) = wire (hello_frames ds)"
      "sock_out (ch_socket ch2) = session_bytes ds es k False" "res = res1"
    by (rule node_session_sends[OF assms(1,2,7,8,11,15)])
  have s: "serve_connection srx stx H limits service rt = Some (service', snd (ingest_results H (take k es) (register_each H ds rt)))"
    "rt' = snd (ingest_results H (take k es) (register_each H ds rt))"
    "sock_out (ch_socket service') = wire (ack_frames (take k ?rs))"
    using serve_session[OF assms(3-6,9) _ assms(13,14), of k "\<exists>n. res = Inr n" rt] assms(10,16,17) k(2) by auto
  have "within_frame_bound (ch_limits ch1) (evidence_frames es)" "8 \<le> unat (max_frame_bytes (ch_limits ch1))"
    using assms(11,12) n(3) by simp_all
  moreover have "sock_in (ch_socket ch1) = wire (ack_frames (take k ?rs))" using n(4) assms(18) s(3) by simp
  moreover have "length ?rs = length es" by simp
  ultimately have a: "sock_out (ch_socket ch2) = sock_out (ch_socket ch1) @ wire (evidence_frames (take (Suc k) es)) \<and>
      (length es \<le> k \<longrightarrow> res1 = Inr (length es))"
    by (rule node_evidence_acknowledged[OF assms(1,2) n(2) _ _ _ _ n(1)])
  then have "length es \<le> k" using n(5,6) by (intro wire_take_inj) (simp add: session_bytes_def)
  then show ?thesis using a s n(7) by (simp add: ingest_results_all)
qed

text \<open>A node that finds an acknowledgement for every record sends the complete session.\<close>

lemma node_session_acknowledged:
  assumes "delivers rx" and "transmits tx" and "sock_valid (ch_socket ch)" and "sock_out (ch_socket ch) = []"
    and "within_frame_bound (ch_limits ch) (hello_frames ds @ evidence_frames es)" and "8 \<le> unat (max_frame_bytes (ch_limits ch))"
    and "sock_in (ch_socket ch) = wire (ack_frames rs)" and "length rs = length es"
  shows "sock_out (ch_socket (snd (node_session rx tx ds es ch))) = session_bytes ds es (length es) True"
proof -
  obtain res ch' where r: "node_session rx tx ds es ch = (res, ch')" by fastforce
  obtain k ch1 ch2 res1 where "k \<le> length es" and k: "sock_out (ch_socket ch') = session_bytes ds es k (\<exists>n. res = Inr n)"
    and n: "node_evidence rx tx es ch1 = (res1, ch2)" "sock_valid (ch_socket ch1)" "ch_limits ch1 = ch_limits ch"
      "sock_in (ch_socket ch1) = sock_in (ch_socket ch)" "sock_out (ch_socket ch1) = wire (hello_frames ds)"
      "sock_out (ch_socket ch2) = session_bytes ds es k False" "res = res1"
    by (rule node_session_sends[OF assms(1-5) r])
  have "sock_in (ch_socket ch1) = wire (ack_frames (take (length es) rs))" using n(4) assms(7,8) by simp
  from node_evidence_acknowledged[OF assms(1,2) n(2) _ _ this assms(8) n(1)] assms(5,6) n(3)
  have "sock_out (ch_socket ch2) = wire (hello_frames ds) @ wire (evidence_frames es)" "res1 = Inr (length es)"
    using n(5) by simp_all
  then show ?thesis using k n(6,7) by (simp add: r session_bytes_def)
qed

text \<open>One source and one record, moved byte by byte.\<close>

definition example_acks :: "byte list" where
  "example_acks = wire (ack_frames (fst (ingest_results three_hash [final_evidence] (register_each three_hash [example_source] plain_runtime))))"

definition example_node :: FramedChannel where
  "example_node = example_channel example_acks"

definition example_service :: FramedChannel where
  "example_service = example_channel (session_bytes [example_source] [final_evidence] 1 True)"

lemma example_session_wf:
  "list_all (source_wf default_limits) [example_source]" "list_all (evidence_wf three_hash default_limits) [final_evidence]"
  "within_frame_bound default_limits (hello_frames [example_source] @ evidence_frames [final_evidence])"
  "8 \<le> unat (max_frame_bytes default_limits)"
proof -
  have "length (encode_source example_source) \<le> 1000" "length (encode_evidence final_evidence) \<le> 1000"
    by (simp_all add: encode_source_def encode_evidence_def example_source_def final_evidence_def example_evidence_def
        example_hop_def write_text_def write_id_def write_u8_def write_bool_def write_i64_def write_u64_def write_u32_def
        write_digest_id_def write_bytes_def write_maybe_def write_time_def write_digest_def write_list_def write_count_def
        write_observed_hop_def text_bytes_def)
  then show "within_frame_bound default_limits (hello_frames [example_source] @ evidence_frames [final_evidence])"
    by (simp add: default_limits_def)
  show "8 \<le> unat (max_frame_bytes default_limits)" by (simp add: default_limits_def)
qed (simp_all add: final_records_wf)

theorem node_service_session_witness:
  "fst (node_session one_byte_recv one_byte_send [example_source] [final_evidence] example_node) = Inr 1 \<and>
   map_option snd (serve_connection one_byte_recv one_byte_send three_hash default_limits example_service plain_runtime) =
     Some (snd (ingest_all three_hash [final_evidence] (register_each three_hash [example_source] plain_runtime)))"
proof -
  let ?serve = "serve_connection one_byte_recv one_byte_send three_hash default_limits example_service plain_runtime"
  let ?rs = "fst (ingest_results three_hash [final_evidence] (register_each three_hash [example_source] plain_runtime))"
  have c: "sock_valid (ch_socket example_node)" "sock_out (ch_socket example_node) = []" "ch_limits example_node = default_limits"
    "sock_valid (ch_socket example_service)" "sock_out (ch_socket example_service) = []" "ch_limits example_service = default_limits"
    "sock_in (ch_socket example_node) = wire (ack_frames ?rs)"
    "sock_in (ch_socket example_service) = session_bytes [example_source] [final_evidence] 1 True"
    by (simp_all add: example_node_def example_service_def example_acks_def)
  note wf = example_session_wf
  obtain ch' where s: "?serve = Some (ch', snd (ingest_results three_hash (take 1 [final_evidence]) (register_each three_hash [example_source] plain_runtime)))"
    "sock_out (ch_socket ch') = wire (ack_frames ?rs)"
    using serve_session[OF one_byte wf(1,2) c(4,8), of plain_runtime] wf(3,4) c(5,6)
    by (auto split: prod.splits)
  obtain res node' where n: "node_session one_byte_recv one_byte_send [example_source] [final_evidence] example_node = (res, node')"
    by fastforce
  have "sock_out (ch_socket node') = session_bytes [example_source] [final_evidence] 1 True"
    using node_session_acknowledged[OF one_byte c(1,2), of "[example_source]" "[final_evidence]" ?rs] c(3,7) wf(3,4) n
    by (simp del: ingest_results.simps)
  with node_service_session[OF one_byte one_byte wf(1,2) c(1,2,4,5), of res node' ch' _ plain_runtime] s n c wf(3,4)
  show ?thesis by simp
qed

end
