(* ===== verification/Spec2Isabelle.thy ===== *)
theory Spec2Isabelle
  imports Checked Limits TimeModel Digests Topology Observed Expected Freshness Divergence CompareOrder CompareComplete
    Finding History CodecRoundTrip RuntimeDurable Drain
    Transport DocumentBounds RandomNumbers LabFabrics KnownAnswers Tools Service
begin

text \<open>
  \<^bold>\<open>Path Observatory\<close>: a library that compares the paths an authority has planned through a network with
  the paths that sources have observed, keeps findings and history, and persists what it was given.
  This development models the library under \<open>src/src\<close> and \<open>src/include/pathobs\<close> and the programs under
  \<open>src/tools\<close>, and proves what its parts promise. This theory imports every other one and holds no definitions of its own.

  \<^bold>\<open>Parts of the program and the theories that model them.\<close>

  \<^item> \<^emph>\<open>Foundations.\<close> \<open>Prelude\<close> has the vocabulary of \<open>error.hpp\<close> (\<open>ErrorCode\<close>, \<open>Error\<close>, \<open>Result\<close> as a sum,
    \<open>PATHOBS_TRY\<close> as \<open>try_bind\<close>, a run of guards as \<open>first_error\<close>), ordered maps, sorting and binary search as
    the code uses them, and the locale \<open>text_enum\<close> of enumerations with names. \<open>Checked\<close> is \<open>checked.hpp\<close>,
    \<open>Limits\<close> is \<open>limits.cpp\<close>, \<open>Identity\<close> is \<open>strong_id.hpp\<close>, \<open>TimeModel\<close> and \<open>TimeText\<close> are \<open>time.cpp\<close> (calendar and
    RFC 3339), \<open>Digests\<close> is \<open>digest.cpp\<close> (SHA-256, CRC-32C, hexadecimal), \<open>Canonical\<close> is \<open>canonical.cpp\<close> (the byte
    writer and reader, and the locale \<open>codec\<close> of an encoder and its decoder).
  \<^item> \<^emph>\<open>Domain records.\<close> \<open>Source\<close> is \<open>source.cpp\<close> (descriptors, registry, the ledger of sequence numbers), \<open>Topology\<close>
    is \<open>topology.cpp\<close> (generations, finalisation, the link index), \<open>Observed\<close> is \<open>observed.cpp\<close> (evidence,
    validation, sealing), \<open>Expected\<close> is \<open>expected.cpp\<close> (routes, finalisation, \<open>compare_trace\<close>).
  \<^item> \<^emph>\<open>Comparison.\<close> \<open>Freshness\<close>, \<open>Divergence\<close> and \<open>Compare\<close> are \<open>freshness.cpp\<close>, \<open>divergence.cpp\<close> and \<open>compare.cpp\<close>:
    \<open>compare\<close> is cut into the phases of the source (judging, subject, traces, classes, gates) in their order.
    \<open>CompareSound\<close>, \<open>CompareComplete\<close> and \<open>CompareOrder\<close> prove what a verdict implies, what is enough for it, and what
    it depends on.
  \<^item> \<^emph>\<open>Results.\<close> \<open>Finding\<close> is \<open>finding.cpp\<close>, \<open>History\<close> is \<open>history.cpp\<close>, \<open>Metrics\<close> is \<open>metrics.cpp\<close>.
  \<^item> \<^emph>\<open>Storage.\<close> \<open>Codec\<close> and \<open>CodecRoundTrip\<close> are \<open>codec.cpp\<close> (one encoder and one bounded decoder per record);
    \<open>Persistence\<close>, \<open>PersistenceFrames\<close> and \<open>PersistenceRecovery\<close> are \<open>persistence.cpp\<close> (two header slots and a
    log of checked frames; opening, appending, clean marks, compaction).
  \<^item> \<^emph>\<open>Runtime.\<close> \<open>Worker\<close> and \<open>Drain\<close> are \<open>worker.cpp\<close> and the \<open>drain\<close> of \<open>runtime.cpp\<close>; \<open>Runtime\<close> is the rest of
    \<open>runtime.cpp\<close>, one function per call, and \<open>RuntimeSound\<close>, \<open>RuntimeRuns\<close>, \<open>RuntimeContracts\<close> and
    \<open>RuntimeDurable\<close> are its theorems.
  \<^item> \<^emph>\<open>Wire.\<close> \<open>Sockets\<close> is \<open>socket.cpp\<close> (POSIX branches), \<open>Transport\<close> is \<open>transport.cpp\<close> (frames, channel, server,
    client).
  \<^item> \<^emph>\<open>Text.\<close> \<open>Json\<close>, \<open>JsonText\<close> and \<open>JsonRoundTrip\<close> are \<open>json.cpp\<close>; \<open>Documents\<close>, \<open>Reports\<close>, \<open>DocumentsRoundTrip\<close> and
    \<open>DocumentBounds\<close> are \<open>documents.cpp\<close> (readers and writers of every document).
  \<^item> \<^emph>\<open>Programs.\<close> \<open>Tools\<close> is \<open>pathobs_main.cpp\<close> without its server (options, every command with what it prints, its
    exit code and the store file it leaves), the text of errors (\<open>error.cpp\<close>) and of builds (\<open>version.cpp\<close>).
    \<open>Service\<close> is \<open>command_serve\<close>, the dispatch of \<open>main\<close>, and \<open>pathobs_node_main.cpp\<close>.
  \<^item> \<^emph>\<open>Generators.\<close> \<open>RandomNumbers\<close> is \<open>random.cpp\<close>, \<open>LabFabrics\<close> is \<open>synthetic.cpp\<close>. \<open>KnownAnswers\<close> evaluates the
    digests on their published inputs.

  \<^bold>\<open>How they interact.\<close> The runtime owns a source registry, a ledger, the current topology and routes, buckets of
  evidence by subject, the finding registry, the history, the metrics, a worker pool and optionally a
  store. \<open>register_source\<close>, \<open>publish_topology\<close>, \<open>publish_routes\<close> and \<open>ingest_evidence\<close> append to the store before
  or after they change the state, exactly where the code does; \<open>compare_group\<close> builds a request from a
  bucket, calls \<open>compare\<close>, and files the result in history, findings, metrics and store; \<open>start\<close> replays
  the store. \<open>Runtime\<close> imports the components it calls, and the step relation \<open>runtime_step\<close> of \<open>RuntimeRuns\<close> is
  the sequence of all calls and worker steps. The tools build a laboratory fabric and play it into a runtime;
  the service reads frames, decodes them and calls the runtime, and the node is its client over a channel.

  \<^bold>\<open>Interfaces.\<close> What one component relies on is a locale, interpreted on the model's own definitions:
  \<open>text_enum\<close> (names of enumerations), \<open>codec\<close> (a decoder inverts its encoder; every record of \<open>codec.cpp\<close>),
  \<open>document\<close> (a reader inverts its writer; every document of \<open>documents.cpp\<close>), \<open>record_log\<close> (what a store promises
  its client, interpreted on the persistent store), and the further locales named in their theories.

  \<^bold>\<open>What the lemmas show.\<close>

  \<^item> Verdicts: a Match and a Divergent verdict are only given on the evidence they need
    (\<open>CompareSound\<close>) and are given whenever the evidence suffices (\<open>CompareComplete\<close>); they do not depend on the
    order of delivery (\<open>CompareOrder\<close>), and where they depend on more than they should, concrete requests show it.
  \<^item> Invariants under every sequence of operations: findings, history, ledger, worker pool, runtime, topology
    and routes.
  \<^item> Storage: the store refines a list of records; opening arbitrary bytes keeps exactly the longest valid
    run; a torn write loses at most the record being written; damage of up to four bytes is detected.
  \<^item> Round trips: binary records, JSON values, documents, timestamps, hexadecimal digests, frames over any
    split of the traffic. Soundness of every reader: what it returns has passed the checks of its type.
  \<^item> Termination and returning: the JSON parser, the scanning loops and the line reader are total functions;
    shutting down a pool takes a bounded number of steps; the rejection loop of the random numbers, which
    has no bound of its own, returns exactly when a draw is accepted. The loop of the service ends for every
    stream, and a node and a service that read what the other writes both finish, with every record
    acknowledged and the runtime in the state its own calls would have reached.
  \<^item> The flaws that modelling showed are stated as theorems about the code as it is.

  \<^bold>\<open>Modelling decisions.\<close>

  \<^item> Integers have the width of the code (\<open>u8\<close> to \<open>u64\<close>, \<open>i64\<close>) and wrap; sizes and positions are natural
    numbers; a limit of 32 bits is compared through \<open>unat\<close>. Timestamps are 64-bit nanoseconds.
  \<^item> Identities are words with a phantom type for their tag. An error is its code and its static message;
    the free text of a detail, a rationale or a reason is not modelled, except where a message is built
    from a key or a line number.
  \<^item> The digest function is an argument \<open>H\<close> of the definitions that hash, so that theorems hold for every hash;
    \<open>Digest_of\<close> is the SHA-256 of the code.
  \<^item> \<open>std::map\<close> is a sorted association list, \<open>std::sort\<close> is a stable sort of the same order, the
    \<open>lower_bound\<close> idiom is \<open>find_by_key\<close>. \<open>finalize\<close> returns the changed generation or an error. A decoder is a
    function of the bytes that remain.
  \<^item> Operations under a mutex are atomic. Worker threads are steps that interleave with calls; \<open>drain\<close> reads
    its two counters in either order, because the order is not specified. The clock is a sequence of
    instants. The files of a store are byte lists; calls to the C library succeed, and a crash cuts the last
    write anywhere. The answers of the operating system to socket calls are arguments, with the laws
    \<open>delivers\<close> and \<open>transmits\<close> where a theorem needs them.
  \<^item> A pool is started only when no thread is left of an earlier run, generation counters do not wrap, and
    the pointer of the topology index is a copy of the generation it was built from.
  \<^item> Enumerations that a decoder casts without a check keep their byte (\<open>WireComparison\<close>), and \<open>named_comparison\<close> gives
    the record when the byte is a name.

  \<^bold>\<open>Bounds and fuel.\<close> No function of the model has fuel. Loops recurse on their data or have a
  termination proof; the rejection loop and the loop of
  the service are \<open>partial_function\<close>s into an option, with lemmas that say when they return. The bounds that appear in
  theorems are the configured limits, and the witnesses use \<open>default_limits\<close>.

  \<^bold>\<open>Not modelled.\<close> The Windows branches of \<open>socket.cpp\<close>; \<open>local_port\<close> and \<open>shutdown_send\<close>, which only forward to
  the system; the system clock; \<open>as_double\<close>, the double overload of \<open>make_number\<close> and \<open>next_unit\<close>, which
  need floating point; export macros; what the tools write to standard error beyond the error they fail
  with; the examples and benchmarks, which only call the library and print.
\<close>

end
